(* ===== verification/Prelude.thy ===== *)
theory Prelude
  imports Complex_Main "HOL-Library.AList"
begin

text \<open>
  Shared vocabulary of the development.

  \<^item> Python dictionaries and SQLite tables keyed by their primary key are association lists in
    insertion order.  \<^theory_text>\<open>map_of\<close> is \<open>d.get(k)\<close>, \<^theory_text>\<open>AList.update\<close> is \<open>d[k] = v\<close> (an existing
    key keeps its place, a new one goes last) and \<open>INSERT .. ON CONFLICT DO UPDATE\<close>,
    \<^theory_text>\<open>AList.delete\<close> is \<open>d.pop(k, None)\<close> and \<open>DELETE .. WHERE pk = ?\<close>.
  \<^item> The interface \<open>keyed_store\<close> states what clients rely on; it is interpreted on those lists.
  \<^item> \<open>run\<close> feeds a list of events to a step function; the locale \<open>guarded_machine\<close> turns a
    one-step invariant into an invariant of every run.
  \<^item> \<open>pyfloat\<close> is a Python float as seen by the guards that test \<open>math.isfinite\<close>.
    A finite float is a rational number: rounding to 53 bits and overflow to infinity are not
    modelled.  Quantities and amounts that the code has already checked, or only stores and adds,
    are plain rationals.
\<close>

named_theorems dict_simps "lookups, updates and sums over dictionaries"

subsection \<open>Dictionaries\<close>

type_synonym ('k, 'v) dict = "('k \<times> 'v) list"

abbreviation dict_get :: "('k, 'v) dict \<Rightarrow> 'k \<Rightarrow> 'v option" where
  "dict_get d k \<equiv> map_of d k"

abbreviation dict_set :: "'k \<Rightarrow> 'v \<Rightarrow> ('k, 'v) dict \<Rightarrow> ('k, 'v) dict" where
  "dict_set k v d \<equiv> AList.update k v d"

abbreviation dict_pop :: "'k \<Rightarrow> ('k, 'v) dict \<Rightarrow> ('k, 'v) dict" where
  "dict_pop k d \<equiv> AList.delete k d"

abbreviation dict_values :: "('k, 'v) dict \<Rightarrow> 'v list" where
  "dict_values d \<equiv> map snd d"

definition dict_wf :: "('k, 'v) dict \<Rightarrow> bool" where
  "dict_wf d \<longleftrightarrow> distinct (map fst d)"

definition dict_sum :: "('v \<Rightarrow> 'n::monoid_add) \<Rightarrow> ('k, 'v) dict \<Rightarrow> 'n" where
  "dict_sum f d = sum_list (map f (dict_values d))"

definition dict_default :: "'v \<Rightarrow> ('k, 'v) dict \<Rightarrow> 'k \<Rightarrow> 'v" where
  "dict_default dflt d k = (case dict_get d k of None \<Rightarrow> dflt | Some v \<Rightarrow> v)"

text \<open>\<open>INSERT OR IGNORE\<close> / \<open>ON CONFLICT DO NOTHING\<close>: the row is added only for a new key.\<close>

definition insert_or_ignore :: "'k \<Rightarrow> 'v \<Rightarrow> ('k, 'v) dict \<Rightarrow> ('k, 'v) dict" where
  "insert_or_ignore k v d = (case dict_get d k of None \<Rightarrow> d @ [(k, v)] | Some _ \<Rightarrow> d)"

lemma dict_wf_Nil [simp, intro]: "dict_wf []"
  by (simp add: dict_wf_def)

lemma dict_wf_set [simp, intro]: "dict_wf d \<Longrightarrow> dict_wf (dict_set k v d)"
  by (simp add: dict_wf_def distinct_update)

lemma dict_wf_pop [simp, intro]: "dict_wf d \<Longrightarrow> dict_wf (dict_pop k d)"
  by (simp add: dict_wf_def distinct_delete)

lemma dict_wf_Cons [simp]: "dict_wf ((k, v) # d) \<longleftrightarrow> dict_get d k = None \<and> dict_wf d"
  by (simp add: dict_wf_def map_of_eq_None_iff)

lemma dict_get_set [simp, dict_simps]:
  "dict_get (dict_set k v d) k' = (if k' = k then Some v else dict_get d k')"
  by (simp add: update_conv')

lemma dict_get_pop [simp, dict_simps]:
  "dict_get (dict_pop k d) k' = (if k' = k then None else dict_get d k')"
  by (simp add: delete_conv')

lemma dict_get_insert_or_ignore [simp, dict_simps]:
  "dict_get (insert_or_ignore k v d) k' =
     (if k' = k \<and> dict_get d k = None then Some v else dict_get d k')"
  by (auto simp: insert_or_ignore_def map_add_def split: option.splits)

lemma dict_append_absent: "dict_get d k = None \<Longrightarrow> d @ [(k, v)] = dict_set k v d"
  by (induction d) (auto split: if_splits)

lemma dict_get_map_values:
  "dict_get (map (\<lambda>(k, v). (k, f v)) d) k = map_option f (dict_get d k)"
  by (induction d) auto

lemma dict_wf_map_values [simp]: "dict_wf (map (\<lambda>(k, v). (k, f v)) d) = dict_wf d"
proof -
  have "map fst (map (\<lambda>(k, v). (k, f v)) d) = map fst d" by (induction d) auto
  then show ?thesis by (simp only: dict_wf_def)
qed

lemma dict_wf_insert_or_ignore [simp, intro]: "dict_wf d \<Longrightarrow> dict_wf (insert_or_ignore k v d)"
  by (auto simp: insert_or_ignore_def dict_wf_def map_of_eq_None_iff split: option.splits)

lemma dict_sum_Nil [simp]: "dict_sum f [] = 0"
  by (simp add: dict_sum_def)

lemma dict_sum_Cons [simp]: "dict_sum f ((k, v) # d) = f v + dict_sum f d"
  by (simp add: dict_sum_def)

lemma dict_pop_absent: "dict_get d k = None \<Longrightarrow> dict_pop k d = d"
  by (induction d) (auto split: if_splits)

lemma dict_sum_set:
  fixes f :: "'v \<Rightarrow> 'n::ab_group_add"
  assumes "dict_wf d"
  shows "dict_sum f (dict_set k v d) =
    dict_sum f d + f v - (case dict_get d k of None \<Rightarrow> 0 | Some w \<Rightarrow> f w)"
  using assms
proof (induction d)
  case Nil
  then show ?case by simp
next
  case (Cons p d)
  obtain k' v' where p: "p = (k', v')" by (cases p)
  show ?case
  proof (cases "k' = k")
    case True
    then show ?thesis using p by simp
  next
    case False
    with Cons p show ?thesis by (simp add: algebra_simps split: option.splits)
  qed
qed

lemma dict_sum_pop:
  fixes f :: "'v \<Rightarrow> 'n::ab_group_add"
  assumes "dict_wf d"
  shows "dict_sum f (dict_pop k d) =
    dict_sum f d - (case dict_get d k of None \<Rightarrow> 0 | Some w \<Rightarrow> f w)"
  using assms
  by (induction d) (auto simp: dict_pop_absent algebra_simps split: option.splits)

lemma dict_sum_nonneg:
  fixes f :: "'v \<Rightarrow> 'n::linordered_ab_group_add"
  assumes "\<And>k v. dict_get d k = Some v \<Longrightarrow> 0 \<le> f v" and "dict_wf d"
  shows "0 \<le> dict_sum f d"
  using assms
proof (induction d)
  case Nil
  then show ?case by simp
next
  case (Cons p d)
  obtain k v where p: "p = (k, v)" by (cases p)
  have tl: "0 \<le> f w" if "dict_get d k' = Some w" for k' w
    using Cons.prems(1) [of k' w] Cons.prems(2) that p by (cases "k' = k") auto
  have "0 \<le> dict_sum f d"
    using Cons.IH tl Cons.prems(2) p by simp
  moreover have "0 \<le> f v"
    using Cons.prems(1) [of k v] p by simp
  ultimately show ?case using p by simp
qed

lemma dict_sum_zero:
  "(\<And>k v. dict_get d k = Some v \<Longrightarrow> f v = 0) \<Longrightarrow> dict_wf d \<Longrightarrow> dict_sum f d = 0"
proof (induction d)
  case (Cons p d)
  obtain k v where p: "p = (k, v)" by (cases p)
  have tl: "f w = 0" if "dict_get d k' = Some w" for k' w
    using Cons.prems(1) [of k' w] Cons.prems(2) that p by (cases "k' = k") auto
  moreover have "f v = 0" using Cons.prems(1) [of k v] p by simp
  ultimately show ?case using Cons.IH Cons.prems(2) p by simp
qed simp

lemma dict_get_in_values: "dict_get d k = Some v \<Longrightarrow> v \<in> set (dict_values d)"
  by (force dest: map_of_SomeD)

lemma dict_get_filter:
  "dict_wf d \<Longrightarrow> dict_get (filter P d) k =
     (case dict_get d k of None \<Rightarrow> None | Some v \<Rightarrow> if P (k, v) then Some v else None)"
  by (induction d) (auto split: option.splits)

lemma dict_wf_filter [simp, intro]: "dict_wf d \<Longrightarrow> dict_wf (filter P d)"
  by (simp add: dict_wf_def distinct_map_filter)

lemma dict_get_mem: "dict_wf d \<Longrightarrow> (k, v) \<in> set d \<longleftrightarrow> dict_get d k = Some v"
  by (simp add: dict_wf_def)

lemma dict_values_ex: "dict_wf d \<Longrightarrow> v \<in> set (dict_values d) \<longleftrightarrow> (\<exists>k. dict_get d k = Some v)"
  by (force simp: dict_get_mem [symmetric])

lemma dict_set_restore: "dict_get d k = Some v \<Longrightarrow> dict_set k v (dict_set k w d) = d"
  by (induction d) (auto split: if_splits)

lemma dict_set_same: "dict_get d k = Some v \<Longrightarrow> dict_set k v d = d"
  by (induction d) (auto split: if_splits)

text \<open>A sum over a dictionary only depends on its lookups.\<close>

lemma dict_sum_lookup:
  fixes f :: "'v \<Rightarrow> 'n::comm_monoid_add"
  assumes "dict_wf d" and "dict_wf d'" and "\<And>k. dict_get d k = dict_get d' k"
  shows "dict_sum f d = dict_sum f d'"
proof -
  have sum: "dict_sum f e = (\<Sum>p\<in>set e. f (snd p))" if "dict_wf e" for e :: "('k, 'v) dict"
  proof -
    have "distinct e" using that by (simp add: dict_wf_def distinct_map)
    then show ?thesis by (simp add: dict_sum_def sum_list_distinct_conv_sum_set comp_def)
  qed
  have "set d = set d'" using assms dict_get_mem by (metis subrelI subset_antisym)
  then show ?thesis using sum [OF assms(1)] sum [OF assms(2)] by simp
qed

lemma find_Some_mem: "find P xs = Some x \<Longrightarrow> x \<in> set xs \<and> P x"
  by (induction xs) (auto split: if_splits)

subsection \<open>The store interface\<close>

text \<open>
  What a client of a keyed store relies on: a lookup after a write, and that the key
  discipline (one entry per key) survives every operation.
\<close>

locale keyed_store =
  fixes wf :: "'m \<Rightarrow> bool"
    and lookup :: "'m \<Rightarrow> 'k \<Rightarrow> 'v option"
    and put :: "'k \<Rightarrow> 'v \<Rightarrow> 'm \<Rightarrow> 'm"
    and drop_key :: "'k \<Rightarrow> 'm \<Rightarrow> 'm"
  assumes lookup_put: "lookup (put k v m) k' = (if k' = k then Some v else lookup m k')"
    and lookup_drop: "lookup (drop_key k m) k' = (if k' = k then None else lookup m k')"
    and wf_put: "wf m \<Longrightarrow> wf (put k v m)"
    and wf_drop: "wf m \<Longrightarrow> wf (drop_key k m)"
begin

lemma lookup_drop_all:
  "lookup (fold drop_key ks m) k = (if k \<in> set ks then None else lookup m k)"
  by (induction ks arbitrary: m) (auto simp: lookup_drop)

lemma wf_drop_all: "wf m \<Longrightarrow> wf (fold drop_key ks m)"
  by (induction ks arbitrary: m) (auto intro: wf_drop)

lemma lookup_put_drop_restore:
  "lookup m k = Some v \<Longrightarrow> lookup (put k v (drop_key k m)) = lookup m"
  by (auto simp: lookup_put lookup_drop)

lemma lookup_put_restore: "lookup m k = Some v \<Longrightarrow> lookup (put k v (put k w m)) = lookup m"
  by (auto simp: lookup_put)

end

interpretation dict: keyed_store dict_wf map_of AList.update AList.delete
  by unfold_locales auto

subsection \<open>Runs of a step function\<close>

fun run :: "('s \<Rightarrow> 'e \<Rightarrow> 's) \<Rightarrow> 's \<Rightarrow> 'e list \<Rightarrow> 's" where
  "run step s [] = s"
| "run step s (e # es) = run step (step s e) es"

text \<open>A run is admissible if every event meets the guard in the state it arrives in.\<close>

fun admissible :: "('s \<Rightarrow> 'e \<Rightarrow> 's) \<Rightarrow> ('s \<Rightarrow> 'e \<Rightarrow> bool) \<Rightarrow> 's \<Rightarrow> 'e list \<Rightarrow> bool" where
  "admissible step guard s [] = True"
| "admissible step guard s (e # es) = (guard s e \<and> admissible step guard (step s e) es)"

lemma run_append: "run step s (es @ fs) = run step (run step s es) fs"
  by (induction es arbitrary: s) auto

lemma admissible_append:
  "admissible step guard s (es @ fs) \<longleftrightarrow>
     admissible step guard s es \<and> admissible step guard (run step s es) fs"
  by (induction es arbitrary: s) auto

lemma admissible_True [simp]: "admissible step (\<lambda>_ _. True) s es"
  by (induction es arbitrary: s) auto

locale guarded_machine =
  fixes step :: "'s \<Rightarrow> 'e \<Rightarrow> 's"
    and guard :: "'s \<Rightarrow> 'e \<Rightarrow> bool"
    and inv :: "'s \<Rightarrow> bool"
  assumes step_inv: "inv s \<Longrightarrow> guard s e \<Longrightarrow> inv (step s e)"
begin

lemma run_inv: "inv s \<Longrightarrow> admissible step guard s es \<Longrightarrow> inv (run step s es)"
  by (induction es arbitrary: s) (auto intro: step_inv)

end

text \<open>A machine whose steps also never decrease an observation.\<close>

locale monotone_machine = guarded_machine step guard inv
  for step :: "'s \<Rightarrow> 'e \<Rightarrow> 's" and guard :: "'s \<Rightarrow> 'e \<Rightarrow> bool" and inv :: "'s \<Rightarrow> bool" +
  fixes obs :: "'s \<Rightarrow> 'n::order"
  assumes step_mono: "inv s \<Longrightarrow> guard s e \<Longrightarrow> obs s \<le> obs (step s e)"
begin

lemma run_mono: "inv s \<Longrightarrow> admissible step guard s es \<Longrightarrow> obs s \<le> obs (run step s es)"
proof (induction es arbitrary: s)
  case Nil
  then show ?case by simp
next
  case (Cons e es)
  then have "obs s \<le> obs (step s e)" and "inv (step s e)"
    by (auto intro: step_inv step_mono)
  with Cons show ?case by (auto intro: order_trans)
qed

end

subsection \<open>Consumers of an at-least-once stream\<close>

text \<open>The first delivery of every key that has not been seen.\<close>

fun firsts :: "('e \<Rightarrow> 'k) \<Rightarrow> ('k \<Rightarrow> bool) \<Rightarrow> 'e list \<Rightarrow> 'e list" where
  "firsts key seen [] = []"
| "firsts key seen (e # es) =
     (if seen (key e) then firsts key seen es
      else e # firsts key (\<lambda>k. k = key e \<or> seen k) es)"

lemma set_firsts: "set (firsts key seen es) \<subseteq> set es"
proof (induction es arbitrary: seen)
  case (Cons e es)
  from Cons.IH [of seen] Cons.IH [of "\<lambda>k. k = key e \<or> seen k"] show ?case by auto
qed simp

lemma firsts_keys:
  "distinct (map key (firsts key seen es)) \<and> (\<forall>e\<in>set (firsts key seen es). \<not> seen (key e))"
proof (induction es arbitrary: seen)
  case (Cons e es)
  from Cons.IH [of seen] Cons.IH [of "\<lambda>k. k = key e \<or> seen k"] show ?case by auto
qed simp

lemma firsts_key_set: "key ` set (firsts key seen es) = {k \<in> key ` set es. \<not> seen k}"
proof (induction es arbitrary: seen)
  case (Cons e es)
  from Cons.IH [of seen] Cons.IH [of "\<lambda>k. k = key e \<or> seen k"] show ?case by auto
qed simp

text \<open>
  The contract of an idempotent consumer: handling an event marks its key and no other, and an
  event whose key is marked changes nothing.  Then any redelivery is invisible.
\<close>

locale idempotent_consumer =
  fixes handle :: "'s \<Rightarrow> 'e \<Rightarrow> 's"
    and key :: "'e \<Rightarrow> 'k"
    and seen :: "'s \<Rightarrow> 'k \<Rightarrow> bool"
    and valid :: "'s \<Rightarrow> 'e \<Rightarrow> bool"
  assumes seen_handle: "valid s e \<Longrightarrow> seen (handle s e) k \<longleftrightarrow> k = key e \<or> seen s k"
    and handle_seen: "valid s e \<Longrightarrow> seen s (key e) \<Longrightarrow> handle s e = s"
    and valid_handle: "valid s e \<Longrightarrow> valid s e' \<Longrightarrow> valid (handle s e) e'"
begin

lemma run_firsts:
  "\<forall>e\<in>set es. valid s e \<Longrightarrow> run handle s es = run handle s (firsts key (seen s) es)"
proof (induction es arbitrary: s)
  case (Cons e es)
  then have e: "valid s e" and es: "\<forall>x\<in>set es. valid (handle s e) x"
    by (auto intro: valid_handle)
  show ?case
  proof (cases "seen s (key e)")
    case True
    then show ?thesis using Cons e by (simp add: handle_seen)
  next
    case False
    have "(\<lambda>k. k = key e \<or> seen s k) = seen (handle s e)" using seen_handle [OF e] by auto
    then show ?thesis using False Cons.IH [OF es] by simp
  qed
qed simp

lemma redelivery_invisible:
  assumes "\<forall>e\<in>set es. valid s e" and "e \<in> set es"
  shows "run handle s (es @ [e]) = run handle s es"
proof -
  have "valid (run handle s es) e \<and> seen (run handle s es) (key e)"
    using assms
  proof (induction es arbitrary: s)
    case (Cons x xs)
    then have x: "valid s x" and xs: "\<forall>y\<in>set xs. valid (handle s x) y" by (auto intro: valid_handle)
    show ?case
    proof (cases "e \<in> set xs")
      case True
      with Cons.IH [OF xs] show ?thesis by simp
    next
      case False
      then have ex: "e = x" using Cons.prems by simp
      have "valid (run handle t ys) e \<and> seen (run handle t ys) (key e)"
        if "valid t e" "seen t (key e)" "\<forall>y\<in>set ys. valid t y" for t ys
        using that
      proof (induction ys arbitrary: t)
        case (Cons y ys)
        then have y: "valid t y" by simp
        have "valid (handle t y) e" "\<forall>z\<in>set ys. valid (handle t y) z"
          using Cons.prems y by (auto intro: valid_handle)
        moreover have "seen (handle t y) (key e)" using seen_handle [OF y] Cons.prems(2) by blast
        ultimately show ?case using Cons.IH by simp
      qed simp
      from this [of "handle s x" xs] show ?thesis
        using x xs seen_handle [OF x] valid_handle [OF x x] by (simp add: ex)
    qed
  qed simp
  then show ?thesis by (simp add: run_append handle_seen)
qed

end

subsection \<open>Python floats at the guards\<close>

datatype pyfloat = Fin rat | PInf | NInf | NaN

fun isfinite :: "pyfloat \<Rightarrow> bool" where
  "isfinite (Fin _) = True"
| "isfinite _ = False"

text \<open>The comparisons \<open>a < b\<close> and \<open>a <= b\<close>: every comparison with NaN is False.\<close>

fun flt :: "pyfloat \<Rightarrow> pyfloat \<Rightarrow> bool" where
  "flt NaN _ = False"
| "flt _ NaN = False"
| "flt (Fin a) (Fin b) = (a < b)"
| "flt NInf NInf = False"
| "flt NInf _ = True"
| "flt _ NInf = False"
| "flt PInf _ = False"
| "flt (Fin _) PInf = True"

fun fle :: "pyfloat \<Rightarrow> pyfloat \<Rightarrow> bool" where
  "fle NaN _ = False"
| "fle _ NaN = False"
| "fle a b = (flt a b \<or> a = b)"

text \<open>The finite value, where the code has just tested \<open>math.isfinite\<close>.\<close>

fun fval :: "pyfloat \<Rightarrow> rat" where
  "fval (Fin a) = a"
| "fval _ = 0"

lemma isfinite_iff: "isfinite x \<longleftrightarrow> (\<exists>a. x = Fin a)"
  by (cases x) auto

end
