(* ===== verification/Account_Gate.thy ===== *)
theory Account_Gate
  imports Prelude
begin

text \<open>
  The account boundary shared by every money-moving component:
  \<^item> \<open>src/src/ante/account/scoping.py\<close>: which account ids are valid at run time and which may be created;
  \<^item> \<open>src/src/ante/account/readiness.py\<close>: the per-account registry of the four readiness flags, with
    its exemption matrix;
  \<^item> \<open>src/src/ante/account/gate.py\<close>: the fail-closed gate in front of every order, built on the registry.

  A lookup that may raise is a function into \<^theory_text>\<open>option\<close>, with \<^theory_text>\<open>None\<close> for the exception; the
  gate catches it.  Message texts are kept where the code compares or sends ASCII tokens; the
  Korean operator messages are represented by the constructor of the message and its arguments.
\<close>

subsection \<open>Account ids (scoping.py)\<close>

definition account_id_char :: "char \<Rightarrow> bool" where
  "account_id_char c \<longleftrightarrow>
     (let n = (of_char c :: nat)
      in (97 \<le> n \<and> n \<le> 122) \<or> (65 \<le> n \<and> n \<le> 90) \<or> (48 \<le> n \<and> n \<le> 57) \<or> c = CHR ''-'')"

definition account_id_pattern :: "string \<Rightarrow> bool" where
  "account_id_pattern s \<longleftrightarrow> 3 \<le> length s \<and> length s \<le> 30 \<and> list_all account_id_char s"

definition invalid_runtime_account_ids :: "string list" where
  "invalid_runtime_account_ids = [''default'']"

definition restricted_new_account_ids :: "string list" where
  "restricted_new_account_ids = [''test'']"

definition is_invalid_account_id :: "string option \<Rightarrow> bool" where
  "is_invalid_account_id account_id =
     (case account_id of
        None \<Rightarrow> True
      | Some s \<Rightarrow>
          if s = '''' then True
          else if s \<in> set invalid_runtime_account_ids then True
          else if \<not> account_id_pattern s then True
          else False)"

datatype id_reject = Bad_format | Seed_reserved | Fallback_reserved | Not_runtime_valid

datatype account_id_error = InvalidAccountIdError string id_reject

text \<open>\<open>require_account_id\<close>: the first component of the error is the \<open>context\<close> prefix.\<close>

definition require_account_id :: "string \<Rightarrow> string option \<Rightarrow> account_id_error + string" where
  "require_account_id ctxt account_id =
     (if is_invalid_account_id account_id then Inl (InvalidAccountIdError ctxt Not_runtime_valid)
      else (case account_id of None \<Rightarrow> Inl (InvalidAccountIdError ctxt Not_runtime_valid)
            | Some s \<Rightarrow> Inr s))"

definition validate_new_account_id :: "string \<Rightarrow> string option \<Rightarrow> account_id_error + string" where
  "validate_new_account_id ctxt account_id =
     (case account_id of
        None \<Rightarrow> Inl (InvalidAccountIdError ctxt Bad_format)
      | Some s \<Rightarrow>
          if s = '''' then Inl (InvalidAccountIdError ctxt Bad_format)
          else if s \<in> set restricted_new_account_ids then Inl (InvalidAccountIdError ctxt Seed_reserved)
          else if s \<in> set invalid_runtime_account_ids
            then Inl (InvalidAccountIdError ctxt Fallback_reserved)
          else if \<not> account_id_pattern s then Inl (InvalidAccountIdError ctxt Bad_format)
          else Inr s)"

lemma require_account_id_Inr [simp]:
  "require_account_id c a = Inr s \<longleftrightarrow> a = Some s \<and> \<not> is_invalid_account_id a"
  by (cases a) (auto simp: require_account_id_def is_invalid_account_id_def)

lemma require_account_id_valid [simp]:
  "\<not> is_invalid_account_id (Some a) \<Longrightarrow> require_account_id c (Some a) = Inr a"
  by simp

lemma require_account_id_Inl:
  "(\<exists>e. require_account_id c a = Inl e) \<longleftrightarrow> is_invalid_account_id a"
  by (auto simp: require_account_id_def is_invalid_account_id_def split: option.splits)

lemma validate_new_account_id_Inr:
  "validate_new_account_id c a = Inr s \<longleftrightarrow>
     a = Some s \<and> \<not> is_invalid_account_id a \<and> s \<notin> set restricted_new_account_ids"
  by (auto simp: validate_new_account_id_def is_invalid_account_id_def split: option.splits if_splits)

subsection \<open>The readiness registry (readiness.py)\<close>

datatype readiness_flag = BROKER | TREASURY_SYNC | FILL_RECONCILE | RECONCILE

datatype trading_mode = VIRTUAL | LIVE

definition all_flags :: "readiness_flag list" where
  "all_flags = [BROKER, TREASURY_SYNC, FILL_RECONCILE, RECONCILE]"

fun flag_value :: "readiness_flag \<Rightarrow> string" where
  "flag_value BROKER = ''broker_ready''"
| "flag_value TREASURY_SYNC = ''treasury_sync_ready''"
| "flag_value FILL_RECONCILE = ''fill_reconcile_ready''"
| "flag_value RECONCILE = ''reconcile_ready''"

definition is_flag_exempt :: "readiness_flag \<Rightarrow> string \<Rightarrow> trading_mode \<Rightarrow> bool" where
  "is_flag_exempt flag broker_type mode =
     (if flag = TREASURY_SYNC then False
      else mode = VIRTUAL \<and> broker_type \<in> set [''test'', ''kis-domestic''])"

record account_readiness =
  rd_ready :: "(readiness_flag, bool) dict"
  rd_reasons :: "(readiness_flag, string) dict"

type_synonym readiness_registry = "(string, account_readiness) dict"

definition rd_entry :: "readiness_registry \<Rightarrow> string \<Rightarrow> account_readiness" where
  "rd_entry reg account_id = dict_default \<lparr>rd_ready = [], rd_reasons = []\<rparr> reg account_id"

definition mark_ready :: "string \<Rightarrow> readiness_flag \<Rightarrow> readiness_registry \<Rightarrow> readiness_registry" where
  "mark_ready account_id flag reg =
     (let entry = rd_entry reg account_id
      in dict_set account_id
           (entry\<lparr>rd_ready := dict_set flag True (rd_ready entry),
                  rd_reasons := dict_pop flag (rd_reasons entry)\<rparr>) reg)"

definition mark_not_ready ::
  "string \<Rightarrow> readiness_flag \<Rightarrow> string \<Rightarrow> readiness_registry \<Rightarrow> readiness_registry" where
  "mark_not_ready account_id flag reason reg =
     (let entry = rd_entry reg account_id
      in dict_set account_id
           (entry\<lparr>rd_ready := dict_set flag False (rd_ready entry),
                  rd_reasons := dict_set flag reason (rd_reasons entry)\<rparr>) reg)"

definition is_ready :: "readiness_registry \<Rightarrow> string \<Rightarrow> readiness_flag \<Rightarrow> bool" where
  "is_ready reg account_id flag =
     (case dict_get reg account_id of
        None \<Rightarrow> False
      | Some entry \<Rightarrow> dict_default False (rd_ready entry) flag)"

definition get_reason :: "readiness_registry \<Rightarrow> string \<Rightarrow> readiness_flag \<Rightarrow> string option" where
  "get_reason reg account_id flag =
     (case dict_get reg account_id of None \<Rightarrow> None | Some entry \<Rightarrow> dict_get (rd_reasons entry) flag)"

fun all_required_ready ::
  "readiness_registry \<Rightarrow> string \<Rightarrow> string \<Rightarrow> trading_mode \<Rightarrow> readiness_flag list \<Rightarrow> bool" where
  "all_required_ready reg account_id broker_type mode [] = True"
| "all_required_ready reg account_id broker_type mode (flag # flags) =
     (if is_flag_exempt flag broker_type mode
      then all_required_ready reg account_id broker_type mode flags
      else if \<not> is_ready reg account_id flag then False
      else all_required_ready reg account_id broker_type mode flags)"

definition active_trading_ready ::
  "readiness_registry \<Rightarrow> string \<Rightarrow> string \<Rightarrow> trading_mode \<Rightarrow> bool" where
  "active_trading_ready reg account_id broker_type mode =
     all_required_ready reg account_id broker_type mode all_flags"

definition not_ready_flags :: "readiness_registry \<Rightarrow> string \<Rightarrow> readiness_flag list" where
  "not_ready_flags reg account_id =
     (case dict_get reg account_id of
        None \<Rightarrow> all_flags
      | Some entry \<Rightarrow> filter (\<lambda>flag. \<not> dict_default False (rd_ready entry) flag) all_flags)"

lemma in_all_flags [simp]: "f \<in> set all_flags"
  by (cases f) (auto simp: all_flags_def)

lemma is_ready_mark_ready:
  "is_ready (mark_ready a f reg) a' f' = (if a' = a \<and> f' = f then True else is_ready reg a' f')"
  by (auto simp: is_ready_def mark_ready_def rd_entry_def dict_default_def Let_def split: option.splits)

lemma is_ready_mark_not_ready:
  "is_ready (mark_not_ready a f r reg) a' f' = (if a' = a \<and> f' = f then False else is_ready reg a' f')"
  by (auto simp: is_ready_def mark_not_ready_def rd_entry_def dict_default_def Let_def split: option.splits)

lemma all_required_ready_iff:
  "all_required_ready reg a b m fs \<longleftrightarrow>
     (\<forall>f\<in>set fs. is_flag_exempt f b m \<or> is_ready reg a f)"
  by (induction fs) auto

lemma active_trading_ready_iff:
  "active_trading_ready reg a b m \<longleftrightarrow> (\<forall>f. is_flag_exempt f b m \<or> is_ready reg a f)"
  using in_all_flags by (auto simp: active_trading_ready_def all_required_ready_iff)

lemma not_ready_flags_iff: "f \<in> set (not_ready_flags reg a) \<longleftrightarrow> \<not> is_ready reg a f"
  by (auto simp: not_ready_flags_def is_ready_def split: option.splits)

subsection \<open>The gate (gate.py)\<close>

text \<open>
  The registry as the gate sees it: two lookups that may raise.  \<open>reader_of\<close> is the reader of
  the registry above, whose lookups never raise.
\<close>

record readiness_reader =
  rr_is_ready :: "string \<Rightarrow> readiness_flag \<Rightarrow> bool option"
  rr_active_trading_ready :: "string \<Rightarrow> string \<Rightarrow> trading_mode \<Rightarrow> bool option"

definition reader_of :: "readiness_registry \<Rightarrow> readiness_reader" where
  "reader_of reg =
     \<lparr>rr_is_ready = (\<lambda>a f. Some (is_ready reg a f)),
      rr_active_trading_ready = (\<lambda>a b m. Some (active_trading_ready reg a b m))\<rparr>"

definition account_not_ready_reason :: string where
  "account_not_ready_reason = ''account_not_ready''"

definition account_suspended_reason :: string where
  "account_suspended_reason = ''account_suspended''"

definition account_status_unavailable_reason :: string where
  "account_status_unavailable_reason = ''account_status_unavailable''"

fun join :: "string \<Rightarrow> string list \<Rightarrow> string" where
  "join sep [] = ''''"
| "join sep [x] = x"
| "join sep (x # xs) = x @ sep @ join sep xs"

fun missing_flags ::
  "readiness_reader option \<Rightarrow> string \<Rightarrow> string \<Rightarrow> trading_mode \<Rightarrow> readiness_flag list \<Rightarrow> string list option"
where
  "missing_flags registry account_id broker_type mode [] = Some []"
| "missing_flags registry account_id broker_type mode (flag # flags) =
     (if is_flag_exempt flag broker_type mode
      then missing_flags registry account_id broker_type mode flags
      else (case registry of
              None \<Rightarrow> map_option ((#) (flag_value flag))
                        (missing_flags registry account_id broker_type mode flags)
            | Some r \<Rightarrow>
                (case rr_is_ready r account_id flag of
                   None \<Rightarrow> None
                 | Some ready \<Rightarrow>
                     if ready then missing_flags registry account_id broker_type mode flags
                     else map_option ((#) (flag_value flag))
                            (missing_flags registry account_id broker_type mode flags))))"

definition not_ready_reason ::
  "readiness_reader option \<Rightarrow> string \<Rightarrow> string \<Rightarrow> trading_mode \<Rightarrow> string" where
  "not_ready_reason registry account_id broker_type mode =
     (case missing_flags registry account_id broker_type mode all_flags of
        None \<Rightarrow> account_not_ready_reason
      | Some missing \<Rightarrow>
          if missing \<noteq> [] then account_not_ready_reason @ '': '' @ join '', '' missing
          else account_not_ready_reason)"

definition active_trading_blocked ::
  "readiness_reader option \<Rightarrow> string \<Rightarrow> string \<Rightarrow> trading_mode \<Rightarrow> bool" where
  "active_trading_blocked registry account_id broker_type mode =
     (case registry of
        None \<Rightarrow> True
      | Some r \<Rightarrow>
          (case rr_active_trading_ready r account_id broker_type mode of
             None \<Rightarrow> True
           | Some ready \<Rightarrow> \<not> ready))"

text \<open>
  The live account status.  \<open>acct_status = None\<close> is an account object without a status; the lookup
  function is \<open>None\<close> when it raises and \<open>Some None\<close> when it finds no account.  \<open>svc_get = None\<close> is
  a service object without a \<open>get\<close> method.
\<close>

datatype account_status = ACTIVE | SUSPENDED | DELETED

record fetched_account =
  acct_status :: "account_status option"

record account_service =
  svc_get :: "(string \<Rightarrow> fetched_account option option) option"

datatype status_view = Status_off | Status_unavailable | Status account_status

definition derive_account_status ::
  "account_service option \<Rightarrow> fetched_account option \<Rightarrow> bool \<Rightarrow> status_view" where
  "derive_account_status service fetched fetch_failed =
     (case service of
        None \<Rightarrow> Status_off
      | Some _ \<Rightarrow>
          if fetch_failed then Status_unavailable
          else (case fetched of
                  None \<Rightarrow> Status_unavailable
                | Some acct \<Rightarrow>
                    (case acct_status acct of None \<Rightarrow> Status_unavailable | Some st \<Rightarrow> Status st)))"

definition resolve_account_status :: "account_service option \<Rightarrow> string \<Rightarrow> status_view" where
  "resolve_account_status service account_id =
     (case service of
        None \<Rightarrow> Status_off
      | Some svc \<Rightarrow>
          (case svc_get svc of
             None \<Rightarrow> Status_unavailable
           | Some get \<Rightarrow>
               (case get account_id of
                  None \<Rightarrow> derive_account_status service None True
                | Some fetched \<Rightarrow> derive_account_status service fetched False)))"

definition liquidation_reason_prefix :: string where
  "liquidation_reason_prefix = ''liquidation:''"

definition is_liquidation_reason :: "string \<Rightarrow> bool" where
  "is_liquidation_reason reason \<longleftrightarrow>
     take (length liquidation_reason_prefix) reason = liquidation_reason_prefix"

definition upper_char :: "char \<Rightarrow> char" where
  "upper_char c =
     (let n = (of_char c :: nat) in if 97 \<le> n \<and> n \<le> 122 then char_of (n - 32) else c)"

text \<open>\<open>build_not_ready_notification\<close>: always level error, category system; two texts.\<close>

datatype not_ready_text =
    Liquidation_blocked string string
  | Order_blocked string "string option" string

record notification =
  nt_level :: string
  nt_category :: string
  nt_text :: not_ready_text

definition build_not_ready_notification :: "string \<Rightarrow> string \<Rightarrow> string \<Rightarrow> bool \<Rightarrow> notification" where
  "build_not_ready_notification account_id reason side is_liquidation =
     \<lparr>nt_level = ''error'', nt_category = ''system'',
      nt_text =
        (if is_liquidation then Liquidation_blocked account_id reason
         else Order_blocked account_id
                (if side = '''' then None else Some (map upper_char side)) reason)\<rparr>"

lemma resolve_account_status_verified:
  "resolve_account_status (Some svc) a = Status st \<Longrightarrow>
     \<exists>get acct. svc_get svc = Some get \<and> get a = Some (Some acct) \<and> acct_status acct = Some st"
  by (auto simp: resolve_account_status_def derive_account_status_def
      split: option.splits if_splits)

lemma missing_flags_reader_of:
  "missing_flags (Some (reader_of reg)) a b m fs =
     Some (map flag_value (filter (\<lambda>f. \<not> is_flag_exempt f b m \<and> \<not> is_ready reg a f) fs))"
  by (induction fs) (auto simp: reader_of_def)

lemma missing_flags_None:
  "missing_flags None a b m fs =
     Some (map flag_value (filter (\<lambda>f. \<not> is_flag_exempt f b m) fs))"
  by (induction fs) auto

lemma blocked_reader_of:
  "active_trading_blocked (Some (reader_of reg)) a b m \<longleftrightarrow>
     (\<exists>f. \<not> is_flag_exempt f b m \<and> \<not> is_ready reg a f)"
  by (auto simp: active_trading_blocked_def reader_of_def active_trading_ready_iff)

subsection \<open>What the gate relies on\<close>

text \<open>
  The registry contract: one account's mark changes that flag of that account only, and the last
  mark wins.  The gate's consequences are proved once, for any registry that keeps it.
\<close>

locale readiness_marks =
  fixes ready :: "'r \<Rightarrow> string \<Rightarrow> readiness_flag \<Rightarrow> bool"
    and up :: "string \<Rightarrow> readiness_flag \<Rightarrow> 'r \<Rightarrow> 'r"
    and down :: "string \<Rightarrow> readiness_flag \<Rightarrow> string \<Rightarrow> 'r \<Rightarrow> 'r"
  assumes ready_up: "ready (up a f r) a' f' = (if a' = a \<and> f' = f then True else ready r a' f')"
    and ready_down: "ready (down a f why r) a' f' = (if a' = a \<and> f' = f then False else ready r a' f')"
begin

lemma ready_up_all: "ready (fold (up a) fs r) a f \<longleftrightarrow> f \<in> set fs \<or> ready r a f"
  by (induction fs arbitrary: r) (auto simp: ready_up)

lemma ready_up_all_other: "a' \<noteq> a \<Longrightarrow> ready (fold (up a) fs r) a' f = ready r a' f"
  by (induction fs arbitrary: r) (auto simp: ready_up)

lemma down_then_up: "ready (up a f (down a f why r)) = (ready r)(a := (ready r a)(f := True))"
  by (auto simp: fun_eq_iff ready_up ready_down)

end

interpretation registry: readiness_marks is_ready mark_ready mark_not_ready
  by unfold_locales (auto simp: is_ready_mark_ready is_ready_mark_not_ready)

end
