(* ===== verification/Order_Tracker.thy ===== *)
theory Order_Tracker
  imports Account_Gate "HOL-Library.Char_ord" "HOL-Library.List_Lexorder"
    "HOL-Library.Product_Lexorder"
begin

text \<open>
  \<open>src/src/ante/trade/order_tracker.py\<close>: the table of submitted orders with their cumulative filled
  quantity, and the in-memory cache of the open ones.  The table is the truth, the cache mirrors
  committed rows.

  The table is a dictionary keyed by \<open>order_id\<close>; its unique index is the check in \<open>open_order\<close>.
  TEXT columns compare lexicographically, as SQLite's default collation does.  The columns
  \<open>last_polled_at\<close> and \<open>terminal_at\<close> are written by the code and read by none of its operations;
  they are left out.  A \<open>Fill\<close> step is \<open>record_fill\<close> followed by its commit and by
  \<open>mirror_fill_to_cache\<close>, which is the only way the code calls them
  (\<open>Fill_Pipeline\<close> models the enclosing transaction).
\<close>

subsection \<open>State\<close>

datatype order_status = OPEN | PARTIALLY_FILLED | FILLED | CANCELLED | REJECTED | FAILED | EXPIRED

definition open_statuses :: "order_status list" where
  "open_statuses = [OPEN, PARTIALLY_FILLED]"

definition terminal_statuses :: "order_status list" where
  "terminal_statuses = [FILLED, CANCELLED, REJECTED, FAILED, EXPIRED]"

record order_row =
  ot_order_id :: string
  ot_account_id :: string
  ot_bot_id :: string
  ot_strategy_id :: string
  ot_broker_order_id :: string
  ot_symbol :: string
  ot_side :: string
  ot_order_type :: string
  ot_ordered_qty :: rat
  ot_recorded_filled_qty :: rat
  ot_avg_fill_price :: rat
  ot_status :: order_status
  ot_submitted_at :: "string option"
  ot_submitted_date :: string
  ot_order_price :: "rat option"
  ot_exchange :: "string option"

type_synonym order_table = "(string, order_row) dict"

type_synonym open_cache = "(string \<times> string \<times> string, order_row) dict"

record order_tracker =
  tr_table :: order_table
  tr_cache :: open_cache

record record_fill_result =
  rf_delta :: rat
  rf_confirmed_cumulative :: rat
  rf_new_status :: "order_status option"

record open_order_view =
  ov_order_id :: string
  ov_symbol :: string
  ov_side :: string
  ov_ordered_qty :: rat
  ov_recorded_filled_qty :: rat
  ov_remaining_qty :: rat
  ov_status :: order_status
  ov_submitted_at :: "string option"

definition to_open_order_dict :: "order_row \<Rightarrow> open_order_view" where
  "to_open_order_dict r =
     (let remaining = ot_ordered_qty r - ot_recorded_filled_qty r
      in \<lparr>ov_order_id = ot_order_id r, ov_symbol = ot_symbol r, ov_side = ot_side r,
          ov_ordered_qty = ot_ordered_qty r, ov_recorded_filled_qty = ot_recorded_filled_qty r,
          ov_remaining_qty = (if remaining > 0 then remaining else 0),
          ov_status = ot_status r, ov_submitted_at = ot_submitted_at r\<rparr>)"

subsection \<open>Operations\<close>

definition is_open_row :: "order_row \<Rightarrow> bool" where
  "is_open_row r \<longleftrightarrow> ot_status r \<in> set open_statuses"

definition cache_key :: "order_row \<Rightarrow> string \<times> string \<times> string" where
  "cache_key r = (ot_account_id r, ot_bot_id r, ot_order_id r)"

definition warm_open_cache :: "order_table \<Rightarrow> open_cache" where
  "warm_open_cache table =
     fold (\<lambda>r c. dict_set (cache_key r) r c) (filter is_open_row (dict_values table)) []"

definition evict_open_cache :: "string \<Rightarrow> open_cache \<Rightarrow> open_cache" where
  "evict_open_cache order_id cache = filter (\<lambda>((_, _, oid), _). oid \<noteq> order_id) cache"

definition broker_key :: "order_row \<Rightarrow> string \<times> string \<times> string" where
  "broker_key r = (ot_account_id r, ot_broker_order_id r, ot_submitted_date r)"

text \<open>
  \<open>open\<close>: the row is inserted with \<open>recorded = avg = 0\<close> and status \<open>open\<close> unless the primary key or the
  unique \<open>(account_id, broker_order_id, submitted_date)\<close> index conflicts.
\<close>

definition open_order :: "order_row \<Rightarrow> order_tracker \<Rightarrow> account_id_error + order_tracker" where
  "open_order r0 t =
     (case require_account_id ''order_tracker.open'' (Some (ot_account_id r0)) of
        Inl e \<Rightarrow> Inl e
      | Inr _ \<Rightarrow>
          let r = r0\<lparr>ot_recorded_filled_qty := 0, ot_avg_fill_price := 0, ot_status := OPEN\<rparr>
          in if dict_get (tr_table t) (ot_order_id r) \<noteq> None
                \<or> (\<exists>row\<in>set (dict_values (tr_table t)). broker_key row = broker_key r)
             then Inr t
             else Inr (t\<lparr>tr_table := tr_table t @ [(ot_order_id r, r)],
                         tr_cache := dict_set (cache_key r) r (tr_cache t)\<rparr>))"

definition record_fill ::
  "string \<Rightarrow> rat \<Rightarrow> rat \<Rightarrow> order_table \<Rightarrow> record_fill_result \<times> order_table" where
  "record_fill order_id new_cumulative avg_price table =
     (case dict_get table order_id of
        None \<Rightarrow> (\<lparr>rf_delta = 0, rf_confirmed_cumulative = 0, rf_new_status = None\<rparr>, table)
      | Some row \<Rightarrow>
          let prev = ot_recorded_filled_qty row;
              ordered = ot_ordered_qty row;
              delta = new_cumulative - prev;
              unchanged = \<lparr>rf_delta = 0, rf_confirmed_cumulative = prev,
                           rf_new_status = Some (ot_status row)\<rparr>
          in if delta \<le> 0 then (unchanged, table)
             else
               let new_status =
                     (if ordered > 0 \<and> new_cumulative \<ge> ordered then FILLED else PARTIALLY_FILLED)
               in if ot_recorded_filled_qty row < new_cumulative
                  then (\<lparr>rf_delta = delta, rf_confirmed_cumulative = new_cumulative,
                         rf_new_status = Some new_status\<rparr>,
                        dict_set order_id
                          (row\<lparr>ot_recorded_filled_qty := new_cumulative,
                               ot_avg_fill_price := avg_price, ot_status := new_status\<rparr>) table)
                  else (unchanged, table))"

fun mirror_fill_to_cache ::
  "string \<Rightarrow> rat \<Rightarrow> order_status option \<Rightarrow> open_cache \<Rightarrow> open_cache" where
  "mirror_fill_to_cache order_id confirmed new_status [] = []"
| "mirror_fill_to_cache order_id confirmed new_status ((k, r) # cache) =
     (if snd (snd k) \<noteq> order_id
      then (k, r) # mirror_fill_to_cache order_id confirmed new_status cache
      else (case new_status of
              None \<Rightarrow> (k, r\<lparr>ot_recorded_filled_qty := confirmed\<rparr>) # cache
            | Some st \<Rightarrow>
                if st = FILLED \<or> st \<in> set terminal_statuses then cache
                else (k, r\<lparr>ot_recorded_filled_qty := confirmed, ot_status := st\<rparr>) # cache))"

datatype mark_error = ValueError order_status

definition mark_terminal ::
  "string \<Rightarrow> order_status \<Rightarrow> order_tracker \<Rightarrow> mark_error + order_tracker" where
  "mark_terminal order_id status t =
     (if status \<notin> set terminal_statuses then Inl (ValueError status)
      else
        let table =
              (case dict_get (tr_table t) order_id of
                 None \<Rightarrow> tr_table t
               | Some row \<Rightarrow>
                   if ot_status row \<noteq> FILLED
                   then dict_set order_id (row\<lparr>ot_status := status\<rparr>) (tr_table t)
                   else tr_table t)
        in Inr (t\<lparr>tr_table := table, tr_cache := evict_open_cache order_id (tr_cache t)\<rparr>))"

definition get_open_orders_for_bot_sync ::
  "string \<Rightarrow> string \<Rightarrow> order_tracker \<Rightarrow> account_id_error + order_row list" where
  "get_open_orders_for_bot_sync account_id bot_id t =
     (case require_account_id ''order_tracker.get_open_orders_for_bot_sync'' (Some account_id) of
        Inl e \<Rightarrow> Inl e
      | Inr acct \<Rightarrow>
          Inr (sort_key
                 (\<lambda>r. (case ot_submitted_at r of None \<Rightarrow> '''' | Some s \<Rightarrow> s, ot_order_id r))
                 (map snd (filter (\<lambda>((a, b, _), _). a = acct \<and> b = bot_id) (tr_cache t)))))"

text \<open>\<open>ORDER BY submitted_at\<close>: SQLite sorts NULL first.\<close>

definition submitted_order :: "order_row \<Rightarrow> nat \<times> string" where
  "submitted_order r = (case ot_submitted_at r of None \<Rightarrow> (0, '''') | Some s \<Rightarrow> (1, s))"

definition get_open_orders :: "string \<Rightarrow> order_tracker \<Rightarrow> account_id_error + order_row list" where
  "get_open_orders account_id t =
     (case require_account_id ''order_tracker.get_open_orders'' (Some account_id) of
        Inl e \<Rightarrow> Inl e
      | Inr acct \<Rightarrow>
          Inr (sort_key submitted_order
                 (filter (\<lambda>r. ot_account_id r = acct \<and> is_open_row r) (dict_values (tr_table t)))))"

definition get_open_orders_for ::
  "string \<Rightarrow> string \<Rightarrow> string \<Rightarrow> string \<Rightarrow> order_tracker \<Rightarrow> account_id_error + order_row list" where
  "get_open_orders_for account_id bot_id symbol side t =
     (case require_account_id ''order_tracker.get_open_orders_for'' (Some account_id) of
        Inl e \<Rightarrow> Inl e
      | Inr acct \<Rightarrow>
          Inr (sort_key submitted_order
                 (filter (\<lambda>r. ot_account_id r = acct \<and> ot_bot_id r = bot_id \<and> ot_symbol r = symbol
                            \<and> ot_side r = side \<and> is_open_row r)
                    (dict_values (tr_table t)))))"

text \<open>\<open>ORDER BY submitted_date DESC LIMIT 1\<close>.\<close>

fun latest_submitted :: "order_row list \<Rightarrow> order_row option" where
  "latest_submitted [] = None"
| "latest_submitted (r # rs) =
     (case latest_submitted rs of
        None \<Rightarrow> Some r
      | Some r' \<Rightarrow> if ot_submitted_date r < ot_submitted_date r' then Some r' else Some r)"

definition lookup_order_id ::
  "string \<Rightarrow> string \<Rightarrow> string \<Rightarrow> order_table \<Rightarrow> account_id_error + string option" where
  "lookup_order_id account_id broker_order_id observed_date table =
     (case require_account_id ''order_tracker.lookup_order_id'' (Some account_id) of
        Inl e \<Rightarrow> Inl e
      | Inr acct \<Rightarrow>
          Inr (map_option ot_order_id
                 (latest_submitted
                    (filter (\<lambda>r. ot_account_id r = acct \<and> ot_broker_order_id r = broker_order_id
                               \<and> ot_submitted_date r \<le> observed_date \<and> is_open_row r)
                       (dict_values table)))))"

definition get_order :: "string \<Rightarrow> order_table \<Rightarrow> order_row option" where
  "get_order order_id table = dict_get table order_id"

definition find_by_broker_order ::
  "string \<Rightarrow> string \<Rightarrow> string \<Rightarrow> order_table \<Rightarrow> account_id_error + order_row option" where
  "find_by_broker_order account_id broker_order_id observed_date table =
     (case require_account_id ''order_tracker.find_by_broker_order'' (Some account_id) of
        Inl e \<Rightarrow> Inl e
      | Inr acct \<Rightarrow>
          Inr (latest_submitted
                 (filter (\<lambda>r. ot_account_id r = acct \<and> ot_broker_order_id r = broker_order_id
                            \<and> ot_submitted_date r \<le> observed_date)
                    (dict_values table))))"

definition is_stale :: "string \<Rightarrow> string \<Rightarrow> order_row \<Rightarrow> bool" where
  "is_stale acct before_date r \<longleftrightarrow>
     ot_account_id r = acct \<and> ot_submitted_date r < before_date \<and> ot_status r = OPEN"

definition expire_stale ::
  "string \<Rightarrow> string \<Rightarrow> order_tracker \<Rightarrow> account_id_error + nat \<times> order_tracker" where
  "expire_stale account_id before_date t =
     (case require_account_id ''order_tracker.expire_stale'' (Some account_id) of
        Inl e \<Rightarrow> Inl e
      | Inr acct \<Rightarrow>
          let expired = map ot_order_id (filter (is_stale acct before_date) (dict_values (tr_table t)));
              table = map (\<lambda>(k, r). (k, if is_stale acct before_date r
                                         then r\<lparr>ot_status := EXPIRED\<rparr> else r)) (tr_table t)
          in Inr (length expired,
                  t\<lparr>tr_table := table, tr_cache := fold evict_open_cache expired (tr_cache t)\<rparr>))"

text \<open>The steps of the component; a rejected call leaves the state as it was.\<close>

datatype tracker_event =
    Open_order order_row
  | Fill string rat rat
  | Mark_terminal string order_status
  | Expire_stale string string
  | Restart

fun tracker_step :: "order_tracker \<Rightarrow> tracker_event \<Rightarrow> order_tracker" where
  "tracker_step t (Open_order r) = (case open_order r t of Inl _ \<Rightarrow> t | Inr t' \<Rightarrow> t')"
| "tracker_step t (Fill order_id cum avg) =
     (let (res, table) = record_fill order_id cum avg (tr_table t)
      in if rf_delta res \<le> 0 then t
         else t\<lparr>tr_table := table,
                tr_cache := mirror_fill_to_cache order_id (rf_confirmed_cumulative res)
                              (rf_new_status res) (tr_cache t)\<rparr>)"
| "tracker_step t (Mark_terminal order_id st) =
     (case mark_terminal order_id st t of Inl _ \<Rightarrow> t | Inr t' \<Rightarrow> t')"
| "tracker_step t (Expire_stale acct before) =
     (case expire_stale acct before t of Inl _ \<Rightarrow> t | Inr (_, t') \<Rightarrow> t')"
| "tracker_step t Restart = t\<lparr>tr_cache := warm_open_cache (tr_table t)\<rparr>"

subsection \<open>The invariant\<close>

definition row_ok :: "string \<Rightarrow> order_row \<Rightarrow> bool" where
  "row_ok k r \<longleftrightarrow> ot_order_id r = k \<and> \<not> is_invalid_account_id (Some (ot_account_id r))
     \<and> 0 \<le> ot_recorded_filled_qty r
     \<and> (is_open_row r \<longrightarrow> ot_ordered_qty r \<le> 0 \<or> ot_recorded_filled_qty r < ot_ordered_qty r)"

text \<open>
  A cached order is its table row, except for the average price, which the mirror does not copy.
\<close>

definition mirrors :: "order_row \<Rightarrow> order_row \<Rightarrow> bool" where
  "mirrors r row \<longleftrightarrow> r\<lparr>ot_avg_fill_price := ot_avg_fill_price row\<rparr> = row"

definition cache_ok :: "order_table \<Rightarrow> open_cache \<Rightarrow> bool" where
  "cache_ok table cache \<longleftrightarrow>
     (\<forall>k r. dict_get cache k = Some r \<longrightarrow>
        (\<exists>row. dict_get table (snd (snd k)) = Some row \<and> k = cache_key row
              \<and> mirrors r row \<and> is_open_row row))"

definition tracker_inv :: "order_tracker \<Rightarrow> bool" where
  "tracker_inv t \<longleftrightarrow> dict_wf (tr_table t) \<and> dict_wf (tr_cache t)
     \<and> (\<forall>k r. dict_get (tr_table t) k = Some r \<longrightarrow> row_ok k r)
     \<and> (\<forall>k k' r r'. dict_get (tr_table t) k = Some r \<longrightarrow> dict_get (tr_table t) k' = Some r' \<longrightarrow>
           broker_key r = broker_key r' \<longrightarrow> k = k')
     \<and> cache_ok (tr_table t) (tr_cache t)"

definition recorded_of :: "string \<Rightarrow> order_tracker \<Rightarrow> rat" where
  "recorded_of order_id t =
     (case dict_get (tr_table t) order_id of None \<Rightarrow> 0 | Some r \<Rightarrow> ot_recorded_filled_qty r)"

lemma is_open_row_iff: "is_open_row r \<longleftrightarrow> ot_status r = OPEN \<or> ot_status r = PARTIALLY_FILLED"
  by (auto simp: is_open_row_def open_statuses_def)

lemma terminal_iff_not_open: "st \<in> set terminal_statuses \<longleftrightarrow> st \<notin> set open_statuses"
  by (cases st) (auto simp: terminal_statuses_def open_statuses_def)

lemma mirrors_iff: "mirrors r row \<longleftrightarrow> (\<exists>p. r = row\<lparr>ot_avg_fill_price := p\<rparr>)"
proof
  assume "mirrors r row"
  then have "r = row\<lparr>ot_avg_fill_price := ot_avg_fill_price r\<rparr>"
    by (cases r, cases row) (simp add: mirrors_def)
  then show "\<exists>p. r = row\<lparr>ot_avg_fill_price := p\<rparr>" by blast
qed (auto simp: mirrors_def)

lemma dict_get_evict:
  "dict_wf cache \<Longrightarrow> dict_get (evict_open_cache oid cache) k =
     (if snd (snd k) = oid then None else dict_get cache k)"
  by (auto simp: evict_open_cache_def dict_get_filter split: option.splits prod.splits)

lemma dict_wf_evict: "dict_wf cache \<Longrightarrow> dict_wf (evict_open_cache oid cache)"
  by (simp add: evict_open_cache_def)

lemma evict_all:
  "dict_wf cache \<Longrightarrow>
     dict_wf (fold evict_open_cache oids cache) \<and>
     dict_get (fold evict_open_cache oids cache) k =
       (if snd (snd k) \<in> set oids then None else dict_get cache k)"
  by (induction oids arbitrary: cache) (auto simp: dict_get_evict dict_wf_evict)

lemma fst_set_mirror: "fst ` set (mirror_fill_to_cache oid c st cache) \<subseteq> fst ` set cache"
  by (induction oid c st cache rule: mirror_fill_to_cache.induct) (auto split: option.splits if_splits)

lemma dict_wf_mirror: "dict_wf cache \<Longrightarrow> dict_wf (mirror_fill_to_cache oid c st cache)"
proof (induction oid c st cache rule: mirror_fill_to_cache.induct)
  case (2 oid c st k r cache)
  then show ?case
    using fst_set_mirror [of oid c st cache]
    by (auto simp: dict_wf_def split: option.splits)
qed simp

definition mirrored :: "rat \<Rightarrow> order_status option \<Rightarrow> order_row \<Rightarrow> order_row option" where
  "mirrored c st r =
     (case st of
        None \<Rightarrow> Some (r\<lparr>ot_recorded_filled_qty := c\<rparr>)
      | Some s \<Rightarrow> if s \<in> set terminal_statuses then None
                  else Some (r\<lparr>ot_recorded_filled_qty := c, ot_status := s\<rparr>))"

lemma FILLED_terminal [simp]: "FILLED \<in> set terminal_statuses"
  by (simp add: terminal_statuses_def)

lemma dict_get_mirror:
  assumes "distinct (map (\<lambda>p. snd (snd (fst p))) cache)"
  shows "dict_get (mirror_fill_to_cache oid c st cache) k =
    (if snd (snd k) = oid then Option.bind (dict_get cache k) (mirrored c st)
     else dict_get cache k)"
  using assms
proof (induction oid c st cache rule: mirror_fill_to_cache.induct)
  case (2 oid c st k' r cache)
  show ?case
  proof (cases "snd (snd k') = oid")
    case True
    then have no: "dict_get cache k2 = None" if "snd (snd k2) = oid" for k2
      using 2(2) that True by (force simp: map_of_eq_None_iff image_iff)
    show ?thesis
      using True no [of k] by (auto simp: mirrored_def split: option.splits)
  next
    case False
    with 2 show ?thesis by auto
  qed
qed simp

text \<open>Facts read off the invariant.\<close>

lemma tracker_invD:
  assumes "tracker_inv t"
  shows "dict_wf (tr_table t)" and "dict_wf (tr_cache t)"
    and "\<And>k r. dict_get (tr_table t) k = Some r \<Longrightarrow> row_ok k r"
    and "\<And>k k' r r'. dict_get (tr_table t) k = Some r \<Longrightarrow> dict_get (tr_table t) k' = Some r' \<Longrightarrow>
           broker_key r = broker_key r' \<Longrightarrow> k = k'"
    and "cache_ok (tr_table t) (tr_cache t)"
  using assms by (auto simp: tracker_inv_def)

lemma cache_okD:
  assumes "cache_ok table cache" and "dict_get cache k = Some r"
  obtains row where "dict_get table (snd (snd k)) = Some row" "k = cache_key row" "mirrors r row"
    "is_open_row row"
  using assms unfolding cache_ok_def by blast

lemma cache_ok_distinct:
  assumes "dict_wf cache" and "cache_ok table cache"
  shows "distinct (map (\<lambda>p. snd (snd (fst p))) cache)"
proof -
  have "inj_on (\<lambda>k. snd (snd k)) (set (map fst cache))"
  proof (rule inj_onI)
    fix k k' :: "string \<times> string \<times> string"
    assume k: "k \<in> set (map fst cache)" and k': "k' \<in> set (map fst cache)"
      and eq: "snd (snd k) = snd (snd k')"
    from k obtain r where "dict_get cache k = Some r" using assms(1)
      by (auto simp: dict_get_mem)
    moreover from k' obtain r' where "dict_get cache k' = Some r'" using assms(1)
      by (auto simp: dict_get_mem)
    ultimately show "k = k'"
      using assms(2) eq unfolding cache_ok_def by (metis option.inject)
  qed
  then have "distinct (map (\<lambda>k. snd (snd k)) (map fst cache))"
    using assms(1) by (subst distinct_map) (simp add: dict_wf_def)
  then show ?thesis by (simp add: comp_def)
qed

lemma cache_okI:
  assumes "\<And>k r. dict_get cache k = Some r \<Longrightarrow>
     \<exists>row. dict_get table (snd (snd k)) = Some row \<and> k = cache_key row \<and> mirrors r row \<and> is_open_row row"
  shows "cache_ok table cache"
  using assms by (auto simp: cache_ok_def)

lemma mirrors_refl [simp]: "mirrors r r"
  by (simp add: mirrors_def)

lemma open_order_inv:
  assumes inv: "tracker_inv t" and ok: "open_order r0 t = Inr t'"
  shows "tracker_inv t'"
proof -
  define r where "r = r0\<lparr>ot_recorded_filled_qty := 0, ot_avg_fill_price := 0, ot_status := OPEN\<rparr>"
  note D = tracker_invD [OF inv]
  have acct: "\<not> is_invalid_account_id (Some (ot_account_id r0))"
    using ok by (auto simp: open_order_def split: sum.splits)
  show ?thesis
  proof (cases "t' = t")
    case True
    with inv show ?thesis by simp
  next
    case False
    then have fresh: "dict_get (tr_table t) (ot_order_id r) = None"
      and uniq: "\<And>row. row \<in> set (dict_values (tr_table t)) \<Longrightarrow> broker_key row \<noteq> broker_key r"
      and t': "t' = t\<lparr>tr_table := dict_set (ot_order_id r) r (tr_table t),
                      tr_cache := dict_set (cache_key r) r (tr_cache t)\<rparr>"
      using ok
      by (auto simp: open_order_def Let_def r_def dict_append_absent split: sum.splits if_splits)
    have open_r: "is_open_row r" and row: "row_ok (ot_order_id r) r"
      using acct by (auto simp: r_def is_open_row_iff row_ok_def)
    have c: "cache_ok (tr_table t') (tr_cache t')"
    proof (rule cache_okI)
      fix k x
      assume "dict_get (tr_cache t') k = Some x"
      then show "\<exists>row. dict_get (tr_table t') (snd (snd k)) = Some row \<and> k = cache_key row
          \<and> mirrors x row \<and> is_open_row row"
        using D(5) fresh open_r by (auto simp: t' cache_key_def split: if_splits elim!: cache_okD)
    qed
    have u: "broker_key row \<noteq> broker_key r" if "dict_get (tr_table t) k = Some row" for k row
      using uniq dict_get_in_values [OF that] by blast
    have keys: "k = k'"
      if "dict_get (tr_table t') k = Some x" "dict_get (tr_table t') k' = Some y"
        "broker_key x = broker_key y" for k k' x y
    proof -
      have get: "dict_get (tr_table t') j = (if j = ot_order_id r then Some r else dict_get (tr_table t) j)"
        for j by (simp add: t')
      show ?thesis
      proof (rule ccontr)
        assume ne: "k \<noteq> k'"
        consider "k = ot_order_id r" | "k' = ot_order_id r"
          | "k \<noteq> ot_order_id r" "k' \<noteq> ot_order_id r" by blast
        then show False
        proof cases
          case 1
          with ne that have "x = r" and "dict_get (tr_table t) k' = Some y" by (simp_all add: get)
          with u that(3) show False by metis
        next
          case 2
          with ne that have "y = r" and "dict_get (tr_table t) k = Some x" by (simp_all add: get)
          with u that(3) show False by metis
        next
          case 3
          with that have "dict_get (tr_table t) k = Some x" and "dict_get (tr_table t) k' = Some y"
            by (simp_all add: get)
          from D(4) [OF this that(3)] ne show False by simp
        qed
      qed
    qed
    have wf: "dict_wf (tr_table t')" "dict_wf (tr_cache t')"
      using D(1,2) by (simp_all add: t')
    have rows: "row_ok k x" if "dict_get (tr_table t') k = Some x" for k x
      using that D(3) row by (simp add: t' split: if_splits)
    show ?thesis
      unfolding tracker_inv_def using wf rows keys c by blast
  qed
qed

text \<open>
  A row update that keeps the identity columns and the row invariant, with a cache that follows
  it, keeps the whole invariant: every other step is an instance.
\<close>

lemma tracker_inv_update:
  assumes inv: "tracker_inv t"
    and wf: "dict_wf table'" "dict_wf cache'"
    and rows: "\<And>k r'. dict_get table' k = Some r' \<Longrightarrow>
       \<exists>r. dict_get (tr_table t) k = Some r \<and> broker_key r' = broker_key r \<and> row_ok k r'"
    and cache: "cache_ok table' cache'"
  shows "tracker_inv (t\<lparr>tr_table := table', tr_cache := cache'\<rparr>)"
proof -
  have "k = k'"
    if "dict_get table' k = Some x" "dict_get table' k' = Some y" "broker_key x = broker_key y"
    for k k' x y
    using rows [OF that(1)] rows [OF that(2)] that(3) tracker_invD(4) [OF inv] by fastforce
  moreover have "row_ok k r'" if "dict_get table' k = Some r'" for k r'
    using rows [OF that] by blast
  ultimately show ?thesis
    using wf cache by (auto simp: tracker_inv_def)
qed

lemma record_fill_cases:
  assumes "record_fill oid cum avg table = (res, table')"
  obtains (noop) "rf_delta res = 0" "table' = table"
  | (advance) row where "dict_get table oid = Some row" "ot_recorded_filled_qty row < cum"
      "rf_delta res = cum - ot_recorded_filled_qty row" "rf_confirmed_cumulative res = cum"
      "rf_new_status res =
         Some (if ot_ordered_qty row > 0 \<and> cum \<ge> ot_ordered_qty row then FILLED else PARTIALLY_FILLED)"
      "table' = dict_set oid
         (row\<lparr>ot_recorded_filled_qty := cum, ot_avg_fill_price := avg,
              ot_status := (if ot_ordered_qty row > 0 \<and> cum \<ge> ot_ordered_qty row
                            then FILLED else PARTIALLY_FILLED)\<rparr>) table"
  using assms
  by (auto simp: record_fill_def Let_def split: option.splits if_splits)

lemma fill_inv:
  assumes inv: "tracker_inv t"
  shows "tracker_inv (tracker_step t (Fill oid cum avg))"
proof -
  obtain res table where rf: "record_fill oid cum avg (tr_table t) = (res, table)" by fastforce
  note D = tracker_invD [OF inv]
  from rf show ?thesis
  proof (cases rule: record_fill_cases)
    case noop
    with rf inv show ?thesis by simp
  next
    case (advance row)
    let ?st = "if ot_ordered_qty row > 0 \<and> cum \<ge> ot_ordered_qty row then FILLED else PARTIALLY_FILLED"
    let ?row = "row\<lparr>ot_recorded_filled_qty := cum, ot_avg_fill_price := avg, ot_status := ?st\<rparr>"
    have old: "row_ok oid row" using D(3) advance(1) .
    then have nonneg: "0 \<le> cum" using advance(2) by (simp add: row_ok_def)
    have "cache_ok table (mirror_fill_to_cache oid cum (Some ?st) (tr_cache t))"
    proof (rule cache_okI)
      fix k x
      assume x: "dict_get (mirror_fill_to_cache oid cum (Some ?st) (tr_cache t)) k = Some x"
      then have x': "(if snd (snd k) = oid then Option.bind (dict_get (tr_cache t) k) (mirrored cum (Some ?st))
                else dict_get (tr_cache t) k) = Some x"
        by (simp only: dict_get_mirror [OF cache_ok_distinct [OF D(2) D(5)]])
      show "\<exists>row'. dict_get table (snd (snd k)) = Some row' \<and> k = cache_key row'
          \<and> mirrors x row' \<and> is_open_row row'"
      proof (cases "snd (snd k) = oid")
        case True
        with x' obtain y where y: "dict_get (tr_cache t) k = Some y" "mirrored cum (Some ?st) y = Some x"
          by (auto simp: bind_eq_Some_conv)
        from D(5) y(1) True advance(1) have k: "k = cache_key row" and m: "mirrors y row"
          by (auto elim!: cache_okD)
        from y(2) have st: "?st = PARTIALLY_FILLED"
          and xeq: "x = y\<lparr>ot_recorded_filled_qty := cum, ot_status := PARTIALLY_FILLED\<rparr>"
          by (auto simp: mirrored_def split: if_splits)
        from m obtain p where "y = row\<lparr>ot_avg_fill_price := p\<rparr>" by (auto simp: mirrors_iff)
        then have "mirrors x ?row" using xeq st by (simp add: mirrors_def)
        then show ?thesis
          using True advance(6) k st by (auto simp: cache_key_def is_open_row_iff)
      next
        case False
        with x' D(5) advance(6) show ?thesis by (auto elim!: cache_okD)
      qed
    qed
    moreover have "dict_wf table" using advance(6) D(1) by simp
    moreover have "\<exists>r. dict_get (tr_table t) k = Some r \<and> broker_key r' = broker_key r \<and> row_ok k r'"
      if "dict_get table k = Some r'" for k r'
      using that advance(1,6) D(3) [of k] old nonneg
      by (auto simp: broker_key_def row_ok_def is_open_row_iff split: if_splits)
    moreover have "0 < rf_delta res" using advance by simp
    ultimately show ?thesis
      using tracker_inv_update [OF inv, of table "mirror_fill_to_cache oid cum (Some ?st) (tr_cache t)"]
        dict_wf_mirror [OF D(2)] rf advance(4,5)
      by simp
  qed
qed

lemma mark_terminal_inv:
  assumes inv: "tracker_inv t" and ok: "mark_terminal oid st t = Inr t'"
  shows "tracker_inv t'"
proof -
  note D = tracker_invD [OF inv]
  have st: "st \<in> set terminal_statuses" using ok by (simp add: mark_terminal_def split: if_splits)
  define table where "table =
    (case dict_get (tr_table t) oid of None \<Rightarrow> tr_table t
     | Some row \<Rightarrow> if ot_status row \<noteq> FILLED then dict_set oid (row\<lparr>ot_status := st\<rparr>) (tr_table t)
                  else tr_table t)"
  have t': "t' = t\<lparr>tr_table := table, tr_cache := evict_open_cache oid (tr_cache t)\<rparr>"
    using ok st by (simp add: mark_terminal_def table_def)
  have other: "dict_get table k = dict_get (tr_table t) k" if "k \<noteq> oid" for k
    using that by (auto simp: table_def split: option.splits)
  have rows: "\<exists>r. dict_get (tr_table t) k = Some r \<and> broker_key r' = broker_key r \<and> row_ok k r'"
    if "dict_get table k = Some r'" for k r'
    using that D(3) st
    by (auto simp: table_def broker_key_def row_ok_def is_open_row_iff terminal_statuses_def
        split: option.splits if_splits)
  have "cache_ok table (evict_open_cache oid (tr_cache t))"
    using D(2,5) other by (auto simp: cache_ok_def dict_get_evict)
  moreover have "dict_wf table" using D(1) by (auto simp: table_def split: option.splits)
  ultimately show ?thesis
    unfolding t' using tracker_inv_update [OF inv] rows dict_wf_evict [OF D(2)] by blast
qed

lemma expire_stale_inv:
  assumes inv: "tracker_inv t" and ok: "expire_stale acct before t = Inr (n, t')"
  shows "tracker_inv t'"
proof -
  note D = tracker_invD [OF inv]
  define f where "f r = (if is_stale acct before r then r\<lparr>ot_status := EXPIRED\<rparr> else r)" for r
  define table where "table = map (\<lambda>(k, r). (k, f r)) (tr_table t)"
  define expired where
    "expired = map ot_order_id (filter (is_stale acct before) (dict_values (tr_table t)))"
  have t': "t' = t\<lparr>tr_table := table, tr_cache := fold evict_open_cache expired (tr_cache t)\<rparr>"
    using ok by (auto simp: expire_stale_def table_def f_def expired_def Let_def split: sum.splits)
  have get: "dict_get table k = map_option f (dict_get (tr_table t) k)" for k
    by (simp add: table_def dict_get_map_values)
  have rows: "\<exists>r. dict_get (tr_table t) k = Some r \<and> broker_key r' = broker_key r \<and> row_ok k r'"
    if "dict_get table k = Some r'" for k r'
    using that D(3) [of k]
    by (auto simp: get f_def broker_key_def row_ok_def is_open_row_iff)
  have "cache_ok table (fold evict_open_cache expired (tr_cache t))"
  proof (rule cache_okI)
    fix k r
    assume "dict_get (fold evict_open_cache expired (tr_cache t)) k = Some r"
    then have k: "snd (snd k) \<notin> set expired" "dict_get (tr_cache t) k = Some r"
      using evict_all [OF D(2), of expired k] by (auto split: if_splits)
    from D(5) k(2) obtain row where row: "dict_get (tr_table t) (snd (snd k)) = Some row"
      "k = cache_key row" "mirrors r row" "is_open_row row" by (rule cache_okD)
    have "\<not> is_stale acct before row"
      using k(1) row(1) D(3) [OF row(1)] dict_get_in_values [OF row(1)]
      by (force simp: expired_def row_ok_def)
    then show "\<exists>row. dict_get table (snd (snd k)) = Some row \<and> k = cache_key row
        \<and> mirrors r row \<and> is_open_row row"
      using row by (simp add: get f_def)
  qed
  moreover have "dict_wf table" using D(1) by (simp add: table_def)
  moreover have "dict_wf (fold evict_open_cache expired (tr_cache t))"
    using evict_all [OF D(2)] by blast
  ultimately show ?thesis
    unfolding t' using tracker_inv_update [OF inv] rows by blast
qed

lemma dict_get_fold_set:
  "distinct (map key rs) \<Longrightarrow> dict_get (fold (\<lambda>r c. dict_set (key r) r c) rs c) k =
     (case find (\<lambda>r. key r = k) rs of None \<Rightarrow> dict_get c k | Some r \<Rightarrow> Some r)"
proof (induction rs arbitrary: c)
  case (Cons r rs)
  have "find (\<lambda>x. key x = key r) rs = None"
    using Cons.prems by (simp add: find_None_iff) (metis image_eqI)
  with Cons show ?case by (auto split: option.splits)
qed simp

lemma dict_wf_fold_set: "dict_wf c \<Longrightarrow> dict_wf (fold (\<lambda>r c. dict_set (key r) r c) rs c)"
  by (induction rs arbitrary: c) auto

lemma warm_open_cache_exact:
  assumes inv: "tracker_inv t"
  shows "dict_get (warm_open_cache (tr_table t)) k = Some r \<longleftrightarrow>
     dict_get (tr_table t) (snd (snd k)) = Some r \<and> k = cache_key r \<and> is_open_row r"
proof -
  note D = tracker_invD [OF inv]
  let ?rs = "filter is_open_row (dict_values (tr_table t))"
  have oid: "ot_order_id (snd p) = fst p" if "p \<in> set (tr_table t)" for p
    using that dict_get_mem [OF D(1), of "fst p" "snd p"] D(3) [of "fst p" "snd p"]
    by (simp add: row_ok_def)
  have "inj_on cache_key (set ?rs)" "distinct ?rs"
  proof -
    have "map (\<lambda>p. ot_order_id (snd p)) (tr_table t) = map fst (tr_table t)"
      using oid by simp
    then have "distinct (map (\<lambda>p. ot_order_id (snd p)) (tr_table t))"
      using D(1) by (simp only: dict_wf_def)
    then have d: "distinct (map ot_order_id (dict_values (tr_table t)))" by (simp add: comp_def)
    note d' = d [unfolded distinct_map [of ot_order_id "dict_values (tr_table t)"]]
    show "distinct ?rs" by (rule distinct_filter [OF conjunct1 [OF d']])
    from d' have "inj_on ot_order_id (set (dict_values (tr_table t)))" by (rule conjunct2)
    then show "inj_on cache_key (set ?rs)" by (auto simp: inj_on_def cache_key_def)
  qed
  then have "distinct (map cache_key ?rs)" by (simp add: distinct_map)
  note get = dict_get_fold_set [OF this, of "[]" k]
  have mem: "x \<in> set ?rs \<longleftrightarrow> dict_get (tr_table t) (ot_order_id x) = Some x \<and> is_open_row x" for x
    using dict_values_ex [OF D(1), of x] D(3) unfolding row_ok_def by auto
  show ?thesis
  proof
    assume "dict_get (warm_open_cache (tr_table t)) k = Some r"
    then have "find (\<lambda>x. cache_key x = k) ?rs = Some r"
      using get by (simp add: warm_open_cache_def split: option.splits)
    then have "r \<in> set ?rs" and "cache_key r = k" by (blast dest: find_Some_mem)+
    then show "dict_get (tr_table t) (snd (snd k)) = Some r \<and> k = cache_key r \<and> is_open_row r"
      using mem by (auto simp: cache_key_def)
  next
    assume r: "dict_get (tr_table t) (snd (snd k)) = Some r \<and> k = cache_key r \<and> is_open_row r"
    then have "r \<in> set ?rs" using mem [of r] by (auto simp: cache_key_def)
    then obtain r' where r': "find (\<lambda>x. cache_key x = k) ?rs = Some r'"
      using r by (cases "find (\<lambda>x. cache_key x = k) ?rs") (auto simp: find_None_iff)
    then have "r' \<in> set ?rs" and "cache_key r' = k" by (blast dest: find_Some_mem)+
    then have "r' = r" using mem [of r'] r by (auto simp: cache_key_def)
    then show "dict_get (warm_open_cache (tr_table t)) k = Some r"
      using get r' by (simp add: warm_open_cache_def)
  qed
qed

lemma restart_inv:
  assumes inv: "tracker_inv t"
  shows "tracker_inv (tracker_step t Restart)"
proof -
  have "cache_ok (tr_table t) (warm_open_cache (tr_table t))"
    by (rule cache_okI) (use warm_open_cache_exact [OF inv] mirrors_refl in blast)
  moreover have "dict_wf (warm_open_cache (tr_table t))"
    by (simp add: warm_open_cache_def dict_wf_fold_set)
  ultimately show ?thesis using inv by (auto simp: tracker_inv_def)
qed

theorem tracker_step_inv: "tracker_inv t \<Longrightarrow> tracker_inv (tracker_step t e)"
proof (cases e)
  case (Open_order r)
  assume "tracker_inv t"
  then show ?thesis using open_order_inv Open_order by (auto split: sum.splits)
next
  case (Fill oid cum avg)
  assume "tracker_inv t"
  then show ?thesis using fill_inv Fill by simp
next
  case (Mark_terminal oid st)
  assume "tracker_inv t"
  then show ?thesis using mark_terminal_inv Mark_terminal by (auto split: sum.splits)
next
  case (Expire_stale acct before)
  assume "tracker_inv t"
  then show ?thesis using expire_stale_inv Expire_stale by (auto split: sum.splits)
next
  case Restart
  assume "tracker_inv t"
  then show ?thesis using restart_inv Restart by simp
qed

subsection \<open>Runs of the tracker\<close>

definition empty_tracker :: order_tracker where
  "empty_tracker = \<lparr>tr_table = [], tr_cache = []\<rparr>"

lemma empty_tracker_inv [simp]: "tracker_inv empty_tracker"
  by (simp add: tracker_inv_def empty_tracker_def cache_ok_def)

lemma recorded_step_mono:
  assumes inv: "tracker_inv t"
  shows "recorded_of oid t \<le> recorded_of oid (tracker_step t e)"
proof (cases e)
  case (Open_order r)
  then show ?thesis
    by (auto simp: open_order_def recorded_of_def Let_def dict_append_absent
        split: sum.splits option.splits)
next
  case (Fill oid' cum avg)
  obtain res table where rf: "record_fill oid' cum avg (tr_table t) = (res, table)" by fastforce
  then show ?thesis
  proof (cases rule: record_fill_cases)
    case noop
    with rf Fill show ?thesis by simp
  next
    case (advance row)
    with rf Fill show ?thesis by (auto simp: recorded_of_def)
  qed
next
  case (Mark_terminal oid' st)
  then show ?thesis
    by (auto simp: mark_terminal_def recorded_of_def split: option.splits)
next
  case (Expire_stale acct before)
  then show ?thesis
    by (auto simp: expire_stale_def recorded_of_def Let_def dict_get_map_values split: sum.splits option.splits)
qed (simp add: recorded_of_def)

interpretation tracker: monotone_machine tracker_step "\<lambda>_ _. True" tracker_inv "recorded_of oid" for oid
  by unfold_locales (simp_all add: tracker_step_inv recorded_step_mono)

lemma latest_submitted_None: "latest_submitted rs = None \<longleftrightarrow> rs = []"
  by (cases rs) (auto split: option.splits)

lemma latest_submitted_Some:
  "latest_submitted rs = Some r \<Longrightarrow>
     r \<in> set rs \<and> (\<forall>r'\<in>set rs. ot_submitted_date r' \<le> ot_submitted_date r)"
proof (induction rs arbitrary: r)
  case (Cons x xs)
  show ?case
  proof (cases "latest_submitted xs")
    case None
    with Cons.prems show ?thesis by (simp add: latest_submitted_None)
  next
    case (Some y)
    with Cons.IH [OF Some] Cons.prems show ?thesis by (force split: if_splits)
  qed
qed simp

lemma lookup_order_id_spec:
  assumes "lookup_order_id account odno date (tr_table t) = Inr res" and "tracker_inv t"
  shows "case res of
      None \<Rightarrow> (\<forall>k r. dict_get (tr_table t) k = Some r \<longrightarrow>
         \<not> (ot_account_id r = account \<and> ot_broker_order_id r = odno
            \<and> ot_submitted_date r \<le> date \<and> is_open_row r))
    | Some oid \<Rightarrow> (\<exists>r. dict_get (tr_table t) oid = Some r \<and> is_open_row r
         \<and> ot_account_id r = account \<and> ot_broker_order_id r = odno \<and> ot_submitted_date r \<le> date
         \<and> (\<forall>k r'. dict_get (tr_table t) k = Some r' \<longrightarrow> ot_account_id r' = account \<longrightarrow>
              ot_broker_order_id r' = odno \<longrightarrow> ot_submitted_date r' \<le> date \<longrightarrow> is_open_row r' \<longrightarrow>
              k \<noteq> oid \<longrightarrow> ot_submitted_date r' < ot_submitted_date r))"
proof -
  note D = tracker_invD [OF assms(2)]
  define rows where "rows = filter (\<lambda>r. ot_account_id r = account \<and> ot_broker_order_id r = odno
     \<and> ot_submitted_date r \<le> date \<and> is_open_row r) (dict_values (tr_table t))"
  have res: "res = map_option ot_order_id (latest_submitted rows)"
    using assms(1) by (auto simp: lookup_order_id_def rows_def split: sum.splits)
  have rowsI: "r \<in> set rows" if "dict_get (tr_table t) k = Some r" "ot_account_id r = account"
    "ot_broker_order_id r = odno" "ot_submitted_date r \<le> date" "is_open_row r" for k r
    using that dict_get_in_values [OF that(1)] by (simp add: rows_def)
  show ?thesis
  proof (cases "latest_submitted rows")
    case None
    then have "rows = []" by (simp add: latest_submitted_None)
    then show ?thesis using None rowsI res by fastforce
  next
    case (Some r)
    then have r: "r \<in> set rows" and latest: "\<And>r'. r' \<in> set rows \<Longrightarrow> ot_submitted_date r' \<le> ot_submitted_date r"
      using latest_submitted_Some by blast+
    from r obtain k where k: "dict_get (tr_table t) k = Some r"
      using dict_values_ex [OF D(1)] by (auto simp: rows_def)
    have oid: "ot_order_id r = k" using D(3) [OF k] by (simp add: row_ok_def)
    have "ot_submitted_date r' < ot_submitted_date r"
      if "dict_get (tr_table t) k' = Some r'" "ot_account_id r' = account"
        "ot_broker_order_id r' = odno" "ot_submitted_date r' \<le> date" "is_open_row r'" "k' \<noteq> k" for k' r'
    proof -
      have "ot_submitted_date r' \<noteq> ot_submitted_date r"
        using D(4) [OF that(1) k] that r by (auto simp: broker_key_def rows_def)
      with latest [OF rowsI [OF that(1-5)]] show ?thesis by simp
    qed
    then show ?thesis
      using res Some k oid r by (auto simp: rows_def)
  qed
qed

subsection \<open>Properties\<close>

text \<open>
  C14. The synchronous open-order view a live strategy reads never leaks and never lies: after any
  sequence of submissions, fills, terminal marks, end-of-day expiries and restarts, every order it
  lists for \<open>(account, bot_id)\<close> is a row of the table of that account and bot that is still open, with
  the table's filled quantity and status, so its remaining quantity is the true one.
\<close>

theorem open_orders_view_sound:
  assumes "t = run tracker_step empty_tracker es"
    and "get_open_orders_for_bot_sync account bot_id t = Inr rs" and "r \<in> set rs"
  shows "\<exists>row. dict_get (tr_table t) (ot_order_id r) = Some row
    \<and> ot_account_id row = account \<and> ot_bot_id row = bot_id \<and> is_open_row row
    \<and> to_open_order_dict r = to_open_order_dict row
    \<and> ov_remaining_qty (to_open_order_dict r) = max 0 (ot_ordered_qty row - ot_recorded_filled_qty row)"
proof -
  have inv: "tracker_inv t" using assms(1) tracker.run_inv by simp
  from assms(2,3) obtain k where "(k, r) \<in> set (tr_cache t)" and k: "fst k = account" "fst (snd k) = bot_id"
    by (auto simp: get_open_orders_for_bot_sync_def split: sum.splits)
  then have "dict_get (tr_cache t) k = Some r"
    using tracker_invD(2) [OF inv] by (simp add: dict_get_mem)
  with tracker_invD(5) [OF inv] obtain row where
    row: "dict_get (tr_table t) (snd (snd k)) = Some row" "k = cache_key row" "mirrors r row"
    "is_open_row row" by (rule cache_okD)
  from row(3) obtain p where "r = row\<lparr>ot_avg_fill_price := p\<rparr>" by (auto simp: mirrors_iff)
  with row k show ?thesis
    by (intro exI [of _ row]) (auto simp: cache_key_def to_open_order_dict_def Let_def)
qed

text \<open>
  The recorded filled quantity of an order never goes back, whatever happens later: late or
  reordered observations, terminal marks, expiry and restarts included.
\<close>

theorem recorded_never_decreases:
  "recorded_of oid (run tracker_step empty_tracker es)
     \<le> recorded_of oid (run tracker_step empty_tracker (es @ fs))"
  unfolding run_append
  by (rule tracker.run_mono) (simp_all add: tracker.run_inv)

text \<open>
  An observation from the broker (account, broker order number, date) is attributed to an open
  order of that account and number submitted on or before that date, and to the most recently
  submitted one; if no order is returned, none qualifies.
\<close>

theorem lookup_order_id_correct:
  assumes "lookup_order_id account odno date (tr_table t) = Inr res" and "tracker_inv t"
  shows "case res of
      None \<Rightarrow> (\<forall>k r. dict_get (tr_table t) k = Some r \<longrightarrow>
         \<not> (ot_account_id r = account \<and> ot_broker_order_id r = odno
            \<and> ot_submitted_date r \<le> date \<and> is_open_row r))
    | Some oid \<Rightarrow> (\<exists>r. dict_get (tr_table t) oid = Some r \<and> is_open_row r
         \<and> ot_account_id r = account \<and> ot_broker_order_id r = odno \<and> ot_submitted_date r \<le> date
         \<and> (\<forall>k r'. dict_get (tr_table t) k = Some r' \<longrightarrow> ot_account_id r' = account \<longrightarrow>
              ot_broker_order_id r' = odno \<longrightarrow> ot_submitted_date r' \<le> date \<longrightarrow> is_open_row r' \<longrightarrow>
              k \<noteq> oid \<longrightarrow> ot_submitted_date r' < ot_submitted_date r))"
  using assms by (rule lookup_order_id_spec)

subsection \<open>The properties on a concrete order\<close>

definition sample_order :: "string \<Rightarrow> rat \<Rightarrow> order_row" where
  "sample_order oid ordered =
     \<lparr>ot_order_id = oid, ot_account_id = ''acct-1'', ot_bot_id = ''bot-1'', ot_strategy_id = ''s'',
      ot_broker_order_id = ''B'' @ oid, ot_symbol = ''005930'', ot_side = ''buy'',
      ot_order_type = ''limit'', ot_ordered_qty = ordered, ot_recorded_filled_qty = 0,
      ot_avg_fill_price = 0, ot_status = OPEN, ot_submitted_at = Some ''2026-01-05 09:00'',
      ot_submitted_date = ''2026-01-05'', ot_order_price = Some 100, ot_exchange = None\<rparr>"

definition sample_tracker :: order_tracker where
  "sample_tracker = run tracker_step empty_tracker [Open_order (sample_order ''o1'' 10), Fill ''o1'' 4 100]"

definition sample_row :: order_row where
  "sample_row = (sample_order ''o1'' 10)\<lparr>ot_recorded_filled_qty := 4, ot_avg_fill_price := 100, ot_status := PARTIALLY_FILLED\<rparr>"

lemma sample_tracker_eq:
  "sample_tracker = \<lparr>tr_table = [(''o1'', sample_row)],
     tr_cache = [((''acct-1'', ''bot-1'', ''o1''), sample_row\<lparr>ot_avg_fill_price := 0\<rparr>)]\<rparr>"
  by code_simp


lemma sample_tracker_inv: "tracker_inv sample_tracker"
  unfolding sample_tracker_def by (rule tracker.run_inv [OF empty_tracker_inv admissible_True])

theorem open_orders_view_sound_witness:
  "\<exists>row. dict_get (tr_table sample_tracker) (ot_order_id (sample_row\<lparr>ot_avg_fill_price := 0\<rparr>)) = Some row
    \<and> ot_account_id row = ''acct-1'' \<and> ot_bot_id row = ''bot-1'' \<and> is_open_row row
    \<and> to_open_order_dict (sample_row\<lparr>ot_avg_fill_price := 0\<rparr>) = to_open_order_dict row
    \<and> ov_remaining_qty (to_open_order_dict (sample_row\<lparr>ot_avg_fill_price := 0\<rparr>))
        = max 0 (ot_ordered_qty row - ot_recorded_filled_qty row)"
proof -
  have view: "get_open_orders_for_bot_sync ''acct-1'' ''bot-1'' sample_tracker =
      Inr [sample_row\<lparr>ot_avg_fill_price := 0\<rparr>]"
    by code_simp
  show ?thesis by (rule open_orders_view_sound [OF sample_tracker_def view]) simp
qed

theorem lookup_order_id_correct_witness:
  "lookup_order_id ''acct-1'' ''Bo1'' ''2026-01-06'' (tr_table sample_tracker) = Inr (Some ''o1'')
   \<and> (\<exists>r. dict_get (tr_table sample_tracker) ''o1'' = Some r \<and> is_open_row r)"
proof -
  have l: "lookup_order_id ''acct-1'' ''Bo1'' ''2026-01-06'' (tr_table sample_tracker) = Inr (Some ''o1'')"
    by code_simp
  with lookup_order_id_correct [OF l sample_tracker_inv] show ?thesis by auto
qed

end
