(* ===== verification/Positions.thy ===== *)
theory Positions
  imports Account_Gate "HOL-Library.Char_ord" "HOL-Library.List_Lexorder"
    "HOL-Library.Product_Lexorder"
begin

text \<open>
  \<open>src/src/ante/trade/position.py\<close> with the data types of \<open>src/src/ante/trade/models.py\<close>: the positions
  table (the only source of positions in the system), its history table, and the in-memory cache
  that live strategies read.

  The table is a dictionary keyed by its primary key \<open>(account_id, bot_id, symbol)\<close>, the cache a
  dictionary of dictionaries as in the code.  Timestamps of rows are left out: no operation
  modelled here reads them.
\<close>

subsection \<open>Data\<close>

datatype trade_status = T_FILLED | T_CANCELLED | T_REJECTED | T_FAILED | T_ADJUSTED | T_MODIFIED

record trade_record =
  td_trade_id :: string
  td_bot_id :: string
  td_strategy_id :: string
  td_symbol :: string
  td_side :: string
  td_quantity :: rat
  td_price :: rat
  td_status :: trade_status
  td_order_type :: string
  td_commission :: rat
  td_order_id :: "string option"
  td_exchange :: string
  td_account_id :: string

text \<open>A row of the table, and the part of a snapshot that is not its key.\<close>

record position =
  ps_quantity :: rat
  ps_avg_entry_price :: rat
  ps_realized_pnl :: rat

type_synonym position_key = "string \<times> string \<times> string"

record position_history_row =
  ph_bot_id :: string
  ph_symbol :: string
  ph_action :: string
  ph_quantity :: rat
  ph_price :: rat
  ph_pnl :: rat
  ph_account_id :: string
  ph_exchange :: string
  ph_trade_id :: string

type_synonym position_cache = "(string \<times> string, (string, position) dict) dict"

record position_state =
  pt_rows :: "(position_key, position) dict"
  pt_history :: "position_history_row list"
  pt_cache :: position_cache

definition empty_position :: position where
  "empty_position = \<lparr>ps_quantity = 0, ps_avg_entry_price = 0, ps_realized_pnl = 0\<rparr>"

subsection \<open>The cache\<close>

definition pos_cache_get :: "position_cache \<Rightarrow> string \<Rightarrow> string \<Rightarrow> string \<Rightarrow> position option" where
  "pos_cache_get cache account_id bot_id symbol =
     (case dict_get cache (account_id, bot_id) of None \<Rightarrow> None | Some d \<Rightarrow> dict_get d symbol)"

definition update_cache ::
  "string \<Rightarrow> string \<Rightarrow> rat \<Rightarrow> rat \<Rightarrow> string \<Rightarrow> rat \<Rightarrow> position_cache \<Rightarrow> position_cache" where
  "update_cache bot_id symbol quantity avg_entry_price account_id realized_pnl_delta cache =
     (let cache_key = (account_id, bot_id);
          bot_cache = dict_default [] cache cache_key;
          prev_pnl = (case dict_get bot_cache symbol of None \<Rightarrow> 0 | Some p \<Rightarrow> ps_realized_pnl p)
      in if quantity > 0
         then dict_set cache_key
                (dict_set symbol
                   \<lparr>ps_quantity = quantity, ps_avg_entry_price = avg_entry_price,
                    ps_realized_pnl = prev_pnl + realized_pnl_delta\<rparr> bot_cache) cache
         else
           let bot_cache' = dict_pop symbol bot_cache
           in if bot_cache' = [] then dict_pop cache_key cache
              else dict_set cache_key bot_cache' cache)"

definition warm_cache :: "(position_key, position) dict \<Rightarrow> position_cache" where
  "warm_cache rows =
     fold (\<lambda>((account_id, bot_id, symbol), p) cache.
             if \<not> is_invalid_account_id (Some account_id)
             then dict_set (account_id, bot_id)
                    (dict_set symbol p (dict_default [] cache (account_id, bot_id))) cache
             else cache)
       (filter (\<lambda>(_, p). ps_quantity p > 0) rows) []"

subsection \<open>Writes\<close>

text \<open>\<open>INSERT .. ON CONFLICT DO UPDATE\<close>: the realised profit accumulates on conflict.\<close>

definition upsert_position ::
  "position_key \<Rightarrow> rat \<Rightarrow> rat \<Rightarrow> rat \<Rightarrow> (position_key, position) dict \<Rightarrow> (position_key, position) dict"
where
  "upsert_position key quantity avg_entry_price pnl_delta rows =
     (case dict_get rows key of
        None \<Rightarrow> dict_set key \<lparr>ps_quantity = quantity, ps_avg_entry_price = avg_entry_price,
                             ps_realized_pnl = pnl_delta\<rparr> rows
      | Some p \<Rightarrow> dict_set key \<lparr>ps_quantity = quantity, ps_avg_entry_price = avg_entry_price,
                               ps_realized_pnl = ps_realized_pnl p + pnl_delta\<rparr> rows)"

definition update_position ::
  "string \<Rightarrow> string \<Rightarrow> rat \<Rightarrow> rat \<Rightarrow> string \<Rightarrow> rat \<Rightarrow> position_state \<Rightarrow> account_id_error + position_state"
where
  "update_position bot_id symbol quantity avg_entry_price account_id realized_pnl_delta s =
     (case require_account_id ''position._update_position'' (Some account_id) of
        Inl e \<Rightarrow> Inl e
      | Inr acct \<Rightarrow>
          Inr (s\<lparr>pt_rows := upsert_position (acct, bot_id, symbol) quantity avg_entry_price
                              realized_pnl_delta (pt_rows s),
                 pt_cache := update_cache bot_id symbol quantity avg_entry_price acct
                              realized_pnl_delta (pt_cache s)\<rparr>))"

definition force_update ::
  "string \<Rightarrow> string \<Rightarrow> rat \<Rightarrow> rat \<Rightarrow> string \<Rightarrow> position_state \<Rightarrow> account_id_error + position_state" where
  "force_update bot_id symbol quantity avg_entry_price account_id s =
     (case require_account_id ''position.force_update'' (Some account_id) of
        Inl e \<Rightarrow> Inl e
      | Inr acct \<Rightarrow>
          let key = (acct, bot_id, symbol);
              row = (case dict_get (pt_rows s) key of
                       None \<Rightarrow> \<lparr>ps_quantity = quantity, ps_avg_entry_price = avg_entry_price,
                               ps_realized_pnl = 0\<rparr>
                     | Some p \<Rightarrow> p\<lparr>ps_quantity := quantity, ps_avg_entry_price := avg_entry_price\<rparr>)
          in Inr (s\<lparr>pt_rows := dict_set key row (pt_rows s),
                    pt_cache := update_cache bot_id symbol quantity avg_entry_price acct 0 (pt_cache s)\<rparr>))"

definition save_history ::
  "position_history_row \<Rightarrow> position_state \<Rightarrow> account_id_error + position_state" where
  "save_history h s =
     (case require_account_id ''position._save_history'' (Some (ph_account_id h)) of
        Inl e \<Rightarrow> Inl e
      | Inr _ \<Rightarrow> Inr (s\<lparr>pt_history := pt_history s @ [h]\<rparr>))"

subsection \<open>Reads\<close>

text \<open>Without an account the code takes the first row by \<open>account_id\<close>.\<close>

definition get_current ::
  "string \<Rightarrow> string \<Rightarrow> string option \<Rightarrow> position_state \<Rightarrow> account_id_error + position" where
  "get_current bot_id symbol account_id s =
     (case account_id of
        None \<Rightarrow>
          Inr (case sort_key (\<lambda>((a, _, _), _). a)
                      (filter (\<lambda>((_, b, sy), _). b = bot_id \<and> sy = symbol) (pt_rows s)) of
                 [] \<Rightarrow> empty_position
               | (_, p) # _ \<Rightarrow> p)
      | Some a \<Rightarrow>
          (case require_account_id ''position.get_current'' (Some a) of
             Inl e \<Rightarrow> Inl e
           | Inr acct \<Rightarrow> Inr (dict_default empty_position (pt_rows s) (acct, bot_id, symbol))))"

definition get_positions_sync ::
  "string \<Rightarrow> string option \<Rightarrow> position_state \<Rightarrow>
     account_id_error + (position_key \<times> position) list" where
  "get_positions_sync bot_id account_id s =
     (case account_id of
        Some a \<Rightarrow>
          (case require_account_id ''position.get_positions_sync'' (Some a) of
             Inl e \<Rightarrow> Inl e
           | Inr acct \<Rightarrow>
               Inr (map (\<lambda>(sy, p). ((acct, bot_id, sy), p))
                      (dict_default [] (pt_cache s) (acct, bot_id))))
      | None \<Rightarrow>
          Inr (concat (map (\<lambda>((a, b), d). map (\<lambda>(sy, p). ((a, b, sy), p)) d)
                 (filter (\<lambda>((_, b), _). b = bot_id) (sort_key fst (pt_cache s))))))"

text \<open>Rows with an invalid account id (legacy data) are skipped by every list query.\<close>

definition rows_to_snapshots ::
  "(position_key \<times> position) list \<Rightarrow> (position_key \<times> position) list" where
  "rows_to_snapshots rows = filter (\<lambda>((a, _, _), _). \<not> is_invalid_account_id (Some a)) rows"

definition get_positions ::
  "string \<Rightarrow> bool \<Rightarrow> string option \<Rightarrow> position_state \<Rightarrow>
     account_id_error + (position_key \<times> position) list" where
  "get_positions bot_id include_closed account_id s =
     (let shown = (\<lambda>p. include_closed \<or> ps_quantity p > 0)
      in case account_id of
           None \<Rightarrow> Inr (rows_to_snapshots
                         (filter (\<lambda>((_, b, _), p). b = bot_id \<and> shown p) (pt_rows s)))
         | Some a \<Rightarrow>
             (case require_account_id ''position.get_positions'' (Some a) of
                Inl e \<Rightarrow> Inl e
              | Inr acct \<Rightarrow>
                  Inr (rows_to_snapshots
                         (filter (\<lambda>((a', b, _), p). b = bot_id \<and> a' = acct \<and> shown p) (pt_rows s)))))"

definition get_all_positions ::
  "string option \<Rightarrow> position_state \<Rightarrow> account_id_error + (position_key \<times> position) list" where
  "get_all_positions account_id s =
     (case account_id of
        None \<Rightarrow> Inr (rows_to_snapshots (filter (\<lambda>(_, p). ps_quantity p > 0) (pt_rows s)))
      | Some a \<Rightarrow>
          (case require_account_id ''position.get_all_positions'' (Some a) of
             Inl e \<Rightarrow> Inl e
           | Inr acct \<Rightarrow>
               Inr (rows_to_snapshots
                      (filter (\<lambda>((a', _, _), p). ps_quantity p > 0 \<and> a' = acct) (pt_rows s)))))"

subsection \<open>\<open>on_trade\<close>\<close>

definition history_of :: "trade_record \<Rightarrow> string \<Rightarrow> rat \<Rightarrow> rat \<Rightarrow> position_history_row" where
  "history_of rec action quantity pnl =
     \<lparr>ph_bot_id = td_bot_id rec, ph_symbol = td_symbol rec, ph_action = action,
      ph_quantity = quantity, ph_price = td_price rec, ph_pnl = pnl,
      ph_account_id = td_account_id rec, ph_exchange = td_exchange rec,
      ph_trade_id = td_trade_id rec\<rparr>"

definition on_trade_buy ::
  "trade_record \<Rightarrow> position \<Rightarrow> position_state \<Rightarrow> account_id_error + position_state" where
  "on_trade_buy rec pos s =
     (let total_cost = ps_avg_entry_price pos * ps_quantity pos;
          new_cost = td_price rec * td_quantity rec;
          new_quantity = ps_quantity pos + td_quantity rec;
          new_avg = (if new_quantity > 0 then (total_cost + new_cost) / new_quantity else 0)
      in case update_position (td_bot_id rec) (td_symbol rec) new_quantity new_avg
                (td_account_id rec) 0 s of
           Inl e \<Rightarrow> Inl e
         | Inr s' \<Rightarrow> save_history (history_of rec ''buy'' (td_quantity rec) 0) s')"

definition on_trade_sell ::
  "trade_record \<Rightarrow> position \<Rightarrow> position_state \<Rightarrow> account_id_error + position_state" where
  "on_trade_sell rec pos s =
     (let held_qty = ps_quantity pos;
          effective_qty = min (td_quantity rec) held_qty;
          pnl = (td_price rec - ps_avg_entry_price pos) * effective_qty - td_commission rec;
          new_quantity = held_qty - td_quantity rec
      in case update_position (td_bot_id rec) (td_symbol rec) (max new_quantity 0)
                (if new_quantity > 0 then ps_avg_entry_price pos else 0) (td_account_id rec) pnl s of
           Inl e \<Rightarrow> Inl e
         | Inr s' \<Rightarrow> save_history (history_of rec ''sell'' effective_qty pnl) s')"

definition on_trade :: "trade_record \<Rightarrow> position_state \<Rightarrow> account_id_error + position_state" where
  "on_trade rec s =
     (if td_status rec \<noteq> T_FILLED then Inr s
      else case get_current (td_bot_id rec) (td_symbol rec) (Some (td_account_id rec)) s of
             Inl e \<Rightarrow> Inl e
           | Inr pos \<Rightarrow>
               if td_side rec = ''buy'' then on_trade_buy rec pos s
               else if td_side rec = ''sell'' then on_trade_sell rec pos s
               else Inr s)"

datatype position_event =
    On_trade trade_record
  | Force_update string string rat rat string
  | Pos_restart

fun position_step :: "position_state \<Rightarrow> position_event \<Rightarrow> position_state" where
  "position_step s (On_trade rec) = (case on_trade rec s of Inl _ \<Rightarrow> s | Inr s' \<Rightarrow> s')"
| "position_step s (Force_update b sy q avg acct) =
     (case force_update b sy q avg acct s of Inl _ \<Rightarrow> s | Inr s' \<Rightarrow> s')"
| "position_step s Pos_restart = s\<lparr>pt_cache := warm_cache (pt_rows s)\<rparr>"

definition no_positions :: position_state where
  "no_positions = \<lparr>pt_rows = [], pt_history = [], pt_cache = []\<rparr>"

subsection \<open>Reading the state\<close>

definition live_row :: "(position_key, position) dict \<Rightarrow> position_key \<Rightarrow> position option" where
  "live_row rows key =
     (case dict_get rows key of None \<Rightarrow> None | Some p \<Rightarrow> if ps_quantity p > 0 then Some p else None)"

definition holding :: "position option \<Rightarrow> (rat \<times> rat) option" where
  "holding p = map_option (\<lambda>p. (ps_quantity p, ps_avg_entry_price p)) p"

definition realized_of :: "position_key \<Rightarrow> position_state \<Rightarrow> rat" where
  "realized_of key s = ps_realized_pnl (dict_default empty_position (pt_rows s) key)"

definition history_pnl :: "position_key \<Rightarrow> position_history_row list \<Rightarrow> rat" where
  "history_pnl key hs =
     sum_list (map ph_pnl (filter (\<lambda>h. (ph_account_id h, ph_bot_id h, ph_symbol h) = key) hs))"

definition position_inv :: "position_state \<Rightarrow> bool" where
  "position_inv s \<longleftrightarrow> dict_wf (pt_rows s)
     \<and> (\<forall>a b sy p. dict_get (pt_rows s) (a, b, sy) = Some p \<longrightarrow> \<not> is_invalid_account_id (Some a))
     \<and> (\<forall>a b sy. holding (pos_cache_get (pt_cache s) a b sy) = holding (live_row (pt_rows s) (a, b, sy)))
     \<and> (\<forall>key. realized_of key s = history_pnl key (pt_history s))"

lemma position_invI:
  assumes "dict_wf (pt_rows s)"
    and "\<And>a b sy p. dict_get (pt_rows s) (a, b, sy) = Some p \<Longrightarrow> \<not> is_invalid_account_id (Some a)"
    and "\<And>a b sy. holding (pos_cache_get (pt_cache s) a b sy) = holding (live_row (pt_rows s) (a, b, sy))"
    and "\<And>key. realized_of key s = history_pnl key (pt_history s)"
  shows "position_inv s"
  using assms by (simp add: position_inv_def)

lemma position_invD:
  assumes "position_inv s"
  shows "dict_wf (pt_rows s)"
    and "dict_get (pt_rows s) (a, b, sy) = Some p \<Longrightarrow> \<not> is_invalid_account_id (Some a)"
    and "holding (pos_cache_get (pt_cache s) a b sy) = holding (live_row (pt_rows s) (a, b, sy))"
    and "realized_of key s = history_pnl key (pt_history s)"
  using assms unfolding position_inv_def by blast+

lemma history_pnl_snoc [simp]:
  "history_pnl key (hs @ [h]) =
     history_pnl key hs + (if (ph_account_id h, ph_bot_id h, ph_symbol h) = key then ph_pnl h else 0)"
  by (simp add: history_pnl_def)

lemma pos_cache_get_update:
  "pos_cache_get (update_cache b sy q avg a d cache) a' b' sy' =
     (if (a', b', sy') = (a, b, sy)
      then (if q > 0
            then Some \<lparr>ps_quantity = q, ps_avg_entry_price = avg,
                       ps_realized_pnl =
                         (case pos_cache_get cache a b sy of None \<Rightarrow> 0 | Some p \<Rightarrow> ps_realized_pnl p) + d\<rparr>
            else None)
      else pos_cache_get cache a' b' sy')"
proof -
  have pop_empty: "dict_get d k = None" if "dict_pop sy d = []" "k \<noteq> sy" for d :: "(string, position) dict" and k
  proof -
    have "dict_get (dict_pop sy d) k = None" using that(1) by simp
    then show ?thesis using that(2) by simp
  qed
  show ?thesis
    by (auto simp: update_cache_def pos_cache_get_def dict_default_def Let_def pop_empty
        split: option.splits dest: pop_empty)
qed

lemma dict_get_upsert:
  "dict_get (upsert_position key q avg d rows) key' =
     (if key' = key then Some \<lparr>ps_quantity = q, ps_avg_entry_price = avg,
        ps_realized_pnl = ps_realized_pnl (dict_default empty_position rows key) + d\<rparr>
      else dict_get rows key')"
  by (auto simp: upsert_position_def dict_default_def empty_position_def split: option.splits)

lemma dict_wf_upsert: "dict_wf rows \<Longrightarrow> dict_wf (upsert_position key q avg d rows)"
  by (auto simp: upsert_position_def split: option.splits)

lemma update_position_Inr:
  "update_position b sy q avg a d s = Inr s' \<longleftrightarrow>
     \<not> is_invalid_account_id (Some a) \<and>
     s' = s\<lparr>pt_rows := upsert_position (a, b, sy) q avg d (pt_rows s),
            pt_cache := update_cache b sy q avg a d (pt_cache s)\<rparr>"
  by (auto simp: update_position_def require_account_id_def split: option.splits)

lemma save_history_Inr:
  "save_history h s = Inr s' \<longleftrightarrow>
     \<not> is_invalid_account_id (Some (ph_account_id h)) \<and> s' = s\<lparr>pt_history := pt_history s @ [h]\<rparr>"
  by (auto simp: save_history_def require_account_id_def split: option.splits)

text \<open>Both sides of a trade are one write of the row, the cache and the history.\<close>

definition write_trade ::
  "trade_record \<Rightarrow> string \<Rightarrow> rat \<Rightarrow> rat \<Rightarrow> rat \<Rightarrow> rat \<Rightarrow> position_state \<Rightarrow> position_state" where
  "write_trade rec action q avg pnl hq s =
     s\<lparr>pt_rows := upsert_position (td_account_id rec, td_bot_id rec, td_symbol rec) q avg pnl (pt_rows s),
       pt_cache := update_cache (td_bot_id rec) (td_symbol rec) q avg (td_account_id rec) pnl (pt_cache s),
       pt_history := pt_history s @ [history_of rec action hq pnl]\<rparr>"

lemma write_trade_inv:
  assumes inv: "position_inv s" and acct: "\<not> is_invalid_account_id (Some (td_account_id rec))"
  shows "position_inv (write_trade rec action q avg pnl hq s)"
proof (rule position_invI)
  note D = position_invD [OF inv]
  show "dict_wf (pt_rows (write_trade rec action q avg pnl hq s))"
    using D(1) by (simp add: write_trade_def dict_wf_upsert)
  show "\<not> is_invalid_account_id (Some a)"
    if "dict_get (pt_rows (write_trade rec action q avg pnl hq s)) (a, b, sy) = Some p" for a b sy p
    using that D(2) acct by (auto simp: write_trade_def dict_get_upsert split: if_splits)
  show "holding (pos_cache_get (pt_cache (write_trade rec action q avg pnl hq s)) a b sy) =
      holding (live_row (pt_rows (write_trade rec action q avg pnl hq s)) (a, b, sy))" for a b sy
    using D(3) [of a b sy]
    by (auto simp: write_trade_def pos_cache_get_update live_row_def dict_get_upsert holding_def
        simp del: option.map_sel)
  show "realized_of key (write_trade rec action q avg pnl hq s) =
      history_pnl key (pt_history (write_trade rec action q avg pnl hq s))" for key
    using D(4) [of key]
    by (auto simp: write_trade_def realized_of_def dict_default_def dict_get_upsert history_of_def
        split: option.splits if_splits)
qed

lemma on_trade_Inr:
  assumes "on_trade rec s = Inr s'"
  obtains (same) "s' = s"
  | (buy) pos where "pos = dict_default empty_position (pt_rows s) (td_account_id rec, td_bot_id rec, td_symbol rec)"
      "\<not> is_invalid_account_id (Some (td_account_id rec))" "td_status rec = T_FILLED"
      "td_side rec = ''buy''"
      "s' = write_trade rec ''buy'' (ps_quantity pos + td_quantity rec)
         (if ps_quantity pos + td_quantity rec > 0
          then (ps_avg_entry_price pos * ps_quantity pos + td_price rec * td_quantity rec)
                 / (ps_quantity pos + td_quantity rec) else 0) 0 (td_quantity rec) s"
  | (sell) pos where "pos = dict_default empty_position (pt_rows s) (td_account_id rec, td_bot_id rec, td_symbol rec)"
      "\<not> is_invalid_account_id (Some (td_account_id rec))" "td_status rec = T_FILLED"
      "td_side rec = ''sell''"
      "s' = write_trade rec ''sell'' (max (ps_quantity pos - td_quantity rec) 0)
         (if ps_quantity pos - td_quantity rec > 0 then ps_avg_entry_price pos else 0)
         ((td_price rec - ps_avg_entry_price pos) * min (td_quantity rec) (ps_quantity pos) - td_commission rec)
         (min (td_quantity rec) (ps_quantity pos)) s"
  using assms
  by (auto simp: on_trade_def on_trade_buy_def on_trade_sell_def get_current_def Let_def
      update_position_Inr save_history_Inr write_trade_def history_of_def
      split: if_splits sum.splits)

lemma on_trade_inv:
  assumes inv: "position_inv s" and ok: "on_trade rec s = Inr s'"
  shows "position_inv s'"
  using ok by (cases rule: on_trade_Inr) (simp_all add: inv write_trade_inv)

lemma force_update_inv:
  assumes inv: "position_inv s" and ok: "force_update b sy q avg a s = Inr s'"
  shows "position_inv s'"
proof (rule position_invI)
  note D = position_invD [OF inv]
  from ok have acct: "\<not> is_invalid_account_id (Some a)"
    and s': "s' = s\<lparr>pt_rows := dict_set (a, b, sy)
        ((dict_default empty_position (pt_rows s) (a, b, sy))
           \<lparr>ps_quantity := q, ps_avg_entry_price := avg\<rparr>) (pt_rows s),
      pt_cache := update_cache b sy q avg a 0 (pt_cache s)\<rparr>"
    by (auto simp: force_update_def require_account_id_def dict_default_def empty_position_def Let_def
        split: option.splits if_splits)
  show "dict_wf (pt_rows s')" using D(1) by (simp add: s')
  show "\<not> is_invalid_account_id (Some a')" if "dict_get (pt_rows s') (a', b', sy') = Some p" for a' b' sy' p
    using that D(2) acct by (auto simp: s' split: if_splits)
  show "holding (pos_cache_get (pt_cache s') a' b' sy') = holding (live_row (pt_rows s') (a', b', sy'))"
    for a' b' sy'
    using D(3) [of a' b' sy'] by (auto simp: s' pos_cache_get_update live_row_def holding_def)
  show "realized_of key s' = history_pnl key (pt_history s')" for key
    using D(4) [of key] by (auto simp: s' realized_of_def dict_default_def empty_position_def)
qed

lemma pos_cache_get_set:
  "pos_cache_get (dict_set (a', b') (dict_set sy' p (dict_default [] c (a', b'))) c) a b sy =
     (if (a, b, sy) = (a', b', sy') then Some p else pos_cache_get c a b sy)"
  by (auto simp: pos_cache_get_def dict_default_def split: option.splits)

lemma pos_cache_get_warm_fold:
  "dict_wf rows \<Longrightarrow>
   pos_cache_get (fold (\<lambda>((account_id, bot_id, symbol), p) cache.
             if \<not> is_invalid_account_id (Some account_id)
             then dict_set (account_id, bot_id)
                    (dict_set symbol p (dict_default [] cache (account_id, bot_id))) cache
             else cache) rows c) a b sy =
     (case dict_get rows (a, b, sy) of
        None \<Rightarrow> pos_cache_get c a b sy
      | Some p \<Rightarrow> if is_invalid_account_id (Some a) then pos_cache_get c a b sy else Some p)"
proof (induction rows arbitrary: c)
  case (Cons kp rows)
  obtain a' b' sy' p where kp: "kp = ((a', b', sy'), p)" by (cases kp) auto
  with Cons.prems have none: "dict_get rows (a', b', sy') = None" and wf: "dict_wf rows" by auto
  show ?case
    using none by (auto simp: kp Cons.IH [OF wf] pos_cache_get_set split: option.splits)
qed simp

lemma pos_cache_get_warm:
  assumes "dict_wf rows"
  shows "pos_cache_get (warm_cache rows) a b sy =
    (if is_invalid_account_id (Some a) then None else live_row rows (a, b, sy))"
  using pos_cache_get_warm_fold [OF dict_wf_filter [OF assms]] assms
  by (auto simp: warm_cache_def dict_get_filter live_row_def pos_cache_get_def split: option.splits)

lemma pos_restart_inv:
  assumes inv: "position_inv s"
  shows "position_inv (s\<lparr>pt_cache := warm_cache (pt_rows s)\<rparr>)"
proof (rule position_invI)
  note D = position_invD [OF inv]
  show "holding (pos_cache_get (pt_cache (s\<lparr>pt_cache := warm_cache (pt_rows s)\<rparr>)) a b sy) =
      holding (live_row (pt_rows (s\<lparr>pt_cache := warm_cache (pt_rows s)\<rparr>)) (a, b, sy))" for a b sy
    using D(1) D(2) [of a b sy]
    by (auto simp: pos_cache_get_warm holding_def live_row_def split: option.splits)
  show "dict_wf (pt_rows (s\<lparr>pt_cache := warm_cache (pt_rows s)\<rparr>))" using D(1) by simp
  show "\<not> is_invalid_account_id (Some a)"
    if "dict_get (pt_rows (s\<lparr>pt_cache := warm_cache (pt_rows s)\<rparr>)) (a, b, sy) = Some p" for a b sy p
    using that by (intro D(2) [of a b sy p]) simp
  show "realized_of key (s\<lparr>pt_cache := warm_cache (pt_rows s)\<rparr>) =
      history_pnl key (pt_history (s\<lparr>pt_cache := warm_cache (pt_rows s)\<rparr>))" for key
    using D(4) [of key] by (simp add: realized_of_def)
qed

lemma position_step_inv: "position_inv s \<Longrightarrow> position_inv (position_step s e)"
  by (cases e) (auto intro: on_trade_inv force_update_inv pos_restart_inv split: sum.splits)

lemma no_positions_inv [simp]: "position_inv no_positions"
  by (simp add: position_inv_def no_positions_def live_row_def pos_cache_get_def holding_def
      realized_of_def history_pnl_def dict_default_def empty_position_def)

interpretation positions: guarded_machine position_step "\<lambda>_ _. True" position_inv
  by unfold_locales (simp add: position_step_inv)

subsection \<open>Profit and loss\<close>

text \<open>
  The cash a fill moves, as the position accounts for it: the sell side pays its commission from
  the realised profit, a buy's commission is not part of the position.
\<close>

definition trade_key :: "trade_record \<Rightarrow> position_key" where
  "trade_key rec = (td_account_id rec, td_bot_id rec, td_symbol rec)"

definition trade_cash :: "trade_record \<Rightarrow> rat" where
  "trade_cash rec =
     (if td_side rec = ''buy'' then - (td_price rec * td_quantity rec)
      else td_price rec * td_quantity rec - td_commission rec)"

definition cash_flow :: "position_key \<Rightarrow> trade_record list \<Rightarrow> rat" where
  "cash_flow key recs = sum_list (map trade_cash (filter (\<lambda>rec. trade_key rec = key) recs))"

definition held_of :: "position_key \<Rightarrow> position_state \<Rightarrow> rat" where
  "held_of key s = ps_quantity (dict_default empty_position (pt_rows s) key)"

definition cost_basis :: "position_key \<Rightarrow> position_state \<Rightarrow> rat" where
  "cost_basis key s =
     (let p = dict_default empty_position (pt_rows s) key in ps_quantity p * ps_avg_entry_price p)"

text \<open>A proper fill: valid account, positive quantity, and no more sold than is held.\<close>

definition proper_fill :: "position_state \<Rightarrow> trade_record \<Rightarrow> bool" where
  "proper_fill s rec \<longleftrightarrow> td_status rec = T_FILLED \<and> \<not> is_invalid_account_id (Some (td_account_id rec))
     \<and> 0 < td_quantity rec
     \<and> (td_side rec = ''buy'' \<or> td_side rec = ''sell'' \<and> td_quantity rec \<le> held_of (trade_key rec) s)"

definition trade_step :: "position_state \<Rightarrow> trade_record \<Rightarrow> position_state" where
  "trade_step s rec = position_step s (On_trade rec)"

lemma trade_step_write:
  assumes "proper_fill s rec"
  shows "trade_step s rec =
    (let pos = dict_default empty_position (pt_rows s) (trade_key rec)
     in if td_side rec = ''buy''
        then write_trade rec ''buy'' (ps_quantity pos + td_quantity rec)
               (if ps_quantity pos + td_quantity rec > 0
                then (ps_avg_entry_price pos * ps_quantity pos + td_price rec * td_quantity rec)
                       / (ps_quantity pos + td_quantity rec) else 0) 0 (td_quantity rec) s
        else write_trade rec ''sell'' (ps_quantity pos - td_quantity rec)
               (if ps_quantity pos - td_quantity rec > 0 then ps_avg_entry_price pos else 0)
               ((td_price rec - ps_avg_entry_price pos) * td_quantity rec - td_commission rec)
               (td_quantity rec) s)"
proof -
  have acct: "require_account_id c (Some (td_account_id rec)) = Inr (td_account_id rec)" for c
    using assms by (simp add: proper_fill_def)
  show ?thesis
    using assms
    by (auto simp: proper_fill_def trade_step_def on_trade_def on_trade_buy_def on_trade_sell_def
        get_current_def acct update_position_def save_history_def history_of_def write_trade_def
        held_of_def trade_key_def Let_def max_def min_def)
qed

lemma trade_step_other:
  assumes "proper_fill s rec" and "key \<noteq> trade_key rec"
  shows "dict_get (pt_rows (trade_step s rec)) key = dict_get (pt_rows s) key"
  unfolding trade_step_write [OF assms(1)] using assms(2)
  by (simp add: write_trade_def dict_get_upsert trade_key_def Let_def)

lemma trade_step_held:
  assumes "proper_fill s rec" and "0 \<le> held_of key s"
  shows "0 \<le> held_of key (trade_step s rec)"
proof (cases "key = trade_key rec")
  case True
  with assms show ?thesis
    unfolding trade_step_write [OF assms(1)]
    by (auto simp: write_trade_def dict_get_upsert trade_key_def Let_def held_of_def
        dict_default_def proper_fill_def split: option.splits)
next
  case False
  with assms trade_step_other show ?thesis by (simp add: held_of_def dict_default_def)
qed

lemma trade_step_value:
  assumes "proper_fill s rec" and "\<And>k. 0 \<le> held_of k s"
  shows "realized_of key (trade_step s rec) - cost_basis key (trade_step s rec) =
    realized_of key s - cost_basis key s + (if trade_key rec = key then trade_cash rec else 0)"
proof (cases "key = trade_key rec")
  case True
  let ?p = "dict_default empty_position (pt_rows s) key"
  have p: "0 \<le> ps_quantity ?p" using assms(2) [of key] by (simp add: held_of_def)
  have q: "0 < td_quantity rec" using assms(1) by (simp add: proper_fill_def)
  have row: "dict_default empty_position (pt_rows (write_trade rec act x y z w s)) key =
      \<lparr>ps_quantity = x, ps_avg_entry_price = y, ps_realized_pnl = ps_realized_pnl ?p + z\<rparr>" for act x y z w
    using True by (simp add: dict_default_def write_trade_def dict_get_upsert trade_key_def)
  have pos: "0 < ps_quantity ?p + td_quantity rec" using p q by simp
  show ?thesis
  proof (cases "td_side rec = ''buy''")
    case side: True
    then show ?thesis
      unfolding trade_step_write [OF assms(1)]
      using pos
      by (simp add: realized_of_def cost_basis_def row trade_cash_def Let_def True [symmetric])
  next
    case side: False
    then have "td_quantity rec \<le> ps_quantity ?p"
      using assms(1) True by (auto simp: proper_fill_def held_of_def)
    with side show ?thesis
      unfolding trade_step_write [OF assms(1)]
      by (auto simp: realized_of_def cost_basis_def row trade_cash_def Let_def True [symmetric] algebra_simps)
  qed
next
  case False
  with trade_step_other [OF assms(1) False] show ?thesis
    by (auto simp: realized_of_def cost_basis_def dict_default_def)
qed

text \<open>The accounting law as an invariant of runs of proper fills, from any state.\<close>

lemma pnl_run:
  assumes "admissible trade_step proper_fill s recs" and "\<And>k. 0 \<le> held_of k s"
  shows "realized_of key (run trade_step s recs) - cost_basis key (run trade_step s recs) =
    realized_of key s - cost_basis key s + cash_flow key recs"
  using assms
proof (induction recs arbitrary: s)
  case Nil
  then show ?case by (simp add: cash_flow_def)
next
  case (Cons rec recs)
  have "0 \<le> held_of k (trade_step s rec)" for k
    using Cons.prems trade_step_held by auto
  with Cons have "realized_of key (run trade_step (trade_step s rec) recs)
      - cost_basis key (run trade_step (trade_step s rec) recs) =
      realized_of key (trade_step s rec) - cost_basis key (trade_step s rec) + cash_flow key recs"
    by auto
  with trade_step_value [of s rec key] Cons.prems show ?case
    by (auto simp: cash_flow_def)
qed

interpretation fills: guarded_machine trade_step proper_fill "\<lambda>s. \<forall>k. 0 \<le> held_of k s"
  by unfold_locales (simp add: trade_step_held)

lemma held_no_positions [simp]: "held_of k no_positions = 0"
  by (simp add: held_of_def no_positions_def dict_default_def empty_position_def)

lemma pos_cache_get_sync:
  assumes "get_positions_sync b (Some a) s = Inr ps"
  shows "dict_get ps (a, b, sy) = pos_cache_get (pt_cache s) a b sy"
proof -
  have "dict_get (map (\<lambda>(sy, p). ((a, b, sy), p)) d) (a, b, sy) = dict_get d sy"
    for d :: "(string, position) dict"
    by (induction d) auto
  then show ?thesis
    using assms by (auto simp: get_positions_sync_def pos_cache_get_def dict_default_def
        split: sum.splits option.splits)
qed

text \<open>Whether a position was closed at some point since the process last started.\<close>

fun closed_since_start :: "position_key \<Rightarrow> position_state \<Rightarrow> bool \<Rightarrow> position_event list \<Rightarrow> bool" where
  "closed_since_start key s shut [] = shut"
| "closed_since_start key s shut (e # es) =
     closed_since_start key (position_step s e)
       (e \<noteq> Pos_restart \<and> (shut \<or> dict_get (pt_rows s) key \<noteq> None \<and> live_row (pt_rows s) key = None)) es"

lemma write_trade_view:
  assumes "pos_cache_get (pt_cache s) a b sy = live_row (pt_rows s) (a, b, sy)"
    and "dict_get (pt_rows s) (a, b, sy) \<noteq> None \<longrightarrow> live_row (pt_rows s) (a, b, sy) \<noteq> None"
  shows "pos_cache_get (pt_cache (write_trade rec action q avg pnl hq s)) a b sy =
    live_row (pt_rows (write_trade rec action q avg pnl hq s)) (a, b, sy)"
  using assms
  by (auto simp: write_trade_def pos_cache_get_update live_row_def dict_get_upsert dict_default_def
      empty_position_def split: option.splits if_splits)

lemma position_step_view:
  assumes inv: "position_inv s" and view: "pos_cache_get (pt_cache s) a b sy = live_row (pt_rows s) (a, b, sy)"
    and open_row: "dict_get (pt_rows s) (a, b, sy) \<noteq> None \<longrightarrow> live_row (pt_rows s) (a, b, sy) \<noteq> None"
  shows "pos_cache_get (pt_cache (position_step s e)) a b sy = live_row (pt_rows (position_step s e)) (a, b, sy)"
proof (cases e)
  case (On_trade rec)
  show ?thesis
  proof (cases "on_trade rec s")
    case (Inr s')
    then have "pos_cache_get (pt_cache s') a b sy = live_row (pt_rows s') (a, b, sy)"
      by (cases rule: on_trade_Inr) (simp_all add: view write_trade_view [OF view open_row])
    then show ?thesis by (simp add: On_trade Inr)
  qed (simp add: On_trade view)
next
  case (Force_update b' sy' q avg acct)
  with view open_row show ?thesis
    by (auto simp: force_update_def require_account_id_def Let_def pos_cache_get_update live_row_def
        split: option.splits if_splits sum.splits)
next
  case Pos_restart
  with position_invD(1,2) [OF inv] show ?thesis
    by (auto simp: pos_cache_get_warm live_row_def split: option.splits)
qed

lemma restart_view:
  assumes "position_inv s"
  shows "pos_cache_get (pt_cache (position_step s Pos_restart)) a b sy =
    live_row (pt_rows (position_step s Pos_restart)) (a, b, sy)"
  using position_invD(1,2) [OF assms] by (auto simp: pos_cache_get_warm live_row_def split: option.splits)

lemma view_run:
  assumes "position_inv s" and "\<not> shut \<longrightarrow> pos_cache_get (pt_cache s) a b sy = live_row (pt_rows s) (a, b, sy)"
    and "\<not> closed_since_start (a, b, sy) s shut es"
  shows "pos_cache_get (pt_cache (run position_step s es)) a b sy =
    live_row (pt_rows (run position_step s es)) (a, b, sy)"
  using assms
proof (induction es arbitrary: s shut)
  case (Cons e es)
  show ?case
    unfolding run.simps
  proof (rule Cons.IH)
    show "position_inv (position_step s e)" by (rule position_step_inv [OF Cons.prems(1)])
    show "\<not> closed_since_start (a, b, sy) (position_step s e) (e \<noteq> Pos_restart \<and> (shut
        \<or> dict_get (pt_rows s) (a, b, sy) \<noteq> None \<and> live_row (pt_rows s) (a, b, sy) = None)) es"
      using Cons.prems(3) by simp
    show "\<not> (e \<noteq> Pos_restart \<and> (shut
        \<or> dict_get (pt_rows s) (a, b, sy) \<noteq> None \<and> live_row (pt_rows s) (a, b, sy) = None)) \<longrightarrow>
      pos_cache_get (pt_cache (position_step s e)) a b sy = live_row (pt_rows (position_step s e)) (a, b, sy)"
      using Cons.prems(1,2) restart_view position_step_view by blast
  qed
qed simp

subsection \<open>Properties\<close>


text \<open>
  Realised profit is fully explained by the history: the accumulated profit of every row is the
  sum of the profits of its history rows, through any sequence of events.
\<close>

theorem realized_pnl_is_history_sum:
  "realized_of key (run position_step no_positions es) =
     history_pnl key (pt_history (run position_step no_positions es))"
  by (rule position_invD(4) [OF positions.run_inv]) simp_all

text \<open>
  What the account pays and receives for the fills of a position, commissions included, and the
  commissions of its purchases, which the position table leaves out of the cost.
\<close>

definition net_cash :: "position_key \<Rightarrow> trade_record list \<Rightarrow> rat" where
  "net_cash key recs =
     sum_list (map (\<lambda>rec. (if td_side rec = ''buy'' then - (td_price rec * td_quantity rec)
                           else td_price rec * td_quantity rec) - td_commission rec)
       (filter (\<lambda>rec. trade_key rec = key) recs))"

definition purchase_commissions :: "position_key \<Rightarrow> trade_record list \<Rightarrow> rat" where
  "purchase_commissions key recs =
     sum_list (map td_commission (filter (\<lambda>rec. trade_key rec = key \<and> td_side rec = ''buy'') recs))"

lemma cash_flow_net: "cash_flow key recs = net_cash key recs + purchase_commissions key recs"
  by (induction recs) (auto simp: cash_flow_def net_cash_def purchase_commissions_def trade_cash_def)

text \<open>
  C16. Profit and loss is conserved: over any sequence of proper fills (filled buys and sales of a
  positive quantity for a valid account, no sale exceeding what is held), the realised profit of a
  position less the cost of what is still held is exactly the net cash its fills moved, commissions
  included, plus the commissions of the purchases, which the position does not carry.  Averaging
  the entry price loses nothing.
\<close>

theorem pnl_conservation:
  assumes "admissible trade_step proper_fill no_positions recs"
  shows "realized_of key (run trade_step no_positions recs)
    - cost_basis key (run trade_step no_positions recs) = net_cash key recs + purchase_commissions key recs"
  using pnl_run [OF assms, of key]
  by (simp add: realized_of_def cost_basis_def no_positions_def dict_default_def empty_position_def
      held_of_def cash_flow_net)

definition sample_fill :: "string \<Rightarrow> rat \<Rightarrow> rat \<Rightarrow> trade_record" where
  "sample_fill side quantity price =
     \<lparr>td_trade_id = ''t'', td_bot_id = ''bot-1'', td_strategy_id = ''s'', td_symbol = ''005930'',
      td_side = side, td_quantity = quantity, td_price = price, td_status = T_FILLED,
      td_order_type = ''limit'', td_commission = 0, td_order_id = None, td_exchange = ''KRX'',
      td_account_id = ''acct-1''\<rparr>"

text \<open>
  The cached realised profit is not cumulative: once a sell closes a position and a later buy
  reopens it, the table's realised profit still carries everything earned so far, while the cached
  one that strategies read restarts from 0 (until the next restart reloads it from the table).
\<close>

theorem reopened_position_pnl_reset:
  assumes inv: "position_inv s"
    and sell: "td_side rec1 = ''sell''" "td_status rec1 = T_FILLED"
      "held_of (trade_key rec1) s \<le> td_quantity rec1"
    and buy: "td_side rec2 = ''buy''" "td_status rec2 = T_FILLED" "0 < td_quantity rec2"
    and key: "trade_key rec1 = (a, b, sy)" "trade_key rec2 = (a, b, sy)"
    and acct: "\<not> is_invalid_account_id (Some a)"
    and s': "s' = run position_step s [On_trade rec1, On_trade rec2]"
  shows "(\<exists>p. pos_cache_get (pt_cache s') a b sy = Some p \<and> ps_realized_pnl p = 0)
    \<and> realized_of (a, b, sy) s' = realized_of (a, b, sy) s
      + ((td_price rec1 - ps_avg_entry_price (dict_default empty_position (pt_rows s) (a, b, sy)))
           * held_of (a, b, sy) s - td_commission rec1)"
proof -
  let ?p = "dict_default empty_position (pt_rows s) (a, b, sy)"
  have req: "require_account_id c (Some a) = Inr a" for c using acct by simp
  have id1: "td_account_id rec1 = a" "td_bot_id rec1 = b" "td_symbol rec1 = sy"
    and id2: "td_account_id rec2 = a" "td_bot_id rec2 = b" "td_symbol rec2 = sy"
    using key by (auto simp: trade_key_def)
  have held: "ps_quantity ?p \<le> td_quantity rec1" using sell(3) key by (simp add: held_of_def)
  define pnl where "pnl = (td_price rec1 - ps_avg_entry_price ?p) * ps_quantity ?p - td_commission rec1"
  define s1 where "s1 = write_trade rec1 ''sell'' 0 0 pnl (ps_quantity ?p) s"
  have s1: "position_step s (On_trade rec1) = s1"
    using sell held
    by (simp add: on_trade_def on_trade_sell_def get_current_def req update_position_def save_history_def
        id1 s1_def write_trade_def history_of_def pnl_def Let_def max_def min_def)
  have row1: "dict_default empty_position (pt_rows s1) (a, b, sy) =
      \<lparr>ps_quantity = 0, ps_avg_entry_price = 0, ps_realized_pnl = ps_realized_pnl ?p + pnl\<rparr>"
    by (simp add: s1_def write_trade_def dict_get_upsert id1 dict_default_def)
  have cache1: "pos_cache_get (pt_cache s1) a b sy = None"
    by (simp add: s1_def write_trade_def pos_cache_get_update id1)
  have s2: "s' = write_trade rec2 ''buy'' (td_quantity rec2)
      (td_price rec2 * td_quantity rec2 / td_quantity rec2) 0 (td_quantity rec2) s1"
    using buy unfolding s' run.simps s1
    by (simp add: on_trade_def on_trade_buy_def get_current_def req update_position_def save_history_def
        id2 row1 write_trade_def history_of_def Let_def)
  have "\<exists>p. pos_cache_get (pt_cache s') a b sy = Some p \<and> ps_realized_pnl p = 0"
    using buy(3) cache1 by (simp add: s2 write_trade_def pos_cache_get_update id2)
  moreover have "realized_of (a, b, sy) s' = realized_of (a, b, sy) s
      + ((td_price rec1 - ps_avg_entry_price ?p) * held_of (a, b, sy) s - td_commission rec1)"
    using row1
    by (simp add: realized_of_def s2 write_trade_def dict_get_upsert id2 dict_default_def held_of_def pnl_def
        split: option.splits)
  ultimately show ?thesis by blast
qed

subsection \<open>The properties on concrete fills\<close>

definition sample_positions :: position_state where
  "sample_positions = run position_step no_positions [On_trade (sample_fill ''buy'' 10 100)]"

lemma sample_positions_inv: "position_inv sample_positions"
  unfolding sample_positions_def
  by (rule positions.run_inv [OF _ admissible_True]) simp


definition sample_fills :: "trade_record list" where
  "sample_fills = [(sample_fill ''buy'' 10 100)\<lparr>td_commission := 5\<rparr>, (sample_fill ''sell'' 4 130)\<lparr>td_commission := 2\<rparr>]"

theorem pnl_conservation_witness:
  "realized_of (''acct-1'', ''bot-1'', ''005930'') (run trade_step no_positions sample_fills)
   - cost_basis (''acct-1'', ''bot-1'', ''005930'') (run trade_step no_positions sample_fills) = -482
   \<and> net_cash (''acct-1'', ''bot-1'', ''005930'') sample_fills = -487"
proof -
  have adm: "admissible trade_step proper_fill no_positions sample_fills" by code_simp
  have c: "net_cash (''acct-1'', ''bot-1'', ''005930'') sample_fills = -487"
    "purchase_commissions (''acct-1'', ''bot-1'', ''005930'') sample_fills = 5"
    by code_simp+
  show ?thesis using pnl_conservation [OF adm, of "(''acct-1'', ''bot-1'', ''005930'')"] c by simp
qed


theorem reopened_position_pnl_reset_witness:
  "(\<exists>p. pos_cache_get (pt_cache (run position_step sample_positions
        [On_trade (sample_fill ''sell'' 10 130), On_trade (sample_fill ''buy'' 5 90)])) ''acct-1'' ''bot-1'' ''005930'' = Some p
        \<and> ps_realized_pnl p = 0)
   \<and> realized_of (''acct-1'', ''bot-1'', ''005930'')
     (run position_step sample_positions [On_trade (sample_fill ''sell'' 10 130), On_trade (sample_fill ''buy'' 5 90)]) = 300"
proof -
  have sell: "td_side (sample_fill ''sell'' 10 130) = ''sell''" "td_status (sample_fill ''sell'' 10 130) = T_FILLED"
    "held_of (trade_key (sample_fill ''sell'' 10 130)) sample_positions \<le> td_quantity (sample_fill ''sell'' 10 130)"
    by code_simp+
  have buy: "td_side (sample_fill ''buy'' 5 90) = ''buy''" "td_status (sample_fill ''buy'' 5 90) = T_FILLED"
    "0 < td_quantity (sample_fill ''buy'' 5 90)"
    by code_simp+
  have key: "trade_key (sample_fill ''sell'' 10 130) = (''acct-1'', ''bot-1'', ''005930'')"
    "trade_key (sample_fill ''buy'' 5 90) = (''acct-1'', ''bot-1'', ''005930'')"
    "\<not> is_invalid_account_id (Some ''acct-1'')"
    by code_simp+
  have h: "realized_of (''acct-1'', ''bot-1'', ''005930'')
     (run position_step sample_positions [On_trade (sample_fill ''sell'' 10 130), On_trade (sample_fill ''buy'' 5 90)]) = 300"
    by code_simp
  show ?thesis
    using reopened_position_pnl_reset [OF sample_positions_inv sell buy key refl] h by blast
qed

end
