(* ===== verification/Python_Values.thy ===== *)
theory Python_Values
  imports Prelude
begin

text \<open>
  Python values whose type the code tests at run time: fields of events and configuration values.

  A float is a \<open>pyfloat\<close>.  An int is finite for the code if it converts to a float: an int of at least
  \<open>2^1024 - 2^970\<close> in absolute value raises \<open>OverflowError\<close>.  Operators return \<^theory_text>\<open>None\<close> where Python
  raises.  \<open>Py_other\<close> is any other object: its type name, its \<open>repr\<close> (\<^theory_text>\<open>None\<close> if that raises) and
  its truth value.
\<close>

datatype pyval =
    Py_none
  | Py_bool bool
  | Py_int int
  | Py_float pyfloat
  | Py_str string
  | Py_other string "string option" bool

definition int_fits_float :: "int \<Rightarrow> bool" where
  "int_fits_float n \<longleftrightarrow> abs n < 2 ^ 1024 - 2 ^ 970"

subsection \<open>Numbers\<close>

text \<open>The number a comparison sees; an int compares exactly.\<close>

fun py_number :: "pyval \<Rightarrow> pyfloat option" where
  "py_number (Py_bool b) = Some (Fin (if b then 1 else 0))"
| "py_number (Py_int n) = Some (Fin (of_int n))"
| "py_number (Py_float x) = Some x"
| "py_number _ = None"

text \<open>The operand of an arithmetic operation with a float.\<close>

fun as_float :: "pyval \<Rightarrow> pyfloat option" where
  "as_float (Py_int n) = (if int_fits_float n then Some (Fin (of_int n)) else None)"
| "as_float v = py_number v"

definition py_less :: "pyval \<Rightarrow> pyval \<Rightarrow> bool option" where
  "py_less a b =
     (case (py_number a, py_number b) of (Some x, Some y) \<Rightarrow> Some (flt x y) | _ \<Rightarrow> None)"

definition py_less_eq :: "pyval \<Rightarrow> pyval \<Rightarrow> bool option" where
  "py_less_eq a b =
     (case (py_number a, py_number b) of (Some x, Some y) \<Rightarrow> Some (fle x y) | _ \<Rightarrow> None)"

text \<open>\<open>min(a, b)\<close> keeps \<open>a\<close> unless \<open>b < a\<close>.\<close>

definition py_min :: "pyval \<Rightarrow> pyval \<Rightarrow> pyval option" where
  "py_min a b = map_option (\<lambda>less. if less then b else a) (py_less b a)"

text \<open>A finite float plus, or times, any float.\<close>

fun fplus :: "rat \<Rightarrow> pyfloat \<Rightarrow> pyfloat" where
  "fplus x (Fin y) = Fin (x + y)"
| "fplus x y = y"

fun ftimes :: "rat \<Rightarrow> pyfloat \<Rightarrow> pyfloat" where
  "ftimes x (Fin y) = Fin (x * y)"
| "ftimes x PInf = (if 0 < x then PInf else if x < 0 then NInf else NaN)"
| "ftimes x NInf = (if 0 < x then NInf else if x < 0 then PInf else NaN)"
| "ftimes x NaN = NaN"

definition py_times :: "rat \<Rightarrow> pyval \<Rightarrow> pyfloat option" where
  "py_times x v = map_option (ftimes x) (as_float v)"

text \<open>Formatting a number with a fixed-point format converts an int to a float first.\<close>

fun formats :: "pyval \<Rightarrow> bool" where
  "formats (Py_int n) = int_fits_float n"
| "formats v = (py_number v \<noteq> None)"

fun truthy :: "pyval \<Rightarrow> bool" where
  "truthy Py_none = False"
| "truthy (Py_bool b) = b"
| "truthy (Py_int n) = (n \<noteq> 0)"
| "truthy (Py_float x) = (x \<noteq> Fin 0)"
| "truthy (Py_str s) = (s \<noteq> '''')"
| "truthy (Py_other _ _ b) = b"

lemma py_number_as_float: "as_float v = Some x \<Longrightarrow> py_number v = Some x"
  by (cases v) (auto split: if_splits)

lemma int_fits_float_small: "abs n \<le> 2 ^ 53 \<Longrightarrow> int_fits_float n"
  by (simp add: int_fits_float_def)

subsection \<open>Strings\<close>

fun split_at :: "char \<Rightarrow> string \<Rightarrow> string list" where
  "split_at sep [] = [[]]"
| "split_at sep (c # cs) =
     (if c = sep then [] # split_at sep cs
      else (case split_at sep cs of [] \<Rightarrow> [[c]] | p # ps \<Rightarrow> (c # p) # ps))"

definition is_space :: "char \<Rightarrow> bool" where
  "is_space c \<longleftrightarrow> (let n = (of_char c :: nat) in n \<in> set [32, 133, 160] \<or> (9 \<le> n \<and> n \<le> 13) \<or> (28 \<le> n \<and> n \<le> 31))"

definition strip :: "string \<Rightarrow> string" where
  "strip s = rev (dropWhile is_space (rev (dropWhile is_space s)))"

definition is_digit_char :: "char \<Rightarrow> bool" where
  "is_digit_char c \<longleftrightarrow> (let n = (of_char c :: nat) in 48 \<le> n \<and> n \<le> 57)"

definition two_digits :: "char \<Rightarrow> char \<Rightarrow> int option" where
  "two_digits c d =
     (if is_digit_char c \<and> is_digit_char d then Some ((of_char c - 48) * 10 + (of_char d - 48)) else None)"

definition clock_time :: "int option \<Rightarrow> int option \<Rightarrow> int option \<Rightarrow> int option" where
  "clock_time h m s =
     (case (h, m, s) of
        (Some h, Some m, Some s) \<Rightarrow>
          if h < 24 \<and> m < 60 \<and> s < 60 then Some (((h * 60 + m) * 60 + s) * 1000000) else None
      | _ \<Rightarrow> None)"

text \<open>
  \<open>time.fromisoformat\<close>, in microseconds since midnight; \<^theory_text>\<open>None\<close> is \<open>ValueError\<close>.  Texts with a
  leading \<open>T\<close>, a fraction of a second or a UTC offset are outside the model.
\<close>

fun time_fromisoformat :: "string \<Rightarrow> int option" where
  "time_fromisoformat [a, b] = clock_time (two_digits a b) (Some 0) (Some 0)"
| "time_fromisoformat [a, b, c, d] = clock_time (two_digits a b) (two_digits c d) (Some 0)"
| "time_fromisoformat [a, b, s, c, d] =
     (if s = CHR '':'' then clock_time (two_digits a b) (two_digits c d) (Some 0) else None)"
| "time_fromisoformat [a, b, c, d, e, f] = clock_time (two_digits a b) (two_digits c d) (two_digits e f)"
| "time_fromisoformat [a, b, s, c, d, t, e, f] =
     (if s = CHR '':'' \<and> t = CHR '':''
      then clock_time (two_digits a b) (two_digits c d) (two_digits e f) else None)"
| "time_fromisoformat _ = None"

end
