(* ===== verification/Order_Events.thy ===== *)
theory Order_Events
  imports Account_Gate Python_Values
begin

text \<open>
  The order events of \<open>src/src/ante/eventbus/events.py\<close> that the modelled components exchange, with
  the fields those components read.  \<open>event_id\<close> and \<open>timestamp\<close> are left out.

  \<open>fill_dedup_key\<close> (\<open>src/src/ante/trade/fill_outbox.py\<close>, \<open>make_fill_dedup_key\<close>) is the string
  \<open>order_id:repr(cumulative)\<close>; \<open>repr\<close> is injective on floats and its text has no colon, so the
  string determines the pair and the model keeps the pair.  The empty string is \<^theory_text>\<open>None\<close>.
\<close>

type_synonym dedup_key = "string \<times> rat"

definition make_fill_dedup_key :: "string \<Rightarrow> rat \<Rightarrow> dedup_key" where
  "make_fill_dedup_key order_id confirmed_cumulative = (order_id, confirmed_cumulative)"

record order_filled =
  ev_account_id :: string
  ev_order_id :: string
  ev_broker_order_id :: string
  ev_bot_id :: string
  ev_strategy_id :: string
  ev_symbol :: string
  ev_side :: string
  ev_quantity :: rat
  ev_price :: rat
  ev_commission :: rat
  ev_order_type :: string
  ev_exchange :: string
  ev_fill_dedup_key :: "dedup_key option"

text \<open>\<open>OrderValidatedEvent\<close>, the input of the treasury's reservation step.\<close>

record order_validated =
  vd_account_id :: string
  vd_order_id :: string
  vd_bot_id :: string
  vd_strategy_id :: string
  vd_symbol :: string
  vd_side :: string
  vd_quantity :: rat
  vd_price :: "rat option"
  vd_order_type :: string
  vd_stop_price :: "rat option"
  vd_reason :: string
  vd_exchange :: string

text \<open>
  \<open>OrderRequestEvent\<close> as it leaves a strategy: the fields the rule engine tests for their type are
  Python values.
\<close>

record order_request =
  or_event_id :: string
  or_account_id :: string
  or_bot_id :: string
  or_strategy_id :: string
  or_symbol :: string
  or_side :: pyval
  or_quantity :: pyval
  or_order_type :: pyval
  or_price :: pyval
  or_stop_price :: pyval
  or_reason :: string
  or_exchange :: string

text \<open>\<open>OrderModifyEvent\<close>; \<open>om_consumed\<close> is the transient marker \<open>_consumed\<close>.\<close>

record order_modify =
  om_account_id :: string
  om_order_id :: string
  om_bot_id :: string
  om_strategy_id :: string
  om_symbol :: string
  om_side :: string
  om_quantity :: pyval
  om_price :: pyval
  om_reason :: string
  om_consumed :: bool

end
