(* ===== verification/Fill_Pipeline.thy ===== *)
theory Fill_Pipeline
  imports Order_Tracker Positions Order_Events
begin

text \<open>
  \<open>src/src/ante/trade/fill_applier.py\<close> and \<open>src/src/ante/trade/fill_outbox.py\<close>: the one place where an
  observed execution becomes a trade, a position and an event, and the worker that publishes the
  events.

  The state puts together what the code keeps in one database (order table, trades, positions,
  outbox) and in memory (open-order cache, position cache), plus the events handed to the bus.
  \<open>db_point\<close> names the statement of the transaction that raises; a raise rolls the tables back
  and leaves memory as it is at that moment.  The lock of the applier makes one call one step.
  Times are numbers of seconds.
\<close>

subsection \<open>State\<close>

record outbox_row =
  ob_id :: nat
  ob_key :: dedup_key
  ob_payload :: order_filled
  ob_published :: bool

record fill_state =
  fs_tracker :: order_tracker
  fs_positions :: position_state
  fs_trades :: "(string, trade_record) dict"
  fs_has_outbox :: bool
  fs_outbox :: "outbox_row list"
  fs_delivered :: "order_filled list"

datatype db_point =
  At_record_fill | At_save_trade | At_update_position | At_save_history | At_enqueue | At_commit

datatype apply_error = Apply_account account_id_error | Db_fault db_point

subsection \<open>The outbox table\<close>

text \<open>Rows are never deleted, so \<open>AUTOINCREMENT\<close> hands out one more than their number.\<close>

definition enqueue :: "dedup_key \<Rightarrow> order_filled \<Rightarrow> outbox_row list \<Rightarrow> outbox_row list" where
  "enqueue key payload rows =
     (if \<exists>r\<in>set rows. ob_key r = key then rows
      else rows @ [\<lparr>ob_id = length rows + 1, ob_key = key, ob_payload = payload, ob_published = False\<rparr>])"

definition fetch_unpublished :: "nat \<Rightarrow> outbox_row list \<Rightarrow> outbox_row list" where
  "fetch_unpublished limit rows = take limit (filter (\<lambda>r. \<not> ob_published r) rows)"

definition mark_published :: "nat \<Rightarrow> outbox_row list \<Rightarrow> outbox_row list" where
  "mark_published row_id rows =
     map (\<lambda>r. if ob_id r = row_id then r\<lparr>ob_published := True\<rparr> else r) rows"

subsection \<open>Applying an execution\<close>

definition exchange_or_krx :: "string option \<Rightarrow> string" where
  "exchange_or_krx e = (case e of None \<Rightarrow> ''KRX'' | Some x \<Rightarrow> if x = [] then ''KRX'' else x)"

text \<open>\<open>INSERT OR IGNORE\<close> on the primary key \<open>trade_id\<close>.\<close>

definition save_trade :: "trade_record \<Rightarrow> (string, trade_record) dict \<Rightarrow> (string, trade_record) dict" where
  "save_trade trade trades = insert_or_ignore (td_trade_id trade) trade trades"

text \<open>
  The payload is the event without its commission: \<open>OrderFilledEvent\<close> then takes its default 0.
\<close>

definition build_payload :: "order_row \<Rightarrow> string \<Rightarrow> rat \<Rightarrow> rat \<Rightarrow> dedup_key option \<Rightarrow> order_filled" where
  "build_payload record order_id delta avg_price fill_dedup_key =
     \<lparr>ev_account_id = ot_account_id record, ev_order_id = order_id,
      ev_broker_order_id = ot_broker_order_id record, ev_bot_id = ot_bot_id record,
      ev_strategy_id = ot_strategy_id record, ev_symbol = ot_symbol record,
      ev_side = ot_side record, ev_quantity = delta, ev_price = avg_price, ev_commission = 0,
      ev_order_type = ot_order_type record, ev_exchange = exchange_or_krx (ot_exchange record),
      ev_fill_dedup_key = fill_dedup_key\<rparr>"

definition publish_filled :: "order_row \<Rightarrow> string \<Rightarrow> rat \<Rightarrow> rat \<Rightarrow> fill_state \<Rightarrow> fill_state" where
  "publish_filled record order_id delta avg_price s =
     s\<lparr>fs_delivered := fs_delivered s @ [build_payload record order_id delta avg_price None]\<rparr>"

definition fill_trade ::
  "string \<Rightarrow> order_row \<Rightarrow> string \<Rightarrow> rat \<Rightarrow> rat \<Rightarrow> string \<Rightarrow> trade_record" where
  "fill_trade trade_id record order_id delta avg_price account_id =
     \<lparr>td_trade_id = trade_id, td_bot_id = ot_bot_id record, td_strategy_id = ot_strategy_id record,
      td_symbol = ot_symbol record, td_side = ot_side record, td_quantity = delta,
      td_price = avg_price, td_status = T_FILLED, td_order_type = ot_order_type record,
      td_commission = 0, td_order_id = Some order_id,
      td_exchange = exchange_or_krx (ot_exchange record), td_account_id = account_id\<rparr>"

text \<open>
  The body of the transaction, statement by statement, with the state at the point where it ends.
  \<open>on_trade\<close> updates its cache between its two statements, so a raise in the second one leaves the
  same memory as one right after it.
\<close>

definition apply_txn ::
  "db_point option \<Rightarrow> string \<Rightarrow> order_row \<Rightarrow> string \<Rightarrow> rat \<Rightarrow> rat \<Rightarrow> string \<Rightarrow> fill_state \<Rightarrow>
     (apply_error + record_fill_result) \<times> fill_state" where
  "apply_txn fault trade_id record order_id observed avg_price account_id s =
     (if fault = Some At_record_fill then (Inl (Db_fault At_record_fill), s)
      else
        let (result, table) = record_fill order_id observed avg_price (tr_table (fs_tracker s));
            delta = rf_delta result
        in if delta \<le> 0 then (Inr result, s)
           else
             let s1 = s\<lparr>fs_tracker := (fs_tracker s)\<lparr>tr_table := table\<rparr>\<rparr>;
                 trade = fill_trade trade_id record order_id delta avg_price account_id
             in if fault = Some At_save_trade then (Inl (Db_fault At_save_trade), s1)
                else
                  let s2 = s1\<lparr>fs_trades := save_trade trade (fs_trades s1)\<rparr>
                  in if fault = Some At_update_position then (Inl (Db_fault At_update_position), s2)
                     else
                       case on_trade trade (fs_positions s2) of
                         Inl e \<Rightarrow> (Inl (Apply_account e), s2)
                       | Inr ps \<Rightarrow>
                           let s3 = s2\<lparr>fs_positions := ps\<rparr>
                           in if fault = Some At_save_history then (Inl (Db_fault At_save_history), s3)
                              else if \<not> fs_has_outbox s3 then (Inr result, s3)
                              else if fault = Some At_enqueue then (Inl (Db_fault At_enqueue), s3)
                              else
                                let key = make_fill_dedup_key order_id (rf_confirmed_cumulative result);
                                    payload = build_payload record order_id delta avg_price (Some key)
                                in (Inr result, s3\<lparr>fs_outbox := enqueue key payload (fs_outbox s3)\<rparr>))"

text \<open>\<open>Database.transaction\<close>: a raise, in the body or at \<open>COMMIT\<close>, restores every table.\<close>

definition rollback :: "fill_state \<Rightarrow> fill_state \<Rightarrow> fill_state" where
  "rollback s s' =
     s'\<lparr>fs_tracker := (fs_tracker s')\<lparr>tr_table := tr_table (fs_tracker s)\<rparr>,
        fs_positions := (fs_positions s')\<lparr>pt_rows := pt_rows (fs_positions s),
                                           pt_history := pt_history (fs_positions s)\<rparr>,
        fs_trades := fs_trades s, fs_outbox := fs_outbox s\<rparr>"

fun end_transaction ::
  "db_point option \<Rightarrow> fill_state \<Rightarrow> (apply_error + 'a) \<times> fill_state \<Rightarrow> (apply_error + 'a) \<times> fill_state"
where
  "end_transaction fault s (Inl e, s') = (Inl e, rollback s s')"
| "end_transaction fault s (Inr x, s') =
     (if fault = Some At_commit then (Inl (Db_fault At_commit), rollback s s') else (Inr x, s'))"

definition apply_locked ::
  "db_point option \<Rightarrow> string \<Rightarrow> order_row \<Rightarrow> string \<Rightarrow> rat \<Rightarrow> rat \<Rightarrow> string \<Rightarrow> fill_state \<Rightarrow>
     (apply_error + rat) \<times> fill_state" where
  "apply_locked fault trade_id record order_id observed avg_price account_id s =
     (case end_transaction fault s (apply_txn fault trade_id record order_id observed avg_price account_id s) of
        (Inl e, s') \<Rightarrow> (Inl e, s')
      | (Inr result, s') \<Rightarrow>
          let delta = rf_delta result
          in if delta \<le> 0 then (Inr 0, s')
             else
               let cache = mirror_fill_to_cache order_id (rf_confirmed_cumulative result)
                             (rf_new_status result) (tr_cache (fs_tracker s'));
                   s'' = s'\<lparr>fs_tracker := (fs_tracker s')\<lparr>tr_cache := cache\<rparr>\<rparr>
               in (Inr delta,
                   if fs_has_outbox s'' then s'' else publish_filled record order_id delta avg_price s''))"

text \<open>\<open>lookup_order_id\<close> then \<open>get\<close>: the tracked order an observation belongs to.\<close>

definition tracked ::
  "string \<Rightarrow> string \<Rightarrow> string \<Rightarrow> order_table \<Rightarrow> account_id_error + (string \<times> order_row) option" where
  "tracked account_id broker_order_id submitted_date table =
     (case lookup_order_id account_id broker_order_id submitted_date table of
        Inl e \<Rightarrow> Inl e
      | Inr None \<Rightarrow> Inr None
      | Inr (Some order_id) \<Rightarrow>
          Inr (map_option (\<lambda>record. (order_id, record)) (get_order order_id table)))"

definition apply_cumulative ::
  "db_point option \<Rightarrow> string \<Rightarrow> string \<Rightarrow> string \<Rightarrow> rat \<Rightarrow> rat \<Rightarrow> string \<Rightarrow> fill_state \<Rightarrow>
     (apply_error + rat) \<times> fill_state" where
  "apply_cumulative fault trade_id account_id broker_order_id observed avg_price submitted_date s =
     (case require_account_id ''fill_applier.apply_cumulative'' (Some account_id) of
        Inl e \<Rightarrow> (Inl (Apply_account e), s)
      | Inr validated \<Rightarrow>
          (case tracked validated broker_order_id submitted_date (tr_table (fs_tracker s)) of
             Inl e \<Rightarrow> (Inl (Apply_account e), s)
           | Inr None \<Rightarrow> (Inr 0, s)
           | Inr (Some (order_id, record)) \<Rightarrow>
               apply_locked fault trade_id record order_id observed avg_price validated s))"

definition apply_stream_increment ::
  "db_point option \<Rightarrow> string \<Rightarrow> string \<Rightarrow> string \<Rightarrow> rat \<Rightarrow> rat \<Rightarrow> string \<Rightarrow> fill_state \<Rightarrow>
     (apply_error + rat) \<times> fill_state" where
  "apply_stream_increment fault trade_id account_id broker_order_id increment avg_price submitted_date s =
     (case require_account_id ''fill_applier.apply_stream_increment'' (Some account_id) of
        Inl e \<Rightarrow> (Inl (Apply_account e), s)
      | Inr validated \<Rightarrow>
          if increment \<le> 0 then (Inr 0, s)
          else
            (case tracked validated broker_order_id submitted_date (tr_table (fs_tracker s)) of
               Inl e \<Rightarrow> (Inl (Apply_account e), s)
             | Inr None \<Rightarrow> (Inr 0, s)
             | Inr (Some (order_id, record)) \<Rightarrow>
                 apply_locked fault trade_id record order_id
                   (ot_recorded_filled_qty record + increment) avg_price validated s))"

subsection \<open>The publisher\<close>

text \<open>
  What happens to one row: published and marked; \<open>publish\<close> raises (the drain stops without an
  error); or the mark raises or the process dies after the publication.
\<close>

datatype publish_outcome = Delivered | Publish_fails | Mark_fails

datatype batch_end = Batch_done | Drain_stopped | Drain_raised

text \<open>The \<open>for\<close> loop of \<open>_drain\<close>; \<open>publish_row\<close> hands the payload to the bus.\<close>

fun drain_batch ::
  "(outbox_row \<Rightarrow> publish_outcome) \<Rightarrow> outbox_row list \<Rightarrow> nat \<Rightarrow> outbox_row list \<Rightarrow> order_filled list \<Rightarrow>
     batch_end \<times> nat \<times> outbox_row list \<times> order_filled list" where
  "drain_batch oc [] published rows delivered = (Batch_done, published, rows, delivered)"
| "drain_batch oc (row # batch) published rows delivered =
     (case oc row of
        Publish_fails \<Rightarrow> (Drain_stopped, published, rows, delivered)
      | Mark_fails \<Rightarrow> (Drain_raised, published, rows, delivered @ [ob_payload row])
      | Delivered \<Rightarrow>
          drain_batch oc batch (published + 1) (mark_published (ob_id row) rows)
            (delivered @ [ob_payload row]))"

definition unpublished_count :: "outbox_row list \<Rightarrow> nat" where
  "unpublished_count rows = length (filter (\<lambda>r. \<not> ob_published r) rows)"

lemma mark_published_count: "unpublished_count (mark_published i rows) \<le> unpublished_count rows"
  by (induction rows) (auto simp: unpublished_count_def mark_published_def)

lemma mark_published_count_less:
  "r \<in> set rows \<Longrightarrow> \<not> ob_published r \<Longrightarrow>
     unpublished_count (mark_published (ob_id r) rows) < unpublished_count rows"
proof (induction rows)
  case (Cons x rows)
  then show ?case
    using mark_published_count [of "ob_id r" rows]
    by (auto simp: unpublished_count_def mark_published_def)
qed simp

lemma drain_batch_count:
  "drain_batch oc batch n rows dl = (e, n', rows', dl') \<Longrightarrow>
     unpublished_count rows' \<le> unpublished_count rows"
proof (induction oc batch n rows dl rule: drain_batch.induct)
  case (2 oc row batch published rows delivered)
  then show ?case
    using mark_published_count [of "ob_id row" rows]
    by (auto split: publish_outcome.splits intro: order_trans)
qed simp

lemma fetch_unpublished_mem: "r \<in> set (fetch_unpublished n rows) \<Longrightarrow> r \<in> set rows \<and> \<not> ob_published r"
  by (auto simp: fetch_unpublished_def dest: in_set_takeD)

lemma drain_batch_progress:
  assumes "drain_batch oc batch n rows dl = (Batch_done, n', rows', dl')"
    and "batch = fetch_unpublished l rows" and "batch \<noteq> []"
  shows "unpublished_count rows' < unpublished_count rows"
proof -
  obtain r rs where b: "batch = r # rs" using assms(3) by (cases batch) auto
  then have r: "r \<in> set rows" "\<not> ob_published r"
    using assms(2) fetch_unpublished_mem [of r l rows] by auto
  from assms(1) b have "drain_batch oc rs (n + 1) (mark_published (ob_id r) rows) (dl @ [ob_payload r])
      = (Batch_done, n', rows', dl')"
    by (auto split: publish_outcome.splits)
  then have "unpublished_count rows' \<le> unpublished_count (mark_published (ob_id r) rows)"
    by (rule drain_batch_count)
  also have "\<dots> < unpublished_count rows" by (rule mark_published_count_less [OF r])
  finally show ?thesis .
qed

text \<open>The \<open>while True\<close> of \<open>_drain\<close>: a batch that ends without stopping leaves fewer unpublished rows.\<close>

function drain ::
  "(outbox_row \<Rightarrow> publish_outcome) \<Rightarrow> nat \<Rightarrow> outbox_row list \<Rightarrow> order_filled list \<Rightarrow>
     batch_end \<times> nat \<times> outbox_row list \<times> order_filled list" where
  "drain oc published rows delivered =
     (let batch = fetch_unpublished 100 rows
      in if batch = [] then (Drain_stopped, published, rows, delivered)
         else case drain_batch oc batch published rows delivered of
                (Batch_done, published', rows', delivered') \<Rightarrow> drain oc published' rows' delivered'
              | (Drain_stopped, published', rows', delivered') \<Rightarrow>
                  (Drain_stopped, published', rows', delivered')
              | (Drain_raised, published', rows', delivered') \<Rightarrow>
                  (Drain_raised, published', rows', delivered'))"
  by pat_completeness auto
termination
  by (relation "measure (\<lambda>(oc, n, rows, dl). unpublished_count rows)")
    (auto simp: dest!: sym [of _ "drain_batch _ _ _ _ _"] intro: drain_batch_progress)

declare drain.simps [simp del]

definition catch_up_once :: "(outbox_row \<Rightarrow> publish_outcome) \<Rightarrow> fill_state \<Rightarrow> nat option \<times> fill_state" where
  "catch_up_once oc s =
     (let (e, n, rows, delivered) = drain oc 0 (fs_outbox s) (fs_delivered s)
      in (if e = Drain_raised then None else Some n,
          s\<lparr>fs_outbox := rows, fs_delivered := delivered\<rparr>))"

text \<open>The failure handling of the background loop.\<close>

record publisher =
  pb_drain_interval :: rat
  pb_consecutive_failures :: nat
  pb_escalated :: bool
  pb_next_drain_at :: rat
  pb_notifications :: nat

definition escalate_threshold :: nat where "escalate_threshold = 10"

definition loop_backoff_multiplier_cap :: nat where "loop_backoff_multiplier_cap = 8"

definition backoff_delay :: "publisher \<Rightarrow> rat" where
  "backoff_delay p =
     (if pb_consecutive_failures p \<le> 0 then pb_drain_interval p
      else pb_drain_interval p
             * of_nat (min (2 ^ pb_consecutive_failures p) loop_backoff_multiplier_cap))"

definition reset_failures :: "publisher \<Rightarrow> publisher" where
  "reset_failures p = p\<lparr>pb_consecutive_failures := 0, pb_escalated := False\<rparr>"

text \<open>The publication of the notification may fail; the latch stays set and the loop goes on.\<close>

definition escalate :: "bool \<Rightarrow> publisher \<Rightarrow> publisher" where
  "escalate notification_ok p =
     (if pb_escalated p then p
      else p\<lparr>pb_escalated := True,
             pb_notifications := pb_notifications p + (if notification_ok then 1 else 0)\<rparr>)"

text \<open>An exception: whether it is a \<open>sqlite3.DatabaseError\<close>, and its message (ASCII).\<close>

type_synonym py_exception = "bool \<times> string"

definition lower_char :: "char \<Rightarrow> char" where
  "lower_char c = (if 65 \<le> (of_char c :: nat) \<and> (of_char c :: nat) \<le> 90
                   then char_of ((of_char c :: nat) + 32) else c)"

fun occurs_in :: "string \<Rightarrow> string \<Rightarrow> bool" where
  "occurs_in pat [] = (pat = [])"
| "occurs_in pat (c # cs) = (take (length pat) (c # cs) = pat \<or> occurs_in pat cs)"

definition db_corruption_signatures :: "string list" where
  "db_corruption_signatures = [''malformed'', ''file is not a database'']"

definition is_db_corruption :: "py_exception \<Rightarrow> bool" where
  "is_db_corruption exc =
     (if \<not> fst exc then False
      else let message = map lower_char (snd exc)
           in list_ex (\<lambda>sig. occurs_in sig message) db_corruption_signatures)"

text \<open>
  One turn of \<open>_loop\<close> after its wait: \<open>now\<close> is the time of the wake-up; a wake-up by \<open>notify\<close>
  before the deadline does not drain (\<^theory_text>\<open>None\<close>).  The second part handles the end of a drain
  at time \<open>now\<close>: no exception, or the exception it raised.
\<close>

definition may_drain :: "rat \<Rightarrow> publisher \<Rightarrow> bool" where
  "may_drain now p \<longleftrightarrow> \<not> (pb_consecutive_failures p > 0 \<and> now < pb_next_drain_at p)"

definition after_drain :: "rat \<Rightarrow> bool \<Rightarrow> py_exception option \<Rightarrow> publisher \<Rightarrow> publisher" where
  "after_drain now notification_ok exc p =
     (case exc of
        None \<Rightarrow> (reset_failures p)\<lparr>pb_next_drain_at := now + pb_drain_interval p\<rparr>
      | Some e \<Rightarrow>
          if is_db_corruption e
          then
            let p1 = p\<lparr>pb_consecutive_failures := pb_consecutive_failures p + 1\<rparr>;
                p2 = p1\<lparr>pb_next_drain_at := now + backoff_delay p1\<rparr>
            in if pb_consecutive_failures p2 \<ge> escalate_threshold then escalate notification_ok p2
               else p2
          else (reset_failures p)\<lparr>pb_next_drain_at := now\<rparr>)"

definition loop_turn ::
  "publisher \<Rightarrow> rat \<times> rat \<times> bool \<times> py_exception option \<Rightarrow> publisher" where
  "loop_turn p turn =
     (case turn of (woken_at, drained_at, notification_ok, exc) \<Rightarrow>
        if may_drain woken_at p then after_drain drained_at notification_ok exc p else p)"

subsection \<open>The pipeline as a machine\<close>

datatype fill_event =
    Fs_submit order_row
  | Fs_poll "db_point option" string string string rat rat string
  | Fs_stream "db_point option" string string string rat rat string
  | Fs_terminal string order_status
  | Fs_expire string string
  | Fs_drain "outbox_row \<Rightarrow> publish_outcome"
  | Fs_restart

fun fill_step :: "fill_state \<Rightarrow> fill_event \<Rightarrow> fill_state" where
  "fill_step s (Fs_submit r) = s\<lparr>fs_tracker := tracker_step (fs_tracker s) (Open_order r)\<rparr>"
| "fill_step s (Fs_poll fault tid acct odno obs avg date) =
     snd (apply_cumulative fault tid acct odno obs avg date s)"
| "fill_step s (Fs_stream fault tid acct odno inc avg date) =
     snd (apply_stream_increment fault tid acct odno inc avg date s)"
| "fill_step s (Fs_terminal oid st) = s\<lparr>fs_tracker := tracker_step (fs_tracker s) (Mark_terminal oid st)\<rparr>"
| "fill_step s (Fs_expire acct date) = s\<lparr>fs_tracker := tracker_step (fs_tracker s) (Expire_stale acct date)\<rparr>"
| "fill_step s (Fs_drain oc) = snd (catch_up_once oc s)"
| "fill_step s Fs_restart =
     s\<lparr>fs_tracker := tracker_step (fs_tracker s) Restart,
       fs_positions := position_step (fs_positions s) Pos_restart\<rparr>"

text \<open>\<open>uuid4\<close> never repeats: a trade id is new when it is used.\<close>

fun fresh_trade_id :: "fill_state \<Rightarrow> fill_event \<Rightarrow> bool" where
  "fresh_trade_id s (Fs_poll _ tid _ _ _ _ _) = (dict_get (fs_trades s) tid = None)"
| "fresh_trade_id s (Fs_stream _ tid _ _ _ _ _) = (dict_get (fs_trades s) tid = None)"
| "fresh_trade_id s _ = True"

definition fill_init :: "bool \<Rightarrow> fill_state" where
  "fill_init has_outbox =
     \<lparr>fs_tracker = empty_tracker, fs_positions = no_positions, fs_trades = [],
      fs_has_outbox = has_outbox, fs_outbox = [], fs_delivered = []\<rparr>"

end
