(* ===== verification/Fill_Exactly_Once.thy ===== *)
theory Fill_Exactly_Once
  imports Fill_Pipeline
begin

text \<open>
  What the fill pipeline guarantees: a failed transaction leaves the tables as they were, the
  trade table, the outbox and the order table always agree on what has been filled, the positions
  table is the replay of the trade table, every committed execution is delivered, and repeated or
  reordered observations converge.
\<close>

subsection \<open>One application\<close>

definition pos_tables :: "position_state \<Rightarrow> (position_key, position) dict \<times> position_history_row list" where
  "pos_tables p = (pt_rows p, pt_history p)"

lemma on_trade_total:
  "\<not> is_invalid_account_id (Some (td_account_id rec)) \<Longrightarrow> \<exists>p'. on_trade rec p = Inr p'"
  by (auto simp: on_trade_def on_trade_buy_def on_trade_sell_def get_current_def Let_def
      update_position_def save_history_def history_of_def)

lemma on_trade_tables:
  assumes "pos_tables p = pos_tables q"
  shows "pos_tables (trade_step p rec) = pos_tables (trade_step q rec)"
proof (cases "is_invalid_account_id (Some (td_account_id rec))")
  case True
  then have "require_account_id c (Some (td_account_id rec)) \<noteq> Inr a" for c a
    by (auto simp: require_account_id_def split: option.splits)
  then have "trade_step r rec = r" for r
    by (auto simp: trade_step_def on_trade_def get_current_def split: sum.splits)
  then show ?thesis using assms by simp
next
  case False
  then show ?thesis
    using assms
    by (auto simp: trade_step_def on_trade_def on_trade_buy_def on_trade_sell_def get_current_def
        update_position_def save_history_def history_of_def pos_tables_def Let_def)
qed

text \<open>The state after an application that advanced the order.\<close>

definition advanced ::
  "string \<Rightarrow> order_row \<Rightarrow> string \<Rightarrow> rat \<Rightarrow> rat \<Rightarrow> string \<Rightarrow> position_state \<Rightarrow> fill_state \<Rightarrow> fill_state" where
  "advanced tid row oid obs avg acct ps s =
     (let delta = obs - ot_recorded_filled_qty row;
          s1 = s\<lparr>fs_tracker := tracker_step (fs_tracker s) (Fill oid obs avg), fs_positions := ps,
                 fs_trades := save_trade (fill_trade tid row oid delta avg acct) (fs_trades s)\<rparr>
      in if fs_has_outbox s
         then s1\<lparr>fs_outbox := enqueue (oid, obs) (build_payload row oid delta avg (Some (oid, obs))) (fs_outbox s)\<rparr>
         else publish_filled row oid delta avg s1)"

lemma apply_locked_cases:
  assumes "apply_locked fault tid row oid obs avg acct s = (res, s')"
    and "dict_get (tr_table (fs_tracker s)) oid = Some row"
    and "\<not> is_invalid_account_id (Some acct)"
  obtains (failed) e c where "res = Inl e"
      "s' = s\<lparr>fs_positions := (fs_positions s)\<lparr>pt_cache := c\<rparr>\<rparr>" "fault \<noteq> None"
  | (unchanged) "res = Inr 0" "s' = s" "obs \<le> ot_recorded_filled_qty row"
  | (applied) ps where "ot_recorded_filled_qty row < obs" "res = Inr (obs - ot_recorded_filled_qty row)"
      "on_trade (fill_trade tid row oid (obs - ot_recorded_filled_qty row) avg acct) (fs_positions s) = Inr ps"
      "s' = advanced tid row oid obs avg acct ps s"
proof -
  let ?t = "fill_trade tid row oid (obs - ot_recorded_filled_qty row) avg acct"
  obtain ps where ps: "on_trade ?t (fs_positions s) = Inr ps"
    using on_trade_total [of ?t] assms(3) by (auto simp: fill_trade_def)
  show thesis
  proof (cases "fault = None")
    case True
    show thesis
    proof (cases "obs \<le> ot_recorded_filled_qty row")
      case le: True
      then have "res = Inr 0 \<and> s' = s"
        using assms(1) assms(2) True
        by (simp add: apply_locked_def apply_txn_def record_fill_def Let_def)
      with le show thesis by (intro unchanged) auto
    next
      case False
      then have "res = Inr (obs - ot_recorded_filled_qty row) \<and> s' = advanced tid row oid obs avg acct ps s"
        using assms(1) assms(2) True ps
        by (auto simp: apply_locked_def apply_txn_def record_fill_def Let_def advanced_def
            make_fill_dedup_key_def publish_filled_def)
      with False ps show thesis by (intro applied) auto
    qed
  next
    case fault: False
    show thesis
    proof (cases res)
      case (Inl e)
      have "\<exists>c. s' = s\<lparr>fs_positions := (fs_positions s)\<lparr>pt_cache := c\<rparr>\<rparr>"
        using assms(1,2) Inl ps
        by (auto simp: apply_locked_def apply_txn_def record_fill_def Let_def rollback_def
            split: if_splits intro!: exI [of _ "pt_cache (fs_positions s')"] fill_state.equality
              order_tracker.equality position_state.equality)
      then obtain c where "s' = s\<lparr>fs_positions := (fs_positions s)\<lparr>pt_cache := c\<rparr>\<rparr>" ..
      from failed [OF Inl this fault] show thesis .
    next
      case (Inr d)
      show thesis
      proof (cases "obs \<le> ot_recorded_filled_qty row")
        case le: True
        then have "res = Inr 0 \<and> s' = s"
          using assms(1) assms(2) Inr
          by (auto simp: apply_locked_def apply_txn_def record_fill_def Let_def split: if_splits)
        with le show thesis by (intro unchanged) auto
      next
        case False
        then have "res = Inr (obs - ot_recorded_filled_qty row) \<and> s' = advanced tid row oid obs avg acct ps s"
          using assms(1) assms(2) Inr ps
          by (auto simp: apply_locked_def apply_txn_def record_fill_def Let_def advanced_def
              make_fill_dedup_key_def publish_filled_def split: if_splits)
        with False ps show thesis by (intro applied) auto
      qed
    qed
  qed
qed

subsection \<open>The invariant\<close>

definition traded_qty :: "string \<Rightarrow> (string, trade_record) dict \<Rightarrow> rat" where
  "traded_qty oid trades =
     sum_list (map td_quantity (filter (\<lambda>td. td_order_id td = Some oid) (dict_values trades)))"

definition queued_qty :: "string \<Rightarrow> outbox_row list \<Rightarrow> rat" where
  "queued_qty oid rows =
     sum_list (map (\<lambda>r. ev_quantity (ob_payload r)) (filter (\<lambda>r. ev_order_id (ob_payload r) = oid) rows))"

text \<open>A row is what the applier queued: its key is the payload's and a quantity already recorded.\<close>

definition outbox_row_ok :: "(string \<Rightarrow> rat) \<Rightarrow> outbox_row \<Rightarrow> bool" where
  "outbox_row_ok recorded r \<longleftrightarrow>
     ev_fill_dedup_key (ob_payload r) = Some (ob_key r) \<and> ev_order_id (ob_payload r) = fst (ob_key r)
     \<and> 0 < ev_quantity (ob_payload r) \<and> snd (ob_key r) \<le> recorded (fst (ob_key r))"

definition outbox_inv :: "(string \<Rightarrow> rat) \<Rightarrow> outbox_row list \<Rightarrow> order_filled list \<Rightarrow> bool" where
  "outbox_inv recorded rows delivered \<longleftrightarrow>
     (\<forall>r\<in>set rows. outbox_row_ok recorded r) \<and> distinct (map ob_key rows)
     \<and> map ob_id rows = [1..<Suc (length rows)]
     \<and> (\<forall>r\<in>set rows. ob_published r \<longrightarrow> ob_payload r \<in> set delivered)
     \<and> set delivered \<subseteq> ob_payload ` set rows
     \<and> (\<forall>oid. queued_qty oid rows = recorded oid)"

definition pipeline_inv :: "fill_state \<Rightarrow> bool" where
  "pipeline_inv s \<longleftrightarrow> tracker_inv (fs_tracker s) \<and> dict_wf (fs_trades s)
     \<and> (\<forall>oid. traded_qty oid (fs_trades s) = recorded_of oid (fs_tracker s))
     \<and> pos_tables (fs_positions s) =
         pos_tables (run trade_step no_positions (dict_values (fs_trades s)))
     \<and> (if fs_has_outbox s
         then outbox_inv (\<lambda>oid. recorded_of oid (fs_tracker s)) (fs_outbox s) (fs_delivered s)
         else fs_outbox s = [])"

lemma pipeline_invD:
  assumes "pipeline_inv s"
  shows "tracker_inv (fs_tracker s)" and "dict_wf (fs_trades s)"
    and "traded_qty oid (fs_trades s) = recorded_of oid (fs_tracker s)"
    and "pos_tables (fs_positions s) = pos_tables (run trade_step no_positions (dict_values (fs_trades s)))"
    and "fs_has_outbox s \<Longrightarrow>
      outbox_inv (\<lambda>oid. recorded_of oid (fs_tracker s)) (fs_outbox s) (fs_delivered s)"
    and "\<not> fs_has_outbox s \<Longrightarrow> fs_outbox s = []"
  using assms by (auto simp: pipeline_inv_def)

lemma outbox_invD:
  assumes "outbox_inv recorded rows delivered"
  shows "r \<in> set rows \<Longrightarrow> outbox_row_ok recorded r" and "distinct (map ob_key rows)"
    and "map ob_id rows = [1..<Suc (length rows)]"
    and "r \<in> set rows \<Longrightarrow> ob_published r \<Longrightarrow> ob_payload r \<in> set delivered"
    and "set delivered \<subseteq> ob_payload ` set rows"
    and "queued_qty oid rows = recorded oid"
  using assms by (auto simp: outbox_inv_def)

lemma recorded_fill:
  assumes "dict_get (tr_table t) oid = Some row" and "ot_recorded_filled_qty row < obs"
  shows "recorded_of k (tracker_step t (Fill oid obs avg)) = (if k = oid then obs else recorded_of k t)"
  using assms by (auto simp: record_fill_def Let_def recorded_of_def)

lemma outbox_inv_mono:
  assumes "outbox_inv recorded rows dl" and "recorded' = recorded"
  shows "outbox_inv recorded' rows dl"
  using assms by simp

lemma outbox_inv_enqueue:
  assumes inv: "outbox_inv recorded rows dl" and less: "recorded oid < obs"
    and payload: "ev_fill_dedup_key e = Some (oid, obs)" "ev_order_id e = oid"
      "ev_quantity e = obs - recorded oid"
  shows "outbox_inv (recorded(oid := obs)) (enqueue (oid, obs) e rows) dl"
proof -
  note D = outbox_invD [OF inv]
  have new: "ob_key r \<noteq> (oid, obs)" if "r \<in> set rows" for r
    using D(1) [OF that] less by (auto simp: outbox_row_ok_def)
  then have enq: "enqueue (oid, obs) e rows =
      rows @ [\<lparr>ob_id = length rows + 1, ob_key = (oid, obs), ob_payload = e, ob_published = False\<rparr>]"
    by (auto simp: enqueue_def)
  have ok: "outbox_row_ok (recorded(oid := obs)) r" if "r \<in> set rows" for r
    using D(1) [OF that] less by (auto simp: outbox_row_ok_def)
  have q: "queued_qty k (enqueue (oid, obs) e rows) = (recorded(oid := obs)) k" for k
    using D(6) payload by (simp add: enq queued_qty_def)
  show ?thesis
    unfolding outbox_inv_def
  proof (intro conjI allI ballI impI)
    show "outbox_row_ok (recorded(oid := obs)) r" if "r \<in> set (enqueue (oid, obs) e rows)" for r
    proof (cases "r \<in> set rows")
      case True
      then show ?thesis by (rule ok)
    next
      case False
      with that less payload show ?thesis by (auto simp: enq outbox_row_ok_def)
    qed
    show "distinct (map ob_key (enqueue (oid, obs) e rows))" using D(2) new by (force simp: enq)
    show "map ob_id (enqueue (oid, obs) e rows) = [1..<Suc (length (enqueue (oid, obs) e rows))]"
      using D(3) by (simp add: enq)
    show "ob_payload r \<in> set dl" if "r \<in> set (enqueue (oid, obs) e rows)" "ob_published r" for r
      using that D(4) by (auto simp: enq)
    show "set dl \<subseteq> ob_payload ` set (enqueue (oid, obs) e rows)" using D(5) by (auto simp: enq)
  qed (rule q)
qed

lemma traded_qty_save:
  assumes "dict_get trades (td_trade_id td) = None"
  shows "traded_qty oid (save_trade td trades) =
    traded_qty oid trades + (if td_order_id td = Some oid then td_quantity td else 0)"
  using assms by (simp add: traded_qty_def save_trade_def insert_or_ignore_def)

lemma save_trade_values:
  "dict_get trades (td_trade_id td) = None \<Longrightarrow> dict_values (save_trade td trades) = dict_values trades @ [td]"
  by (simp add: save_trade_def insert_or_ignore_def)

lemma advanced_inv:
  assumes inv: "pipeline_inv s" and row: "dict_get (tr_table (fs_tracker s)) oid = Some row"
    and less: "ot_recorded_filled_qty row < obs" and fresh: "dict_get (fs_trades s) tid = None"
    and ps: "on_trade (fill_trade tid row oid (obs - ot_recorded_filled_qty row) avg acct) (fs_positions s) = Inr ps"
  shows "pipeline_inv (advanced tid row oid obs avg acct ps s)"
proof -
  note D = pipeline_invD [OF inv]
  let ?td = "fill_trade tid row oid (obs - ot_recorded_filled_qty row) avg acct"
  let ?s = "advanced tid row oid obs avg acct ps s"
  have rec: "recorded_of oid (fs_tracker s) = ot_recorded_filled_qty row"
    using row by (simp add: recorded_of_def)
  have fields: "fs_tracker ?s = tracker_step (fs_tracker s) (Fill oid obs avg)" "fs_positions ?s = ps"
    "fs_trades ?s = save_trade ?td (fs_trades s)" "fs_has_outbox ?s = fs_has_outbox s"
    "fs_has_outbox s \<Longrightarrow> fs_outbox ?s = enqueue (oid, obs)
        (build_payload row oid (obs - ot_recorded_filled_qty row) avg (Some (oid, obs))) (fs_outbox s)"
    "fs_has_outbox s \<Longrightarrow> fs_delivered ?s = fs_delivered s"
    "\<not> fs_has_outbox s \<Longrightarrow> fs_outbox ?s = fs_outbox s"
    by (simp_all add: advanced_def Let_def publish_filled_def del: tracker_step.simps)
  have recorded: "(\<lambda>k. recorded_of k (fs_tracker ?s)) = (\<lambda>k. recorded_of k (fs_tracker s))(oid := obs)"
    using recorded_fill [OF row less] by (auto simp: fields simp del: tracker_step.simps)
  have fresh': "dict_get (fs_trades s) (td_trade_id ?td) = None" using fresh by (simp add: fill_trade_def)
  have tabs: "pos_tables (fs_positions ?s) =
      pos_tables (run trade_step no_positions (dict_values (fs_trades ?s)))"
  proof -
    have p: "ps = trade_step (fs_positions s) ?td"
      by (simp add: trade_step_def ps)
    show ?thesis
      unfolding fields(2,3) save_trade_values [OF fresh'] run_append
      unfolding p run.simps by (rule on_trade_tables [OF D(4)])
  qed
  have out: "outbox_inv (\<lambda>k. recorded_of k (fs_tracker ?s)) (fs_outbox ?s) (fs_delivered ?s)"
    if "fs_has_outbox s"
    unfolding recorded fields(5,6) [OF that]
    by (rule outbox_inv_enqueue [OF D(5) [OF that]]) (simp_all add: build_payload_def rec less)
  have traded: "traded_qty k (fs_trades ?s) = recorded_of k (fs_tracker ?s)" for k
    using D(3) [of k] D(3) [of oid] rec fun_cong [OF recorded, of k]
    by (auto simp: fields traded_qty_save [OF fresh'] simp del: tracker_step.simps)
      (simp_all add: fill_trade_def)
  have wf: "tracker_inv (fs_tracker ?s)" "dict_wf (fs_trades ?s)"
    using D(1,2) tracker_step_inv by (simp_all add: fields save_trade_def del: tracker_step.simps)
  have "\<not> fs_has_outbox s \<Longrightarrow> fs_outbox ?s = []" using D(6) fields(7) by simp
  with wf traded tabs out show ?thesis
    unfolding pipeline_inv_def fields(4) by simp
qed

subsection \<open>Publishing keeps the invariant\<close>

lemma mark_published_rows:
  "map ob_key (mark_published i rows) = map ob_key rows"
  "map ob_id (mark_published i rows) = map ob_id rows"
  "length (mark_published i rows) = length rows"
  "ob_payload ` set (mark_published i rows) = ob_payload ` set rows"
  "queued_qty oid (mark_published i rows) = queued_qty oid rows"
proof -
  show "map ob_key (mark_published i rows) = map ob_key rows"
    "map ob_id (mark_published i rows) = map ob_id rows"
    "length (mark_published i rows) = length rows"
    by (simp_all add: mark_published_def)
  have "map ob_payload (mark_published i rows) = map ob_payload rows" by (simp add: mark_published_def)
  then show "ob_payload ` set (mark_published i rows) = ob_payload ` set rows"
    by (metis set_map)
  show "queued_qty oid (mark_published i rows) = queued_qty oid rows"
    by (induction rows) (simp_all add: queued_qty_def mark_published_def)
qed

lemma outbox_inv_deliver:
  assumes inv: "outbox_inv recorded rows dl" and r: "ob_payload r \<in> ob_payload ` set rows"
  shows "outbox_inv recorded rows (dl @ [ob_payload r])"
  using assms by (auto simp: outbox_inv_def)

lemma outbox_inv_mark:
  assumes inv: "outbox_inv recorded rows dl" and r: "r \<in> set rows"
  shows "outbox_inv recorded (mark_published (ob_id r) rows) (dl @ [ob_payload r])"
proof -
  note D = outbox_invD [OF inv]
  have inj: "inj_on ob_id (set rows)"
    using D(3) by (metis distinct_upt distinct_map)
  have "outbox_row_ok recorded x" if "x \<in> set (mark_published (ob_id r) rows)" for x
    using that D(1) by (auto simp: mark_published_def outbox_row_ok_def split: if_splits)
  moreover have "ob_payload x \<in> set (dl @ [ob_payload r])"
    if "x \<in> set (mark_published (ob_id r) rows)" "ob_published x" for x
    using that D(4) inj r by (auto simp: mark_published_def dest: inj_onD split: if_splits)
  ultimately show ?thesis
    using D(2,3,5,6) r
    unfolding outbox_inv_def mark_published_rows by auto
qed

text \<open>A fetched row stands for the row with its id and payload, whatever has been marked since.\<close>

definition stands_for :: "outbox_row list \<Rightarrow> outbox_row \<Rightarrow> bool" where
  "stands_for rows r \<longleftrightarrow> (\<exists>x\<in>set rows. ob_id x = ob_id r \<and> ob_payload x = ob_payload r)"

lemma stands_for_mark: "stands_for rows r \<Longrightarrow> stands_for (mark_published i rows) r"
proof -
  have "map (\<lambda>x. (ob_id x, ob_payload x)) (mark_published i rows) = map (\<lambda>x. (ob_id x, ob_payload x)) rows"
    by (simp add: mark_published_def)
  moreover have "stands_for rs r \<longleftrightarrow> (ob_id r, ob_payload r) \<in> set (map (\<lambda>x. (ob_id x, ob_payload x)) rs)" for rs
    unfolding stands_for_def set_map image_iff prod.inject by metis
  ultimately show "stands_for rows r \<Longrightarrow> stands_for (mark_published i rows) r" by (simp only:)
qed

lemma drain_batch_inv:
  "drain_batch oc batch n rows dl = (e, n', rows', dl') \<Longrightarrow> outbox_inv recorded rows dl \<Longrightarrow>
     \<forall>r\<in>set batch. stands_for rows r \<Longrightarrow> outbox_inv recorded rows' dl'"
proof (induction oc batch n rows dl rule: drain_batch.induct)
  case (2 oc row batch published rows delivered)
  from 2(4) obtain x where x: "x \<in> set rows" "ob_id x = ob_id row" "ob_payload x = ob_payload row"
    by (auto simp: stands_for_def)
  note mark = outbox_inv_mark [OF 2(3) x(1), unfolded x(2,3)]
  show ?case
  proof (cases "oc row")
    case Delivered
    with 2 mark show ?thesis by (auto intro: stands_for_mark)
  next
    case Publish_fails
    with 2 show ?thesis by simp
  next
    case Mark_fails
    have "ob_payload row \<in> ob_payload ` set rows" using x by (metis imageI)
    with 2 Mark_fails outbox_inv_deliver [OF 2(3)] show ?thesis by auto
  qed
qed simp

lemma fetch_stands_for: "r \<in> set (fetch_unpublished n rows) \<Longrightarrow> stands_for rows r"
  by (auto simp: stands_for_def dest: fetch_unpublished_mem)

text \<open>What every batch keeps, the whole drain keeps.\<close>

lemma drain_rule:
  assumes "drain oc n rows dl = (e, n', rows', dl')" and "P rows dl"
    and step: "\<And>n rows dl e n' rows' dl'. P rows dl \<Longrightarrow>
      drain_batch oc (fetch_unpublished 100 rows) n rows dl = (e, n', rows', dl') \<Longrightarrow> P rows' dl'"
  shows "P rows' dl'"
  using assms
proof (induction oc n rows dl rule: drain.induct)
  case (1 oc published rows delivered)
  let ?b = "fetch_unpublished 100 rows"
  show ?case
  proof (cases "?b = []")
    case True
    with 1(2,3) show ?thesis by (simp add: drain.simps Let_def)
  next
    case False
    obtain x m rs ds where b: "drain_batch oc ?b published rows delivered = (x, m, rs, ds)"
      by (metis prod_cases4)
    have P: "P rs ds" by (rule 1(4) [OF 1(3) b])
    note IH = 1(1) [OF refl False b [symmetric] _ refl refl _ P 1(4)]
    show ?thesis
      using False b 1(2) P IH
      by (cases x) (simp_all add: drain.simps [of oc published] Let_def)
  qed
qed

lemma drain_inv:
  assumes "drain oc n rows dl = (e, n', rows', dl')" and "outbox_inv recorded rows dl"
  shows "outbox_inv recorded rows' dl'"
  using assms by (rule drain_rule) (erule (1) drain_batch_inv, simp add: fetch_stands_for)

lemma drain_batch_Delivered:
  "drain_batch (\<lambda>_. Delivered) batch n rows dl =
     (Batch_done, n + length batch,
      fold (\<lambda>r. mark_published (ob_id r)) batch rows, dl @ map ob_payload batch)"
  by (induction batch arbitrary: n rows dl) auto

lemma drain_all:
  "drain (\<lambda>_. Delivered) n rows dl = (e, n', rows', dl') \<Longrightarrow>
     e = Drain_stopped \<and> unpublished_count rows' = 0"
proof (induction "\<lambda>_::outbox_row. Delivered" n rows dl rule: drain.induct)
  case (1 published rows delivered)
  let ?b = "fetch_unpublished 100 rows"
  show ?case
  proof (cases "?b = []")
    case True
    with 1(2) show ?thesis
      by (auto simp: drain.simps [of _ published] Let_def fetch_unpublished_def unpublished_count_def)
  next
    case False
    note b = drain_batch_Delivered [of ?b published rows delivered]
    from 1(2) have "drain (\<lambda>_. Delivered) (published + length ?b)
        (fold (\<lambda>r. mark_published (ob_id r)) ?b rows) (delivered @ map ob_payload ?b) = (e, n', rows', dl')"
      by (simp add: drain.simps [of _ published] Let_def False b)
    then show ?thesis by (rule 1(1) [OF refl False b [symmetric] refl refl refl])
  qed
qed

lemma drain_batch_payloads:
  "drain_batch oc b m rs ds = (x, m', rs', ds') \<Longrightarrow> map ob_payload rs' = map ob_payload rs"
  by (induction oc b m rs ds rule: drain_batch.induct)
    (auto simp: mark_published_def split: publish_outcome.splits intro: trans)

lemma drain_payloads:
  assumes "drain oc n rows dl = (e, n', rows', dl')"
  shows "map ob_payload rows' = map ob_payload rows"
  by (rule drain_rule [OF assms]) (simp_all add: drain_batch_payloads)

subsection \<open>The machine\<close>

lemma tracker_event_recorded:
  assumes "tracker_inv t" and "\<And>oid cum avg. e \<noteq> Fill oid cum avg"
  shows "recorded_of oid (tracker_step t e) = recorded_of oid t"
proof (cases e)
  case (Open_order r)
  then show ?thesis
    by (auto simp: open_order_def recorded_of_def Let_def dict_append_absent
        split: sum.splits option.splits)
next
  case (Mark_terminal oid' st)
  then show ?thesis by (auto simp: mark_terminal_def recorded_of_def split: option.splits)
next
  case (Expire_stale acct before)
  then show ?thesis
    by (auto simp: expire_stale_def recorded_of_def Let_def dict_get_map_values split: sum.splits option.splits)
qed (use assms(2) in \<open>auto simp: recorded_of_def\<close>)

lemma pipeline_inv_tracker_event:
  assumes inv: "pipeline_inv s" and e: "\<And>oid cum avg. e \<noteq> Fill oid cum avg"
    and p: "pos_tables p = pos_tables (fs_positions s)"
  shows "pipeline_inv (s\<lparr>fs_tracker := tracker_step (fs_tracker s) e, fs_positions := p\<rparr>)"
proof -
  have t: "tracker_inv (fs_tracker s)" using inv by (rule pipeline_invD)
  show ?thesis
    using inv p by (simp add: pipeline_inv_def tracker_step_inv tracker_event_recorded [OF t e])
qed

lemma pipeline_inv_cache:
  "pipeline_inv s \<Longrightarrow> pipeline_inv (s\<lparr>fs_positions := (fs_positions s)\<lparr>pt_cache := c\<rparr>\<rparr>)"
  by (simp add: pipeline_inv_def pos_tables_def)

lemma apply_locked_inv:
  assumes inv: "pipeline_inv s" and row: "dict_get (tr_table (fs_tracker s)) oid = Some row"
    and acct: "\<not> is_invalid_account_id (Some acct)" and fresh: "dict_get (fs_trades s) tid = None"
  shows "pipeline_inv (snd (apply_locked fault tid row oid obs avg acct s))"
proof -
  obtain res s' where "apply_locked fault tid row oid obs avg acct s = (res, s')" by fastforce
  from this row acct show ?thesis
  proof (cases rule: apply_locked_cases)
    case (applied ps)
    with advanced_inv [OF inv row applied(1) fresh applied(3)]
    show ?thesis using \<open>apply_locked fault tid row oid obs avg acct s = (res, s')\<close> by simp
  qed (use inv pipeline_inv_cache \<open>apply_locked fault tid row oid obs avg acct s = (res, s')\<close> in auto)
qed

lemma tracked_Some:
  assumes "tracked acct odno date table = Inr (Some (oid, row))"
  shows "dict_get table oid = Some row"
    and "lookup_order_id acct odno date table = Inr (Some oid)"
  using assms by (auto simp: tracked_def get_order_def split: sum.splits option.splits)

lemma apply_cumulative_inv:
  assumes "pipeline_inv s" and "dict_get (fs_trades s) tid = None"
  shows "pipeline_inv (snd (apply_cumulative fault tid acct odno obs avg date s))"
  using assms
  by (auto simp: apply_cumulative_def split: sum.splits option.splits
      intro: apply_locked_inv dest: tracked_Some)

lemma apply_stream_inv:
  assumes "pipeline_inv s" and "dict_get (fs_trades s) tid = None"
  shows "pipeline_inv (snd (apply_stream_increment fault tid acct odno inc avg date s))"
  using assms
  by (auto simp: apply_stream_increment_def split: sum.splits option.splits
      intro: apply_locked_inv dest: tracked_Some)

lemma catch_up_inv:
  assumes inv: "pipeline_inv s"
  shows "pipeline_inv (snd (catch_up_once oc s))"
proof -
  obtain e n rows dl where d: "drain oc 0 (fs_outbox s) (fs_delivered s) = (e, n, rows, dl)"
    by (metis prod_cases4)
  have "outbox_inv recorded rows dl" if "outbox_inv recorded (fs_outbox s) (fs_delivered s)" for recorded
    using drain_inv [OF d that] .
  moreover have "rows = []" if "fs_outbox s = []"
    using drain_payloads [OF d] that by simp
  ultimately show ?thesis
    using inv by (auto simp: catch_up_once_def d pipeline_inv_def)
qed

lemma fill_step_inv:
  assumes inv: "pipeline_inv s" and fresh: "fresh_trade_id s e"
  shows "pipeline_inv (fill_step s e)"
proof (cases e)
  case (Fs_submit r)
  with pipeline_inv_tracker_event [OF inv, of "Open_order r" "fs_positions s"] show ?thesis by simp
next
  case (Fs_terminal oid st)
  with pipeline_inv_tracker_event [OF inv, of "Mark_terminal oid st" "fs_positions s"] show ?thesis by simp
next
  case (Fs_expire acct date)
  with pipeline_inv_tracker_event [OF inv, of "Expire_stale acct date" "fs_positions s"] show ?thesis by simp
next
  case Fs_restart
  with pipeline_inv_tracker_event [OF inv, of Restart "position_step (fs_positions s) Pos_restart"]
  show ?thesis by (simp add: pos_tables_def)
next
  case (Fs_poll fault tid acct odno obs avg date)
  with apply_cumulative_inv inv fresh show ?thesis by simp
next
  case (Fs_stream fault tid acct odno inc avg date)
  with apply_stream_inv inv fresh show ?thesis by simp
next
  case (Fs_drain oc)
  with catch_up_inv [OF inv] show ?thesis by simp
qed

lemma fill_init_inv [simp]: "pipeline_inv (fill_init b)"
  by (simp add: pipeline_inv_def fill_init_def traded_qty_def recorded_of_def empty_tracker_def
      outbox_inv_def queued_qty_def empty_tracker_inv [unfolded empty_tracker_def])

interpretation pipeline: guarded_machine fill_step fresh_trade_id pipeline_inv
  by unfold_locales (rule fill_step_inv)

lemma has_outbox_step: "fs_has_outbox (fill_step s e) = fs_has_outbox s"
proof (cases e)
  case (Fs_poll fault tid acct odno obs avg date)
  then show ?thesis
    by (auto simp: apply_cumulative_def apply_locked_def apply_txn_def Let_def rollback_def publish_filled_def
        split: sum.splits option.splits prod.splits if_splits elim!: end_transaction.elims)
next
  case (Fs_stream fault tid acct odno inc avg date)
  then show ?thesis
    by (auto simp: apply_stream_increment_def apply_locked_def apply_txn_def Let_def rollback_def publish_filled_def
        split: sum.splits option.splits prod.splits if_splits elim!: end_transaction.elims)
next
  case (Fs_drain oc)
  then show ?thesis by (simp add: catch_up_once_def split: prod.splits)
qed simp_all

lemma has_outbox_run: "fs_has_outbox (run fill_step s es) = fs_has_outbox s"
  by (induction es arbitrary: s) (simp_all add: has_outbox_step)

subsection \<open>Observations of one order\<close>

text \<open>
  \<open>oid\<close> is the only order of the account with that broker number; it is open, or completely filled.
\<close>

definition sole_order :: "string \<Rightarrow> string \<Rightarrow> string \<Rightarrow> rat \<Rightarrow> string \<Rightarrow> order_table \<Rightarrow> bool" where
  "sole_order acct odno oid ordered date table \<longleftrightarrow>
     (\<exists>row. dict_get table oid = Some row \<and> ot_account_id row = acct \<and> ot_broker_order_id row = odno
        \<and> ot_ordered_qty row = ordered \<and> ot_submitted_date row = date
        \<and> (is_open_row row \<or> ot_recorded_filled_qty row = ordered))
     \<and> (\<forall>k r. dict_get table k = Some r \<longrightarrow> ot_account_id r = acct \<longrightarrow> ot_broker_order_id r = odno \<longrightarrow> k = oid)"

lemma lookup_sole_order:
  assumes sole: "sole_order acct odno oid q d0 (tr_table t)" and inv: "tracker_inv t" and date: "d0 \<le> date"
    and row: "dict_get (tr_table t) oid = Some row"
  shows "lookup_order_id acct odno date (tr_table t) = Inr (if is_open_row row then Some oid else None)"
proof -
  have row': "ot_account_id row = acct" "ot_broker_order_id row = odno" "ot_submitted_date row \<le> date"
    using sole row date by (auto simp: sole_order_def)
  have only: "k = oid" if "dict_get (tr_table t) k = Some r" "ot_account_id r = acct" "ot_broker_order_id r = odno" for k r
    using sole that by (auto simp: sole_order_def)
  have "\<not> is_invalid_account_id (Some acct)"
    using tracker_invD(3) [OF inv row] row' by (auto simp: row_ok_def)
  then obtain res where res: "lookup_order_id acct odno date (tr_table t) = Inr res"
    by (auto simp: lookup_order_id_def)
  show ?thesis
  proof (cases res)
    case None
    with lookup_order_id_spec [OF res inv] row row' show ?thesis by (auto simp: res)
  next
    case (Some o')
    with lookup_order_id_spec [OF res inv] obtain r where r: "dict_get (tr_table t) o' = Some r"
      "is_open_row r" "ot_account_id r = acct" "ot_broker_order_id r = odno" by auto
    with only [OF r(1,3,4)] row Some show ?thesis by (auto simp: res)
  qed
qed

lemma poll_sole_order:
  fixes tid :: string and avg :: rat
  assumes sole: "sole_order acct odno oid q d0 (tr_table (fs_tracker s))"
    and inv: "tracker_inv (fs_tracker s)" and date: "d0 \<le> date" and q: "0 < q" "obs \<le> q"
  defines "s' \<equiv> fill_step s (Fs_poll None tid acct odno obs avg date)"
  shows "sole_order acct odno oid q d0 (tr_table (fs_tracker s'))" and "tracker_inv (fs_tracker s')"
    and "recorded_of oid (fs_tracker s') = max (recorded_of oid (fs_tracker s)) obs"
proof -
  from sole obtain row where row: "dict_get (tr_table (fs_tracker s)) oid = Some row"
    and row': "ot_account_id row = acct" "ot_broker_order_id row = odno" "ot_ordered_qty row = q"
      "ot_submitted_date row = d0" "is_open_row row \<or> ot_recorded_filled_qty row = q"
    by (auto simp: sole_order_def)
  have rec: "recorded_of oid (fs_tracker s) = ot_recorded_filled_qty row" using row by (simp add: recorded_of_def)
  have acct: "\<not> is_invalid_account_id (Some acct)"
    using tracker_invD(3) [OF inv row] row' by (auto simp: row_ok_def)
  note lk = lookup_sole_order [OF sole inv date row]
  have "s' = s \<and> obs \<le> ot_recorded_filled_qty row \<or>
      ot_recorded_filled_qty row < obs \<and> fs_tracker s' = tracker_step (fs_tracker s) (Fill oid obs avg)"
  proof (cases "is_open_row row")
    case False
    with row' lk q acct show ?thesis by (simp add: s'_def apply_cumulative_def tracked_def)
  next
    case True
    with lk row acct have s': "s' = snd (apply_locked None tid row oid obs avg acct s)"
      by (simp add: s'_def apply_cumulative_def tracked_def get_order_def)
    obtain res s2 where al: "apply_locked None tid row oid obs avg acct s = (res, s2)" by fastforce
    from al row acct show ?thesis
      by (cases rule: apply_locked_cases)
        (auto simp: s' al advanced_def Let_def publish_filled_def simp del: tracker_step.simps)
  qed
  then have "sole_order acct odno oid q d0 (tr_table (fs_tracker s')) \<and> tracker_inv (fs_tracker s')
      \<and> recorded_of oid (fs_tracker s') = max (recorded_of oid (fs_tracker s)) obs"
  proof (elim disjE conjE)
    assume "s' = s" "obs \<le> ot_recorded_filled_qty row"
    with sole inv rec show ?thesis by simp
  next
    assume less: "ot_recorded_filled_qty row < obs" and t: "fs_tracker s' = tracker_step (fs_tracker s) (Fill oid obs avg)"
    let ?row = "row\<lparr>ot_recorded_filled_qty := obs, ot_avg_fill_price := avg,
        ot_status := (if obs \<ge> q then FILLED else PARTIALLY_FILLED)\<rparr>"
    have tab: "tr_table (fs_tracker s') = dict_set oid (row\<lparr>ot_recorded_filled_qty := obs, ot_avg_fill_price := avg,
        ot_status := (if obs \<ge> q then FILLED else PARTIALLY_FILLED)\<rparr>) (tr_table (fs_tracker s))"
      using less row q(1) row'(3) by (simp add: t record_fill_def Let_def)
    have rec': "recorded_of oid (fs_tracker s') = obs"
      by (simp add: recorded_of_def tab)
    have only: "\<forall>k r. dict_get (tr_table (fs_tracker s)) k = Some r \<longrightarrow> ot_account_id r = acct \<longrightarrow>
        ot_broker_order_id r = odno \<longrightarrow> k = oid"
      using sole unfolding sole_order_def by (rule conjunct2)
    have keys: "k = oid" if "dict_get (tr_table (fs_tracker s')) k = Some r" "ot_account_id r = acct"
      "ot_broker_order_id r = odno" for k r
    proof (cases "k = oid")
      case False
      then have "dict_get (tr_table (fs_tracker s)) k = Some r" using that(1) by (simp add: tab)
      then show ?thesis using only that(2,3) by blast
    qed
    have open_or_full: "is_open_row ?row \<or> ot_recorded_filled_qty ?row = q"
      using q by (simp add: is_open_row_iff)
    have get: "dict_get (tr_table (fs_tracker s')) oid = Some ?row" by (simp add: tab)
    have fields: "ot_account_id ?row = acct" "ot_broker_order_id ?row = odno" "ot_ordered_qty ?row = q"
      "ot_submitted_date ?row = d0" by (simp_all add: row'(1-4))
    have "sole_order acct odno oid q d0 (tr_table (fs_tracker s'))"
      unfolding sole_order_def using get fields open_or_full keys by blast
    moreover have "tracker_inv (fs_tracker s')" unfolding t by (rule tracker_step_inv [OF inv])
    ultimately show ?thesis using rec rec' less by simp
  qed
  then show "sole_order acct odno oid q d0 (tr_table (fs_tracker s'))" and "tracker_inv (fs_tracker s')"
    and "recorded_of oid (fs_tracker s') = max (recorded_of oid (fs_tracker s)) obs" by blast+
qed

fun poll_obs :: "string \<times> rat \<times> rat \<times> string \<Rightarrow> rat" where
  "poll_obs (tid, obs, avg, date) = obs"

fun poll_event :: "string \<Rightarrow> string \<Rightarrow> string \<times> rat \<times> rat \<times> string \<Rightarrow> fill_event" where
  "poll_event acct odno (tid, obs, avg, date) = Fs_poll None tid acct odno obs avg date"

lemma polls_converge:
  assumes "sole_order acct odno oid q d0 (tr_table (fs_tracker s))" and "tracker_inv (fs_tracker s)"
    and "0 < q" and "\<forall>(tid, obs, avg, date)\<in>set polls. obs \<le> q \<and> d0 \<le> date"
  shows "recorded_of oid (fs_tracker (run fill_step s (map (poll_event acct odno) polls))) =
    fold (\<lambda>obs m. max m obs) (map poll_obs polls) (recorded_of oid (fs_tracker s))"
  using assms
proof (induction polls arbitrary: s)
  case (Cons p polls)
  obtain tid obs avg date where p: "p = (tid, obs, avg, date)" by (cases p)
  have q: "obs \<le> q" "d0 \<le> date" using Cons.prems(4) by (auto simp: p)
  note step = poll_sole_order [OF Cons.prems(1,2) q(2) Cons.prems(3) q(1), of tid avg]
  have "recorded_of oid (fs_tracker (run fill_step (fill_step s (Fs_poll None tid acct odno obs avg date))
      (map (poll_event acct odno) polls))) =
    fold (\<lambda>obs m. max m obs) (map poll_obs polls)
      (recorded_of oid (fs_tracker (fill_step s (Fs_poll None tid acct odno obs avg date))))"
    by (rule Cons.IH [OF step(1,2)]) (use Cons.prems(3,4) in auto)
  then show ?case unfolding step(3) by (simp add: p del: fill_step.simps)
qed simp

subsection \<open>Delivered events\<close>

lemma distinct_payloads:
  assumes "outbox_inv recorded rows dl"
  shows "distinct (map ob_payload rows)" and "inj_on ev_fill_dedup_key (ob_payload ` set rows)"
proof -
  note D = outbox_invD [OF assms]
  have "distinct rows" and inj: "inj_on ob_key (set rows)" using D(2) by (simp_all add: distinct_map)
  moreover have "inj_on ob_payload (set rows)"
  proof (rule inj_onI)
    fix r x assume "r \<in> set rows" "x \<in> set rows" "ob_payload r = ob_payload x"
    moreover from this have "Some (ob_key r) = Some (ob_key x)"
      using D(1) unfolding outbox_row_ok_def by metis
    ultimately show "r = x" using inj by (auto dest: inj_onD)
  qed
  ultimately show "distinct (map ob_payload rows)" by (simp add: distinct_map)
  show "inj_on ev_fill_dedup_key (ob_payload ` set rows)"
    using D(1,2) by (auto simp: inj_on_def outbox_row_ok_def distinct_map)
qed

lemma sum_distinct_payloads:
  assumes "outbox_inv recorded rows dl" and "set dl = ob_payload ` set rows"
  shows "(\<Sum>e\<in>{e \<in> set dl. ev_order_id e = oid}. ev_quantity e) = recorded oid"
proof -
  note D = outbox_invD [OF assms(1)]
  note dist = distinct_payloads(1) [OF assms(1)]
  have f: "filter (\<lambda>e. ev_order_id e = oid) (map ob_payload rows) =
      map ob_payload (filter (\<lambda>r. ev_order_id (ob_payload r) = oid) rows)"
    by (simp add: filter_map comp_def)
  have "{e \<in> set dl. ev_order_id e = oid} = set (filter (\<lambda>e. ev_order_id e = oid) (map ob_payload rows))"
    using assms(2) by auto
  then have "(\<Sum>e\<in>{e \<in> set dl. ev_order_id e = oid}. ev_quantity e) =
      sum_list (map ev_quantity (filter (\<lambda>e. ev_order_id e = oid) (map ob_payload rows)))"
    using dist by (simp only: sum_list_distinct_conv_sum_set [OF distinct_filter])
  also have "\<dots> = queued_qty oid rows" by (simp add: f queued_qty_def comp_def)
  finally show ?thesis using D(6) by simp
qed

lemma all_published_delivered:
  assumes "outbox_inv recorded rows dl" and "unpublished_count rows = 0"
  shows "set dl = ob_payload ` set rows"
proof -
  have "ob_published r" if "r \<in> set rows" for r
    using assms(2) that by (auto simp: unpublished_count_def filter_empty_conv)
  with outbox_invD(4,5) [OF assms(1)] show ?thesis by blast
qed

subsection \<open>Outbox rows are trades\<close>

text \<open>The i-th outbox row announces the i-th trade.\<close>

definition trade_view :: "trade_record \<Rightarrow> string \<times> string option \<times> string \<times> string \<times> string \<times> rat \<times> rat \<times> rat" where
  "trade_view td = (td_account_id td, td_order_id td, td_bot_id td, td_symbol td, td_side td,
     td_quantity td, td_price td, td_commission td)"

definition event_view :: "order_filled \<Rightarrow> string \<times> string option \<times> string \<times> string \<times> string \<times> rat \<times> rat \<times> rat" where
  "event_view ev = (ev_account_id ev, Some (ev_order_id ev), ev_bot_id ev, ev_symbol ev, ev_side ev,
     ev_quantity ev, ev_price ev, ev_commission ev)"

definition announced :: "fill_state \<Rightarrow> bool" where
  "announced s \<longleftrightarrow> (fs_has_outbox s \<longrightarrow>
     map event_view (map ob_payload (fs_outbox s)) = map trade_view (dict_values (fs_trades s)))"

lemma enqueue_new:
  assumes "outbox_inv recorded rows dl" and "recorded oid < obs"
  shows "map ob_payload (enqueue (oid, obs) e rows) = map ob_payload rows @ [e]"
proof -
  have "ob_key r \<noteq> (oid, obs)" if "r \<in> set rows" for r
    using outbox_invD(1) [OF assms(1) that] assms(2) by (auto simp: outbox_row_ok_def)
  then show ?thesis by (auto simp: enqueue_def)
qed

lemma apply_locked_announced:
  assumes inv: "pipeline_inv s" and ann: "announced s"
    and row: "dict_get (tr_table (fs_tracker s)) oid = Some row" and acct: "ot_account_id row = acct"
    and valid: "\<not> is_invalid_account_id (Some acct)" and fresh: "dict_get (fs_trades s) tid = None"
  shows "announced (snd (apply_locked fault tid row oid obs avg acct s))"
proof -
  obtain res s' where al: "apply_locked fault tid row oid obs avg acct s = (res, s')" by fastforce
  from al row valid show ?thesis
  proof (cases rule: apply_locked_cases)
    case (applied ps)
    let ?td = "fill_trade tid row oid (obs - ot_recorded_filled_qty row) avg acct"
    have f: "dict_get (fs_trades s) (td_trade_id ?td) = None" using fresh by (simp add: fill_trade_def)
    have "announced s'"
    proof (cases "fs_has_outbox s")
      case True
      have "recorded_of oid (fs_tracker s) < obs" using row applied(1) by (simp add: recorded_of_def)
      note enq = enqueue_new [OF pipeline_invD(5) [OF inv True] this]
      show ?thesis
        using ann True
        unfolding announced_def applied(4)
        by (simp add: advanced_def Let_def enq save_trade_values [OF f] del: map_map)
          (simp add: event_view_def trade_view_def build_payload_def fill_trade_def acct)
    qed (simp add: applied(4) announced_def advanced_def publish_filled_def Let_def)
    with al show ?thesis by simp
  qed (use ann al in \<open>auto simp: announced_def\<close>)
qed

lemma tracked_account:
  assumes inv: "tracker_inv t" and t: "tracked acct odno date (tr_table t) = Inr (Some (oid, row))"
  shows "ot_account_id row = acct"
  using lookup_order_id_spec [OF tracked_Some(2) [OF t] inv] tracked_Some(1) [OF t] by auto

lemma announced_step:
  assumes inv: "pipeline_inv s" and ann: "announced s" and fresh: "fresh_trade_id s e"
  shows "announced (fill_step s e)"
proof (cases e)
  case (Fs_poll fault tid acct odno obs avg date)
  then show ?thesis
    using ann fresh tracked_account [OF pipeline_invD(1) [OF inv]]
    by (auto simp: apply_cumulative_def split: sum.splits option.splits
        intro!: apply_locked_announced [OF inv ann] dest: tracked_Some(1))
next
  case (Fs_stream fault tid acct odno inc avg date)
  then show ?thesis
    using ann fresh tracked_account [OF pipeline_invD(1) [OF inv]]
    by (auto simp: apply_stream_increment_def split: sum.splits option.splits
        intro!: apply_locked_announced [OF inv ann] dest: tracked_Some(1))
next
  case (Fs_drain oc)
  obtain en n rows dl where d: "drain oc 0 (fs_outbox s) (fs_delivered s) = (en, n, rows, dl)"
    by (metis prod_cases4)
  show ?thesis using ann drain_payloads [OF d] by (simp add: Fs_drain catch_up_once_def d announced_def)
qed (use ann in \<open>simp_all add: announced_def\<close>)

lemma announced_run:
  assumes "admissible fill_step fresh_trade_id (fill_init b) es"
  shows "announced (run fill_step (fill_init b) es)"
proof -
  have "announced (run fill_step s es)"
    if "pipeline_inv s" "announced s" "admissible fill_step fresh_trade_id s es" for s
    using that by (induction es arbitrary: s) (auto intro: announced_step fill_step_inv)
  moreover have "announced (fill_init b)" by (simp add: announced_def fill_init_def)
  ultimately show ?thesis using assms by simp
qed

lemma drained:
  assumes adm: "admissible fill_step fresh_trade_id (fill_init True) es"
    and c: "catch_up_once (\<lambda>_. Delivered) (run fill_step (fill_init True) es) = (n, s)"
  shows "n \<noteq> None" and "unpublished_count (fs_outbox s) = 0"
    and "outbox_inv (\<lambda>oid. recorded_of oid (fs_tracker s)) (fs_outbox s) (fs_delivered s)"
    and "set (fs_delivered s) = ob_payload ` set (fs_outbox s)"
    and "map event_view (map ob_payload (fs_outbox s)) = map trade_view (dict_values (fs_trades s))"
proof -
  let ?s = "run fill_step (fill_init True) es"
  obtain e m rows dl where d: "drain (\<lambda>_. Delivered) 0 (fs_outbox ?s) (fs_delivered ?s) = (e, m, rows, dl)"
    by (metis prod_cases4)
  have s: "s = ?s\<lparr>fs_outbox := rows, fs_delivered := dl\<rparr>" and n: "n = (if e = Drain_raised then None else Some m)"
    using c by (simp_all add: catch_up_once_def d)
  have inv: "pipeline_inv ?s" using pipeline.run_inv [OF fill_init_inv adm] .
  have has: "fs_has_outbox ?s" by (simp add: has_outbox_run fill_init_def)
  have o: "outbox_inv (\<lambda>oid. recorded_of oid (fs_tracker ?s)) rows dl"
    by (rule drain_inv [OF d pipeline_invD(5) [OF inv has]])
  note all = drain_all [OF d]
  show "n \<noteq> None" "unpublished_count (fs_outbox s) = 0" using all by (simp_all add: n s)
  show "outbox_inv (\<lambda>oid. recorded_of oid (fs_tracker s)) (fs_outbox s) (fs_delivered s)"
    using o by (simp add: s)
  have "set dl = ob_payload ` set rows" by (rule all_published_delivered [OF o conjunct2 [OF all]])
  then show "set (fs_delivered s) = ob_payload ` set (fs_outbox s)" by (simp add: s)
  show "map event_view (map ob_payload (fs_outbox s)) = map trade_view (dict_values (fs_trades s))"
    using announced_run [OF adm] has drain_payloads [OF d] by (simp add: announced_def s del: map_map)
qed

subsection \<open>The publisher's loop\<close>

definition corruption_turn :: "rat \<times> rat \<times> bool \<times> py_exception option \<Rightarrow> bool" where
  "corruption_turn turn = (case turn of
     (_, _, ok, exc) \<Rightarrow> ok \<and> (case exc of None \<Rightarrow> False | Some e \<Rightarrow> is_db_corruption e))"

lemma corruption_turn_step:
  assumes "corruption_turn turn" and "pb_escalated p \<longleftrightarrow> escalate_threshold \<le> pb_consecutive_failures p"
  defines "p' \<equiv> loop_turn p turn"
  shows "pb_escalated p' \<longleftrightarrow> escalate_threshold \<le> pb_consecutive_failures p'"
    and "pb_consecutive_failures p \<le> pb_consecutive_failures p'"
    and "pb_notifications p' = pb_notifications p + (if pb_escalated p' \<and> \<not> pb_escalated p then 1 else 0)"
  using assms
  by (auto simp: corruption_turn_def loop_turn_def after_drain_def escalate_def Let_def
      split: option.splits prod.splits)

lemma corruption_run:
  assumes "\<forall>turn\<in>set turns. corruption_turn turn"
    and "pb_escalated p \<longleftrightarrow> escalate_threshold \<le> pb_consecutive_failures p"
  defines "p' \<equiv> run loop_turn p turns"
  shows "(pb_escalated p' \<longleftrightarrow> escalate_threshold \<le> pb_consecutive_failures p')
    \<and> pb_consecutive_failures p \<le> pb_consecutive_failures p'
    \<and> pb_notifications p' = pb_notifications p + (if pb_escalated p' \<and> \<not> pb_escalated p then 1 else 0)"
  unfolding p'_def using assms(1,2)
proof (induction turns arbitrary: p)
  case (Cons t turns)
  then have t: "corruption_turn t" by simp
  note step = corruption_turn_step [OF t Cons.prems(2)]
  note IH = Cons.IH [OF _ step(1)]
  have "\<forall>turn\<in>set turns. corruption_turn turn" using Cons.prems by simp
  note IH = IH [OF this]
  show ?case using IH step Cons.prems(2) by auto
qed simp

lemma backoff_bounds:
  assumes "0 \<le> pb_drain_interval p" and "0 < pb_consecutive_failures p"
  shows "2 * pb_drain_interval p \<le> backoff_delay p" and "backoff_delay p \<le> 8 * pb_drain_interval p"
proof -
  have "(2::nat) \<le> 2 ^ pb_consecutive_failures p"
    using assms(2) by (cases "pb_consecutive_failures p") auto
  then have m: "2 \<le> min ((2::nat) ^ pb_consecutive_failures p) loop_backoff_multiplier_cap"
    "min ((2::nat) ^ pb_consecutive_failures p) loop_backoff_multiplier_cap \<le> 8"
    by (auto simp: loop_backoff_multiplier_cap_def)
  let ?m = "of_nat (min (2 ^ pb_consecutive_failures p) loop_backoff_multiplier_cap) :: rat"
  have m': "2 \<le> ?m" "?m \<le> 8"
    using m by (metis of_nat_le_iff of_nat_numeral)+
  have d: "backoff_delay p = pb_drain_interval p * ?m" using assms(2) by (simp add: backoff_delay_def)
  show "2 * pb_drain_interval p \<le> backoff_delay p"
    unfolding d using mult_left_mono [OF m'(1) assms(1)] by (simp add: mult.commute)
  show "backoff_delay p \<le> 8 * pb_drain_interval p"
    unfolding d using mult_left_mono [OF m'(2) assms(1)] by (simp add: mult.commute)
qed

subsection \<open>Properties\<close>

text \<open>
  C2. Executions are booked exactly once: after any sequence of submissions, polled and streamed
  observations (duplicated, late, reordered, with a database failure at any statement), terminal
  marks, expiries, drains and restarts, the traded quantity of every order is the filled quantity
  its row records, and the positions and position history are those of replaying the trade table.
\<close>

theorem fills_exactly_once:
  assumes "admissible fill_step fresh_trade_id (fill_init outbox) es"
  shows "traded_qty oid (fs_trades (run fill_step (fill_init outbox) es))
      = recorded_of oid (fs_tracker (run fill_step (fill_init outbox) es))
    \<and> pos_tables (fs_positions (run fill_step (fill_init outbox) es))
      = pos_tables (run trade_step no_positions (dict_values (fs_trades (run fill_step (fill_init outbox) es))))"
proof -
  have inv: "pipeline_inv (run fill_step (fill_init outbox) es)"
    using pipeline.run_inv [OF fill_init_inv assms] .
  show ?thesis by (intro conjI pipeline_invD(3) [OF inv] pipeline_invD(4) [OF inv])
qed

text \<open>
  C4. No booked execution is lost on its way to the consumers: with an outbox, after any such
  sequence (crashes between publication and marking included) one undisturbed drain ends with
  nothing left to publish, and for every order the distinct events delivered so far add up to the
  recorded quantity, each with its own dedup key.
\<close>

theorem outbox_lossless:
  assumes "admissible fill_step fresh_trade_id (fill_init True) es"
    and "catch_up_once (\<lambda>_. Delivered) (run fill_step (fill_init True) es) = (n, s)"
  shows "n \<noteq> None \<and> unpublished_count (fs_outbox s) = 0
    \<and> (\<Sum>e\<in>{e \<in> set (fs_delivered s). ev_order_id e = oid}. ev_quantity e) = recorded_of oid (fs_tracker s)
    \<and> inj_on ev_fill_dedup_key (set (fs_delivered s))"
proof -
  note F = drained [OF assms]
  have "inj_on ev_fill_dedup_key (set (fs_delivered s))"
    unfolding F(4) by (rule distinct_payloads(2) [OF F(3)])
  then show ?thesis
    using F(1,2) sum_distinct_payloads [OF F(3,4)] by blast
qed

text \<open>
  C26. A failed application changes nothing that is stored: when \<open>apply_cumulative\<close> raises, at
  whatever statement, the order table, the open-order cache, the trades, positions, history, the
  outbox and the delivered events are what they were.
\<close>

theorem apply_failure_atomic:
  assumes "apply_cumulative fault tid acct odno obs avg date s = (Inl e, s')"
  shows "fs_tracker s' = fs_tracker s \<and> pos_tables (fs_positions s') = pos_tables (fs_positions s)
    \<and> fs_trades s' = fs_trades s \<and> fs_outbox s' = fs_outbox s \<and> fs_delivered s' = fs_delivered s"
proof (cases "s' = s")
  case False
  then obtain oid row where row: "tracked acct odno date (tr_table (fs_tracker s)) = Inr (Some (oid, row))"
    and acct: "\<not> is_invalid_account_id (Some acct)"
    and al: "apply_locked fault tid row oid obs avg acct s = (Inl e, s')"
    using assms by (auto simp: apply_cumulative_def split: sum.splits option.splits)
  from al tracked_Some(1) [OF row] acct show ?thesis
    by (cases rule: apply_locked_cases) (auto simp: pos_tables_def)
qed simp

text \<open>
  The position cache is not covered by that rollback: when the transaction of a buy fails after
  the position write (history, outbox or commit), the synchronous position view already shows the
  bought quantity while the positions table does not, until the same position is written again.
\<close>

theorem position_cache_survives_rollback:
  assumes row: "dict_get (tr_table (fs_tracker s)) oid = Some row" "ot_recorded_filled_qty row < obs"
    and buy: "ot_side row = ''buy''" and acct: "\<not> is_invalid_account_id (Some acct)"
    and held: "0 \<le> held_of (acct, ot_bot_id row, ot_symbol row) (fs_positions s)"
    and fault: "fault = At_save_history \<or> fault = At_commit \<or> fault = At_enqueue \<and> fs_has_outbox s"
    and s': "(res, s') = apply_locked (Some fault) tid row oid obs avg acct s"
  shows "pt_rows (fs_positions s') = pt_rows (fs_positions s)
    \<and> map_option ps_quantity (pos_cache_get (pt_cache (fs_positions s')) acct (ot_bot_id row) (ot_symbol row))
      = Some (held_of (acct, ot_bot_id row, ot_symbol row) (fs_positions s)
              + (obs - ot_recorded_filled_qty row))"
proof -
  let ?d = "obs - ot_recorded_filled_qty row"
  let ?td = "fill_trade tid row oid ?d avg acct"
  let ?key = "(acct, ot_bot_id row, ot_symbol row)"
  obtain ps where ps: "on_trade ?td (fs_positions s) = Inr ps"
    and cache: "\<exists>p. pos_cache_get (pt_cache ps) acct (ot_bot_id row) (ot_symbol row) = Some p
      \<and> ps_quantity p = held_of ?key (fs_positions s) + ?d"
    using buy acct held row(2)
    by (auto simp: on_trade_def get_current_def on_trade_buy_def fill_trade_def update_position_def
        save_history_def history_of_def pos_cache_get_update held_of_def Let_def)
  have "fs_positions s' = (fs_positions s)\<lparr>pt_cache := pt_cache ps\<rparr>"
    using fault s'
  proof (elim disjE conjE)
    assume "fault = At_save_history" with s' row ps show ?thesis
      by (simp add: apply_locked_def apply_txn_def record_fill_def Let_def rollback_def)
  next
    assume "fault = At_commit" with s' row ps show ?thesis
      by (simp add: apply_locked_def apply_txn_def record_fill_def Let_def rollback_def split: if_splits)
  next
    assume "fault = At_enqueue" "fs_has_outbox s" with s' row ps show ?thesis
      by (simp add: apply_locked_def apply_txn_def record_fill_def Let_def rollback_def)
  qed
  with cache show ?thesis by auto
qed

text \<open>
  Observations converge: for an order that is alone with its broker number, whatever the order
  and repetition of the broker's cumulative observations (none above the ordered quantity), the
  recorded quantity ends at the largest of them.
\<close>

theorem observations_converge:
  assumes "sole_order acct odno oid ordered submitted (tr_table (fs_tracker s))"
    and "tracker_inv (fs_tracker s)" and "0 < ordered"
    and "\<forall>(tid, obs, avg, date)\<in>set polls. obs \<le> ordered \<and> submitted \<le> date"
  shows "recorded_of oid (fs_tracker (run fill_step s (map (poll_event acct odno) polls))) =
    fold (\<lambda>obs m. max m obs) (map poll_obs polls) (recorded_of oid (fs_tracker s))"
  using assms by (rule polls_converge)

text \<open>
  A database corruption is escalated exactly once: over any number of consecutive turns of the
  publisher loop whose drains end in a corruption error, exactly one notification goes out if the
  failure count reaches ten, and none before.
\<close>

theorem escalation_exactly_once:
  assumes "\<forall>turn\<in>set turns. corruption_turn turn"
    and "pb_consecutive_failures p = 0" and "\<not> pb_escalated p"
  shows "pb_notifications (run loop_turn p turns) = pb_notifications p
    + (if 10 \<le> pb_consecutive_failures (run loop_turn p turns) then 1 else 0)"
  using corruption_run [OF assms(1), of p] assms(2,3) by (simp add: escalate_threshold_def)

text \<open>
  The failure backoff cannot be bypassed and cannot starve: after a corruption failure at time
  \<open>now\<close>, a turn woken before \<open>now + 2 * interval\<close> does nothing, and one woken from
  \<open>now + 8 * interval\<close> on drains again.
\<close>

theorem backoff_gates_drains:
  assumes "is_db_corruption exc" and "0 \<le> pb_drain_interval p"
    and "p' = after_drain now ok (Some exc) p"
  shows "(woken < now + 2 * pb_drain_interval p \<longrightarrow> loop_turn p' (woken, t, ok', exc') = p')
    \<and> (now + 8 * pb_drain_interval p \<le> woken \<longrightarrow> may_drain woken p')"
proof -
  let ?p1 = "p\<lparr>pb_consecutive_failures := pb_consecutive_failures p + 1\<rparr>"
  have p': "pb_next_drain_at p' = now + backoff_delay ?p1" "0 < pb_consecutive_failures p'"
    using assms(1,3) by (auto simp: after_drain_def escalate_def Let_def)
  have "2 * pb_drain_interval p \<le> backoff_delay ?p1" "backoff_delay ?p1 \<le> 8 * pb_drain_interval p"
    using backoff_bounds [of ?p1] assms(2) by simp_all
  with p' show ?thesis by (auto simp: loop_turn_def may_drain_def)
qed

subsection \<open>The properties on a concrete run\<close>

definition sample_polls :: "(string \<times> rat \<times> rat \<times> string) list" where
  "sample_polls = [(''t1'', 4, 100, ''2026-01-05''), (''t2'', 7, 100, ''2026-01-05''), (''t3'', 4, 100, ''2026-01-06'')]"

definition sample_events :: "fill_event list" where
  "sample_events = Fs_submit (sample_order ''o1'' 10) # map (poll_event ''acct-1'' ''Bo1'') sample_polls
     @ [Fs_stream None ''t4'' ''acct-1'' ''Bo1'' 2 100 ''2026-01-06'', Fs_terminal ''o1'' CANCELLED, Fs_restart]"

lemma sample_events_admissible: "admissible fill_step fresh_trade_id (fill_init True) sample_events"
  by code_simp

theorem fills_exactly_once_witness:
  "traded_qty ''o1'' (fs_trades (run fill_step (fill_init True) sample_events))
      = recorded_of ''o1'' (fs_tracker (run fill_step (fill_init True) sample_events))
    \<and> recorded_of ''o1'' (fs_tracker (run fill_step (fill_init True) sample_events)) = 9"
proof -
  have "recorded_of ''o1'' (fs_tracker (run fill_step (fill_init True) sample_events)) = 9"
    by code_simp
  with fills_exactly_once [OF sample_events_admissible] show ?thesis by blast
qed

definition sample_drained :: fill_state where
  "sample_drained = snd (catch_up_once (\<lambda>_. Delivered) (run fill_step (fill_init True) sample_events))"

lemma sample_drained_count:
  "fst (catch_up_once (\<lambda>_. Delivered) (run fill_step (fill_init True) sample_events)) = Some 3"
  by code_simp

theorem outbox_lossless_witness:
  "unpublished_count (fs_outbox sample_drained) = 0
    \<and> (\<Sum>e\<in>{e \<in> set (fs_delivered sample_drained). ev_order_id e = ''o1''}. ev_quantity e)
        = recorded_of ''o1'' (fs_tracker sample_drained)"
proof -
  have "catch_up_once (\<lambda>_. Delivered) (run fill_step (fill_init True) sample_events) = (Some 3, sample_drained)"
    by (simp add: sample_drained_def prod_eq_iff sample_drained_count)
  from outbox_lossless [OF sample_events_admissible this] show ?thesis by blast
qed

theorem apply_failure_atomic_witness:
  "fs_trades (snd (apply_cumulative (Some At_commit) ''t9'' ''acct-1'' ''Bo1'' 10 100 ''2026-01-06''
      (run fill_step (fill_init True) (take 3 sample_events))))
    = fs_trades (run fill_step (fill_init True) (take 3 sample_events))"
proof -
  define s where "s = run fill_step (fill_init True) (take 3 sample_events)"
  define r where "r = apply_cumulative (Some At_commit) ''t9'' ''acct-1'' ''Bo1'' 10 100 ''2026-01-06'' s"
  have "fst r = Inl (Db_fault At_commit)"
    unfolding r_def s_def by code_simp
  then have "r = (Inl (Db_fault At_commit), snd r)" by (simp add: prod_eq_iff)
  from apply_failure_atomic [OF this [unfolded r_def]] show ?thesis
    by (simp add: r_def s_def)
qed

definition sample_live :: fill_state where
  "sample_live = run fill_step (fill_init True) [Fs_submit (sample_order ''o1'' 10)]"

theorem position_cache_survives_rollback_witness:
  "pt_rows (fs_positions (snd (apply_locked (Some At_commit) ''t1'' (sample_order ''o1'' 10) ''o1'' 4 100 ''acct-1'' sample_live)))
      = pt_rows (fs_positions sample_live)
    \<and> map_option ps_quantity (pos_cache_get (pt_cache (fs_positions (snd (apply_locked (Some At_commit) ''t1''
          (sample_order ''o1'' 10) ''o1'' 4 100 ''acct-1'' sample_live)))) ''acct-1'' ''bot-1'' ''005930'') = Some 4"
proof -
  let ?r = "apply_locked (Some At_commit) ''t1'' (sample_order ''o1'' 10) ''o1'' 4 100 ''acct-1'' sample_live"
  have row: "dict_get (tr_table (fs_tracker sample_live)) ''o1'' = Some (sample_order ''o1'' 10)"
    "ot_recorded_filled_qty (sample_order ''o1'' 10) < 4" "ot_side (sample_order ''o1'' 10) = ''buy''"
    "\<not> is_invalid_account_id (Some ''acct-1'')"
    "0 \<le> held_of (''acct-1'', ot_bot_id (sample_order ''o1'' 10), ot_symbol (sample_order ''o1'' 10)) (fs_positions sample_live)"
    by code_simp+
  have n: "held_of (''acct-1'', ''bot-1'', ''005930'') (fs_positions sample_live) = 0"
    "ot_bot_id (sample_order ''o1'' 10) = ''bot-1''" "ot_symbol (sample_order ''o1'' 10) = ''005930''"
    "ot_recorded_filled_qty (sample_order ''o1'' 10) = 0"
    by code_simp+
  have "(fst ?r, snd ?r) = ?r" by simp
  from position_cache_survives_rollback [OF row(1-5) _ this] show ?thesis using n by simp
qed

theorem observations_converge_witness:
  "recorded_of ''o1'' (fs_tracker (run fill_step sample_live (map (poll_event ''acct-1'' ''Bo1'') sample_polls))) = 7"
proof -
  have row: "sole_order ''acct-1'' ''Bo1'' ''o1'' 10 ''2026-01-05'' (tr_table (fs_tracker sample_live))"
  proof -
    have "tr_table (fs_tracker sample_live) = [(''o1'', sample_order ''o1'' 10)]" by code_simp
    then show ?thesis
      by (auto simp: sole_order_def sample_order_def is_open_row_iff)
  qed
  have inv: "tracker_inv (fs_tracker sample_live)"
  proof -
    have "fs_tracker sample_live = tracker_step empty_tracker (Open_order (sample_order ''o1'' 10))"
      by (simp add: sample_live_def fill_init_def del: tracker_step.simps)
    then show ?thesis by (simp only: tracker_step_inv [OF empty_tracker_inv])
  qed
  have polls: "\<forall>(tid, obs, avg, date)\<in>set sample_polls. obs \<le> 10 \<and> ''2026-01-05'' \<le> date"
    by code_simp
  have m: "fold (\<lambda>obs m. max m obs) (map poll_obs sample_polls) (recorded_of ''o1'' (fs_tracker sample_live)) = 7"
    by code_simp
  show ?thesis using observations_converge [OF row inv _ polls] m by simp
qed

definition sample_publisher :: publisher where
  "sample_publisher = \<lparr>pb_drain_interval = 1, pb_consecutive_failures = 0, pb_escalated = False,
     pb_next_drain_at = 0, pb_notifications = 0\<rparr>"

definition corrupt_turns :: "nat \<Rightarrow> (rat \<times> rat \<times> bool \<times> py_exception option) list" where
  "corrupt_turns n = map (\<lambda>i. (of_nat i * 100, of_nat i * 100, True, Some (True, ''database disk image is malformed''))) [0..<n]"

theorem escalation_exactly_once_witness:
  "pb_notifications (run loop_turn sample_publisher (corrupt_turns 12)) = 1"
proof -
  have t: "\<forall>turn\<in>set (corrupt_turns 12). corruption_turn turn" by code_simp
  have f: "10 \<le> pb_consecutive_failures (run loop_turn sample_publisher (corrupt_turns 12))" by code_simp
  show ?thesis
    using escalation_exactly_once [OF t, of sample_publisher] f by (simp add: sample_publisher_def)
qed

theorem backoff_gates_drains_witness:
  "loop_turn (after_drain 5 True (Some (True, ''Malformed'')) sample_publisher) (6, 6, True, None)
      = after_drain 5 True (Some (True, ''Malformed'')) sample_publisher
    \<and> may_drain 20 (after_drain 5 True (Some (True, ''Malformed'')) sample_publisher)"
proof -
  have c: "is_db_corruption (True, ''Malformed'')" by code_simp
  have "0 \<le> pb_drain_interval sample_publisher" by (simp add: sample_publisher_def)
  from backoff_gates_drains [OF c this refl, of 6 5 True 6 True None]
    backoff_gates_drains [OF c this refl, of 20 5 True 6 True None]
  show ?thesis by (simp add: sample_publisher_def)
qed

end
