(* ===== verification/Treasury.thy ===== *)
theory Treasury
  imports Order_Tracker Order_Events
begin

text \<open>
  \<open>src/src/ante/treasury/treasury.py\<close>: the budgets of the bots of one account.  This theory has the
  state, the budget operations and the reservations; the event handlers are in
  \<open>Treasury_Orders\<close>, synchronisation, reload and snapshots in \<open>Treasury_Sync\<close>.

  \<open>treasury\<close> is the object's memory together with the database tables it owns.  The tables are
  shared by the treasuries of all accounts, so rows of other accounts may be present.
  \<open>treasury_config\<close> holds what is fixed when the object is built, \<open>treasury_env\<close> what it reads from
  outside during one call (quote source, bot status, order tracker, readiness registry) and the
  database statement that fails, if one does.  Writes outside the settlement transaction and the
  reservation are taken to succeed.  Decimals are rationals; the 28-digit context is not modelled.
\<close>

subsection \<open>State\<close>

record bot_budget =
  bb_bot_id :: string
  bb_account_id :: string
  bb_allocated :: rat
  bb_available :: rat
  bb_reserved :: rat
  bb_spent :: rat
  bb_returned :: rat

definition new_budget :: "string \<Rightarrow> string \<Rightarrow> bot_budget" where
  "new_budget bot_id account_id =
     \<lparr>bb_bot_id = bot_id, bb_account_id = account_id, bb_allocated = 0, bb_available = 0,
      bb_reserved = 0, bb_spent = 0, bb_returned = 0\<rparr>"

record account_figures =
  af_account_balance :: rat
  af_purchasable_amount :: rat
  af_total_evaluation :: rat
  af_purchase_amount :: rat
  af_eval_amount :: rat
  af_total_profit_loss :: rat
  af_external_purchase_amount :: rat
  af_external_eval_amount :: rat

definition no_figures :: account_figures where
  "no_figures =
     \<lparr>af_account_balance = 0, af_purchasable_amount = 0, af_total_evaluation = 0,
      af_purchase_amount = 0, af_eval_amount = 0, af_total_profit_loss = 0,
      af_external_purchase_amount = 0, af_external_eval_amount = 0\<rparr>"

datatype transaction_type = Tx_allocate | Tx_deallocate | Tx_release | Tx_fill | Tx_bot_stopped_release

record treasury_transaction =
  tt_bot_id :: string
  tt_account_id :: string
  tt_type :: transaction_type
  tt_amount :: rat

record daily_snapshot =
  sn_total_asset :: rat
  sn_ante_eval_amount :: rat
  sn_ante_purchase_amount :: rat
  sn_unallocated :: rat
  sn_account_balance :: rat
  sn_total_allocated :: rat
  sn_bot_count :: nat
  sn_daily_pnl :: rat
  sn_daily_return :: rat
  sn_net_trade_amount :: rat
  sn_unrealized_pnl :: rat

record treasury_db =
  db_budgets :: "(string, bot_budget) dict"
  db_state :: "(string, account_figures) dict"
  db_log :: "treasury_transaction list"
  db_fill_dedup :: "(dedup_key, string \<times> string) dict"
  db_snapshots :: "(string \<times> string, daily_snapshot) dict"

record treasury =
  ty_budgets :: "(string, bot_budget) dict"
  ty_unallocated :: rat
  ty_reservations :: "(string, string \<times> rat) dict"
  ty_figures :: account_figures
  ty_db :: treasury_db

record treasury_config =
  tc_account_id :: string
  tc_buy_commission_rate :: rat
  tc_market_order_reserve_buffer_rate :: rat
  tc_broker_type :: string
  tc_trading_mode :: trading_mode

datatype quote_reply = Quote_raises string | Quote pyfloat | Quote_not_a_number

datatype treasury_fault = Ft_dedup_insert | Ft_tracker_get | Ft_save_budget | Ft_log | Ft_commit

record treasury_env =
  te_price_resolver :: "(string \<Rightarrow> quote_reply) option"
  te_bot_status :: "(string \<Rightarrow> string) option"
  te_order_tracker :: "(string \<Rightarrow> order_row option) option"
  te_registry :: "readiness_reader option"
  te_fault :: "treasury_fault option"

datatype treasury_error =
    Invalid_amount pyfloat
  | Insufficient_unallocated string rat rat
  | Budget_not_found string
  | Deallocate_exceeds_available string rat rat
  | Bot_not_stopped string string
  | Insufficient_funds
  | Value_error

subsection \<open>Saving\<close>

definition total_of :: "(bot_budget \<Rightarrow> rat) \<Rightarrow> treasury \<Rightarrow> rat" where
  "total_of f s = dict_sum f (ty_budgets s)"

definition save_state :: "treasury_config \<Rightarrow> treasury \<Rightarrow> treasury" where
  "save_state c s =
     s\<lparr>ty_db := (ty_db s)\<lparr>db_state := dict_set (tc_account_id c) (ty_figures s) (db_state (ty_db s))\<rparr>\<rparr>"

definition save_budget :: "bot_budget \<Rightarrow> treasury \<Rightarrow> treasury" where
  "save_budget b s =
     s\<lparr>ty_db := (ty_db s)\<lparr>db_budgets := dict_set (bb_bot_id b) b (db_budgets (ty_db s))\<rparr>\<rparr>"

definition log_transaction ::
  "treasury_config \<Rightarrow> string \<Rightarrow> transaction_type \<Rightarrow> rat \<Rightarrow> treasury \<Rightarrow> treasury" where
  "log_transaction c bot_id tx_type amount s =
     s\<lparr>ty_db := (ty_db s)\<lparr>db_log := db_log (ty_db s) @
         [\<lparr>tt_bot_id = bot_id, tt_account_id = tc_account_id c, tt_type = tx_type, tt_amount = amount\<rparr>]\<rparr>\<rparr>"

text \<open>Writing a budget object back to its slot of \<open>_budgets\<close> (the code mutates it in place).\<close>

definition put_budget :: "bot_budget \<Rightarrow> treasury \<Rightarrow> treasury" where
  "put_budget b s = s\<lparr>ty_budgets := dict_set (bb_bot_id b) b (ty_budgets s)\<rparr>"

subsection \<open>Account balance and queries\<close>

definition set_account_balance ::
  "treasury_config \<Rightarrow> pyfloat \<Rightarrow> treasury \<Rightarrow> treasury_error + treasury" where
  "set_account_balance c balance s =
     (if \<not> (isfinite balance \<and> fle (Fin 0) balance) then Inl Value_error
      else
        let s1 = s\<lparr>ty_figures := (ty_figures s)\<lparr>af_account_balance := fval balance\<rparr>,
                   ty_unallocated := fval balance - total_of bb_allocated s\<rparr>
        in Inr (save_state c s1))"

definition get_budget :: "string \<Rightarrow> treasury \<Rightarrow> bot_budget option" where
  "get_budget bot_id s = dict_get (ty_budgets s) bot_id"

definition get_available :: "string \<Rightarrow> treasury \<Rightarrow> rat" where
  "get_available bot_id s =
     (case dict_get (ty_budgets s) bot_id of None \<Rightarrow> 0 | Some b \<Rightarrow> bb_available b)"

subsection \<open>Allocation\<close>

definition check_bot_stopped :: "treasury_env \<Rightarrow> string \<Rightarrow> treasury_error option" where
  "check_bot_stopped env bot_id =
     (case te_bot_status env of
        None \<Rightarrow> None
      | Some checker \<Rightarrow>
          let status = checker bot_id
          in if status \<noteq> '''' \<and> status \<notin> set [''stopped'', ''created'', ''error'']
             then Some (Bot_not_stopped bot_id status) else None)"

definition allocate ::
  "treasury_config \<Rightarrow> treasury_env \<Rightarrow> string \<Rightarrow> pyfloat \<Rightarrow> treasury \<Rightarrow> treasury_error + treasury" where
  "allocate c env bot_id amount s =
     (case check_bot_stopped env bot_id of
        Some e \<Rightarrow> Inl e
      | None \<Rightarrow>
          if \<not> isfinite amount \<or> fle amount (Fin 0) then Inl (Invalid_amount amount)
          else
            let a = fval amount
            in if ty_unallocated s < a then Inl (Insufficient_unallocated bot_id a (ty_unallocated s))
               else
                 let budget = (case dict_get (ty_budgets s) bot_id of
                                 None \<Rightarrow> new_budget bot_id (tc_account_id c)
                               | Some b \<Rightarrow> b);
                     budget' = budget\<lparr>bb_allocated := bb_allocated budget + a,
                                      bb_available := bb_available budget + a\<rparr>;
                     s1 = (put_budget budget' s)\<lparr>ty_unallocated := ty_unallocated s - a\<rparr>
                 in Inr (log_transaction c bot_id Tx_allocate a (save_state c (save_budget budget' s1))))"

definition deallocate ::
  "treasury_config \<Rightarrow> treasury_env \<Rightarrow> string \<Rightarrow> pyfloat \<Rightarrow> treasury \<Rightarrow> treasury_error + treasury" where
  "deallocate c env bot_id amount s =
     (case check_bot_stopped env bot_id of
        Some e \<Rightarrow> Inl e
      | None \<Rightarrow>
          if \<not> isfinite amount \<or> fle amount (Fin 0) then Inl (Invalid_amount amount)
          else
            let a = fval amount
            in case dict_get (ty_budgets s) bot_id of
                 None \<Rightarrow> Inl (Budget_not_found bot_id)
               | Some budget \<Rightarrow>
                   if bb_available budget < a
                   then Inl (Deallocate_exceeds_available bot_id a (bb_available budget))
                   else
                     let budget' = budget\<lparr>bb_allocated := bb_allocated budget - a,
                                          bb_available := bb_available budget - a\<rparr>;
                         s1 = (put_budget budget' s)\<lparr>ty_unallocated := ty_unallocated s + a\<rparr>
                     in Inr (log_transaction c bot_id Tx_deallocate a
                               (save_state c (save_budget budget' s1))))"

text \<open>
  The released amount and the new state.  A budget that is not in memory is looked up in the table,
  for this account only; the deletion goes by \<open>bot_id\<close> alone.
\<close>

definition release_budget :: "treasury_config \<Rightarrow> string \<Rightarrow> treasury \<Rightarrow> rat \<times> treasury" where
  "release_budget c bot_id s =
     (let found = (case dict_get (ty_budgets s) bot_id of
                     Some b \<Rightarrow> Some b
                   | None \<Rightarrow>
                       (case dict_get (db_budgets (ty_db s)) bot_id of
                          None \<Rightarrow> None
                        | Some row \<Rightarrow> if bb_account_id row = tc_account_id c then Some row else None))
      in case found of
           None \<Rightarrow> (0, s)
         | Some budget \<Rightarrow>
             let released = bb_allocated budget;
                 s1 = s\<lparr>ty_budgets := dict_pop bot_id (ty_budgets s),
                        ty_unallocated := ty_unallocated s + released,
                        ty_db := (ty_db s)\<lparr>db_budgets := dict_pop bot_id (db_budgets (ty_db s))\<rparr>\<rparr>;
                 s2 = log_transaction c bot_id Tx_release released (save_state c s1)
             in (released,
                 s2\<lparr>ty_reservations := filter (\<lambda>(_, bid, _). bid \<noteq> bot_id) (ty_reservations s2)\<rparr>))"

text \<open>\<open>x - y\<close> for a finite \<open>y\<close>.\<close>

fun fsub :: "pyfloat \<Rightarrow> rat \<Rightarrow> pyfloat" where
  "fsub (Fin x) y = Fin (x - y)"
| "fsub x y = x"

fun fneg :: "pyfloat \<Rightarrow> pyfloat" where
  "fneg (Fin x) = Fin (- x)"
| "fneg PInf = NInf"
| "fneg NInf = PInf"
| "fneg NaN = NaN"

text \<open>
  \<open>update_budget\<close>: every \<open>TreasuryError\<close> of the inner call, \<open>BotNotStoppedError\<close> included, comes out
  as \<open>InsufficientFundsError\<close>.
\<close>

definition update_budget ::
  "treasury_config \<Rightarrow> treasury_env \<Rightarrow> string \<Rightarrow> pyfloat \<Rightarrow> treasury \<Rightarrow> treasury_error + treasury" where
  "update_budget c env bot_id target s =
     (if flt target (Fin 0) then Inl Value_error
      else
        let current = (case dict_get (ty_budgets s) bot_id of None \<Rightarrow> 0 | Some b \<Rightarrow> bb_allocated b);
            diff = fsub target current
        in if diff = Fin 0 then Inr s
           else if flt (Fin 0) diff
           then (if flt (Fin (ty_unallocated s)) diff then Inl Insufficient_funds
                 else case allocate c env bot_id diff s of
                        Inl _ \<Rightarrow> Inl Insufficient_funds | Inr s' \<Rightarrow> Inr s')
           else (case deallocate c env bot_id (fneg diff) s of
                   Inl _ \<Rightarrow> Inl Insufficient_funds | Inr s' \<Rightarrow> Inr s'))"

subsection \<open>Reservations\<close>

datatype reserve_error = Amount_not_positive | Save_budget_failed

text \<open>
  The budget and the reservation change in memory before the row is saved; a failing save raises
  with the memory already changed.
\<close>

definition reserve_for_order ::
  "treasury_env \<Rightarrow> string \<Rightarrow> string \<Rightarrow> rat \<Rightarrow> treasury \<Rightarrow> (reserve_error + bool) \<times> treasury" where
  "reserve_for_order env bot_id order_id amount s =
     (if amount \<le> 0 then (Inl Amount_not_positive, s)
      else
        case dict_get (ty_budgets s) bot_id of
          None \<Rightarrow> (Inr False, s)
        | Some budget \<Rightarrow>
            if bb_available budget < amount then (Inr False, s)
            else
              let budget' = budget\<lparr>bb_available := bb_available budget - amount,
                                   bb_reserved := bb_reserved budget + amount\<rparr>;
                  s1 = (put_budget budget' s)
                         \<lparr>ty_reservations := dict_set order_id (bot_id, amount) (ty_reservations s)\<rparr>
              in if te_fault env = Some Ft_save_budget then (Inl Save_budget_failed, s1)
                 else (Inr True, save_budget budget' s1))"

definition release_reservation :: "string \<Rightarrow> string \<Rightarrow> treasury \<Rightarrow> treasury" where
  "release_reservation bot_id order_id s =
     (let remaining = (case dict_get (ty_reservations s) order_id of None \<Rightarrow> 0 | Some (_, r) \<Rightarrow> r);
          s1 = s\<lparr>ty_reservations := dict_pop order_id (ty_reservations s)\<rparr>
      in case dict_get (ty_budgets s) bot_id of
           None \<Rightarrow> s1
         | Some budget \<Rightarrow>
             if remaining \<le> 0 then s1
             else
               let budget' = budget\<lparr>bb_reserved := max 0 (bb_reserved budget - remaining),
                                    bb_available := bb_available budget + remaining\<rparr>
               in save_budget budget' (put_budget budget' s1))"

definition get_reservations :: "string \<Rightarrow> treasury \<Rightarrow> (string, rat) dict" where
  "get_reservations bot_id s =
     map (\<lambda>(oid, _, amt). (oid, amt)) (filter (\<lambda>(_, bid, _). bid = bot_id) (ty_reservations s))"

end
