(* ===== verification/Treasury_Orders.thy ===== *)
theory Treasury_Orders
  imports Treasury
begin

text \<open>
  The event handlers of \<open>src/src/ante/treasury/treasury.py\<close>: an order that passed the rules is
  approved with its funds reserved or rejected with a reason; a fill settles the reservation, once
  per dedup key; a cancelled or failed order and a stopped bot give the remaining reservation back.

  Handlers return the events they publish.  The texts of the reasons are constructors carrying the
  values the texts show.  \<open>Decimal(str(quote))\<close> cannot raise on a finite number, so its except
  branch has no counterpart.  A handler whose transaction fails re-raises, and the bus swallows that.
\<close>

subsection \<open>Validated orders\<close>

record order_outcome =
  oo_account_id :: string
  oo_order_id :: string
  oo_bot_id :: string
  oo_strategy_id :: string
  oo_symbol :: string
  oo_side :: string
  oo_quantity :: rat
  oo_price :: "rat option"
  oo_order_type :: string
  oo_exchange :: string

datatype reject_reason =
    Account_not_ready string
  | Quote_unavailable_no_resolver
  | Quote_unavailable string
  | Quote_invalid quote_reply
  | Reserve_amount_invalid rat
  | Insufficient_budget rat rat
  | Reserve_failed reserve_error

datatype treasury_out =
    Order_approved order_outcome "rat option" rat
  | Order_rejected order_outcome reject_reason
  | Notify notification

definition outcome_of :: "treasury_config \<Rightarrow> order_validated \<Rightarrow> order_outcome" where
  "outcome_of c ev =
     \<lparr>oo_account_id = tc_account_id c, oo_order_id = vd_order_id ev, oo_bot_id = vd_bot_id ev,
      oo_strategy_id = vd_strategy_id ev, oo_symbol = vd_symbol ev, oo_side = vd_side ev,
      oo_quantity = vd_quantity ev, oo_price = vd_price ev, oo_order_type = vd_order_type ev,
      oo_exchange = vd_exchange ev\<rparr>"

definition reject :: "treasury_config \<Rightarrow> order_validated \<Rightarrow> reject_reason \<Rightarrow> treasury_out" where
  "reject c ev reason = Order_rejected (outcome_of c ev) reason"

definition approve :: "treasury_config \<Rightarrow> order_validated \<Rightarrow> rat \<Rightarrow> treasury_out" where
  "approve c ev reserved_amount = Order_approved (outcome_of c ev) (vd_stop_price ev) reserved_amount"

definition is_my_event :: "treasury_config \<Rightarrow> string \<Rightarrow> bool" where
  "is_my_event c account_id \<longleftrightarrow> account_id = tc_account_id c"

text \<open>The gate in front of the reservation: the rejection and one notification.\<close>

definition reject_not_ready :: "treasury_config \<Rightarrow> treasury_env \<Rightarrow> order_validated \<Rightarrow> treasury_out list" where
  "reject_not_ready c env ev =
     (let reason = not_ready_reason (te_registry env) (tc_account_id c) (tc_broker_type c) (tc_trading_mode c)
      in [reject c ev (Account_not_ready reason),
          Notify (build_not_ready_notification (tc_account_id c) reason (vd_side ev)
                    (is_liquidation_reason (vd_reason ev)))])"

text \<open>Reserve, then approve or reject; any exception becomes a rejection.\<close>

definition reserve_and_approve ::
  "treasury_config \<Rightarrow> treasury_env \<Rightarrow> order_validated \<Rightarrow> rat \<Rightarrow> treasury \<Rightarrow> treasury_out list \<times> treasury"
where
  "reserve_and_approve c env ev total_reserve s =
     (case reserve_for_order env (vd_bot_id ev) (vd_order_id ev) total_reserve s of
        (Inl e, s') \<Rightarrow> ([reject c ev (Reserve_failed e)], s')
      | (Inr success, s') \<Rightarrow>
          if \<not> success
          then ([reject c ev (Insufficient_budget total_reserve (get_available (vd_bot_id ev) s'))], s')
          else ([approve c ev total_reserve], s'))"

definition market_buy_reserve :: "treasury_config \<Rightarrow> rat \<Rightarrow> rat \<Rightarrow> rat" where
  "market_buy_reserve c quantity quote =
     (let reserve_basis = quantity * quote * (1 + tc_market_order_reserve_buffer_rate c);
          commission = reserve_basis * tc_buy_commission_rate c
      in reserve_basis + commission)"

text \<open>The approved order keeps \<open>price = None\<close>: the quote only sizes the reservation.\<close>

definition validated_market_buy ::
  "treasury_config \<Rightarrow> treasury_env \<Rightarrow> order_validated \<Rightarrow> treasury \<Rightarrow> treasury_out list \<times> treasury" where
  "validated_market_buy c env ev s =
     (case te_price_resolver env of
        None \<Rightarrow> ([reject c ev Quote_unavailable_no_resolver], s)
      | Some resolver \<Rightarrow>
          (case resolver (vd_symbol ev) of
             Quote_raises exc \<Rightarrow> ([reject c ev (Quote_unavailable exc)], s)
           | Quote_not_a_number \<Rightarrow> ([reject c ev (Quote_invalid Quote_not_a_number)], s)
           | Quote q \<Rightarrow>
               if \<not> (isfinite q \<and> flt (Fin 0) q) then ([reject c ev (Quote_invalid (Quote q))], s)
               else
                 let total_reserve = market_buy_reserve c (vd_quantity ev) (fval q)
                 in if total_reserve \<le> 0 then ([reject c ev (Reserve_amount_invalid total_reserve)], s)
                    else reserve_and_approve c env ev total_reserve s))"

definition limit_buy_reserve :: "treasury_config \<Rightarrow> order_validated \<Rightarrow> rat" where
  "limit_buy_reserve c ev =
     (let price = (case vd_price ev of None \<Rightarrow> 0 | Some p \<Rightarrow> p);
          estimated_cost = vd_quantity ev * price;
          commission_estimate = estimated_cost * tc_buy_commission_rate c
      in estimated_cost + commission_estimate)"

definition validated_other ::
  "treasury_config \<Rightarrow> treasury_env \<Rightarrow> order_validated \<Rightarrow> treasury \<Rightarrow> treasury_out list \<times> treasury" where
  "validated_other c env ev s =
     (let total_reserve = limit_buy_reserve c ev
      in if vd_side ev = ''buy''
         then (if total_reserve \<le> 0 then ([reject c ev (Reserve_amount_invalid total_reserve)], s)
               else reserve_and_approve c env ev total_reserve s)
         else ([approve c ev 0], s))"

definition on_order_validated ::
  "treasury_config \<Rightarrow> treasury_env \<Rightarrow> order_validated \<Rightarrow> treasury \<Rightarrow> treasury_out list \<times> treasury" where
  "on_order_validated c env ev s =
     (if \<not> is_my_event c (vd_account_id ev) then ([], s)
      else if active_trading_blocked (te_registry env) (tc_account_id c) (tc_broker_type c) (tc_trading_mode c)
      then (reject_not_ready c env ev, s)
      else if vd_side ev = ''buy'' \<and> vd_order_type ev \<in> set [''stop'', ''stop_limit'']
      then ([approve c ev 0], s)
      else if vd_side ev = ''buy'' \<and> vd_order_type ev = ''market'' \<and> vd_price ev = None
      then validated_market_buy c env ev s
      else validated_other c env ev s)"

subsection \<open>Fills\<close>

type_synonym reservations = "(string, string \<times> rat) dict"

definition settle_buy_full_fill ::
  "string \<Rightarrow> rat \<Rightarrow> bot_budget \<times> reservations \<Rightarrow> bot_budget \<times> reservations" where
  "settle_buy_full_fill order_id actual_cost bs =
     (let (budget, res) = bs;
          reserved_amount = (case dict_get res order_id of None \<Rightarrow> 0 | Some (_, r) \<Rightarrow> r);
          budget1 = budget\<lparr>bb_reserved := max 0 (bb_reserved budget - reserved_amount),
                           bb_spent := bb_spent budget + actual_cost\<rparr>;
          surplus = reserved_amount - actual_cost;
          budget2 = (if surplus > 0 then budget1\<lparr>bb_available := bb_available budget1 + surplus\<rparr>
                     else if surplus < 0 then budget1\<lparr>bb_available := bb_available budget1 - (- surplus)\<rparr>
                     else budget1)
      in (budget2, dict_pop order_id res))"

definition settle_buy_partial_fill ::
  "order_row \<Rightarrow> string \<Rightarrow> rat \<Rightarrow> bot_budget \<times> reservations \<Rightarrow> bot_budget \<times> reservations" where
  "settle_buy_partial_fill record order_id actual_cost bs =
     (let (budget, res) = bs;
          entry = dict_get res order_id;
          remaining = (case entry of None \<Rightarrow> 0 | Some (_, r) \<Rightarrow> r);
          covered = min remaining actual_cost;
          budget1 = budget\<lparr>bb_reserved := max 0 (bb_reserved budget - covered),
                           bb_spent := bb_spent budget + actual_cost\<rparr>;
          remaining1 = remaining - covered;
          shortfall = actual_cost - covered;
          budget2 = (if shortfall > 0 then budget1\<lparr>bb_available := bb_available budget1 - shortfall\<rparr>
                     else budget1);
          terminal = (ot_ordered_qty record > 0 \<and> ot_recorded_filled_qty record \<ge> ot_ordered_qty record)
      in if terminal
         then ((if remaining1 > 0
                then budget2\<lparr>bb_reserved := max 0 (bb_reserved budget2 - remaining1),
                             bb_available := bb_available budget2 + remaining1\<rparr>
                else budget2), dict_pop order_id res)
         else (case entry of
                 None \<Rightarrow> (budget2, res)
               | Some (bid, _) \<Rightarrow> (budget2, dict_set order_id (bid, remaining1) res)))"

definition settle_buy_fill ::
  "treasury_env \<Rightarrow> string \<Rightarrow> rat \<Rightarrow> bot_budget \<times> reservations \<Rightarrow> bot_budget \<times> reservations" where
  "settle_buy_fill env order_id actual_cost bs =
     (case (case te_order_tracker env of None \<Rightarrow> None | Some get \<Rightarrow> get order_id) of
        None \<Rightarrow> settle_buy_full_fill order_id actual_cost bs
      | Some record \<Rightarrow> settle_buy_partial_fill record order_id actual_cost bs)"

text \<open>The fault, if the settlement raised, and the state it left.\<close>

definition apply_fill_settlement ::
  "treasury_config \<Rightarrow> treasury_env \<Rightarrow> order_filled \<Rightarrow> bot_budget \<Rightarrow> treasury \<Rightarrow>
     treasury_fault option \<times> treasury" where
  "apply_fill_settlement c env ev budget s =
     (let fill_value = ev_quantity ev * ev_price ev;
          commission = ev_commission ev
      in if ev_side ev = ''buy'' \<and> te_order_tracker env \<noteq> None \<and> te_fault env = Some Ft_tracker_get
         then (Some Ft_tracker_get, s)
         else
           let (budget', res) =
                 (if ev_side ev = ''buy''
                  then settle_buy_fill env (ev_order_id ev) (fill_value + commission) (budget, ty_reservations s)
                  else
                    let actual_proceeds = fill_value - commission
                    in (budget\<lparr>bb_returned := bb_returned budget + actual_proceeds,
                               bb_available := bb_available budget + actual_proceeds\<rparr>, ty_reservations s));
               s1 = (put_budget budget' s)\<lparr>ty_reservations := res\<rparr>
           in if te_fault env = Some Ft_save_budget then (Some Ft_save_budget, s1)
              else
                let s2 = save_budget budget' s1
                in if te_fault env = Some Ft_log then (Some Ft_log, s2)
                   else (None, log_transaction c (ev_bot_id ev) Tx_fill fill_value s2))"

text \<open>The \<open>except BaseException\<close> branch: the tables roll back, the two touched entries are restored.\<close>

definition restore_snapshot ::
  "string \<Rightarrow> bot_budget \<Rightarrow> (string \<times> rat) option \<Rightarrow> treasury_db \<Rightarrow> treasury \<Rightarrow> treasury" where
  "restore_snapshot order_id budget_snapshot reservation_snapshot db s' =
     (put_budget budget_snapshot s')
       \<lparr>ty_reservations :=
          (case reservation_snapshot of
             Some r \<Rightarrow> dict_set order_id r (ty_reservations s')
           | None \<Rightarrow> dict_pop order_id (ty_reservations s')),
        ty_db := db\<rparr>"

definition settle_in_transaction ::
  "treasury_config \<Rightarrow> treasury_env \<Rightarrow> order_filled \<Rightarrow> dedup_key \<Rightarrow> bot_budget \<Rightarrow> treasury \<Rightarrow>
     treasury_fault option \<times> treasury" where
  "settle_in_transaction c env ev key budget s =
     (if te_fault env = Some Ft_dedup_insert then (Some Ft_dedup_insert, s)
      else if dict_get (db_fill_dedup (ty_db s)) key \<noteq> None
      then (if te_fault env = Some Ft_commit then Some Ft_commit else None, s)
      else
        let s1 = s\<lparr>ty_db := (ty_db s)\<lparr>db_fill_dedup :=
                     insert_or_ignore key (ev_bot_id ev, tc_account_id c) (db_fill_dedup (ty_db s))\<rparr>\<rparr>
        in case apply_fill_settlement c env ev budget s1 of
             (Some f, s2) \<Rightarrow> (Some f, s2)
           | (None, s2) \<Rightarrow> (if te_fault env = Some Ft_commit then Some Ft_commit else None, s2))"

definition on_order_filled ::
  "treasury_config \<Rightarrow> treasury_env \<Rightarrow> order_filled \<Rightarrow> treasury \<Rightarrow> treasury_fault option \<times> treasury" where
  "on_order_filled c env ev s =
     (if \<not> is_my_event c (ev_account_id ev) then (None, s)
      else case dict_get (ty_budgets s) (ev_bot_id ev) of
             None \<Rightarrow> (None, s)
           | Some budget \<Rightarrow>
               (case ev_fill_dedup_key ev of
                  None \<Rightarrow> apply_fill_settlement c env ev budget s
                | Some key \<Rightarrow>
                    (case settle_in_transaction c env ev key budget s of
                       (None, s') \<Rightarrow> (None, s')
                     | (Some f, s') \<Rightarrow>
                         (Some f, restore_snapshot (ev_order_id ev) budget
                                    (dict_get (ty_reservations s) (ev_order_id ev)) (ty_db s) s'))))"

subsection \<open>Cancelled and failed orders, stopped bots\<close>

definition on_order_cancelled :: "treasury_config \<Rightarrow> string \<Rightarrow> string \<Rightarrow> string \<Rightarrow> treasury \<Rightarrow> treasury" where
  "on_order_cancelled c account_id bot_id order_id s =
     (if \<not> is_my_event c account_id then s else release_reservation bot_id order_id s)"

definition on_order_failed :: "treasury_config \<Rightarrow> string \<Rightarrow> string \<Rightarrow> string \<Rightarrow> treasury \<Rightarrow> treasury" where
  "on_order_failed c account_id bot_id order_id s =
     (if \<not> is_my_event c account_id then s else release_reservation bot_id order_id s)"

definition on_bot_stopped :: "treasury_config \<Rightarrow> string \<Rightarrow> string \<Rightarrow> treasury \<Rightarrow> treasury" where
  "on_bot_stopped c account_id bot_id s =
     (if \<not> is_my_event c account_id then s
      else
        let pending = get_reservations bot_id s
        in if pending = [] then s
           else
             let total_released = sum_list (dict_values pending);
                 s1 = s\<lparr>ty_reservations := fold dict_pop (map fst pending) (ty_reservations s)\<rparr>;
                 s2 = (case dict_get (ty_budgets s1) bot_id of
                         None \<Rightarrow> s1
                       | Some budget \<Rightarrow>
                           let budget' = budget\<lparr>bb_reserved := max 0 (bb_reserved budget - total_released),
                                                bb_available := bb_available budget + total_released\<rparr>
                           in save_budget budget' (put_budget budget' s1))
             in log_transaction c bot_id Tx_bot_stopped_release total_released s2)"

end
