(* ===== verification/Treasury_Sync.thy ===== *)
theory Treasury_Sync
  imports Treasury_Orders Positions
begin

text \<open>
  The rest of \<open>src/src/ante/treasury/treasury.py\<close>: synchronisation with the broker or, for a virtual
  account, with the positions table; the summary; reload from the database; daily snapshots.

  A broker call that raises is \<^theory_text>\<open>None\<close>; a key missing from a reply dictionary is a missing entry of
  an association list.  Dates are ISO strings, which compare as SQLite compares them; the clock is
  the argument \<open>cutoff\<close>.
\<close>

subsection \<open>Synchronisation\<close>

type_synonym balance_data = "(string, rat) dict"

definition sync_balance :: "treasury_config \<Rightarrow> balance_data \<Rightarrow> treasury \<Rightarrow> treasury" where
  "sync_balance c data s =
     (let f = ty_figures s;
          f' = f\<lparr>af_account_balance := dict_default (af_account_balance f) data ''cash'',
                 af_total_evaluation := dict_default (af_total_evaluation f) data ''total_assets'',
                 af_purchase_amount := dict_default (af_purchase_amount f) data ''purchase_amount'',
                 af_eval_amount := dict_default (af_eval_amount f) data ''eval_amount'',
                 af_total_profit_loss := dict_default (af_total_profit_loss f) data ''total_profit_loss''\<rparr>
      in save_state c (s\<lparr>ty_figures := f',
                         ty_unallocated := af_account_balance f' - total_of bb_allocated s\<rparr>))"

record broker_position =
  bp_symbol :: string
  bp_avg_price :: rat
  bp_quantity :: rat
  bp_eval_amount :: rat

record broker_replies =
  br_account_balance :: "balance_data option"
  br_buyable :: "balance_data option"
  br_positions :: "broker_position list option"

record balance_synced =
  bs_account_id :: string
  bs_figures :: account_figures

definition external_positions :: "string list \<Rightarrow> broker_position list \<Rightarrow> broker_position list" where
  "external_positions internal_symbols positions =
     filter (\<lambda>p. bp_symbol p \<notin> set internal_symbols) positions"

definition external_purchase_of :: "broker_position list \<Rightarrow> rat" where
  "external_purchase_of ps = sum_list (map (\<lambda>p. bp_avg_price p * bp_quantity p) ps)"

definition external_eval_of :: "broker_position list \<Rightarrow> rat" where
  "external_eval_of ps = sum_list (map bp_eval_amount ps)"

text \<open>
  \<open>_do_sync\<close>: the published event, if the cycle completes.  A cycle that raises keeps what it has
  already set; \<open>internal\<close> is the result of \<open>get_all_positions\<close> for the account.
\<close>

definition do_sync ::
  "treasury_config \<Rightarrow> broker_replies \<Rightarrow> (account_id_error + (position_key \<times> position) list) \<Rightarrow> treasury \<Rightarrow>
     balance_synced option \<times> treasury" where
  "do_sync c br internal s =
     (case br_account_balance br of
        None \<Rightarrow> (None, s)
      | Some data \<Rightarrow>
          let s1 = sync_balance c data s
          in case br_buyable br of
               None \<Rightarrow> (None, s1)
             | Some buyable \<Rightarrow>
                 let f1 = ty_figures s1;
                     s2 = s1\<lparr>ty_figures := f1\<lparr>af_purchasable_amount :=
                            dict_default (af_purchasable_amount f1) buyable ''order_buyable_amount''\<rparr>\<rparr>
                 in case br_positions br of
                      None \<Rightarrow> (None, s2)
                    | Some positions \<Rightarrow>
                        (case internal of
                           Inl e \<Rightarrow> (None, s2)
                         | Inr ps \<Rightarrow>
                             let ext = external_positions (map (\<lambda>((_, _, sy), _). sy) ps) positions;
                                 s3 = save_state c
                                   (s2\<lparr>ty_figures := (ty_figures s2)
                                         \<lparr>af_external_purchase_amount := external_purchase_of ext,
                                          af_external_eval_amount := external_eval_of ext\<rparr>\<rparr>)
                             in (Some \<lparr>bs_account_id = tc_account_id c, bs_figures = ty_figures s3\<rparr>, s3)))"

text \<open>\<open>_do_sync_virtual\<close>: a price lookup that fails falls back to the average entry price.\<close>

definition virtual_price :: "(string \<Rightarrow> rat option) option \<Rightarrow> string \<Rightarrow> position \<Rightarrow> rat" where
  "virtual_price resolver symbol p =
     (case resolver of
        None \<Rightarrow> ps_avg_entry_price p
      | Some r \<Rightarrow> (case r symbol of None \<Rightarrow> ps_avg_entry_price p | Some price \<Rightarrow> price))"

definition do_sync_virtual ::
  "treasury_config \<Rightarrow> (string \<Rightarrow> rat option) option \<Rightarrow>
     (account_id_error + (position_key \<times> position) list) \<Rightarrow> treasury \<Rightarrow> balance_synced option \<times> treasury"
where
  "do_sync_virtual c resolver internal s =
     (case internal of
        Inl e \<Rightarrow> (None, s)
      | Inr ps \<Rightarrow>
          let purchase = sum_list (map (\<lambda>(_, p). ps_avg_entry_price p * ps_quantity p) ps);
              eval = sum_list (map (\<lambda>((_, _, sy), p). virtual_price resolver sy p * ps_quantity p) ps);
              s1 = save_state c
                (s\<lparr>ty_figures := (ty_figures s)\<lparr>af_purchase_amount := purchase, af_eval_amount := eval,
                     af_external_purchase_amount := 0, af_external_eval_amount := 0\<rparr>\<rparr>)
          in (Some \<lparr>bs_account_id = tc_account_id c, bs_figures = ty_figures s1\<rparr>, s1))"

subsection \<open>Summary\<close>

record treasury_summary =
  su_figures :: account_figures
  su_total_allocated :: rat
  su_total_reserved :: rat
  su_total_available :: rat
  su_unallocated :: rat
  su_bot_count :: nat
  su_ante_purchase_amount :: rat
  su_ante_eval_amount :: rat
  su_ante_profit_loss :: rat
  su_budget_exceeds_purchasable :: bool

definition get_summary :: "treasury \<Rightarrow> treasury_summary" where
  "get_summary s =
     (let f = ty_figures s;
          ante_purchase = af_purchase_amount f - af_external_purchase_amount f;
          ante_eval = af_eval_amount f - af_external_eval_amount f;
          total_available = total_of bb_available s
      in \<lparr>su_figures = f, su_total_allocated = total_of bb_allocated s,
          su_total_reserved = total_of bb_reserved s, su_total_available = total_available,
          su_unallocated = ty_unallocated s, su_bot_count = length (ty_budgets s),
          su_ante_purchase_amount = ante_purchase, su_ante_eval_amount = ante_eval,
          su_ante_profit_loss = ante_eval - ante_purchase,
          su_budget_exceeds_purchasable =
            (af_purchasable_amount f > 0 \<and> total_available > af_purchasable_amount f)\<rparr>)"

subsection \<open>Reload\<close>

definition own_budgets :: "treasury_config \<Rightarrow> treasury_db \<Rightarrow> (string, bot_budget) dict" where
  "own_budgets c db = filter (\<lambda>(_, b). bb_account_id b = tc_account_id c) (db_budgets db)"

text \<open>\<open>_load_from_db\<close> merges into whatever memory holds; \<open>load_from_db\<close> clears it first.\<close>

definition load_rows :: "treasury_config \<Rightarrow> treasury \<Rightarrow> treasury" where
  "load_rows c s =
     (let f = (case dict_get (db_state (ty_db s)) (tc_account_id c) of None \<Rightarrow> ty_figures s | Some f \<Rightarrow> f);
          budgets = fold (\<lambda>(k, b) d. dict_set k b d) (own_budgets c (ty_db s)) (ty_budgets s)
      in s\<lparr>ty_figures := f, ty_budgets := budgets,
           ty_unallocated := af_account_balance f - dict_sum bb_allocated budgets\<rparr>)"

definition load_from_db :: "treasury_config \<Rightarrow> treasury \<Rightarrow> treasury" where
  "load_from_db c s = load_rows c (s\<lparr>ty_budgets := [], ty_reservations := []\<rparr>)"

text \<open>A restarted process: a new object (memory as the constructor leaves it) on the same tables.\<close>

definition restart_treasury :: "treasury_config \<Rightarrow> treasury \<Rightarrow> treasury" where
  "restart_treasury c s =
     load_rows c \<lparr>ty_budgets = [], ty_unallocated = 0, ty_reservations = [], ty_figures = no_figures,
                  ty_db = ty_db s\<rparr>"

subsection \<open>Daily snapshots\<close>

record daily_report =
  dr_account_id :: string
  dr_report_date :: string
  dr_daily_pnl :: rat
  dr_daily_return :: rat
  dr_net_trade_amount :: rat
  dr_unrealized_pnl :: rat

text \<open>The columns both writers fill from the summary; the others keep their value or their default.\<close>

definition with_summary :: "treasury_summary \<Rightarrow> daily_snapshot \<Rightarrow> daily_snapshot" where
  "with_summary su sn =
     sn\<lparr>sn_total_asset := su_ante_eval_amount su + su_unallocated su,
        sn_ante_eval_amount := su_ante_eval_amount su,
        sn_ante_purchase_amount := su_ante_purchase_amount su,
        sn_unallocated := su_unallocated su,
        sn_account_balance := af_account_balance (su_figures su),
        sn_total_allocated := su_total_allocated su,
        sn_bot_count := su_bot_count su\<rparr>"

definition blank_snapshot :: daily_snapshot where
  "blank_snapshot =
     \<lparr>sn_total_asset = 0, sn_ante_eval_amount = 0, sn_ante_purchase_amount = 0, sn_unallocated = 0,
      sn_account_balance = 0, sn_total_allocated = 0, sn_bot_count = 0, sn_daily_pnl = 0,
      sn_daily_return = 0, sn_net_trade_amount = 0, sn_unrealized_pnl = 0\<rparr>"

definition put_snapshot ::
  "string \<times> string \<Rightarrow> daily_snapshot \<Rightarrow> treasury \<Rightarrow> treasury" where
  "put_snapshot key sn s =
     s\<lparr>ty_db := (ty_db s)\<lparr>db_snapshots := dict_set key sn (db_snapshots (ty_db s))\<rparr>\<rparr>"

definition save_daily_snapshot :: "treasury_config \<Rightarrow> string \<Rightarrow> treasury \<Rightarrow> treasury" where
  "save_daily_snapshot c snapshot_date s =
     (let key = (tc_account_id c, snapshot_date)
      in put_snapshot key
           (with_summary (get_summary s) (dict_default blank_snapshot (db_snapshots (ty_db s)) key)) s)"

definition cleanup_old_snapshots :: "treasury_config \<Rightarrow> string \<Rightarrow> treasury \<Rightarrow> treasury" where
  "cleanup_old_snapshots c cutoff s =
     s\<lparr>ty_db := (ty_db s)\<lparr>db_snapshots :=
         filter (\<lambda>((a, d), _). \<not> (a = tc_account_id c \<and> d < cutoff)) (db_snapshots (ty_db s))\<rparr>\<rparr>"

definition take_snapshot ::
  "treasury_config \<Rightarrow> string \<Rightarrow> daily_report \<Rightarrow> treasury \<Rightarrow> daily_snapshot \<times> treasury" where
  "take_snapshot c cutoff ev s =
     (let sn = (with_summary (get_summary s) blank_snapshot)
                 \<lparr>sn_daily_pnl := dr_daily_pnl ev, sn_daily_return := dr_daily_return ev,
                  sn_net_trade_amount := dr_net_trade_amount ev, sn_unrealized_pnl := dr_unrealized_pnl ev\<rparr>
      in (sn, cleanup_old_snapshots c cutoff (put_snapshot (tc_account_id c, dr_report_date ev) sn s)))"

definition on_daily_report :: "treasury_config \<Rightarrow> string \<Rightarrow> daily_report \<Rightarrow> treasury \<Rightarrow> treasury" where
  "on_daily_report c cutoff ev s =
     (if \<not> is_my_event c (dr_account_id ev) then s else snd (take_snapshot c cutoff ev s))"

definition get_daily_snapshot :: "treasury_config \<Rightarrow> string \<Rightarrow> treasury \<Rightarrow> daily_snapshot option" where
  "get_daily_snapshot c snapshot_date s = dict_get (db_snapshots (ty_db s)) (tc_account_id c, snapshot_date)"

definition get_snapshots ::
  "treasury_config \<Rightarrow> string \<Rightarrow> string \<Rightarrow> treasury \<Rightarrow> ((string \<times> string) \<times> daily_snapshot) list" where
  "get_snapshots c start_date end_date s =
     sort_key (\<lambda>((_, d), _). d)
       (filter (\<lambda>((a, d), _). a = tc_account_id c \<and> start_date \<le> d \<and> d \<le> end_date)
          (db_snapshots (ty_db s)))"

definition get_latest_snapshot :: "treasury_config \<Rightarrow> treasury \<Rightarrow> ((string \<times> string) \<times> daily_snapshot) option"
where
  "get_latest_snapshot c s =
     (let rows = filter (\<lambda>((a, _), _). a = tc_account_id c) (db_snapshots (ty_db s))
      in if rows = [] then None else Some (last (sort_key (\<lambda>((_, d), _). d) rows)))"

end
