(* ===== verification/Treasury_Invariant.thy ===== *)
theory Treasury_Invariant
  imports Treasury_Sync
begin

text \<open>
  The treasury as a machine and its invariant: the budget equation of every bot, the reservations
  of a bot never exceeding what its budget has reserved, the account balance split between the
  unallocated part and the allocations, and memory equal to the account's rows in the database.
\<close>

subsection \<open>The machine\<close>

datatype treasury_event =
    Ev_set_balance pyfloat
  | Ev_allocate string pyfloat
  | Ev_deallocate string pyfloat
  | Ev_update_budget string pyfloat
  | Ev_release_budget string
  | Ev_validated order_validated
  | Ev_filled order_filled
  | Ev_cancelled string string string
  | Ev_failed string string string
  | Ev_bot_stopped string string
  | Ev_sync broker_replies "account_id_error + (position_key \<times> position) list"
  | Ev_sync_virtual "(string \<Rightarrow> rat option) option" "account_id_error + (position_key \<times> position) list"
  | Ev_daily_report string daily_report
  | Ev_load_from_db
  | Ev_restart

fun keep_on_error :: "treasury \<Rightarrow> treasury_error + treasury \<Rightarrow> treasury" where
  "keep_on_error s (Inl _) = s"
| "keep_on_error s (Inr s') = s'"

fun treasury_step :: "treasury_config \<Rightarrow> treasury \<Rightarrow> treasury_env \<times> treasury_event \<Rightarrow> treasury" where
  "treasury_step c s (env, Ev_set_balance x) = keep_on_error s (set_account_balance c x s)"
| "treasury_step c s (env, Ev_allocate b x) = keep_on_error s (allocate c env b x s)"
| "treasury_step c s (env, Ev_deallocate b x) = keep_on_error s (deallocate c env b x s)"
| "treasury_step c s (env, Ev_update_budget b x) = keep_on_error s (update_budget c env b x s)"
| "treasury_step c s (env, Ev_release_budget b) = snd (release_budget c b s)"
| "treasury_step c s (env, Ev_validated ev) = snd (on_order_validated c env ev s)"
| "treasury_step c s (env, Ev_filled ev) = snd (on_order_filled c env ev s)"
| "treasury_step c s (env, Ev_cancelled a b oid) = on_order_cancelled c a b oid s"
| "treasury_step c s (env, Ev_failed a b oid) = on_order_failed c a b oid s"
| "treasury_step c s (env, Ev_bot_stopped a b) = on_bot_stopped c a b s"
| "treasury_step c s (env, Ev_sync br ps) = snd (do_sync c br ps s)"
| "treasury_step c s (env, Ev_sync_virtual r ps) = snd (do_sync_virtual c r ps s)"
| "treasury_step c s (env, Ev_daily_report cutoff ev) = on_daily_report c cutoff ev s"
| "treasury_step c s (env, Ev_load_from_db) = load_from_db c s"
| "treasury_step c s (env, Ev_restart) = restart_treasury c s"

text \<open>
  What the rest of the system keeps: an order id is reserved once, its later events name its bot, a
  purchase costs something, and no single write fails outside the settlement transaction.
\<close>

definition order_of_bot :: "treasury \<Rightarrow> string \<Rightarrow> string \<Rightarrow> bool" where
  "order_of_bot s order_id bot_id \<longleftrightarrow>
     (case dict_get (ty_reservations s) order_id of None \<Rightarrow> True | Some (bid, _) \<Rightarrow> bid = bot_id)"

fun event_ok :: "treasury \<Rightarrow> treasury_env \<times> treasury_event \<Rightarrow> bool" where
  "event_ok s (env, Ev_validated ev) =
     (dict_get (ty_reservations s) (vd_order_id ev) = None \<and> te_fault env = None)"
| "event_ok s (env, Ev_filled ev) =
     (order_of_bot s (ev_order_id ev) (ev_bot_id ev) \<and> 0 \<le> ev_quantity ev * ev_price ev + ev_commission ev
      \<and> (ev_fill_dedup_key ev = None \<longrightarrow> te_fault env = None))"
| "event_ok s (env, Ev_cancelled a b oid) = order_of_bot s oid b"
| "event_ok s (env, Ev_failed a b oid) = order_of_bot s oid b"
| "event_ok s _ = True"

subsection \<open>The invariant\<close>

definition budget_ok :: "treasury_config \<Rightarrow> string \<Rightarrow> bot_budget \<Rightarrow> bool" where
  "budget_ok c k b \<longleftrightarrow> bb_bot_id b = k \<and> bb_account_id b = tc_account_id c
     \<and> bb_available b = bb_allocated b - bb_reserved b - bb_spent b + bb_returned b"

definition reserved_for :: "string \<Rightarrow> reservations \<Rightarrow> rat" where
  "reserved_for bt res = dict_sum (\<lambda>(bid, r). if bid = bt then r else 0) res"

definition budget_field :: "(bot_budget \<Rightarrow> rat) \<Rightarrow> (string, bot_budget) dict \<Rightarrow> string \<Rightarrow> rat" where
  "budget_field f budgets bt = (case dict_get budgets bt of None \<Rightarrow> 0 | Some b \<Rightarrow> f b)"

text \<open>Reserved money that no reservation accounts for.\<close>

definition slack :: "string \<Rightarrow> (string, bot_budget) dict \<Rightarrow> reservations \<Rightarrow> rat" where
  "slack bt budgets res = budget_field bb_reserved budgets bt - reserved_for bt res"

definition reservation_ok :: "(string, bot_budget) dict \<Rightarrow> string \<times> rat \<Rightarrow> bool" where
  "reservation_ok budgets x \<longleftrightarrow> 0 \<le> snd x \<and> dict_get budgets (fst x) \<noteq> None"

definition memory_inv ::
  "treasury_config \<Rightarrow> (string, bot_budget) dict \<Rightarrow> rat \<Rightarrow> reservations \<Rightarrow> rat \<Rightarrow> bool" where
  "memory_inv c budgets unallocated res balance \<longleftrightarrow>
     dict_wf budgets \<and> dict_wf res
     \<and> (\<forall>k b. dict_get budgets k = Some b \<longrightarrow> budget_ok c k b)
     \<and> (\<forall>oid x. dict_get res oid = Some x \<longrightarrow> reservation_ok budgets x)
     \<and> (\<forall>bt. 0 \<le> slack bt budgets res)
     \<and> unallocated + dict_sum bb_allocated budgets = balance"

definition db_inv ::
  "treasury_config \<Rightarrow> (string, bot_budget) dict \<Rightarrow> rat \<Rightarrow> (string, bot_budget) dict \<Rightarrow>
     (string, account_figures) dict \<Rightarrow> bool" where
  "db_inv c budgets balance dbb dbs \<longleftrightarrow>
     dict_wf dbb
     \<and> (\<forall>k b. dict_get dbb k = Some b \<and> bb_account_id b = tc_account_id c \<longleftrightarrow> dict_get budgets k = Some b)
     \<and> (\<forall>f. dict_get dbs (tc_account_id c) = Some f \<longrightarrow> af_account_balance f = balance)"

definition treasury_inv :: "treasury_config \<Rightarrow> treasury \<Rightarrow> bool" where
  "treasury_inv c s \<longleftrightarrow>
     memory_inv c (ty_budgets s) (ty_unallocated s) (ty_reservations s) (af_account_balance (ty_figures s))
     \<and> db_inv c (ty_budgets s) (af_account_balance (ty_figures s)) (db_budgets (ty_db s)) (db_state (ty_db s))"

lemma treasury_invD:
  assumes "treasury_inv c s"
  shows "dict_wf (ty_budgets s)" and "dict_wf (ty_reservations s)"
    and "dict_get (ty_budgets s) k = Some b \<Longrightarrow> budget_ok c k b"
    and "dict_get (ty_reservations s) oid = Some x \<Longrightarrow> reservation_ok (ty_budgets s) x"
    and "0 \<le> slack bt (ty_budgets s) (ty_reservations s)"
    and "ty_unallocated s + dict_sum bb_allocated (ty_budgets s) = af_account_balance (ty_figures s)"
    and "dict_wf (db_budgets (ty_db s))"
    and "dict_get (db_budgets (ty_db s)) k = Some b \<and> bb_account_id b = tc_account_id c \<longleftrightarrow>
      dict_get (ty_budgets s) k = Some b"
    and "dict_get (db_state (ty_db s)) (tc_account_id c) = Some f \<Longrightarrow>
      af_account_balance f = af_account_balance (ty_figures s)"
  using assms unfolding treasury_inv_def memory_inv_def db_inv_def by blast+

subsection \<open>Sums of reservations\<close>

lemma reserved_for_set:
  assumes "dict_wf res"
  shows "reserved_for bt (dict_set oid (bid, r) res) =
    reserved_for bt res + (if bid = bt then r else 0)
      - (case dict_get res oid of None \<Rightarrow> 0 | Some (bid', r') \<Rightarrow> if bid' = bt then r' else 0)"
  using dict_sum_set [OF assms, of "\<lambda>(bid, r). if bid = bt then r else 0" oid "(bid, r)"]
  by (simp add: reserved_for_def split: option.splits prod.splits)

lemma reserved_for_pop:
  assumes "dict_wf res"
  shows "reserved_for bt (dict_pop oid res) =
    reserved_for bt res
      - (case dict_get res oid of None \<Rightarrow> 0 | Some (bid', r') \<Rightarrow> if bid' = bt then r' else 0)"
  using dict_sum_pop [OF assms, of "\<lambda>(bid, r). if bid = bt then r else 0" oid]
  by (simp add: reserved_for_def split: option.splits prod.splits)

lemma reserved_for_nonneg:
  assumes "dict_wf res" and "\<And>oid x. dict_get res oid = Some x \<Longrightarrow> 0 \<le> snd x"
  shows "0 \<le> reserved_for bt res"
  unfolding reserved_for_def using assms by (intro dict_sum_nonneg) (auto split: prod.splits)

lemma reservation_le:
  assumes wf: "dict_wf res" and nn: "\<And>oid x. dict_get res oid = Some x \<Longrightarrow> 0 \<le> snd x"
    and "dict_get res oid = Some (bt, r)"
  shows "r \<le> reserved_for bt res"
proof -
  have "0 \<le> reserved_for bt (dict_pop oid res)"
    by (rule reserved_for_nonneg) (auto simp: wf split: if_splits dest: nn)
  then show ?thesis using assms(3) by (simp add: reserved_for_pop [OF wf])
qed

lemma reserved_for_filter:
  "reserved_for bt (filter (\<lambda>(_, bid, _). bid \<noteq> b) res) = (if bt = b then 0 else reserved_for bt res)"
  by (induction res) (auto simp: reserved_for_def)

lemma sum_get_reservations:
  "sum_list (dict_values (get_reservations bt s)) = reserved_for bt (ty_reservations s)"
proof -
  have "sum_list (map snd (map (\<lambda>(oid, _, amt). (oid, amt)) (filter (\<lambda>(_, bid, _). bid = bt) res)))
      = reserved_for bt res" for res :: reservations
    by (induction res) (auto simp: reserved_for_def)
  then show ?thesis by (simp add: get_reservations_def)
qed

lemma fold_pop_filter:
  "fold dict_pop ks d = filter (\<lambda>(k, _). k \<notin> set ks) d"
proof (induction ks arbitrary: d)
  case (Cons k ks)
  have "dict_pop k d = filter (\<lambda>(k', _). k' \<noteq> k) d"
    by (induction d) auto
  then show ?case
    by (simp add: Cons.IH) (rule filter_cong, auto)
qed simp

lemma pop_pending:
  assumes "dict_wf (ty_reservations s)"
  shows "fold dict_pop (map fst (get_reservations bt s)) (ty_reservations s) =
    filter (\<lambda>(_, bid, _). bid \<noteq> bt) (ty_reservations s)"
proof -
  have mem: "oid \<in> set (map fst (get_reservations bt s)) \<longleftrightarrow>
      (\<exists>r. dict_get (ty_reservations s) oid = Some (bt, r))" for oid
    by (auto simp: get_reservations_def dict_get_mem [OF assms, symmetric] image_iff split: prod.splits)
  have "(oid \<notin> set (map fst (get_reservations bt s))) = (bid \<noteq> bt)"
    if "(oid, bid, r) \<in> set (ty_reservations s)" for oid bid r
    using that unfolding mem dict_get_mem [OF assms] by simp
  then show ?thesis
    unfolding fold_pop_filter by (intro filter_cong) auto
qed

subsection \<open>Writing one budget\<close>

lemma memory_inv_write:
  assumes inv: "memory_inv c B u R bal" and ok: "budget_ok c k b" and wf: "dict_wf R'"
    and entries: "\<And>oid x. dict_get R' oid = Some x \<Longrightarrow> 0 \<le> snd x \<and> (fst x = k \<or> dict_get B (fst x) \<noteq> None)"
    and slack_k: "reserved_for k R' \<le> bb_reserved b"
    and others: "\<And>bt. bt \<noteq> k \<Longrightarrow> reserved_for bt R' = reserved_for bt R"
    and u: "u' = u - (bb_allocated b - budget_field bb_allocated B k)"
  shows "memory_inv c (dict_set k b B) u' R' bal"
proof -
  have wfB: "dict_wf B" and sum: "u + dict_sum bb_allocated B = bal"
    and okB: "\<And>k b. dict_get B k = Some b \<Longrightarrow> budget_ok c k b"
    and sl: "\<And>bt. 0 \<le> slack bt B R"
    using inv unfolding memory_inv_def by blast+
  have "0 \<le> slack bt (dict_set k b B) R'" for bt
    using slack_k others [of bt] sl [of bt] by (auto simp: slack_def budget_field_def)
  moreover have "reservation_ok (dict_set k b B) x" if "dict_get R' oid = Some x" for oid x
    using entries [OF that] by (auto simp: reservation_ok_def)
  moreover have "u' + dict_sum bb_allocated (dict_set k b B) = bal"
    using sum u dict_sum_set [OF wfB, of bb_allocated k b]
    by (simp add: budget_field_def split: option.splits)
  ultimately show ?thesis
    unfolding memory_inv_def using wfB okB ok wf by auto
qed

lemma db_inv_write:
  assumes "db_inv c B bal D S" and "budget_ok c k b"
  shows "db_inv c (dict_set k b B) bal (dict_set k b D) S"
  using assms unfolding db_inv_def by (auto simp: budget_ok_def)

lemma db_inv_state:
  assumes "db_inv c B bal D S" and "af_account_balance f = bal"
  shows "db_inv c B bal D (dict_set (tc_account_id c) f S)"
  using assms unfolding db_inv_def by auto

text \<open>The same for the whole state; log, dedup table and snapshots are free.\<close>

lemma treasury_inv_write:
  assumes inv: "treasury_inv c s" and ok: "budget_ok c k b"
    and s': "ty_budgets s' = dict_set k b (ty_budgets s)"
      "db_budgets (ty_db s') = dict_set k b (db_budgets (ty_db s))"
      "af_account_balance (ty_figures s') = af_account_balance (ty_figures s)"
      "ty_unallocated s' = ty_unallocated s - (bb_allocated b - budget_field bb_allocated (ty_budgets s) k)"
    and db: "db_state (ty_db s') = db_state (ty_db s)
      \<or> db_state (ty_db s') = dict_set (tc_account_id c) (ty_figures s') (db_state (ty_db s))"
    and wf: "dict_wf (ty_reservations s')"
    and entries: "\<And>oid x. dict_get (ty_reservations s') oid = Some x \<Longrightarrow>
       0 \<le> snd x \<and> (fst x = k \<or> dict_get (ty_budgets s) (fst x) \<noteq> None)"
    and slack_k: "reserved_for k (ty_reservations s') \<le> bb_reserved b"
    and others: "\<And>bt. bt \<noteq> k \<Longrightarrow> reserved_for bt (ty_reservations s') = reserved_for bt (ty_reservations s)"
  shows "treasury_inv c s'"
proof -
  have m: "memory_inv c (ty_budgets s) (ty_unallocated s) (ty_reservations s) (af_account_balance (ty_figures s))"
    and d: "db_inv c (ty_budgets s) (af_account_balance (ty_figures s)) (db_budgets (ty_db s)) (db_state (ty_db s))"
    using inv by (simp_all add: treasury_inv_def)
  note d' = db_inv_write [OF d ok]
  have "db_inv c (dict_set k b (ty_budgets s)) (af_account_balance (ty_figures s))
      (dict_set k b (db_budgets (ty_db s))) (db_state (ty_db s'))"
    using db d' db_inv_state [OF d' s'(3)] by auto
  then show ?thesis
    unfolding treasury_inv_def s'(1-3)
    using memory_inv_write [OF m ok wf entries slack_k others s'(4)] by simp
qed

text \<open>The case where the reservations stay, and the budget's reserved part does not shrink.\<close>

lemma treasury_inv_write_budget:
  assumes inv: "treasury_inv c s" and ok: "budget_ok c k b"
    and s': "ty_budgets s' = dict_set k b (ty_budgets s)"
      "db_budgets (ty_db s') = dict_set k b (db_budgets (ty_db s))"
      "af_account_balance (ty_figures s') = af_account_balance (ty_figures s)"
      "ty_unallocated s' = ty_unallocated s - (bb_allocated b - budget_field bb_allocated (ty_budgets s) k)"
      "ty_reservations s' = ty_reservations s"
    and db: "db_state (ty_db s') = db_state (ty_db s)
      \<or> db_state (ty_db s') = dict_set (tc_account_id c) (ty_figures s') (db_state (ty_db s))"
    and res: "bb_reserved b = budget_field bb_reserved (ty_budgets s) k"
  shows "treasury_inv c s'"
proof (rule treasury_inv_write [OF inv ok s'(1-4) db])
  note D = treasury_invD [OF inv]
  show "dict_wf (ty_reservations s')" using D(2) s'(5) by simp
  show "0 \<le> snd x \<and> (fst x = k \<or> dict_get (ty_budgets s) (fst x) \<noteq> None)"
    if "dict_get (ty_reservations s') oid = Some x" for oid x
    using D(4) [of oid x] that s'(5) by (simp add: reservation_ok_def)
  show "reserved_for k (ty_reservations s') \<le> bb_reserved b"
    using D(5) [of k] by (simp add: slack_def res s'(5))
qed (simp add: s'(5))

lemmas treasury_defs = put_budget_def save_budget_def save_state_def log_transaction_def total_of_def

lemma budget_ok_new: "budget_ok c k (new_budget k (tc_account_id c))"
  by (simp add: budget_ok_def new_budget_def)

lemma allocate_inv:
  assumes inv: "treasury_inv c s" and ok: "allocate c env k amount s = Inr s'"
  shows "treasury_inv c s'"
proof -
  define b0 where "b0 = (case dict_get (ty_budgets s) k of None \<Rightarrow> new_budget k (tc_account_id c) | Some b \<Rightarrow> b)"
  have b0: "budget_ok c k b0" "bb_reserved b0 = budget_field bb_reserved (ty_budgets s) k"
    "bb_allocated b0 = budget_field bb_allocated (ty_budgets s) k"
    using treasury_invD(3) [OF inv, of k]
    by (auto simp: b0_def budget_field_def budget_ok_new split: option.splits)
      (simp_all add: new_budget_def)
  define b where "b = b0\<lparr>bb_allocated := bb_allocated b0 + fval amount, bb_available := bb_available b0 + fval amount\<rparr>"
  have id: "bb_bot_id b = k" using b0(1) by (simp add: b_def budget_ok_def)
  have s': "s' = log_transaction c k Tx_allocate (fval amount) (save_state c (save_budget b
      ((put_budget b s)\<lparr>ty_unallocated := ty_unallocated s - fval amount\<rparr>)))"
    using ok by (simp add: allocate_def Let_def b_def b0_def split: option.splits if_splits)
  show ?thesis
    by (rule treasury_inv_write_budget [OF inv, of k b])
      (use b0 id in \<open>auto simp: s' treasury_defs b_def budget_ok_def\<close>)
qed

lemma deallocate_inv:
  assumes inv: "treasury_inv c s" and ok: "deallocate c env k amount s = Inr s'"
  shows "treasury_inv c s'"
proof -
  obtain b0 where get: "dict_get (ty_budgets s) k = Some b0"
    and s': "s' = (let b = b0\<lparr>bb_allocated := bb_allocated b0 - fval amount,
                               bb_available := bb_available b0 - fval amount\<rparr>
        in log_transaction c k Tx_deallocate (fval amount) (save_state c (save_budget b
             ((put_budget b s)\<lparr>ty_unallocated := ty_unallocated s + fval amount\<rparr>))))"
    using ok by (auto simp: deallocate_def Let_def split: option.splits if_splits)
  have b0: "budget_ok c k b0" using treasury_invD(3) [OF inv get] .
  show ?thesis
    by (rule treasury_inv_write_budget [OF inv, of k
          "b0\<lparr>bb_allocated := bb_allocated b0 - fval amount, bb_available := bb_available b0 - fval amount\<rparr>"])
      (use b0 get in \<open>auto simp: s' treasury_defs budget_ok_def budget_field_def Let_def\<close>)
qed

lemma update_budget_inv:
  assumes inv: "treasury_inv c s" and ok: "update_budget c env k target s = Inr s'"
  shows "treasury_inv c s'"
proof -
  obtain x where "s' = s \<or> allocate c env k x s = Inr s' \<or> deallocate c env k x s = Inr s'"
    using ok by (auto simp: update_budget_def Let_def split: if_splits sum.splits)
  then show ?thesis using inv allocate_inv deallocate_inv by blast
qed

subsection \<open>Account figures\<close>

lemma treasury_inv_figures:
  assumes inv: "treasury_inv c s"
    and same: "ty_budgets s' = ty_budgets s" "ty_reservations s' = ty_reservations s"
      "db_budgets (ty_db s') = db_budgets (ty_db s)"
    and u: "ty_unallocated s' = af_account_balance (ty_figures s') - dict_sum bb_allocated (ty_budgets s)"
    and db: "db_state (ty_db s') = dict_set (tc_account_id c) (ty_figures s') (db_state (ty_db s))"
  shows "treasury_inv c s'"
proof -
  have m: "memory_inv c (ty_budgets s) (ty_unallocated s) (ty_reservations s) (af_account_balance (ty_figures s))"
    and d: "db_inv c (ty_budgets s) (af_account_balance (ty_figures s)) (db_budgets (ty_db s)) (db_state (ty_db s))"
    using inv by (simp_all add: treasury_inv_def)
  have "memory_inv c (ty_budgets s) (ty_unallocated s') (ty_reservations s) (af_account_balance (ty_figures s'))"
    using m u by (simp add: memory_inv_def)
  moreover have "db_inv c (ty_budgets s) (af_account_balance (ty_figures s')) (db_budgets (ty_db s))
      (dict_set (tc_account_id c) (ty_figures s') (db_state (ty_db s)))"
    using d by (simp add: db_inv_def)
  ultimately show ?thesis by (simp add: treasury_inv_def same db)
qed

text \<open>Changes that touch neither budgets, reservations, balance nor their rows.\<close>

lemma treasury_inv_other:
  assumes "treasury_inv c s"
    and "ty_budgets s' = ty_budgets s" "ty_reservations s' = ty_reservations s"
      "ty_unallocated s' = ty_unallocated s"
      "af_account_balance (ty_figures s') = af_account_balance (ty_figures s)"
      "db_budgets (ty_db s') = db_budgets (ty_db s)" "db_state (ty_db s') = db_state (ty_db s)"
  shows "treasury_inv c s'"
  using assms by (simp add: treasury_inv_def)

lemma unallocated_eq:
  assumes "treasury_inv c s"
  shows "ty_unallocated s = af_account_balance (ty_figures s) - dict_sum bb_allocated (ty_budgets s)"
  using treasury_invD(6) [OF assms] by (simp add: algebra_simps)

lemma set_account_balance_inv:
  assumes inv: "treasury_inv c s" and ok: "set_account_balance c x s = Inr s'"
  shows "treasury_inv c s'"
  by (rule treasury_inv_figures [OF inv])
    (use ok in \<open>auto simp: set_account_balance_def treasury_defs Let_def split: if_splits\<close>)

lemma sync_balance_inv: "treasury_inv c s \<Longrightarrow> treasury_inv c (sync_balance c data s)"
  by (rule treasury_inv_figures) (auto simp: sync_balance_def treasury_defs Let_def)

lemma do_sync_inv:
  assumes inv: "treasury_inv c s"
  shows "treasury_inv c (snd (do_sync c br ps s))"
proof (cases "br_account_balance br")
  case None
  with inv show ?thesis by (simp add: do_sync_def)
next
  case (Some data)
  let ?s1 = "sync_balance c data s"
  have inv1: "treasury_inv c ?s1" using inv by (rule sync_balance_inv)
  show ?thesis
  proof (cases "br_buyable br")
    case None
    with Some inv1 show ?thesis by (simp add: do_sync_def)
  next
    case (Some buyable)
    define s2 where "s2 = ?s1\<lparr>ty_figures := (ty_figures ?s1)\<lparr>af_purchasable_amount :=
      dict_default (af_purchasable_amount (ty_figures ?s1)) buyable ''order_buyable_amount''\<rparr>\<rparr>"
    have inv2: "treasury_inv c s2" by (rule treasury_inv_other [OF inv1]) (simp_all add: s2_def)
    have "snd (do_sync c br ps s) = s2 \<or> (\<exists>f. af_account_balance f = af_account_balance (ty_figures s2)
        \<and> snd (do_sync c br ps s) = save_state c (s2\<lparr>ty_figures := f\<rparr>))"
    proof (cases "br_positions br")
      case None
      with \<open>br_account_balance br = Some data\<close> Some show ?thesis by (simp add: do_sync_def Let_def s2_def)
    next
      case pos: (Some positions)
      show ?thesis
      proof (cases ps)
        case (Inl e)
        with \<open>br_account_balance br = Some data\<close> Some pos show ?thesis
          by (simp add: do_sync_def Let_def s2_def)
      next
        case (Inr xs)
        let ?ext = "external_positions (map (\<lambda>((_, _, sy), _). sy) xs) positions"
        show ?thesis
          by (intro disjI2 exI [of _ "(ty_figures s2)\<lparr>af_external_purchase_amount := external_purchase_of ?ext,
              af_external_eval_amount := external_eval_of ?ext\<rparr>"])
            (use \<open>br_account_balance br = Some data\<close> Some pos Inr in \<open>simp add: do_sync_def Let_def s2_def\<close>)
      qed
    qed
    then show ?thesis
    proof (elim disjE exE conjE)
      assume "snd (do_sync c br ps s) = s2" with inv2 show ?thesis by simp
    next
      fix f assume f: "af_account_balance f = af_account_balance (ty_figures s2)"
        and e: "snd (do_sync c br ps s) = save_state c (s2\<lparr>ty_figures := f\<rparr>)"
      show ?thesis unfolding e
        by (rule treasury_inv_figures [OF inv2])
          (simp_all add: treasury_defs f unallocated_eq [OF inv2])
    qed
  qed
qed

lemma do_sync_virtual_inv:
  assumes inv: "treasury_inv c s"
  shows "treasury_inv c (snd (do_sync_virtual c r ps s))"
proof (cases ps)
  case (Inr xs)
  show ?thesis
    by (rule treasury_inv_figures [OF inv])
      (simp_all add: do_sync_virtual_def Inr Let_def treasury_defs unallocated_eq [OF inv])
qed (simp add: do_sync_virtual_def inv)

lemma on_daily_report_inv:
  assumes inv: "treasury_inv c s"
  shows "treasury_inv c (on_daily_report c cutoff ev s)"
  by (rule treasury_inv_other [OF inv])
    (simp_all add: on_daily_report_def take_snapshot_def cleanup_old_snapshots_def put_snapshot_def Let_def)

subsection \<open>Releasing a budget, reloading\<close>

lemma release_budget_cases:
  assumes inv: "treasury_inv c s"
  obtains (none) "dict_get (ty_budgets s) k = None" "release_budget c k s = (0, s)"
  | (some) b where "dict_get (ty_budgets s) k = Some b"
      "release_budget c k s = (bb_allocated b,
         (log_transaction c k Tx_release (bb_allocated b) (save_state c
            (s\<lparr>ty_budgets := dict_pop k (ty_budgets s),
               ty_unallocated := ty_unallocated s + bb_allocated b,
               ty_db := (ty_db s)\<lparr>db_budgets := dict_pop k (db_budgets (ty_db s))\<rparr>\<rparr>)))
         \<lparr>ty_reservations := filter (\<lambda>(_, bid, _). bid \<noteq> k) (ty_reservations s)\<rparr>)"
proof (cases "dict_get (ty_budgets s) k")
  case None
  then have "\<not> (dict_get (db_budgets (ty_db s)) k = Some b \<and> bb_account_id b = tc_account_id c)" for b
    using treasury_invD(8) [OF inv, of k b] by simp
  then have "release_budget c k s = (0, s)"
    using None by (auto simp: release_budget_def Let_def split: option.splits)
  with None show thesis by (rule none)
next
  case (Some b)
  show thesis
    by (rule some [OF Some]) (simp add: release_budget_def Some Let_def treasury_defs)
qed

lemma release_budget_inv:
  assumes inv: "treasury_inv c s"
  shows "treasury_inv c (snd (release_budget c k s))"
  using inv
proof (cases rule: release_budget_cases [of c s k])
  case none
  with inv show ?thesis by simp
next
  case (some b)
  note D = treasury_invD [OF inv]
  let ?R = "filter (\<lambda>(_, bid, _). bid \<noteq> k) (ty_reservations s)"
  let ?B = "dict_pop k (ty_budgets s)"
  have R: "dict_get ?R oid = Some x \<Longrightarrow> dict_get (ty_reservations s) oid = Some x \<and> fst x \<noteq> k" for oid x
    using D(2) by (auto simp: dict_get_filter split: option.splits if_splits prod.splits)
  have "memory_inv c ?B (ty_unallocated s + bb_allocated b) ?R (af_account_balance (ty_figures s))"
    unfolding memory_inv_def
  proof (intro conjI allI impI)
    show "reservation_ok ?B x" if "dict_get ?R oid = Some x" for oid x
      using R [OF that] D(4) [of oid x] by (simp add: reservation_ok_def)
    show "0 \<le> slack bt ?B ?R" for bt
      using D(5) [of bt] by (auto simp: slack_def reserved_for_filter budget_field_def)
    show "ty_unallocated s + bb_allocated b + dict_sum bb_allocated ?B = af_account_balance (ty_figures s)"
      using D(6) some(1) by (simp add: dict_sum_pop [OF D(1)])
    show "budget_ok c k' b'" if "dict_get ?B k' = Some b'" for k' b'
      using that D(3) by (simp split: if_splits)
  qed (use D(1,2) in auto)
  moreover have "db_inv c ?B (af_account_balance (ty_figures s)) (dict_pop k (db_budgets (ty_db s)))
      (dict_set (tc_account_id c) (ty_figures s) (db_state (ty_db s)))"
    unfolding db_inv_def using D(7,8) by auto
  ultimately show ?thesis
    by (simp add: treasury_inv_def some(2) treasury_defs)
qed

lemma fold_set_empty:
  assumes "dict_wf d"
  shows "fold (\<lambda>(k, b) d. dict_set k b d) d [] = d"
proof -
  have "fold (\<lambda>(k, b) d. dict_set k b d) d a = a @ d"
    if "dict_wf d" "\<And>k. dict_get a k \<noteq> None \<Longrightarrow> dict_get d k = None" for a d :: "('a, 'b) dict"
    using that
  proof (induction d arbitrary: a)
    case (Cons p d)
    obtain k b where p: "p = (k, b)" by (cases p)
    have k: "dict_get a k = None" using Cons.prems(2) [of k] p by (cases "dict_get a k") auto
    then have a: "dict_set k b a = a @ [(k, b)]" by (rule dict_append_absent [symmetric])
    have "dict_get d k' = None" if "dict_get (a @ [(k, b)]) k' \<noteq> None" for k'
    proof (cases "k' = k")
      case True
      then show ?thesis using Cons.prems(1) by (simp add: p)
    next
      case False
      then have "dict_get a k' \<noteq> None" using that by (simp add: map_add_def split: option.splits)
      then show ?thesis using Cons.prems(2) [of k'] False by (simp add: p)
    qed
    then show ?case using Cons.IH [of "a @ [(k, b)]"] Cons.prems(1) by (simp add: p a)
  qed simp
  from this [OF assms, of "[]"] show ?thesis by simp
qed

lemma load_rows_inv:
  assumes inv: "treasury_inv c s"
    and s0: "ty_budgets s0 = []" "ty_reservations s0 = []" "ty_db s0 = ty_db s"
  shows "treasury_inv c (load_rows c s0)"
proof -
  note D = treasury_invD [OF inv]
  let ?B = "own_budgets c (ty_db s)"
  have wf: "dict_wf ?B" using D(7) by (simp add: own_budgets_def)
  have B: "dict_get ?B k = dict_get (ty_budgets s) k" for k
  proof (cases "dict_get (ty_budgets s) k")
    case None
    then have "\<not> (dict_get (db_budgets (ty_db s)) k = Some b \<and> bb_account_id b = tc_account_id c)" for b
      using D(8) [of k b] by simp
    with None show ?thesis
      by (auto simp: own_budgets_def dict_get_filter [OF D(7)] split: option.splits)
  next
    case (Some b)
    with D(8) [of k b] show ?thesis by (simp add: own_budgets_def dict_get_filter [OF D(7)])
  qed
  have ok: "budget_ok c k b" if "dict_get ?B k = Some b" for k b
    using D(3) that B by simp
  have nonneg: "0 \<le> slack bt ?B []" for bt
  proof -
    have "0 \<le> reserved_for bt (ty_reservations s)"
      by (rule reserved_for_nonneg [OF D(2)]) (use D(4) in \<open>auto simp: reservation_ok_def\<close>)
    then show ?thesis
      using D(5) [of bt] by (simp add: slack_def budget_field_def B reserved_for_def)
  qed
  define f where "f = (case dict_get (db_state (ty_db s)) (tc_account_id c) of None \<Rightarrow> ty_figures s0 | Some f \<Rightarrow> f)"
  have l: "load_rows c s0 = s0\<lparr>ty_figures := f, ty_budgets := ?B,
      ty_unallocated := af_account_balance f - dict_sum bb_allocated ?B\<rparr>"
    by (simp add: load_rows_def Let_def s0 fold_set_empty [OF wf] f_def)
  have "memory_inv c ?B (af_account_balance f - dict_sum bb_allocated ?B) [] (af_account_balance f)"
    using wf ok nonneg by (simp add: memory_inv_def)
  moreover have "db_inv c ?B (af_account_balance f) (db_budgets (ty_db s)) (db_state (ty_db s))"
    using D(7,8) by (simp add: db_inv_def B) (simp add: f_def)
  ultimately show ?thesis by (simp add: treasury_inv_def l s0)
qed

lemma load_from_db_inv: "treasury_inv c s \<Longrightarrow> treasury_inv c (load_from_db c s)"
  unfolding load_from_db_def by (rule load_rows_inv) simp_all

lemma restart_treasury_inv: "treasury_inv c s \<Longrightarrow> treasury_inv c (restart_treasury c s)"
  unfolding restart_treasury_def by (rule load_rows_inv) simp_all

subsection \<open>Reservations\<close>

definition slack_of :: "string \<Rightarrow> treasury \<Rightarrow> rat" where
  "slack_of bt s = slack bt (ty_budgets s) (ty_reservations s)"

lemma reserve_inv:
  assumes inv: "treasury_inv c s" and fresh: "dict_get (ty_reservations s) oid = None"
    and r: "reserve_for_order env k oid amount s = (res, s')" and no_fault: "te_fault env = None"
  shows "treasury_inv c s'" and "slack_of bt s' = slack_of bt s"
proof -
  note D = treasury_invD [OF inv]
  consider "s' = s" | b where "0 < amount" "dict_get (ty_budgets s) k = Some b"
      "s' = save_budget (b\<lparr>bb_available := bb_available b - amount, bb_reserved := bb_reserved b + amount\<rparr>)
         ((put_budget (b\<lparr>bb_available := bb_available b - amount, bb_reserved := bb_reserved b + amount\<rparr>) s)
            \<lparr>ty_reservations := dict_set oid (k, amount) (ty_reservations s)\<rparr>)"
    using r no_fault by (auto simp: reserve_for_order_def Let_def split: if_splits option.splits)
  then have "treasury_inv c s' \<and> slack_of bt s' = slack_of bt s"
  proof cases
    case 2
    let ?b = "b\<lparr>bb_available := bb_available b - amount, bb_reserved := bb_reserved b + amount\<rparr>"
    have b: "budget_ok c k b" using D(3) [OF 2(2)] .
    have sl: "reserved_for k (ty_reservations s) \<le> bb_reserved b"
      using D(5) [of k] by (simp add: slack_def budget_field_def 2(2))
    have res: "reserved_for bt' (dict_set oid (k, amount) (ty_reservations s)) =
        reserved_for bt' (ty_reservations s) + (if bt' = k then amount else 0)" for bt'
      using reserved_for_set [OF D(2), of bt' oid k amount] fresh by simp
    have id: "bb_bot_id b = k" using b by (simp add: budget_ok_def)
    have "treasury_inv c s'"
    proof (rule treasury_inv_write [OF inv, of k ?b])
      show "0 \<le> snd x \<and> (fst x = k \<or> dict_get (ty_budgets s) (fst x) \<noteq> None)"
        if "dict_get (ty_reservations s') o' = Some x" for o' x
        using that D(4) [of o' x] 2(1)
        by (auto simp: 2(3) treasury_defs reservation_ok_def split: if_splits)
    qed (use b 2(1,2) D(2) sl id in \<open>auto simp: 2(3) treasury_defs res budget_ok_def budget_field_def\<close>)
    moreover have "slack_of bt s' = slack_of bt s"
      by (simp add: slack_of_def slack_def 2(3) treasury_defs res budget_field_def id 2(2))
    ultimately show ?thesis by blast
  qed (use inv in simp)
  then show "treasury_inv c s'" and "slack_of bt s' = slack_of bt s" by blast+
qed

lemma treasury_inv_drop_empty:
  assumes inv: "treasury_inv c s" and zero: "\<And>x. dict_get (ty_reservations s) oid = Some x \<Longrightarrow> snd x = 0"
  shows "treasury_inv c (s\<lparr>ty_reservations := dict_pop oid (ty_reservations s)\<rparr>)"
    and "slack_of bt (s\<lparr>ty_reservations := dict_pop oid (ty_reservations s)\<rparr>) = slack_of bt s"
proof -
  note D = treasury_invD [OF inv]
  have res: "reserved_for bt' (dict_pop oid (ty_reservations s)) = reserved_for bt' (ty_reservations s)" for bt'
    using reserved_for_pop [OF D(2), of bt' oid] zero by (auto split: option.splits prod.splits)
  show "slack_of bt (s\<lparr>ty_reservations := dict_pop oid (ty_reservations s)\<rparr>) = slack_of bt s"
    by (simp add: slack_of_def slack_def res)
  show "treasury_inv c (s\<lparr>ty_reservations := dict_pop oid (ty_reservations s)\<rparr>)"
    using inv res unfolding treasury_inv_def memory_inv_def by (auto simp: slack_def)
qed

lemma release_reservation_inv:
  assumes inv: "treasury_inv c s" and bot: "order_of_bot s oid k"
  shows "treasury_inv c (release_reservation k oid s)"
    and "slack_of bt (release_reservation k oid s) = slack_of bt s"
proof -
  note D = treasury_invD [OF inv]
  have "treasury_inv c (release_reservation k oid s) \<and>
      slack_of bt (release_reservation k oid s) = slack_of bt s"
  proof (cases "dict_get (ty_reservations s) oid")
    case None
    then have "release_reservation k oid s = s"
      by (simp add: release_reservation_def Let_def dict_pop_absent split: option.splits)
    with inv show ?thesis by simp
  next
    case (Some x)
    then obtain r where x: "x = (k, r)" using bot by (cases x) (auto simp: order_of_bot_def)
    have r: "0 \<le> r" "dict_get (ty_budgets s) k \<noteq> None" using D(4) [OF Some] by (auto simp: reservation_ok_def x)
    then obtain b where b: "dict_get (ty_budgets s) k = Some b" by auto
    show ?thesis
    proof (cases "r = 0")
      case True
      then have "release_reservation k oid s = s\<lparr>ty_reservations := dict_pop oid (ty_reservations s)\<rparr>"
        by (simp add: release_reservation_def Some x b)
      then show ?thesis
        using treasury_inv_drop_empty(1) [OF inv, of oid] treasury_inv_drop_empty(2) [OF inv, of oid bt]
          Some x True by simp
    next
      case False
      let ?b = "b\<lparr>bb_reserved := bb_reserved b - r, bb_available := bb_available b + r\<rparr>"
      have ok: "budget_ok c k b" using D(3) [OF b] .
      then have id: "bb_bot_id b = k" by (simp add: budget_ok_def)
      have sl: "reserved_for k (ty_reservations s) \<le> bb_reserved b"
        using D(5) [of k] by (simp add: slack_def budget_field_def b)
      have rle: "r \<le> reserved_for k (ty_reservations s)"
        by (rule reservation_le [OF D(2) _ Some [unfolded x]]) (use D(4) in \<open>auto simp: reservation_ok_def\<close>)
      have s': "release_reservation k oid s = save_budget ?b
          (put_budget ?b (s\<lparr>ty_reservations := dict_pop oid (ty_reservations s)\<rparr>))"
        using sl rle r(1) False by (simp add: release_reservation_def Some x b Let_def max_def)
      have res: "reserved_for bt' (dict_pop oid (ty_reservations s)) =
          reserved_for bt' (ty_reservations s) - (if bt' = k then r else 0)" for bt'
        using reserved_for_pop [OF D(2), of bt' oid] Some x by simp
      have "treasury_inv c (release_reservation k oid s)"
      proof (rule treasury_inv_write [OF inv, of k ?b])
        show "0 \<le> snd x \<and> (fst x = k \<or> dict_get (ty_budgets s) (fst x) \<noteq> None)"
          if "dict_get (ty_reservations (release_reservation k oid s)) o' = Some x" for o' x
          using that D(4) [of o' x] by (auto simp: s' treasury_defs reservation_ok_def split: if_splits)
      qed (use ok b D(2) sl id in \<open>auto simp: s' treasury_defs res budget_ok_def budget_field_def\<close>)
      moreover have "slack_of bt (release_reservation k oid s) = slack_of bt s"
        by (simp add: slack_of_def slack_def s' treasury_defs res budget_field_def id b)
      ultimately show ?thesis by blast
    qed
  qed
  then show "treasury_inv c (release_reservation k oid s)"
    and "slack_of bt (release_reservation k oid s) = slack_of bt s" by blast+
qed

lemma on_bot_stopped_inv:
  assumes inv: "treasury_inv c s"
  shows "treasury_inv c (on_bot_stopped c a k s)" and "slack_of bt (on_bot_stopped c a k s) = slack_of bt s"
proof -
  note D = treasury_invD [OF inv]
  let ?p = "get_reservations k s"
  let ?R = "filter (\<lambda>(_, bid, _). bid \<noteq> k) (ty_reservations s)"
  have "treasury_inv c (on_bot_stopped c a k s) \<and> slack_of bt (on_bot_stopped c a k s) = slack_of bt s"
  proof (cases "\<not> is_my_event c a \<or> ?p = []")
    case True
    with inv show ?thesis by (auto simp: on_bot_stopped_def)
  next
    case False
    then obtain oid r where "(oid, r) \<in> set ?p" by (cases "?p") auto
    then have "(oid, k, r) \<in> set (ty_reservations s)" by (auto simp: get_reservations_def)
    then have "dict_get (ty_reservations s) oid = Some (k, r)" using dict_get_mem [OF D(2)] by simp
    then obtain b where b: "dict_get (ty_budgets s) k = Some b"
      using D(4) by (force simp: reservation_ok_def)
    have ok: "budget_ok c k b" using D(3) [OF b] .
    then have id: "bb_bot_id b = k" by (simp add: budget_ok_def)
    let ?t = "reserved_for k (ty_reservations s)"
    have sl: "?t \<le> bb_reserved b"
      using D(5) [of k] by (simp add: slack_def budget_field_def b)
    let ?b = "b\<lparr>bb_reserved := bb_reserved b - ?t, bb_available := bb_available b + ?t\<rparr>"
    have s': "on_bot_stopped c a k s = log_transaction c k Tx_bot_stopped_release ?t (save_budget ?b
        (put_budget ?b (s\<lparr>ty_reservations := ?R\<rparr>)))"
      using False sl
      by (simp add: on_bot_stopped_def Let_def pop_pending [OF D(2)] sum_get_reservations b max_def)
    have "treasury_inv c (on_bot_stopped c a k s)"
    proof (rule treasury_inv_write [OF inv, of k ?b])
      show "0 \<le> snd x \<and> (fst x = k \<or> dict_get (ty_budgets s) (fst x) \<noteq> None)"
        if "dict_get (ty_reservations (on_bot_stopped c a k s)) o' = Some x" for o' x
      proof -
        have "dict_get (ty_reservations s) o' = Some x"
          using that D(2) by (simp add: s' treasury_defs dict_get_filter split: option.splits if_splits)
        then show ?thesis using D(4) [of o' x] by (simp add: reservation_ok_def)
      qed
    qed (use ok b D(2) sl id in \<open>auto simp: s' treasury_defs reserved_for_filter budget_ok_def budget_field_def\<close>)
    moreover have "slack_of bt (on_bot_stopped c a k s) = slack_of bt s"
      by (simp add: slack_of_def slack_def s' treasury_defs reserved_for_filter budget_field_def id b)
    ultimately show ?thesis by blast
  qed
  then show "treasury_inv c (on_bot_stopped c a k s)" and "slack_of bt (on_bot_stopped c a k s) = slack_of bt s"
    by blast+
qed

lemma on_order_validated_inv:
  assumes inv: "treasury_inv c s" and fresh: "dict_get (ty_reservations s) (vd_order_id ev) = None"
    and no_fault: "te_fault env = None"
  shows "treasury_inv c (snd (on_order_validated c env ev s))"
    and "slack_of bt (snd (on_order_validated c env ev s)) = slack_of bt s"
proof -
  have "snd (on_order_validated c env ev s) = s \<or>
      (\<exists>amount res. reserve_for_order env (vd_bot_id ev) (vd_order_id ev) amount s =
         (res, snd (on_order_validated c env ev s)))"
    by (auto simp: on_order_validated_def validated_market_buy_def validated_other_def
        reserve_and_approve_def Let_def split: option.splits quote_reply.splits sum.splits prod.splits)
  then show "treasury_inv c (snd (on_order_validated c env ev s))"
    and "slack_of bt (snd (on_order_validated c env ev s)) = slack_of bt s"
    using inv reserve_inv [OF inv fresh _ no_fault] by metis+
qed

subsection \<open>Settlement\<close>

definition remaining_of :: "string \<Rightarrow> reservations \<Rightarrow> rat" where
  "remaining_of oid res = (case dict_get res oid of None \<Rightarrow> 0 | Some (_, r) \<Rightarrow> r)"

text \<open>What a settlement keeps, for the budget \<open>b\<close> of bot \<open>k\<close> and the order \<open>oid\<close>.\<close>

definition settled_ok ::
  "treasury_config \<Rightarrow> string \<Rightarrow> bot_budget \<times> reservations \<Rightarrow> bot_budget \<times> reservations \<Rightarrow> bool" where
  "settled_ok c k br br' \<longleftrightarrow> budget_ok c k (fst br') \<and> bb_allocated (fst br') = bb_allocated (fst br)
     \<and> dict_wf (snd br')
     \<and> (\<forall>o' x. dict_get (snd br') o' = Some x \<longrightarrow>
          0 \<le> snd x \<and> (\<exists>y. dict_get (snd br) o' = Some y \<and> fst y = fst x))
     \<and> bb_reserved (fst br') - reserved_for k (snd br') = bb_reserved (fst br) - reserved_for k (snd br)
     \<and> (\<forall>bt. bt \<noteq> k \<longrightarrow> reserved_for bt (snd br') = reserved_for bt (snd br))"

definition settle_pre :: "treasury_config \<Rightarrow> string \<Rightarrow> string \<Rightarrow> bot_budget \<times> reservations \<Rightarrow> bool" where
  "settle_pre c k oid br \<longleftrightarrow> budget_ok c k (fst br) \<and> dict_wf (snd br)
     \<and> (\<forall>o' x. dict_get (snd br) o' = Some x \<longrightarrow> 0 \<le> snd x)
     \<and> reserved_for k (snd br) \<le> bb_reserved (fst br)
     \<and> (\<forall>x. dict_get (snd br) oid = Some x \<longrightarrow> fst x = k)"

lemma settle_pre_facts:
  assumes "settle_pre c k oid (b, R)"
  shows "0 \<le> remaining_of oid R" and "remaining_of oid R \<le> reserved_for k R"
    and "remaining_of oid R \<le> bb_reserved b" and "0 \<le> bb_reserved b"
    and "reserved_for bt (dict_pop oid R) = reserved_for bt R - (if bt = k then remaining_of oid R else 0)"
    and "dict_get R oid = Some x \<Longrightarrow> x = (k, remaining_of oid R)"
proof -
  have wf: "dict_wf R" and nn: "\<And>o' x. dict_get R o' = Some x \<Longrightarrow> 0 \<le> snd x"
    and le: "reserved_for k R \<le> bb_reserved b" and own: "\<And>x. dict_get R oid = Some x \<Longrightarrow> fst x = k"
    using assms by (auto simp: settle_pre_def)
  show x: "dict_get R oid = Some x \<Longrightarrow> x = (k, remaining_of oid R)" for x
    using own [of x] by (cases x) (simp add: remaining_of_def)
  show "0 \<le> remaining_of oid R" using nn by (force simp: remaining_of_def split: option.splits)
  have "0 \<le> reserved_for k R" by (rule reserved_for_nonneg [OF wf nn])
  show "remaining_of oid R \<le> reserved_for k R"
  proof (cases "dict_get R oid")
    case None
    with \<open>0 \<le> reserved_for k R\<close> show ?thesis by (simp add: remaining_of_def)
  next
    case (Some y)
    then have "dict_get R oid = Some (k, remaining_of oid R)" using x by simp
    with wf nn show ?thesis by (rule reservation_le)
  qed
  with le \<open>0 \<le> reserved_for k R\<close> show "remaining_of oid R \<le> bb_reserved b" "0 \<le> bb_reserved b" by auto
  show "reserved_for bt (dict_pop oid R) = reserved_for bt R - (if bt = k then remaining_of oid R else 0)"
    using reserved_for_pop [OF wf, of bt oid] x
    by (cases "dict_get R oid") (auto simp: remaining_of_def)
qed

text \<open>Both settlements, with the clamps at 0 gone: under \<open>settle_pre\<close> they never apply.\<close>

lemma settle_full_eq:
  assumes "settle_pre c k oid (b, R)"
  shows "settle_buy_full_fill oid cost (b, R) =
    (b\<lparr>bb_reserved := bb_reserved b - remaining_of oid R, bb_spent := bb_spent b + cost,
       bb_available := bb_available b + (remaining_of oid R - cost)\<rparr>, dict_pop oid R)"
  using settle_pre_facts [OF assms]
  by (simp add: settle_buy_full_fill_def Let_def max_def remaining_of_def [symmetric])

lemma settle_partial_eq:
  assumes "settle_pre c k oid (b, R)" and "0 \<le> cost"
  defines "r \<equiv> remaining_of oid R"
  shows "settle_buy_partial_fill record oid cost (b, R) =
    (if ot_ordered_qty record > 0 \<and> ot_recorded_filled_qty record \<ge> ot_ordered_qty record
     then (b\<lparr>bb_reserved := bb_reserved b - r, bb_spent := bb_spent b + cost,
             bb_available := bb_available b + (r - cost)\<rparr>, dict_pop oid R)
     else (b\<lparr>bb_reserved := bb_reserved b - min r cost, bb_spent := bb_spent b + cost,
             bb_available := bb_available b - (cost - min r cost)\<rparr>,
           (if dict_get R oid = None then R else dict_set oid (k, r - min r cost) R)))"
proof -
  note F = settle_pre_facts [OF assms(1)]
  have r: "0 \<le> r" "r \<le> bb_reserved b" using F by (simp_all add: r_def)
  have m: "0 \<le> min r cost" "min r cost \<le> r" "min r cost \<le> cost" using r assms(2) by auto
  have "bb_reserved b - min r cost - (r - min r cost) = bb_reserved b - r" by simp
  then have clamp: "max 0 (bb_reserved b - min r cost) = bb_reserved b - min r cost"
    "max 0 (bb_reserved b - min r cost - (r - min r cost)) = bb_reserved b - r"
    using r m by linarith+
  show ?thesis
  proof (cases "dict_get R oid")
    case None
    then have "r = 0" by (simp add: r_def remaining_of_def)
    then show ?thesis
      using None assms(2) r by (auto simp: settle_buy_partial_fill_def Let_def min_def max_def dict_pop_absent)
  next
    case (Some x)
    then have x: "dict_get R oid = Some (k, r)" using F(6) by (simp add: r_def)
    consider "min r cost = r" "r \<le> cost" | "min r cost = cost" "cost < r"
      by (cases "r \<le> cost") auto
    then show ?thesis
      by cases (use clamp x in \<open>auto simp: settle_buy_partial_fill_def Let_def\<close>)
  qed
qed

lemma settle_buy_fill_ok:
  assumes pre: "settle_pre c k oid (b, R)" and cost: "0 \<le> cost"
  shows "settled_ok c k (b, R) (settle_buy_fill env oid cost (b, R))"
proof -
  note F = settle_pre_facts [OF pre]
  have wf: "dict_wf R" and ok: "budget_ok c k b" and nn: "\<And>o' x. dict_get R o' = Some x \<Longrightarrow> 0 \<le> snd x"
    using pre by (auto simp: settle_pre_def)
  let ?r = "remaining_of oid R"
  let ?full = "(b\<lparr>bb_reserved := bb_reserved b - ?r, bb_spent := bb_spent b + cost,
     bb_available := bb_available b + (?r - cost)\<rparr>, dict_pop oid R)"
  let ?part = "(b\<lparr>bb_reserved := bb_reserved b - min ?r cost, bb_spent := bb_spent b + cost,
     bb_available := bb_available b - (cost - min ?r cost)\<rparr>,
     (if dict_get R oid = None then R else dict_set oid (k, ?r - min ?r cost) R))"
  have full: "settled_ok c k (b, R) ?full"
    unfolding settled_ok_def fst_conv snd_conv
    using ok wf nn F(5) by (auto simp: budget_ok_def split: if_splits)
  have part: "settled_ok c k (b, R) ?part"
  proof (cases "dict_get R oid")
    case None
    then have "?r = 0" by (simp add: remaining_of_def)
    then show ?thesis
      unfolding settled_ok_def fst_conv snd_conv
      using ok wf nn None cost by (auto simp: budget_ok_def min_def)
  next
    case (Some x)
    then have x: "dict_get R oid = Some (k, ?r)" using F(6) by simp
    have "reserved_for bt (dict_set oid (k, ?r - min ?r cost) R) =
        reserved_for bt R - (if bt = k then min ?r cost else 0)" for bt
      using reserved_for_set [OF wf, of bt oid k "?r - min ?r cost"] x by simp
    then show ?thesis
      unfolding settled_ok_def fst_conv snd_conv
      using ok wf nn x by (auto simp: budget_ok_def split: if_splits)
  qed
  show ?thesis
  proof (cases "case te_order_tracker env of None \<Rightarrow> None | Some get \<Rightarrow> get oid")
    case None
    then show ?thesis using full by (simp add: settle_buy_fill_def settle_full_eq [OF pre])
  next
    case (Some rec)
    then show ?thesis using full part by (simp add: settle_buy_fill_def settle_partial_eq [OF pre cost])
  qed
qed

lemma settle_pre_inv:
  assumes inv: "treasury_inv c s" and get: "dict_get (ty_budgets s) k = Some b" and bt: "order_of_bot s oid k"
  shows "settle_pre c k oid (b, ty_reservations s)"
proof -
  note D = treasury_invD [OF inv]
  have "reserved_for k (ty_reservations s) \<le> bb_reserved b"
    using D(5) [of k] by (simp add: slack_def budget_field_def get)
  moreover have "0 \<le> snd x" if "dict_get (ty_reservations s) o' = Some x" for o' x
    using D(4) [OF that] by (simp add: reservation_ok_def)
  ultimately show ?thesis
    using D(2) D(3) [OF get] bt by (auto simp: settle_pre_def order_of_bot_def)
qed

lemma apply_fill_settlement_inv:
  assumes inv: "treasury_inv c s" and get: "dict_get (ty_budgets s) (ev_bot_id ev) = Some b"
    and own: "order_of_bot s (ev_order_id ev) (ev_bot_id ev)"
    and cost: "0 \<le> ev_quantity ev * ev_price ev + ev_commission ev"
    and r: "apply_fill_settlement c env ev b s = (None, s')"
  shows "treasury_inv c s'" and "slack_of bt s' = slack_of bt s"
proof -
  note D = treasury_invD [OF inv]
  let ?k = "ev_bot_id ev"
  define br where "br = (if ev_side ev = ''buy''
      then settle_buy_fill env (ev_order_id ev) (ev_quantity ev * ev_price ev + ev_commission ev) (b, ty_reservations s)
      else (b\<lparr>bb_returned := bb_returned b + (ev_quantity ev * ev_price ev - ev_commission ev),
              bb_available := bb_available b + (ev_quantity ev * ev_price ev - ev_commission ev)\<rparr>,
            ty_reservations s))"
  note pre = settle_pre_inv [OF inv get own]
  have bok: "budget_ok c ?k b" using D(3) [OF get] .
  have sell: "settled_ok c ?k (b, ty_reservations s)
      (b\<lparr>bb_returned := bb_returned b + x, bb_available := bb_available b + x\<rparr>, ty_reservations s)" for x
    using bok D(2) D(4) by (auto simp: settled_ok_def budget_ok_def reservation_ok_def)
  have ok: "settled_ok c ?k (b, ty_reservations s) br"
    unfolding br_def using settle_buy_fill_ok [OF pre cost] sell by auto
  obtain b' R' where br': "br = (b', R')" by (cases br)
  have ok': "budget_ok c ?k b'" "bb_allocated b' = bb_allocated b" "dict_wf R'"
    "\<And>o' x. dict_get R' o' = Some x \<Longrightarrow> 0 \<le> snd x \<and> (\<exists>y. dict_get (ty_reservations s) o' = Some y \<and> fst y = fst x)"
    "bb_reserved b' - reserved_for ?k R' = bb_reserved b - reserved_for ?k (ty_reservations s)"
    "\<And>bt. bt \<noteq> ?k \<Longrightarrow> reserved_for bt R' = reserved_for bt (ty_reservations s)"
    using ok unfolding settled_ok_def br' by auto
  have id: "bb_bot_id b' = ?k" using ok'(1) by (simp add: budget_ok_def)
  have s': "s' = log_transaction c ?k Tx_fill (ev_quantity ev * ev_price ev)
      (save_budget b' ((put_budget b' s)\<lparr>ty_reservations := R'\<rparr>))"
    using r br' unfolding br_def
    by (auto simp: apply_fill_settlement_def Let_def split: if_splits)
  show "treasury_inv c s'"
  proof (rule treasury_inv_write [OF inv, of ?k b'])
    show "0 \<le> snd x \<and> (fst x = ?k \<or> dict_get (ty_budgets s) (fst x) \<noteq> None)"
      if "dict_get (ty_reservations s') o' = Some x" for o' x
    proof -
      have "dict_get R' o' = Some x" using that by (simp add: s' treasury_defs)
      from ok'(4) [OF this] obtain y where "0 \<le> snd x" "dict_get (ty_reservations s) o' = Some y" "fst y = fst x"
        by blast
      with D(4) [of o' y] show ?thesis by (simp add: reservation_ok_def)
    qed
    show "reserved_for ?k (ty_reservations s') \<le> bb_reserved b'"
      using ok'(5) D(5) [of ?k] by (simp add: s' treasury_defs slack_def budget_field_def get)
  qed (use ok' id in \<open>auto simp: s' treasury_defs budget_field_def get\<close>)
  show "slack_of bt s' = slack_of bt s"
    using ok'(5) ok'(6) [of bt]
    by (auto simp: slack_of_def slack_def s' treasury_defs budget_field_def id get)
qed

text \<open>The restored state: exactly the old one, up to the order of the reservation entries.\<close>

definition same_treasury :: "treasury \<Rightarrow> treasury \<Rightarrow> bool" where
  "same_treasury s s' \<longleftrightarrow> ty_budgets s' = ty_budgets s \<and> ty_unallocated s' = ty_unallocated s
     \<and> (\<forall>oid. dict_get (ty_reservations s') oid = dict_get (ty_reservations s) oid)
     \<and> ty_figures s' = ty_figures s \<and> ty_db s' = ty_db s"

lemma settle_touches_one:
  assumes "settle_buy_fill env oid cost (b, R) = (b', R')"
  shows "bb_bot_id b' = bb_bot_id b" and "o' \<noteq> oid \<Longrightarrow> dict_get R' o' = dict_get R o'"
    and "dict_wf R \<Longrightarrow> dict_wf R'"
  using assms
  by (auto simp: settle_buy_fill_def settle_buy_full_fill_def settle_buy_partial_fill_def Let_def
      split: option.splits if_splits prod.splits)

lemma settlement_touches_one:
  assumes "apply_fill_settlement c env ev b s = (f, s')" and "bb_bot_id b = ev_bot_id ev"
  shows "ty_budgets s' = ty_budgets s \<or> (\<exists>b'. ty_budgets s' = dict_set (ev_bot_id ev) b' (ty_budgets s))"
    and "ty_unallocated s' = ty_unallocated s" and "ty_figures s' = ty_figures s"
    and "o' \<noteq> ev_order_id ev \<Longrightarrow> dict_get (ty_reservations s') o' = dict_get (ty_reservations s) o'"
    and "dict_wf (ty_reservations s) \<Longrightarrow> dict_wf (ty_reservations s')"
proof -
  obtain b' R' where br: "settle_buy_fill env (ev_order_id ev) (ev_quantity ev * ev_price ev + ev_commission ev)
      (b, ty_reservations s) = (b', R')" by fastforce
  note T = settle_touches_one [OF br]
  show "ty_budgets s' = ty_budgets s \<or> (\<exists>b'. ty_budgets s' = dict_set (ev_bot_id ev) b' (ty_budgets s))"
    using assms T(1) br by (auto simp: apply_fill_settlement_def Let_def treasury_defs split: if_splits)
  show "ty_unallocated s' = ty_unallocated s" "ty_figures s' = ty_figures s"
    using assms br by (auto simp: apply_fill_settlement_def Let_def treasury_defs split: if_splits)
  show "o' \<noteq> ev_order_id ev \<Longrightarrow> dict_get (ty_reservations s') o' = dict_get (ty_reservations s) o'"
    using assms T(2) br by (auto simp: apply_fill_settlement_def Let_def treasury_defs split: if_splits)
  show "dict_wf (ty_reservations s) \<Longrightarrow> dict_wf (ty_reservations s')"
    using assms T(3) br by (auto simp: apply_fill_settlement_def Let_def treasury_defs split: if_splits)
qed

lemma fill_rollback:
  assumes inv: "treasury_inv c s" and key: "ev_fill_dedup_key ev = Some key"
    and r: "on_order_filled c env ev s = (Some f, s')"
  shows "same_treasury s s'" and "dict_wf (ty_reservations s')"
proof -
  note D = treasury_invD [OF inv]
  from r key obtain b s2 where get: "dict_get (ty_budgets s) (ev_bot_id ev) = Some b"
    and tx: "settle_in_transaction c env ev key b s = (Some f, s2)"
    and s': "s' = restore_snapshot (ev_order_id ev) b (dict_get (ty_reservations s) (ev_order_id ev)) (ty_db s) s2"
    by (auto simp: on_order_filled_def split: if_splits option.splits prod.splits)
  have id: "bb_bot_id b = ev_bot_id ev" using D(3) [OF get] by (simp add: budget_ok_def)
  let ?s1 = "s\<lparr>ty_db := (ty_db s)\<lparr>db_fill_dedup :=
      insert_or_ignore key (ev_bot_id ev, tc_account_id c) (db_fill_dedup (ty_db s))\<rparr>\<rparr>"
  have "s2 = s \<or> (\<exists>g. apply_fill_settlement c env ev b ?s1 = (g, s2))"
    using tx by (auto simp: settle_in_transaction_def Let_def split: if_splits prod.splits option.splits)
  then have "same_treasury s s' \<and> dict_wf (ty_reservations s')"
  proof (elim disjE exE)
    assume "s2 = s"
    then show ?thesis
      using get id D(2)
      by (auto simp: s' restore_snapshot_def same_treasury_def put_budget_def dict_set_same split: option.splits)
  next
    fix g assume a: "apply_fill_settlement c env ev b ?s1 = (g, s2)"
    note T = settlement_touches_one [OF a id, simplified]
    have "dict_set (ev_bot_id ev) b (ty_budgets s2) = ty_budgets s"
      using T(1) get by (auto simp: dict_set_restore dict_set_same)
    then show ?thesis
      using T(2-5) D(2) by (auto simp: s' restore_snapshot_def same_treasury_def put_budget_def id split: option.splits)
  qed
  then show "same_treasury s s'" and "dict_wf (ty_reservations s')" by blast+
qed

lemma reserved_for_same:
  assumes "dict_wf R" and "dict_wf R'" and "\<And>oid. dict_get R' oid = dict_get R oid"
  shows "reserved_for bt R' = reserved_for bt R"
  unfolding reserved_for_def by (rule dict_sum_lookup) (use assms in auto)

lemma same_treasury_inv:
  assumes inv: "treasury_inv c s" and same: "same_treasury s s'" and wf: "dict_wf (ty_reservations s')"
  shows "treasury_inv c s'" and "slack_of bt s' = slack_of bt s"
proof -
  note D = treasury_invD [OF inv]
  have res: "reserved_for bt (ty_reservations s') = reserved_for bt (ty_reservations s)" for bt
    by (rule reserved_for_same [OF D(2) wf]) (use same in \<open>simp add: same_treasury_def\<close>)
  show "slack_of bt s' = slack_of bt s"
    using same by (simp add: slack_of_def slack_def res same_treasury_def)
  show "treasury_inv c s'"
    using inv same wf res unfolding treasury_inv_def memory_inv_def same_treasury_def slack_def by simp
qed

lemma on_order_filled_inv:
  assumes inv: "treasury_inv c s" and own: "order_of_bot s (ev_order_id ev) (ev_bot_id ev)"
    and cost: "0 \<le> ev_quantity ev * ev_price ev + ev_commission ev"
    and fault: "ev_fill_dedup_key ev = None \<longrightarrow> te_fault env = None"
  shows "treasury_inv c (snd (on_order_filled c env ev s))"
    and "slack_of bt (snd (on_order_filled c env ev s)) = slack_of bt s"
proof -
  obtain f s' where r: "on_order_filled c env ev s = (f, s')" by fastforce
  have "treasury_inv c s' \<and> slack_of bt s' = slack_of bt s"
  proof (cases "is_my_event c (ev_account_id ev) \<and> dict_get (ty_budgets s) (ev_bot_id ev) \<noteq> None")
    case False
    with r inv show ?thesis by (auto simp: on_order_filled_def split: option.splits)
  next
    case True
    then obtain b where my: "is_my_event c (ev_account_id ev)" and get: "dict_get (ty_budgets s) (ev_bot_id ev) = Some b"
      by auto
    show ?thesis
    proof (cases "ev_fill_dedup_key ev")
      case None
      with r my get have a: "apply_fill_settlement c env ev b s = (f, s')" by (simp add: on_order_filled_def)
      with fault None have "f = None" by (auto simp: apply_fill_settlement_def Let_def split: prod.splits if_splits)
      with apply_fill_settlement_inv [OF inv get own cost] a show ?thesis by blast
    next
      case (Some key)
      show ?thesis
      proof (cases f)
        case (Some g)
        with fill_rollback [OF inv \<open>ev_fill_dedup_key ev = Some key\<close>] r same_treasury_inv [OF inv]
        show ?thesis by blast
      next
        case None
        let ?s1 = "s\<lparr>ty_db := (ty_db s)\<lparr>db_fill_dedup :=
            insert_or_ignore key (ev_bot_id ev, tc_account_id c) (db_fill_dedup (ty_db s))\<rparr>\<rparr>"
        have inv1: "treasury_inv c ?s1" by (rule treasury_inv_other [OF inv]) simp_all
        have sl1: "slack_of bt ?s1 = slack_of bt s" by (simp add: slack_of_def)
        have own1: "order_of_bot ?s1 (ev_order_id ev) (ev_bot_id ev)" using own by (simp add: order_of_bot_def)
        have "s' = s \<or> apply_fill_settlement c env ev b ?s1 = (None, s')"
          using r my get Some None
          by (auto simp: on_order_filled_def settle_in_transaction_def Let_def
              split: if_splits option.splits prod.splits)
        then show ?thesis
        proof
          assume "s' = s" with inv show ?thesis by simp
        next
          assume a: "apply_fill_settlement c env ev b ?s1 = (None, s')"
          have get1: "dict_get (ty_budgets ?s1) (ev_bot_id ev) = Some b" using get by simp
          show ?thesis
            using apply_fill_settlement_inv(1) [OF inv1 get1 own1 cost a]
              apply_fill_settlement_inv(2) [OF inv1 get1 own1 cost a, of bt] sl1 by simp
        qed
      qed
    qed
  qed
  with r show "treasury_inv c (snd (on_order_filled c env ev s))"
    and "slack_of bt (snd (on_order_filled c env ev s)) = slack_of bt s" by simp_all
qed

end
