(* ===== verification/Treasury_Properties.thy ===== *)
theory Treasury_Properties
  imports Treasury_Invariant
begin

text \<open>
  The treasury's guarantees: its invariant over every run, exactly-once settlement as an instance
  of an idempotent consumer, and the functional behaviour of its operations.
\<close>

subsection \<open>Runs\<close>

lemma keep_on_error_inv:
  assumes "treasury_inv c s" and "\<And>s'. r = Inr s' \<Longrightarrow> treasury_inv c s'"
  shows "treasury_inv c (keep_on_error s r)"
  using assms by (cases r) auto

lemma treasury_step_inv:
  assumes inv: "treasury_inv c s" and ok: "event_ok s e"
  shows "treasury_inv c (treasury_step c s e)"
proof (cases e)
  case (Pair env ev)
  note keep = keep_on_error_inv [OF inv]
  show ?thesis
  proof (cases ev)
    case (Ev_set_balance x)
    show ?thesis unfolding Pair Ev_set_balance treasury_step.simps
      by (rule keep) (rule set_account_balance_inv [OF inv])
  next
    case (Ev_allocate k x)
    show ?thesis unfolding Pair Ev_allocate treasury_step.simps by (rule keep) (rule allocate_inv [OF inv])
  next
    case (Ev_deallocate k x)
    show ?thesis unfolding Pair Ev_deallocate treasury_step.simps by (rule keep) (rule deallocate_inv [OF inv])
  next
    case (Ev_update_budget k x)
    show ?thesis unfolding Pair Ev_update_budget treasury_step.simps by (rule keep) (rule update_budget_inv [OF inv])
  next
    case (Ev_release_budget k)
    show ?thesis unfolding Pair Ev_release_budget treasury_step.simps by (rule release_budget_inv [OF inv])
  next
    case (Ev_validated v)
    with ok Pair show ?thesis by (simp add: on_order_validated_inv(1) [OF inv])
  next
    case (Ev_filled v)
    with ok Pair show ?thesis by (simp add: on_order_filled_inv(1) [OF inv])
  next
    case (Ev_cancelled a k oid)
    with ok Pair inv show ?thesis by (simp add: on_order_cancelled_def release_reservation_inv(1))
  next
    case (Ev_failed a k oid)
    with ok Pair inv show ?thesis by (simp add: on_order_failed_def release_reservation_inv(1))
  next
    case (Ev_bot_stopped a k)
    show ?thesis unfolding Pair Ev_bot_stopped treasury_step.simps by (rule on_bot_stopped_inv(1) [OF inv])
  next
    case (Ev_sync br ps)
    show ?thesis unfolding Pair Ev_sync treasury_step.simps by (rule do_sync_inv [OF inv])
  next
    case (Ev_sync_virtual r ps)
    show ?thesis unfolding Pair Ev_sync_virtual treasury_step.simps by (rule do_sync_virtual_inv [OF inv])
  next
    case (Ev_daily_report cutoff v)
    show ?thesis unfolding Pair Ev_daily_report treasury_step.simps by (rule on_daily_report_inv [OF inv])
  next
    case Ev_load_from_db
    show ?thesis unfolding Pair Ev_load_from_db treasury_step.simps by (rule load_from_db_inv [OF inv])
  next
    case Ev_restart
    show ?thesis unfolding Pair Ev_restart treasury_step.simps by (rule restart_treasury_inv [OF inv])
  qed
qed

text \<open>A new account: no rows of its own in the database.\<close>

definition fresh_treasury :: "treasury_config \<Rightarrow> treasury \<Rightarrow> bool" where
  "fresh_treasury c s \<longleftrightarrow> ty_budgets s = [] \<and> ty_unallocated s = 0 \<and> ty_reservations s = []
     \<and> ty_figures s = no_figures \<and> dict_wf (db_budgets (ty_db s))
     \<and> (\<forall>b\<in>set (dict_values (db_budgets (ty_db s))). bb_account_id b \<noteq> tc_account_id c)
     \<and> dict_get (db_state (ty_db s)) (tc_account_id c) = None"

lemma fresh_treasury_inv:
  assumes "fresh_treasury c s"
  shows "treasury_inv c s"
proof -
  have "bb_account_id b \<noteq> tc_account_id c" if "dict_get (db_budgets (ty_db s)) k = Some b" for k b
    using assms dict_get_in_values [OF that] unfolding fresh_treasury_def by blast
  then show ?thesis
    using assms
    by (auto simp: fresh_treasury_def treasury_inv_def memory_inv_def db_inv_def slack_def
        budget_field_def reserved_for_def no_figures_def)
qed

interpretation treasury_machine: guarded_machine "treasury_step c" event_ok "treasury_inv c" for c
  by unfold_locales (rule treasury_step_inv)

subsection \<open>Reserved money is never lost while the process lives\<close>

fun is_reload :: "treasury_event \<Rightarrow> bool" where
  "is_reload Ev_load_from_db = True"
| "is_reload Ev_restart = True"
| "is_reload _ = False"

lemma slack_put_same:
  assumes "bb_reserved b = budget_field bb_reserved (ty_budgets s) (bb_bot_id b)"
    and "ty_budgets s' = dict_set (bb_bot_id b) b (ty_budgets s)" and "ty_reservations s' = ty_reservations s"
  shows "slack_of bt s' = slack_of bt s"
  using assms by (simp add: slack_of_def slack_def budget_field_def)

lemma allocate_slack:
  assumes inv: "treasury_inv c s" and "allocate c env k x s = Inr s'"
  shows "slack_of bt s' = slack_of bt s"
proof -
  define b0 where "b0 = (case dict_get (ty_budgets s) k of None \<Rightarrow> new_budget k (tc_account_id c) | Some b \<Rightarrow> b)"
  have b0: "bb_bot_id b0 = k" "bb_reserved b0 = budget_field bb_reserved (ty_budgets s) k"
    using treasury_invD(3) [OF inv, of k]
    by (auto simp: b0_def budget_field_def budget_ok_def new_budget_def split: option.splits)
  show ?thesis
    by (rule slack_put_same [of "b0\<lparr>bb_allocated := bb_allocated b0 + fval x, bb_available := bb_available b0 + fval x\<rparr>"])
      (use assms(2) b0 in \<open>auto simp: allocate_def Let_def treasury_defs b0_def split: option.splits if_splits\<close>)
qed

lemma deallocate_slack:
  assumes inv: "treasury_inv c s" and d: "deallocate c env k x s = Inr s'"
  shows "slack_of bt s' = slack_of bt s"
proof -
  obtain b0 where get: "dict_get (ty_budgets s) k = Some b0"
    using d by (auto simp: deallocate_def Let_def split: option.splits if_splits)
  have id: "bb_bot_id b0 = k" using treasury_invD(3) [OF inv get] by (simp add: budget_ok_def)
  show ?thesis
    by (rule slack_put_same [of "b0\<lparr>bb_allocated := bb_allocated b0 - fval x, bb_available := bb_available b0 - fval x\<rparr>"])
      (use d get id in \<open>auto simp: deallocate_def Let_def treasury_defs budget_field_def split: option.splits if_splits\<close>)
qed

lemma update_budget_slack:
  assumes inv: "treasury_inv c s" and u: "update_budget c env k x s = Inr s'"
  shows "slack_of bt s' = slack_of bt s"
proof -
  obtain y where "s' = s \<or> allocate c env k y s = Inr s' \<or> deallocate c env k y s = Inr s'"
    using u by (auto simp: update_budget_def Let_def split: if_splits sum.splits)
  then show ?thesis using inv allocate_slack deallocate_slack by blast
qed

lemma release_budget_slack:
  assumes inv: "treasury_inv c s"
  shows "slack_of bt (snd (release_budget c k s)) = (if bt = k then 0 else slack_of bt s)
    \<or> snd (release_budget c k s) = s"
  using inv
  by (cases rule: release_budget_cases [of c s k])
    (simp_all add: slack_of_def slack_def treasury_defs budget_field_def reserved_for_filter)

lemma sync_slack:
  "slack_of bt (snd (do_sync c br ps s)) = slack_of bt s"
  "slack_of bt (snd (do_sync_virtual c r ps s)) = slack_of bt s"
  by (auto simp: do_sync_def do_sync_virtual_def sync_balance_def Let_def slack_of_def treasury_defs
      split: option.splits sum.splits)

lemma slack_step:
  assumes inv: "treasury_inv c s" and ok: "event_ok s (env, e)" and e: "\<not> is_reload e" and z: "slack_of bt s = 0"
  shows "slack_of bt (treasury_step c s (env, e)) = 0"
proof (cases e)
  case (Ev_set_balance x)
  then show ?thesis
    using z by (cases "set_account_balance c x s")
      (auto simp: set_account_balance_def slack_of_def treasury_defs Let_def split: if_splits)
next
  case (Ev_allocate k x)
  then show ?thesis using z allocate_slack [OF inv] by (cases "allocate c env k x s") auto
next
  case (Ev_deallocate k x)
  then show ?thesis using z deallocate_slack [OF inv] by (cases "deallocate c env k x s") auto
next
  case (Ev_update_budget k x)
  then show ?thesis using z update_budget_slack [OF inv] by (cases "update_budget c env k x s") auto
next
  case (Ev_release_budget k)
  then show ?thesis using z release_budget_slack [OF inv, of bt k] by (auto split: if_splits)
next
  case (Ev_validated ev)
  then show ?thesis using z ok on_order_validated_inv(2) [OF inv] by simp
next
  case (Ev_filled ev)
  then show ?thesis using z ok on_order_filled_inv(2) [OF inv] by simp
next
  case (Ev_cancelled a k oid)
  then show ?thesis using z ok release_reservation_inv(2) [OF inv] by (simp add: on_order_cancelled_def)
next
  case (Ev_failed a k oid)
  then show ?thesis using z ok release_reservation_inv(2) [OF inv] by (simp add: on_order_failed_def)
next
  case (Ev_bot_stopped a k)
  then show ?thesis using z on_bot_stopped_inv(2) [OF inv] by simp
next
  case (Ev_daily_report cutoff ev)
  then show ?thesis
    using z by (simp add: on_daily_report_def take_snapshot_def cleanup_old_snapshots_def put_snapshot_def
        slack_of_def Let_def)
qed (use z sync_slack e in auto)

lemma slack_run:
  assumes "treasury_inv c s" and "admissible (treasury_step c) event_ok s es"
    and "\<forall>e\<in>set es. \<not> is_reload (snd e)" and "slack_of bt s = 0"
  shows "slack_of bt (run (treasury_step c) s es) = 0"
  using assms
proof (induction es arbitrary: s)
  case (Cons e es)
  then show ?case
    using slack_step [of c s "fst e" "snd e" bt] treasury_step_inv [of c s e] by simp
qed simp

subsection \<open>Settling a stream of fills\<close>

definition settle_event :: "treasury_config \<Rightarrow> treasury \<Rightarrow> treasury_env \<times> order_filled \<Rightarrow> treasury" where
  "settle_event c s e = snd (on_order_filled c (fst e) (snd e) s)"

definition fill_key :: "treasury_env \<times> order_filled \<Rightarrow> dedup_key option" where
  "fill_key e = ev_fill_dedup_key (snd e)"

definition fill_seen :: "treasury \<Rightarrow> dedup_key option \<Rightarrow> bool" where
  "fill_seen s k = (case k of None \<Rightarrow> False | Some key \<Rightarrow> dict_get (db_fill_dedup (ty_db s)) key \<noteq> None)"

text \<open>A keyed fill of this account, for a bot that has a budget, processed without a database failure.\<close>

definition fill_valid :: "treasury_config \<Rightarrow> treasury \<Rightarrow> treasury_env \<times> order_filled \<Rightarrow> bool" where
  "fill_valid c s e \<longleftrightarrow> te_fault (fst e) = None \<and> is_my_event c (ev_account_id (snd e))
     \<and> fill_key e \<noteq> None \<and> dict_get (ty_budgets s) (ev_bot_id (snd e)) \<noteq> None"

lemma settlement_keeps:
  assumes "apply_fill_settlement c env ev b s = (f, s')"
  shows "db_fill_dedup (ty_db s') = db_fill_dedup (ty_db s)"
    and "dict_get (ty_budgets s) k \<noteq> None \<Longrightarrow> dict_get (ty_budgets s') k \<noteq> None"
  using assms
  by (auto simp: apply_fill_settlement_def Let_def treasury_defs split: if_splits prod.splits)

lemma settle_event_cases:
  assumes "fill_valid c s e"
  obtains (seen) "fill_seen s (fill_key e)" "settle_event c s e = s"
  | (new) key b s' where "fill_key e = Some key" "\<not> fill_seen s (fill_key e)"
      "dict_get (ty_budgets s) (ev_bot_id (snd e)) = Some b"
      "apply_fill_settlement c (fst e) (snd e) b
         (s\<lparr>ty_db := (ty_db s)\<lparr>db_fill_dedup :=
            insert_or_ignore key (ev_bot_id (snd e), tc_account_id c) (db_fill_dedup (ty_db s))\<rparr>\<rparr>) = (None, s')"
      "settle_event c s e = s'"
proof -
  obtain key b where k: "ev_fill_dedup_key (snd e) = Some key" "dict_get (ty_budgets s) (ev_bot_id (snd e)) = Some b"
    and my: "te_fault (fst e) = None" "is_my_event c (ev_account_id (snd e))"
    using assms by (auto simp: fill_valid_def fill_key_def)
  let ?s1 = "s\<lparr>ty_db := (ty_db s)\<lparr>db_fill_dedup :=
      insert_or_ignore key (ev_bot_id (snd e), tc_account_id c) (db_fill_dedup (ty_db s))\<rparr>\<rparr>"
  show thesis
  proof (cases "dict_get (db_fill_dedup (ty_db s)) key")
    case (Some x)
    show thesis
      by (rule seen) (simp_all add: fill_seen_def fill_key_def settle_event_def on_order_filled_def
          settle_in_transaction_def k my Some)
  next
    case None
    obtain f s' where a: "apply_fill_settlement c (fst e) (snd e) b ?s1 = (f, s')" by fastforce
    have "f = None" using a my(1) by (auto simp: apply_fill_settlement_def Let_def split: prod.splits if_splits)
    with a None show thesis
      by (intro new [of key b s'])
        (simp_all add: fill_seen_def fill_key_def settle_event_def on_order_filled_def
          settle_in_transaction_def k my)
  qed
qed

lemma settle_event_db:
  assumes "fill_valid c s e"
  shows "fill_seen (settle_event c s e) k \<longleftrightarrow> k = fill_key e \<or> fill_seen s k"
    and "dict_get (ty_budgets s) bt \<noteq> None \<Longrightarrow> dict_get (ty_budgets (settle_event c s e)) bt \<noteq> None"
proof -
  have "(fill_seen (settle_event c s e) k \<longleftrightarrow> k = fill_key e \<or> fill_seen s k)
      \<and> (dict_get (ty_budgets s) bt \<noteq> None \<longrightarrow> dict_get (ty_budgets (settle_event c s e)) bt \<noteq> None)"
    using assms
  proof (cases rule: settle_event_cases)
    case seen
    then show ?thesis by auto
  next
    case (new key b s')
    note K = settlement_keeps [OF new(4)]
    have "dict_get (db_fill_dedup (ty_db s')) key' = None \<longleftrightarrow>
        key' \<noteq> key \<and> dict_get (db_fill_dedup (ty_db s)) key' = None" for key'
      unfolding K(1) using new(1,2) by (simp add: fill_seen_def)
    then have "fill_seen s' k \<longleftrightarrow> k = Some key \<or> fill_seen s k"
      by (cases k) (simp_all add: fill_seen_def)
    with K(2) [of bt] show ?thesis by (simp add: new(1,5))
  qed
  then show "fill_seen (settle_event c s e) k \<longleftrightarrow> k = fill_key e \<or> fill_seen s k"
    and "dict_get (ty_budgets s) bt \<noteq> None \<Longrightarrow> dict_get (ty_budgets (settle_event c s e)) bt \<noteq> None"
    by blast+
qed

interpretation settlement: idempotent_consumer "settle_event c" fill_key fill_seen "fill_valid c" for c
proof
  show "fill_seen (settle_event c s e) k \<longleftrightarrow> k = fill_key e \<or> fill_seen s k"
    if "fill_valid c s e" for s e k
    using that by (rule settle_event_db)
  show "settle_event c s e = s" if "fill_valid c s e" "fill_seen s (fill_key e)" for s e
    using that(1) by (cases rule: settle_event_cases) (use that(2) in auto)
  show "fill_valid c (settle_event c s e) e'" if "fill_valid c s e" "fill_valid c s e'" for s e e'
    using that settle_event_db(2) [OF that(1)] by (auto simp: fill_valid_def)
qed

text \<open>The cash a bot has paid out for fills, net of what it received.\<close>

definition net_spent :: "string \<Rightarrow> treasury \<Rightarrow> rat" where
  "net_spent bt s = budget_field (\<lambda>b. bb_spent b - bb_returned b) (ty_budgets s) bt"

definition event_cost :: "order_filled \<Rightarrow> rat" where
  "event_cost ev =
     (if ev_side ev = ''buy'' then ev_quantity ev * ev_price ev + ev_commission ev
      else - (ev_quantity ev * ev_price ev - ev_commission ev))"

lemma settle_spent:
  assumes "settle_buy_fill env oid cost (b, R) = (b', R')"
  shows "bb_spent b' = bb_spent b + cost" and "bb_returned b' = bb_returned b" and "bb_bot_id b' = bb_bot_id b"
  using assms
  by (auto simp: settle_buy_fill_def settle_buy_full_fill_def settle_buy_partial_fill_def Let_def
      split: option.splits if_splits prod.splits)

lemma settlement_net:
  assumes "apply_fill_settlement c env ev b s = (None, s')" and "bb_bot_id b = ev_bot_id ev"
    and "dict_get (ty_budgets s) (ev_bot_id ev) = Some b"
  shows "net_spent bt s' = net_spent bt s + (if ev_bot_id ev = bt then event_cost ev else 0)"
proof -
  obtain b' R' where br: "settle_buy_fill env (ev_order_id ev) (ev_quantity ev * ev_price ev + ev_commission ev)
      (b, ty_reservations s) = (b', R')" by fastforce
  show ?thesis
    using assms settle_spent [OF br] br
    by (auto simp: apply_fill_settlement_def Let_def treasury_defs net_spent_def budget_field_def event_cost_def
        split: if_splits)
qed

subsection \<open>Splitting a purchase into fills\<close>

definition terminal_record :: "order_row \<Rightarrow> bool" where
  "terminal_record record \<longleftrightarrow> ot_ordered_qty record > 0 \<and> ot_recorded_filled_qty record \<ge> ot_ordered_qty record"

definition settle_fills ::
  "string \<Rightarrow> (order_row \<times> rat) list \<Rightarrow> bot_budget \<times> reservations \<Rightarrow> bot_budget \<times> reservations" where
  "settle_fills oid fills br = fold (\<lambda>(rec, cost). settle_buy_partial_fill rec oid cost) fills br"

lemma settle_pre_settled:
  assumes "settle_pre c k oid br" and "settled_ok c k br br'"
  shows "settle_pre c k oid br'"
proof -
  have own: "fst x = k" if x: "dict_get (snd br') oid = Some x" for x
  proof -
    obtain y where "dict_get (snd br) oid = Some y" "fst y = fst x"
      using x assms(2) unfolding settled_ok_def by blast
    with assms(1) show ?thesis unfolding settle_pre_def by metis
  qed
  show ?thesis
    unfolding settle_pre_def
  proof (intro conjI allI impI)
    show "reserved_for k (snd br') \<le> bb_reserved (fst br')"
      using assms by (auto simp: settle_pre_def settled_ok_def)
    show "0 \<le> snd x" if "dict_get (snd br') o' = Some x" for o' x
      using that assms(2) unfolding settled_ok_def by blast
  qed (use assms own in \<open>auto simp: settled_ok_def\<close>)
qed

lemma settle_partial_ok:
  assumes pre: "settle_pre c k oid br" and cost: "0 \<le> cost"
  shows "settled_ok c k br (settle_buy_partial_fill record oid cost br)"
proof -
  let ?env = "\<lparr>te_price_resolver = None, te_bot_status = None, te_order_tracker = Some (\<lambda>_. Some record),
    te_registry = None, te_fault = None\<rparr>"
  obtain b R where br: "br = (b, R)" by (cases br)
  have "settle_buy_fill ?env oid cost (b, R) = settle_buy_partial_fill record oid cost (b, R)"
    by (simp add: settle_buy_fill_def)
  with settle_buy_fill_ok [OF pre [unfolded br] cost, of ?env] show ?thesis by (simp add: br)
qed

lemma settle_fills_compose:
  assumes "settle_pre c k oid (b, R)" and "\<forall>(rec, cost)\<in>set fills. \<not> terminal_record rec \<and> 0 \<le> cost"
    and "terminal_record rec0" and "0 \<le> cost"
  shows "settle_buy_partial_fill rec0 oid cost (settle_fills oid fills (b, R)) =
    settle_buy_full_fill oid (sum_list (map snd fills) + cost) (b, R)"
  using assms(1,2)
proof (induction fills arbitrary: b R)
  case Nil
  with assms(3,4) show ?case
    by (simp add: settle_fills_def settle_partial_eq settle_full_eq terminal_record_def)
next
  case (Cons f fills)
  obtain rec x where f: "f = (rec, x)" by (cases f)
  have x: "\<not> terminal_record rec" "0 \<le> x" and rest: "\<forall>(rec, cost)\<in>set fills. \<not> terminal_record rec \<and> 0 \<le> cost"
    using Cons.prems(2) by (auto simp: f)
  obtain b1 R1 where one: "settle_buy_partial_fill rec oid x (b, R) = (b1, R1)" by fastforce
  have pre1: "settle_pre c k oid (b1, R1)"
    using settle_pre_settled [OF Cons.prems(1) settle_partial_ok [OF Cons.prems(1) x(2), of rec]] by (simp add: one)
  let ?r = "remaining_of oid R"
  have eq: "b1 = b\<lparr>bb_reserved := bb_reserved b - min ?r x, bb_spent := bb_spent b + x,
             bb_available := bb_available b - (x - min ?r x)\<rparr>"
    "R1 = (if dict_get R oid = None then R else dict_set oid (k, ?r - min ?r x) R)"
    using one settle_partial_eq [OF Cons.prems(1) x(2), of rec] x(1)
    by (auto simp: terminal_record_def split: if_splits)
  have rem: "remaining_of oid R1 = ?r - min ?r x"
    using x(2) by (auto simp: eq remaining_of_def split: option.splits)
  have pop: "dict_pop oid R1 = dict_pop oid R"
    by (simp add: eq delete_update_same)
  have "settle_buy_partial_fill rec0 oid cost (settle_fills oid fills (b1, R1)) =
      settle_buy_full_fill oid (sum_list (map snd fills) + cost) (b1, R1)"
    by (rule Cons.IH [OF pre1 rest])
  also have "\<dots> = settle_buy_full_fill oid (x + sum_list (map snd fills) + cost) (b, R)"
    unfolding settle_full_eq [OF pre1] settle_full_eq [OF Cons.prems(1)] rem pop
    by (simp add: eq(1))
  finally show ?case by (simp add: settle_fills_def f one)
qed

lemma same_budgets_reload:
  assumes inv: "treasury_inv c s" and inv': "treasury_inv c s'" and db: "db_budgets (ty_db s') = db_budgets (ty_db s)"
  shows "dict_get (ty_budgets s') k = dict_get (ty_budgets s) k"
proof -
  have "dict_get (ty_budgets s') k = Some b \<longleftrightarrow> dict_get (ty_budgets s) k = Some b" for b
    using treasury_invD(8) [OF inv, of k b] treasury_invD(8) [OF inv', of k b] by (simp add: db)
  then show ?thesis by (cases "dict_get (ty_budgets s) k") (metis option.exhaust)+
qed

lemma filled_buy:
  assumes "is_my_event c (ev_account_id ev)" and "dict_get (ty_budgets s) (ev_bot_id ev) = Some b"
    and "te_fault env = None"
    and "\<forall>key. ev_fill_dedup_key ev = Some key \<longrightarrow> dict_get (db_fill_dedup (ty_db s)) key = None"
    and "ev_side ev = ''buy''"
    and "settle_buy_fill env (ev_order_id ev) (ev_quantity ev * ev_price ev + ev_commission ev)
      (b, ty_reservations s) = (b', R')"
  shows "ty_budgets (snd (on_order_filled c env ev s)) = dict_set (bb_bot_id b') b' (ty_budgets s)"
    and "ty_reservations (snd (on_order_filled c env ev s)) = R'"
  using assms
  by (cases "ev_fill_dedup_key ev";
      simp add: on_order_filled_def settle_in_transaction_def apply_fill_settlement_def Let_def treasury_defs)+

lemma settle_touches_id: "settle_buy_fill env oid cost (b, R) = (b', R') \<Longrightarrow> bb_bot_id b' = bb_bot_id b"
  by (rule settle_spent)

subsection \<open>Properties\<close>

text \<open>
  C3. The books balance: whatever happens to the account (allocations, orders, fills, cancellations,
  stopped bots, synchronisations, reloads, restarts, failed settlement transactions), every budget
  satisfies available = allocated - reserved - spent + returned and has reserved at least what its
  orders' reservations add up to, and the unallocated money plus all allocations is the account
  balance.
\<close>

theorem treasury_books_balance:
  assumes "fresh_treasury c s0" and "admissible (treasury_step c) event_ok s0 es"
    and "s = run (treasury_step c) s0 es"
  shows "(\<forall>bt b. get_budget bt s = Some b \<longrightarrow>
       bb_available b = bb_allocated b - bb_reserved b - bb_spent b + bb_returned b
       \<and> reserved_for bt (ty_reservations s) \<le> bb_reserved b)
    \<and> ty_unallocated s + total_of bb_allocated s = af_account_balance (ty_figures s)"
proof -
  have inv: "treasury_inv c s"
    unfolding assms(3) by (rule treasury_machine.run_inv [OF fresh_treasury_inv [OF assms(1)] assms(2)])
  note D = treasury_invD [OF inv]
  show ?thesis
  proof (intro conjI allI impI)
    fix bt b assume "get_budget bt s = Some b"
    then have b: "dict_get (ty_budgets s) bt = Some b" by (simp add: get_budget_def)
    show "bb_available b = bb_allocated b - bb_reserved b - bb_spent b + bb_returned b"
      using D(3) [OF b] by (simp add: budget_ok_def)
    show "reserved_for bt (ty_reservations s) \<le> bb_reserved b"
      using D(5) [of bt] by (simp add: slack_def budget_field_def b)
  qed (simp add: total_of_def D(6))
qed

text \<open>
  No reserved money without an order: as long as the process is not restarted, the reserved part
  of every budget is exactly the sum of the remaining reservations of the bot's orders.
\<close>

theorem reserved_is_reservations:
  assumes "fresh_treasury c s0" and "admissible (treasury_step c) event_ok s0 es"
    and "\<forall>e\<in>set es. \<not> is_reload (snd e)" and "s = run (treasury_step c) s0 es"
    and "get_budget bt s = Some b"
  shows "bb_reserved b = sum_list (dict_values (get_reservations bt s))"
proof -
  have "slack_of bt s0 = 0"
    using assms(1) by (simp add: fresh_treasury_def slack_of_def slack_def budget_field_def reserved_for_def)
  then have "slack_of bt s = 0"
    unfolding assms(4) by (rule slack_run [OF fresh_treasury_inv [OF assms(1)] assms(2,3)])
  with assms(5) show ?thesis
    by (simp add: slack_of_def slack_def budget_field_def get_budget_def sum_get_reservations)
qed

text \<open>
  A restart strands reservations: the reserved part of a budget is reloaded, the reservations
  that explain it are not.  The cancellation of an order placed before the restart then gives
  nothing back, and its purchase is charged to the available money a second time while the reserved
  part stays.
\<close>

theorem restart_strands_reservation:
  assumes inv: "treasury_inv c s" and b: "get_budget k s = Some b"
    and r: "dict_get (ty_reservations s) oid = Some (k, r)" "0 < r"
    and s1: "s1 = restart_treasury c s"
    and fill: "ev_bot_id ev = k" "ev_order_id ev = oid" "ev_side ev = ''buy''" "te_fault env = None"
      "is_my_event c (ev_account_id ev)" "ev_fill_dedup_key ev = None"
      "0 \<le> ev_quantity ev * ev_price ev + ev_commission ev"
    and s2: "s2 = snd (on_order_filled c env ev s1)"
  shows "get_budget k s1 = Some b \<and> r \<le> bb_reserved b
    \<and> on_order_cancelled c (tc_account_id c) k oid s1 = s1
    \<and> (\<exists>b2. get_budget k s2 = Some b2 \<and> bb_reserved b2 = bb_reserved b
         \<and> bb_available b2 = bb_available b - (ev_quantity ev * ev_price ev + ev_commission ev))"
proof -
  note D = treasury_invD [OF inv]
  let ?cost = "ev_quantity ev * ev_price ev + ev_commission ev"
  have inv1: "treasury_inv c s1" unfolding s1 by (rule restart_treasury_inv [OF inv])
  have res1: "ty_reservations s1 = []" and db1: "ty_db s1 = ty_db s"
    by (simp_all add: s1 restart_treasury_def load_rows_def Let_def)
  have b1: "dict_get (ty_budgets s1) k = Some b"
    using same_budgets_reload [OF inv inv1, of k] b db1 by (simp add: get_budget_def)
  have "r \<le> reserved_for k (ty_reservations s)"
    by (rule reservation_le [OF D(2) _ r(1)]) (use D(4) in \<open>auto simp: reservation_ok_def\<close>)
  then have le: "r \<le> bb_reserved b"
    using D(5) [of k] b by (simp add: slack_def budget_field_def get_budget_def)
  have cancel: "on_order_cancelled c (tc_account_id c) k oid s1 = s1"
    by (simp add: on_order_cancelled_def is_my_event_def release_reservation_def res1 b1)
  obtain b2 R2 where set2: "settle_buy_fill env oid ?cost (b, []) = (b2, R2)" by fastforce
  have rem: "remaining_of oid [] = 0" by (simp add: remaining_of_def)
  have pre: "settle_pre c k oid (b, [])"
    using settle_pre_inv [OF inv1 b1, of oid] by (simp add: res1 order_of_bot_def)
  have b2: "bb_reserved b2 = bb_reserved b" "bb_available b2 = bb_available b - ?cost"
    using set2 fill(7)
    by (auto simp: settle_buy_fill_def settle_full_eq [OF pre] settle_partial_eq [OF pre fill(7)] rem
        split: option.splits if_splits)
  have id: "bb_bot_id b2 = k"
    using settle_touches_id [OF set2] treasury_invD(3) [OF inv1 b1] by (simp add: budget_ok_def)
  have "get_budget k s2 = Some b2"
    using filled_buy(1) [of c ev s1 b env b2 R2] fill b1 res1 set2
    by (simp add: get_budget_def s2 id)
  with b1 b2 le cancel show ?thesis by (simp add: get_budget_def)
qed

text \<open>
  The database holds the whole of the budgets at every moment: reloading from it at any point of
  a run gives back every budget, the account balance and the unallocated amount.
\<close>

theorem reload_restores_budgets:
  assumes "fresh_treasury c s0" and "admissible (treasury_step c) event_ok s0 es"
    and "s = run (treasury_step c) s0 es"
  shows "get_budget k (load_from_db c s) = get_budget k s
    \<and> af_account_balance (ty_figures (load_from_db c s)) = af_account_balance (ty_figures s)
    \<and> ty_unallocated (load_from_db c s) = ty_unallocated s"
proof -
  have inv: "treasury_inv c s"
    unfolding assms(3) by (rule treasury_machine.run_inv [OF fresh_treasury_inv [OF assms(1)] assms(2)])
  have inv': "treasury_inv c (load_from_db c s)" by (rule load_from_db_inv [OF inv])
  have "db_budgets (ty_db (load_from_db c s)) = db_budgets (ty_db s)"
    by (simp add: load_from_db_def load_rows_def Let_def)
  note same = same_budgets_reload [OF inv inv' this]
  have bal: "af_account_balance (ty_figures (load_from_db c s)) = af_account_balance (ty_figures s)"
  proof (cases "dict_get (db_state (ty_db s)) (tc_account_id c)")
    case None
    then show ?thesis by (simp add: load_from_db_def load_rows_def Let_def)
  next
    case (Some f)
    with treasury_invD(9) [OF inv Some] show ?thesis by (simp add: load_from_db_def load_rows_def Let_def)
  qed
  have "dict_sum bb_allocated (ty_budgets (load_from_db c s)) = dict_sum bb_allocated (ty_budgets s)"
    by (rule dict_sum_lookup [OF treasury_invD(1) [OF inv'] treasury_invD(1) [OF inv] same])
  then have "ty_unallocated (load_from_db c s) = ty_unallocated s"
    using bal unfolding unallocated_eq [OF inv] unallocated_eq [OF inv'] by simp
  with bal same show ?thesis unfolding get_budget_def by blast
qed

text \<open>
  C27. A failed settlement leaves no trace: if the transaction of a keyed fill fails at any statement,
  the budgets, reservations, figures and every table are what they were.
\<close>

theorem failed_settlement_restores:
  assumes "treasury_inv c s" and "ev_fill_dedup_key ev = Some key"
    and "on_order_filled c env ev s = (Some f, s')"
  shows "same_treasury s s'"
  using assms by (rule fill_rollback)

text \<open>
  Redelivered fills are settled once: processing any sequence of keyed fills, with whatever
  repetitions, equals processing the first delivery of each key that had not been settled before.
\<close>

theorem settlement_exactly_once:
  assumes "\<forall>e\<in>set es. fill_valid c s e"
  shows "run (settle_event c) s es = run (settle_event c) s (firsts fill_key (fill_seen s) es)"
  using assms by (rule settlement.run_firsts)

text \<open>
  Splitting a purchase does not change its account: partial fills followed by the terminal one
  leave the budget and the reservations exactly as one full fill of their total cost would,
  whether the fills stay within the reservation or exceed it.
\<close>

theorem partial_fills_compose:
  assumes "settle_pre c k oid (b, res)"
    and "\<forall>(rec, cost)\<in>set fills. \<not> terminal_record rec \<and> 0 \<le> cost"
    and "terminal_record rec0" and "0 \<le> cost"
  shows "settle_buy_partial_fill rec0 oid cost (settle_fills oid fills (b, res)) =
    settle_buy_full_fill oid (sum_list (map snd fills) + cost) (b, res)"
  using assms by (rule settle_fills_compose)

subsection \<open>The properties on a concrete account\<close>

text \<open>A small account: 1000 of which 400 are allocated to one bot, with one open purchase.\<close>

definition sample_config :: treasury_config where
  "sample_config = \<lparr>tc_account_id = ''acct-1'', tc_buy_commission_rate = 0,
     tc_market_order_reserve_buffer_rate = 1/10, tc_broker_type = ''kis-domestic'', tc_trading_mode = VIRTUAL\<rparr>"

definition sample_registry :: readiness_registry where
  "sample_registry = mark_ready ''acct-1'' TREASURY_SYNC []"

definition sample_env :: treasury_env where
  "sample_env = \<lparr>te_price_resolver = None, te_bot_status = Some (\<lambda>_. ''stopped''), te_order_tracker = None,
     te_registry = Some (reader_of sample_registry), te_fault = None\<rparr>"

definition sample_validated :: "string \<Rightarrow> rat \<Rightarrow> order_validated" where
  "sample_validated oid quantity =
     \<lparr>vd_account_id = ''acct-1'', vd_order_id = oid, vd_bot_id = ''bot-1'', vd_strategy_id = ''s'',
      vd_symbol = ''005930'', vd_side = ''buy'', vd_quantity = quantity, vd_price = Some 10,
      vd_order_type = ''limit'', vd_stop_price = None, vd_reason = '''', vd_exchange = ''KRX''\<rparr>"

definition new_treasury :: treasury where
  "new_treasury = \<lparr>ty_budgets = [], ty_unallocated = 0, ty_reservations = [], ty_figures = no_figures,
     ty_db = \<lparr>db_budgets = [], db_state = [], db_log = [], db_fill_dedup = [], db_snapshots = []\<rparr>\<rparr>"

definition sample_setup :: "(treasury_env \<times> treasury_event) list" where
  "sample_setup = [(sample_env, Ev_set_balance (Fin 1000)), (sample_env, Ev_allocate ''bot-1'' (Fin 400)),
     (sample_env, Ev_allocate ''bot-2'' (Fin 100)), (sample_env, Ev_validated (sample_validated ''o1'' 10))]"

definition sample_treasury :: treasury where
  "sample_treasury = run (treasury_step sample_config) new_treasury sample_setup"

lemma new_treasury_fresh: "fresh_treasury c new_treasury"
  by (simp add: fresh_treasury_def new_treasury_def no_figures_def)

lemma sample_setup_admissible: "admissible (treasury_step sample_config) event_ok new_treasury sample_setup"
  by code_simp

lemma sample_treasury_inv: "treasury_inv sample_config sample_treasury"
  unfolding sample_treasury_def
  by (rule treasury_machine.run_inv [OF fresh_treasury_inv [OF new_treasury_fresh] sample_setup_admissible])

definition sample_budget :: bot_budget where
  "sample_budget = \<lparr>bb_bot_id = ''bot-1'', bb_account_id = ''acct-1'', bb_allocated = 400, bb_available = 300,
     bb_reserved = 100, bb_spent = 0, bb_returned = 0\<rparr>"

lemma sample_treasury_facts:
  "get_budget ''bot-1'' sample_treasury = Some sample_budget"
  "ty_reservations sample_treasury = [(''o1'', ''bot-1'', 100)]"
  "ty_unallocated sample_treasury = 500"
  "db_fill_dedup (ty_db sample_treasury) = []"
  by code_simp+

theorem treasury_books_balance_witness:
  "ty_unallocated sample_treasury + total_of bb_allocated sample_treasury = 1000
   \<and> reserved_for ''bot-1'' (ty_reservations sample_treasury) \<le> 100"
proof -
  note t = treasury_books_balance [OF new_treasury_fresh sample_setup_admissible sample_treasury_def]
  have "af_account_balance (ty_figures sample_treasury) = 1000" by code_simp
  with t sample_treasury_facts(1) show ?thesis by (fastforce simp: sample_budget_def)
qed

theorem reserved_is_reservations_witness:
  "bb_reserved sample_budget = sum_list (dict_values (get_reservations ''bot-1'' sample_treasury))
   \<and> bb_reserved sample_budget = 100"
proof -
  have "\<forall>e\<in>set sample_setup. \<not> is_reload (snd e)" by code_simp
  from reserved_is_reservations [OF new_treasury_fresh sample_setup_admissible this sample_treasury_def
      sample_treasury_facts(1)]
  show ?thesis by (simp add: sample_budget_def)
qed

definition sample_filled :: "dedup_key option \<Rightarrow> rat \<Rightarrow> order_filled" where
  "sample_filled key quantity =
     \<lparr>ev_account_id = ''acct-1'', ev_order_id = ''o1'', ev_broker_order_id = ''Bo1'', ev_bot_id = ''bot-1'',
      ev_strategy_id = ''s'', ev_symbol = ''005930'', ev_side = ''buy'', ev_quantity = quantity, ev_price = 10,
      ev_commission = 0, ev_order_type = ''limit'', ev_exchange = ''KRX'', ev_fill_dedup_key = key\<rparr>"

theorem restart_strands_reservation_witness:
  "get_budget ''bot-1'' (restart_treasury sample_config sample_treasury) = Some sample_budget
   \<and> on_order_cancelled sample_config ''acct-1'' ''bot-1'' ''o1'' (restart_treasury sample_config sample_treasury)
      = restart_treasury sample_config sample_treasury"
proof -
  have r: "dict_get (ty_reservations sample_treasury) ''o1'' = Some (''bot-1'', 100)" "0 < (100::rat)"
    by (simp_all add: sample_treasury_facts(2))
  have f: "ev_bot_id (sample_filled None 10) = ''bot-1''" "ev_order_id (sample_filled None 10) = ''o1''"
    "ev_side (sample_filled None 10) = ''buy''" "te_fault sample_env = None"
    "is_my_event sample_config (ev_account_id (sample_filled None 10))"
    "ev_fill_dedup_key (sample_filled None 10) = None"
    "0 \<le> ev_quantity (sample_filled None 10) * ev_price (sample_filled None 10) + ev_commission (sample_filled None 10)"
    by (simp_all add: sample_filled_def sample_env_def is_my_event_def sample_config_def)
  have a: "tc_account_id sample_config = ''acct-1''" by (simp add: sample_config_def)
  show ?thesis
    using restart_strands_reservation [OF sample_treasury_inv sample_treasury_facts(1) r refl f refl]
    unfolding a by blast
qed

theorem reload_restores_budgets_witness:
  "get_budget ''bot-1'' (load_from_db sample_config sample_treasury) = Some sample_budget
   \<and> ty_unallocated (load_from_db sample_config sample_treasury) = 500"
  using reload_restores_budgets [OF new_treasury_fresh sample_setup_admissible sample_treasury_def, of "''bot-1''"]
  by (simp add: sample_treasury_facts)

theorem failed_settlement_restores_witness:
  "same_treasury sample_treasury
     (snd (on_order_filled sample_config (sample_env\<lparr>te_fault := Some Ft_commit\<rparr>)
        (sample_filled (Some (''o1'', 10)) 10) sample_treasury))"
proof -
  let ?r = "on_order_filled sample_config (sample_env\<lparr>te_fault := Some Ft_commit\<rparr>)
        (sample_filled (Some (''o1'', 10)) 10) sample_treasury"
  have "fst ?r = Some Ft_commit" by code_simp
  then have r: "?r = (Some Ft_commit, snd ?r)" by (simp add: prod_eq_iff)
  have "ev_fill_dedup_key (sample_filled (Some (''o1'', 10)) 10) = Some (''o1'', 10)"
    by (simp add: sample_filled_def)
  from failed_settlement_restores [OF sample_treasury_inv this r] show ?thesis .
qed

definition sample_stream :: "(treasury_env \<times> order_filled) list" where
  "sample_stream = [(sample_env, sample_filled (Some (''o1'', 4)) 4), (sample_env, sample_filled (Some (''o1'', 4)) 4)]"

theorem settlement_exactly_once_witness:
  "run (settle_event sample_config) sample_treasury sample_stream =
     settle_event sample_config sample_treasury (sample_env, sample_filled (Some (''o1'', 4)) 4)"
proof -
  have v: "\<forall>e\<in>set sample_stream. fill_valid sample_config sample_treasury e"
    using sample_treasury_facts(1)
    by (simp add: sample_stream_def fill_valid_def sample_filled_def sample_env_def is_my_event_def
        sample_config_def fill_key_def get_budget_def)
  have k: "fill_key (sample_env, sample_filled (Some (''o1'', 4)) 4) = Some (''o1'', 4)"
    by (simp add: fill_key_def sample_filled_def)
  have "firsts fill_key (fill_seen sample_treasury) sample_stream =
      [(sample_env, sample_filled (Some (''o1'', 4)) 4)]"
    by (simp add: sample_stream_def k fill_seen_def sample_treasury_facts)
  then show ?thesis using settlement_exactly_once [OF v] by simp
qed

theorem partial_fills_compose_witness:
  "settle_buy_partial_fill ((sample_order ''o1'' 10)\<lparr>ot_recorded_filled_qty := 10\<rparr>) ''o1'' 60
     (settle_fills ''o1'' [((sample_order ''o1'' 10)\<lparr>ot_recorded_filled_qty := 4\<rparr>, 40)]
        (sample_budget, [(''o1'', ''bot-1'', 100)]))
   = settle_buy_full_fill ''o1'' 100 (sample_budget, [(''o1'', ''bot-1'', 100)])"
proof -
  have pre: "settle_pre sample_config ''bot-1'' ''o1'' (sample_budget, [(''o1'', ''bot-1'', 100)])"
    by (auto simp: settle_pre_def budget_ok_def sample_budget_def sample_config_def reserved_for_def split: if_splits)
  have f: "\<forall>(rec, cost)\<in>set [((sample_order ''o1'' 10)\<lparr>ot_recorded_filled_qty := 4\<rparr>, 40 :: rat)].
      \<not> terminal_record rec \<and> 0 \<le> cost"
    by (simp add: terminal_record_def sample_order_def)
  have t: "terminal_record ((sample_order ''o1'' 10)\<lparr>ot_recorded_filled_qty := 10\<rparr>)"
    by (simp add: terminal_record_def sample_order_def)
  show ?thesis using partial_fills_compose [OF pre f t, of 60] by simp
qed

end
