(* ===== verification/Treasury_Behaviour.thy ===== *)
theory Treasury_Behaviour
  imports Treasury_Properties
begin

text \<open>
  What single operations of the treasury do: when an order is approved and what is then reserved,
  the outcome every order gets, cancellation after a partial fill, allocation with its error
  branches, a stopped bot, a failing reservation, and snapshots.
\<close>

fun is_terminal :: "treasury_out \<Rightarrow> bool" where
  "is_terminal (Notify _) = False"
| "is_terminal _ = True"

fun is_approval :: "treasury_out \<Rightarrow> bool" where
  "is_approval (Order_approved _ _ _) = True"
| "is_approval _ = False"

lemma reserve_for_order_True:
  assumes "reserve_for_order env k oid amount s = (Inr True, s')"
  obtains b where "dict_get (ty_budgets s) k = Some b" "amount \<le> bb_available b" "0 < amount"
    "s' = save_budget (b\<lparr>bb_available := bb_available b - amount, bb_reserved := bb_reserved b + amount\<rparr>)
         ((put_budget (b\<lparr>bb_available := bb_available b - amount, bb_reserved := bb_reserved b + amount\<rparr>) s)
            \<lparr>ty_reservations := dict_set oid (k, amount) (ty_reservations s)\<rparr>)"
  using assms by (auto simp: reserve_for_order_def Let_def split: if_splits option.splits)

lemma reserve_and_approve_cases:
  assumes "reserve_and_approve c env ev amount s = (outs, s')"
  obtains (approved) "reserve_for_order env (vd_bot_id ev) (vd_order_id ev) amount s = (Inr True, s')"
      "outs = [approve c ev amount]"
  | (rejected) reason where "outs = [reject c ev reason]"
  using assms by (auto simp: reserve_and_approve_def split: sum.splits if_splits prod.splits)

text \<open>The amount a buy order has to reserve; \<^theory_text>\<open>None\<close> for the stop orders, which reserve nothing yet.\<close>

definition required_reserve :: "treasury_config \<Rightarrow> treasury_env \<Rightarrow> order_validated \<Rightarrow> rat option" where
  "required_reserve c env ev =
     (if vd_order_type ev \<in> set [''stop'', ''stop_limit''] then None
      else if vd_order_type ev = ''market'' \<and> vd_price ev = None
      then (case te_price_resolver env of
              Some resolver \<Rightarrow>
                (case resolver (vd_symbol ev) of
                   Quote q \<Rightarrow> Some (market_buy_reserve c (vd_quantity ev) (fval q))
                 | _ \<Rightarrow> None)
            | None \<Rightarrow> None)
      else Some (limit_buy_reserve c ev))"

lemma reject_not_approval [simp]: "\<not> is_approval (reject c ev r)" "is_terminal (reject c ev r)"
  by (simp_all add: reject_def)

lemma approve_approval [simp]: "is_approval (approve c ev x)" "is_terminal (approve c ev x)"
  by (simp_all add: approve_def)

lemma buy_approval:
  assumes "on_order_validated c env ev s = (outs, s')" and "out \<in> set outs" and "is_approval out"
    and "vd_side ev = ''buy''" and "vd_order_type ev \<notin> set [''stop'', ''stop_limit'']"
  obtains amount where "required_reserve c env ev = Some amount" "out = approve c ev amount"
    "reserve_for_order env (vd_bot_id ev) (vd_order_id ev) amount s = (Inr True, s')"
proof -
  have "\<exists>amount. required_reserve c env ev = Some amount \<and> reserve_and_approve c env ev amount s = (outs, s')"
    using assms
    by (auto simp: on_order_validated_def reject_not_ready_def validated_market_buy_def validated_other_def
        required_reserve_def Let_def split: if_splits option.splits quote_reply.splits)
  then obtain amount where a: "required_reserve c env ev = Some amount"
    "reserve_and_approve c env ev amount s = (outs, s')" by blast
  from a(2) show thesis
    by (cases rule: reserve_and_approve_cases) (use assms(2,3) a(1) in \<open>auto intro: that\<close>)
qed

lemma release_one:
  assumes "dict_get (ty_budgets s) k = Some b" and "bb_bot_id b = k"
    and "dict_get (ty_reservations s) oid = Some (k, r)" and "0 \<le> r" and "r \<le> bb_reserved b"
  shows "get_budget k (release_reservation k oid s) =
      Some (b\<lparr>bb_reserved := bb_reserved b - r, bb_available := bb_available b + r\<rparr>)"
    and "dict_get (ty_reservations (release_reservation k oid s)) oid = None"
proof -
  show "get_budget k (release_reservation k oid s) =
      Some (b\<lparr>bb_reserved := bb_reserved b - r, bb_available := bb_available b + r\<rparr>)"
    using assms by (simp add: release_reservation_def get_budget_def treasury_defs Let_def max_def)
  show "dict_get (ty_reservations (release_reservation k oid s)) oid = None"
    using assms by (simp add: release_reservation_def treasury_defs Let_def)
qed

lemma release_none:
  "dict_get (ty_reservations s) oid = None \<Longrightarrow> release_reservation k oid s = s"
  by (simp add: release_reservation_def Let_def dict_pop_absent split: option.splits)

subsection \<open>Properties\<close>

text \<open>
  C5. What an approval reserves.  When the treasury approves a market or limit buy, the required
  amount (quantity times price or quote, buffer and commission included) was available to the bot,
  is positive, has been moved from available to reserved, and is recorded as the order's
  reservation; the approval carries that amount.  A sale and a stop or stop-limit buy, which becomes
  a new request when it triggers, is approved with amount zero and changes nothing.  The approval
  always carries the order's own price.
\<close>

theorem approved_buy_is_funded:
  assumes "on_order_validated c env ev s = (outs, s')" and "Order_approved o' sp amount \<in> set outs"
    and "treasury_inv c s"
  shows "oo_price o' = vd_price ev
    \<and> (if vd_side ev = ''buy'' \<and> vd_order_type ev \<notin> set [''stop'', ''stop_limit'']
       then required_reserve c env ev = Some amount \<and> 0 < amount
         \<and> dict_get (ty_reservations s') (vd_order_id ev) = Some (vd_bot_id ev, amount)
         \<and> (\<exists>b. get_budget (vd_bot_id ev) s = Some b \<and> amount \<le> bb_available b
              \<and> get_budget (vd_bot_id ev) s' =
                  Some (b\<lparr>bb_available := bb_available b - amount, bb_reserved := bb_reserved b + amount\<rparr>))
       else amount = 0 \<and> s' = s)"
proof (cases "vd_side ev = ''buy'' \<and> vd_order_type ev \<notin> set [''stop'', ''stop_limit'']")
  case True
  then have buy: "vd_side ev = ''buy''" "vd_order_type ev \<notin> set [''stop'', ''stop_limit'']" by blast+
  obtain a where a: "required_reserve c env ev = Some a" "Order_approved o' sp amount = approve c ev a"
    "reserve_for_order env (vd_bot_id ev) (vd_order_id ev) a s = (Inr True, s')"
    by (rule buy_approval [OF assms(1,2) _ buy]) simp
  from a(3) obtain b where b: "dict_get (ty_budgets s) (vd_bot_id ev) = Some b" "a \<le> bb_available b" "0 < a"
    "s' = save_budget (b\<lparr>bb_available := bb_available b - a, bb_reserved := bb_reserved b + a\<rparr>)
         ((put_budget (b\<lparr>bb_available := bb_available b - a, bb_reserved := bb_reserved b + a\<rparr>) s)
            \<lparr>ty_reservations := dict_set (vd_order_id ev) (vd_bot_id ev, a) (ty_reservations s)\<rparr>)"
    by (rule reserve_for_order_True)
  have "bb_bot_id b = vd_bot_id ev" using treasury_invD(3) [OF assms(3) b(1)] by (simp add: budget_ok_def)
  with True a b show ?thesis
    by (simp add: approve_def outcome_of_def treasury_defs get_budget_def)
next
  case False
  then have "outs = [approve c ev 0] \<and> s' = s"
    using assms(1,2)
    by (auto simp: on_order_validated_def reject_not_ready_def reject_def validated_other_def Let_def split: if_splits)
  with assms(2) show ?thesis unfolding if_not_P [OF False] by (auto simp: approve_def outcome_of_def)
qed

text \<open>
  Every validated order of the account ends in exactly one outcome, an approval or a rejection;
  orders of other accounts get none and change nothing.
\<close>

theorem one_outcome_per_order:
  assumes "on_order_validated c env ev s = (outs, s')"
  shows "if is_my_event c (vd_account_id ev) then length (filter is_terminal outs) = 1
    else outs = [] \<and> s' = s"
proof -
  have one: "length (filter is_terminal (fst (reserve_and_approve c env ev a s))) = 1" for a
  proof -
    obtain o' t where r: "reserve_and_approve c env ev a s = (o', t)" by fastforce
    from r show ?thesis by (cases rule: reserve_and_approve_cases) (simp_all add: r)
  qed
  have market: "length (filter is_terminal (fst (validated_market_buy c env ev s))) = 1"
    using one by (simp add: validated_market_buy_def Let_def split: option.split quote_reply.split)
  have other: "length (filter is_terminal (fst (validated_other c env ev s))) = 1"
    using one by (simp add: validated_other_def Let_def)
  show ?thesis
    using assms market other
    by (auto simp: on_order_validated_def reject_not_ready_def Let_def split: if_splits)
qed

text \<open>
  The readiness gate fails closed in front of the reservation: an order, buy or sell, stop or not,
  is approved only if a registry is attached and answers that the account is ready; in every other
  case (no registry, a lookup that raises, a missing flag) the order is rejected with one
  notification and nothing is reserved.
\<close>

theorem approval_needs_readiness:
  assumes "on_order_validated c env ev s = (outs, s')" and "is_my_event c (vd_account_id ev)"
  shows "(\<exists>r. te_registry env = Some r
       \<and> rr_active_trading_ready r (tc_account_id c) (tc_broker_type c) (tc_trading_mode c) = Some True)
    \<or> s' = s \<and> outs = reject_not_ready c env ev \<and> (\<forall>out\<in>set outs. \<not> is_approval out)"
  using assms
  by (auto simp: on_order_validated_def active_trading_blocked_def reject_not_ready_def Let_def
      split: option.splits if_splits)

text \<open>
  Cancelling after a partial fill gives back exactly what the fill left: of a reservation \<open>r\<close>, a
  partial fill of cost \<open>x\<close> followed by the cancellation leaves the budget with \<open>r\<close> less reserved,
  \<open>x\<close> more spent and \<open>r - x\<close> more available, and no reservation, also when the fill cost more
  than was reserved.
\<close>

theorem cancel_after_partial_fill:
  assumes inv: "treasury_inv c s" and b: "get_budget k s = Some b"
    and r: "dict_get (ty_reservations s) oid = Some (k, r)"
    and ev: "ev_bot_id ev = k" "ev_order_id ev = oid" "ev_side ev = ''buy''"
      "is_my_event c (ev_account_id ev)" "te_fault env = None"
      "\<forall>key. ev_fill_dedup_key ev = Some key \<longrightarrow> dict_get (db_fill_dedup (ty_db s)) key = None"
    and tracker: "te_order_tracker env = Some get" "get oid = Some rec" "\<not> terminal_record rec"
    and x: "x = ev_quantity ev * ev_price ev + ev_commission ev" "0 \<le> x"
    and s': "s' = on_order_cancelled c (tc_account_id c) k oid (snd (on_order_filled c env ev s))"
  shows "get_budget k s' = Some (b\<lparr>bb_reserved := bb_reserved b - r, bb_spent := bb_spent b + x,
      bb_available := bb_available b + (r - x)\<rparr>)
    \<and> dict_get (ty_reservations s') oid = None"
proof -
  have get: "dict_get (ty_budgets s) k = Some b" using b by (simp add: get_budget_def)
  have pre: "settle_pre c k oid (b, ty_reservations s)"
    by (rule settle_pre_inv [OF inv get]) (simp add: order_of_bot_def r)
  note F = settle_pre_facts [OF pre]
  have rem: "remaining_of oid (ty_reservations s) = r" by (simp add: remaining_of_def r)
  let ?b = "b\<lparr>bb_reserved := bb_reserved b - min r x, bb_spent := bb_spent b + x,
    bb_available := bb_available b - (x - min r x)\<rparr>"
  let ?R = "dict_set oid (k, r - min r x) (ty_reservations s)"
  let ?s1 = "snd (on_order_filled c env ev s)"
  have settle: "settle_buy_fill env (ev_order_id ev) (ev_quantity ev * ev_price ev + ev_commission ev)
      (b, ty_reservations s) = (?b, ?R)"
  proof -
    have nt: "\<not> (ot_ordered_qty rec > 0 \<and> ot_recorded_filled_qty rec \<ge> ot_ordered_qty rec)"
      using tracker(3) by (simp only: terminal_record_def simp_thms)
    show ?thesis
      unfolding settle_buy_fill_def ev(2) x(1) [symmetric]
      using settle_partial_eq [OF pre x(2), of rec] by (simp only: tracker(1,2) option.case nt rem r if_False) simp
  qed
  have id: "bb_bot_id b = k" using treasury_invD(3) [OF inv get] by (simp add: budget_ok_def)
  have get': "dict_get (ty_budgets s) (ev_bot_id ev) = Some b" using get ev(1) by simp
  note fb = filled_buy [OF ev(4) get' ev(5,6,3) settle]
  have get1: "dict_get (ty_budgets ?s1) k = Some ?b" using fb(1) id by simp
  have res1: "dict_get (ty_reservations ?s1) oid = Some (k, r - min r x)" using fb(2) by simp
  have bounds: "0 \<le> r - min r x" "r - min r x \<le> bb_reserved ?b" using F(3) rem by auto
  note rel = release_one [OF get1 _ res1 bounds]
  have "s' = release_reservation k oid ?s1" by (simp add: s' on_order_cancelled_def is_my_event_def)
  then show ?thesis using rel id by simp
qed

text \<open>
  Stopping a bot gives back all it has reserved: no reservation of the bot remains, its budget has
  the sum of the remaining reservations moved from reserved to available, and other bots keep
  their reservations and budgets.
\<close>

theorem bot_stop_returns_reservations:
  assumes inv: "treasury_inv c s" and b: "get_budget k s = Some b" and bt: "bt \<noteq> k"
    and s': "s' = on_bot_stopped c (tc_account_id c) k s"
  shows "get_reservations k s' = []
    \<and> get_budget k s' = Some (b\<lparr>bb_reserved := bb_reserved b - reserved_for k (ty_reservations s),
        bb_available := bb_available b + reserved_for k (ty_reservations s)\<rparr>)
    \<and> get_reservations bt s' = get_reservations bt s \<and> get_budget bt s' = get_budget bt s"
proof -
  note D = treasury_invD [OF inv]
  have get: "dict_get (ty_budgets s) k = Some b" using b by (simp add: get_budget_def)
  have id: "bb_bot_id b = k" using D(3) [OF get] by (simp add: budget_ok_def)
  have le: "reserved_for k (ty_reservations s) \<le> bb_reserved b"
    using D(5) [of k] by (simp add: slack_def budget_field_def get)
  have other: "get_reservations bt (t\<lparr>ty_reservations := filter (\<lambda>(_, bid, _). bid \<noteq> k) res\<rparr>) =
      get_reservations bt (t\<lparr>ty_reservations := res\<rparr>)" for t res
    using bt by (induction res) (auto simp: get_reservations_def)
  have none: "get_reservations k (t\<lparr>ty_reservations := filter (\<lambda>(_, bid, _). bid \<noteq> k) res\<rparr>) = []" for t res
    by (auto simp: get_reservations_def filter_empty_conv)
  show ?thesis
  proof (cases "get_reservations k s = []")
    case True
    then have "reserved_for k (ty_reservations s) = 0" using sum_get_reservations [of k s] by simp
    with True b show ?thesis by (simp add: s' on_bot_stopped_def is_my_event_def)
  next
    case False
    let ?t = "reserved_for k (ty_reservations s)"
    let ?b = "b\<lparr>bb_reserved := bb_reserved b - ?t, bb_available := bb_available b + ?t\<rparr>"
    have e: "s' = log_transaction c k Tx_bot_stopped_release ?t (save_budget ?b
        (put_budget ?b (s\<lparr>ty_reservations := filter (\<lambda>(_, bid, _). bid \<noteq> k) (ty_reservations s)\<rparr>)))"
      using False le
      by (simp add: s' on_bot_stopped_def is_my_event_def Let_def pop_pending [OF D(2)] sum_get_reservations
          get max_def)
    have res: "ty_reservations s' = filter (\<lambda>(_, bid, _). bid \<noteq> k) (ty_reservations s)"
      by (simp add: e treasury_defs)
    have gr: "get_reservations q s' = get_reservations q (s\<lparr>ty_reservations := ty_reservations s'\<rparr>)" for q
      by (simp add: get_reservations_def)
    have "get_reservations k s' = []" "get_reservations bt s' = get_reservations bt s"
      unfolding gr res by (simp_all add: none other)
    then show ?thesis using bt id by (simp add: e treasury_defs get_budget_def)
  qed
qed

lemma fle_Fin_0: "isfinite x \<Longrightarrow> fle x (Fin 0) \<longleftrightarrow> fval x \<le> 0"
  by (cases x) auto

definition bot_stopped :: "treasury_env \<Rightarrow> string \<Rightarrow> bool" where
  "bot_stopped env k \<longleftrightarrow> check_bot_stopped env k = None"

lemma allocate_effect:
  assumes inv: "treasury_inv c s" and a: "allocate c env k x s = Inr s'"
  shows "ty_unallocated s' = ty_unallocated s - fval x"
    and "budget_field bb_allocated (ty_budgets s') k = budget_field bb_allocated (ty_budgets s) k + fval x"
    and "budget_field bb_available (ty_budgets s') k = budget_field bb_available (ty_budgets s) k + fval x"
    and "bt \<noteq> k \<Longrightarrow> get_budget bt s' = get_budget bt s"
proof -
  define b0 where "b0 = (case dict_get (ty_budgets s) k of None \<Rightarrow> new_budget k (tc_account_id c) | Some b \<Rightarrow> b)"
  have b0: "bb_bot_id b0 = k" "bb_allocated b0 = budget_field bb_allocated (ty_budgets s) k"
    "bb_available b0 = budget_field bb_available (ty_budgets s) k"
    using treasury_invD(3) [OF inv, of k]
    by (auto simp: b0_def budget_field_def budget_ok_def new_budget_def split: option.splits)
  let ?b = "b0\<lparr>bb_allocated := bb_allocated b0 + fval x, bb_available := bb_available b0 + fval x\<rparr>"
  have s': "s' = log_transaction c k Tx_allocate (fval x) (save_state c (save_budget ?b
      ((put_budget ?b s)\<lparr>ty_unallocated := ty_unallocated s - fval x\<rparr>)))"
    using a by (simp add: allocate_def Let_def b0_def split: option.splits if_splits)
  have get: "dict_get (ty_budgets s') q = (if q = k then Some ?b else dict_get (ty_budgets s) q)" for q
    by (simp add: s' treasury_defs b0(1))
  show "ty_unallocated s' = ty_unallocated s - fval x" by (simp add: s' treasury_defs)
  show "budget_field bb_allocated (ty_budgets s') k = budget_field bb_allocated (ty_budgets s) k + fval x"
    "budget_field bb_available (ty_budgets s') k = budget_field bb_available (ty_budgets s) k + fval x"
    using b0 by (simp_all add: budget_field_def [of _ "ty_budgets s'"] get)
  show "bt \<noteq> k \<Longrightarrow> get_budget bt s' = get_budget bt s" by (simp add: get_budget_def get)
qed

lemma deallocate_effect:
  assumes inv: "treasury_inv c s" and a: "deallocate c env k x s = Inr s'"
  shows "ty_unallocated s' = ty_unallocated s + fval x"
    and "budget_field bb_allocated (ty_budgets s') k = budget_field bb_allocated (ty_budgets s) k - fval x"
    and "budget_field bb_available (ty_budgets s') k = budget_field bb_available (ty_budgets s) k - fval x"
    and "bt \<noteq> k \<Longrightarrow> get_budget bt s' = get_budget bt s"
proof -
  obtain b where get0: "dict_get (ty_budgets s) k = Some b"
    using a by (auto simp: deallocate_def Let_def split: option.splits if_splits)
  have id: "bb_bot_id b = k" using treasury_invD(3) [OF inv get0] by (simp add: budget_ok_def)
  let ?b = "b\<lparr>bb_allocated := bb_allocated b - fval x, bb_available := bb_available b - fval x\<rparr>"
  have s': "s' = log_transaction c k Tx_deallocate (fval x) (save_state c (save_budget ?b
      ((put_budget ?b s)\<lparr>ty_unallocated := ty_unallocated s + fval x\<rparr>)))"
    using a get0 by (simp add: deallocate_def Let_def split: option.splits if_splits)
  have get: "dict_get (ty_budgets s') q = (if q = k then Some ?b else dict_get (ty_budgets s) q)" for q
    by (simp add: s' treasury_defs id)
  show "ty_unallocated s' = ty_unallocated s + fval x" by (simp add: s' treasury_defs)
  show "budget_field bb_allocated (ty_budgets s') k = budget_field bb_allocated (ty_budgets s) k - fval x"
    "budget_field bb_available (ty_budgets s') k = budget_field bb_available (ty_budgets s) k - fval x"
    by (simp_all add: budget_field_def get get0)
  show "bt \<noteq> k \<Longrightarrow> get_budget bt s' = get_budget bt s" by (simp add: get_budget_def get)
qed

text \<open>
  Allocation is total and exact: it succeeds exactly for a stopped bot and a finite positive
  amount the unallocated money covers; then that amount moves from unallocated to the bot's
  allocated and available money and no other budget changes.  A rejection is the first failing
  check: bot not stopped, invalid amount (NaN and infinities included), insufficient money.
\<close>

theorem allocate_exact:
  assumes "treasury_inv c s"
  shows "case allocate c env k x s of
      Inl e \<Rightarrow>
        (if \<not> bot_stopped env k then check_bot_stopped env k = Some e
         else if \<not> isfinite x \<or> fval x \<le> 0 then e = Invalid_amount x
         else ty_unallocated s < fval x \<and> e = Insufficient_unallocated k (fval x) (ty_unallocated s))
    | Inr s' \<Rightarrow> bot_stopped env k \<and> isfinite x \<and> 0 < fval x \<and> fval x \<le> ty_unallocated s
        \<and> ty_unallocated s' = ty_unallocated s - fval x
        \<and> budget_field bb_allocated (ty_budgets s') k = budget_field bb_allocated (ty_budgets s) k + fval x
        \<and> budget_field bb_available (ty_budgets s') k = budget_field bb_available (ty_budgets s) k + fval x
        \<and> (\<forall>bt. bt \<noteq> k \<longrightarrow> get_budget bt s' = get_budget bt s)"
proof (cases "allocate c env k x s")
  case (Inl e)
  then show ?thesis
    by (cases "isfinite x")
      (auto simp: allocate_def bot_stopped_def fle_Fin_0 Let_def split: option.splits if_splits)
next
  case (Inr s')
  then have "bot_stopped env k" "isfinite x" "0 < fval x" "fval x \<le> ty_unallocated s"
    by (auto simp: allocate_def bot_stopped_def fle_Fin_0 Let_def split: option.splits if_splits)
  with allocate_effect [OF assms Inr] Inr show ?thesis by auto
qed

text \<open>
  Changing a budget reaches its target or nothing: if \<open>update_budget\<close> returns, the bot's allocated
  money is the target and the difference has moved to or from the unallocated money; a finite
  target that needs no change always returns.
\<close>

theorem update_budget_reaches_target:
  assumes inv: "treasury_inv c s" and u: "update_budget c env k target s = Inr s'"
  shows "isfinite target \<and> 0 \<le> fval target
    \<and> budget_field bb_allocated (ty_budgets s') k = fval target
    \<and> ty_unallocated s' = ty_unallocated s + budget_field bb_allocated (ty_budgets s) k - fval target"
proof -
  let ?cur = "budget_field bb_allocated (ty_budgets s) k"
  have cur: "(case dict_get (ty_budgets s) k of None \<Rightarrow> 0 | Some b \<Rightarrow> bb_allocated b) = ?cur"
    by (simp add: budget_field_def)
  have fin: "isfinite target"
  proof (cases target)
    case PInf
    with u show ?thesis by (simp add: update_budget_def Let_def)
  next
    case NaN
    with u show ?thesis
      by (auto simp: update_budget_def Let_def deallocate_def split: option.splits)
  qed (use u in \<open>simp_all add: update_budget_def\<close>)
  then obtain t where t: "target = Fin t" by (auto simp: isfinite_iff)
  have nn: "0 \<le> t" using u by (auto simp: update_budget_def t split: if_splits)
  consider "t = ?cur" "s' = s" | "?cur < t" "allocate c env k (Fin (t - ?cur)) s = Inr s'"
    | "t < ?cur" "deallocate c env k (Fin (?cur - t)) s = Inr s'"
    using u by (auto simp: update_budget_def t cur Let_def split: if_splits sum.splits)
  then show ?thesis
  proof cases
    case 1
    with t nn show ?thesis by simp
  next
    case 2
    with allocate_effect(1,2) [OF inv 2(2)] t nn show ?thesis by simp
  next
    case 3
    with deallocate_effect(1,2) [OF inv 3(2)] t nn show ?thesis by simp
  qed
qed

text \<open>
  A running bot is reported as short of funds: changing the budget of a bot that is not stopped
  to another finite amount always raises \<open>InsufficientFundsError\<close>; the \<open>BotNotStoppedError\<close> its
  contract announces never comes out.
\<close>

theorem update_budget_hides_running_bot:
  assumes "check_bot_stopped env k = Some (Bot_not_stopped k status)"
    and "target = Fin t" and "0 \<le> t" and "t \<noteq> budget_field bb_allocated (ty_budgets s) k"
  shows "update_budget c env k target s = Inl Insufficient_funds"
  using assms
  by (auto simp: update_budget_def allocate_def deallocate_def budget_field_def Let_def split: option.splits)

text \<open>
  A reservation whose database write fails is leaked: the order is rejected, yet the money stays
  reserved in memory under the rejected order, while the database still shows the old budget.
\<close>

theorem failed_reserve_leaks:
  assumes inv: "treasury_inv c s" and b: "get_budget k s = Some b" and amount: "0 < amount" "amount \<le> bb_available b"
    and fault: "te_fault env = Some Ft_save_budget"
    and ev: "vd_bot_id ev = k"
    and r: "reserve_and_approve c env ev amount s = (outs, s')"
  shows "outs = [reject c ev (Reserve_failed Save_budget_failed)]
    \<and> dict_get (ty_reservations s') (vd_order_id ev) = Some (k, amount)
    \<and> map_option bb_reserved (get_budget k s') = Some (bb_reserved b + amount)
    \<and> dict_get (db_budgets (ty_db s')) k = Some b"
proof -
  have get: "dict_get (ty_budgets s) k = Some b" using b by (simp add: get_budget_def)
  have id: "bb_bot_id b = k" using treasury_invD(3) [OF inv get] by (simp add: budget_ok_def)
  have "dict_get (db_budgets (ty_db s)) k = Some b" using treasury_invD(8) [OF inv, of k b] get by simp
  then show ?thesis
    using r amount fault get id ev
    by (auto simp: reserve_and_approve_def reserve_for_order_def treasury_defs get_budget_def Let_def)
qed

text \<open>
  One snapshot per account and day, kept for the retention period: after a daily report the
  account has exactly the returned snapshot under the report's date (a repeated report replaces
  it), no snapshot of its own older than the cutoff, and every other snapshot as before.
\<close>

theorem daily_snapshot_upsert:
  assumes "dict_wf (db_snapshots (ty_db s))" and "take_snapshot c cutoff ev s = (sn, s')"
  shows "dict_wf (db_snapshots (ty_db s'))
    \<and> (\<forall>a d. dict_get (db_snapshots (ty_db s')) (a, d) =
         (if a = tc_account_id c \<and> d < cutoff then None
          else if a = tc_account_id c \<and> d = dr_report_date ev then Some sn
          else dict_get (db_snapshots (ty_db s)) (a, d)))
    \<and> sn_total_asset sn = su_ante_eval_amount (get_summary s) + ty_unallocated s"
proof -
  let ?d = "dict_set (tc_account_id c, dr_report_date ev) sn (db_snapshots (ty_db s))"
  have s': "db_snapshots (ty_db s') = filter (\<lambda>((a, d), _). \<not> (a = tc_account_id c \<and> d < cutoff)) ?d"
    using assms(2) by (auto simp: take_snapshot_def cleanup_old_snapshots_def put_snapshot_def Let_def)
  have wf: "dict_wf ?d" using assms(1) by simp
  have "dict_get (db_snapshots (ty_db s')) (a, d) =
      (if a = tc_account_id c \<and> d < cutoff then None else dict_get ?d (a, d))" for a d
    unfolding s' using wf by (auto simp: dict_get_filter split: option.splits)
  moreover have "sn_total_asset sn = su_ante_eval_amount (get_summary s) + ty_unallocated s"
    using assms(2) by (auto simp: take_snapshot_def with_summary_def get_summary_def Let_def)
  ultimately show ?thesis using wf by (simp add: s')
qed

subsection \<open>The properties on a concrete account\<close>

definition sample_order_out :: "treasury_out list \<times> treasury" where
  "sample_order_out = on_order_validated sample_config sample_env (sample_validated ''o2'' 5) sample_treasury"

lemma sample_order_out_eq:
  "on_order_validated sample_config sample_env (sample_validated ''o2'' 5) sample_treasury =
     ([approve sample_config (sample_validated ''o2'' 5) 50], snd sample_order_out)"
  "sample_order_out = (fst sample_order_out, snd sample_order_out)"
  unfolding sample_order_out_def by code_simp+

theorem approved_buy_is_funded_witness:
  "required_reserve sample_config sample_env (sample_validated ''o2'' 5) = Some 50
    \<and> dict_get (ty_reservations (snd sample_order_out)) ''o2'' = Some (''bot-1'', 50)"
proof -
  have ev: "vd_side (sample_validated ''o2'' 5) = ''buy''"
    "vd_order_type (sample_validated ''o2'' 5) \<notin> set [''stop'', ''stop_limit'']"
    "vd_order_id (sample_validated ''o2'' 5) = ''o2''" "vd_bot_id (sample_validated ''o2'' 5) = ''bot-1''"
    by (simp_all add: sample_validated_def)
  have out: "Order_approved (outcome_of sample_config (sample_validated ''o2'' 5))
      (vd_stop_price (sample_validated ''o2'' 5)) 50 \<in> set [approve sample_config (sample_validated ''o2'' 5) 50]"
    by (simp add: approve_def)
  have c: "vd_side (sample_validated ''o2'' 5) = ''buy''
      \<and> vd_order_type (sample_validated ''o2'' 5) \<notin> set [''stop'', ''stop_limit'']" using ev by blast
  show ?thesis
    using conjunct2 [OF approved_buy_is_funded [OF sample_order_out_eq(1) out sample_treasury_inv]]
    unfolding if_P [OF c] ev(3,4) by blast
qed

theorem one_outcome_per_order_witness:
  "length (filter is_terminal [approve sample_config (sample_validated ''o2'' 5) 50]) = 1"
proof -
  have "is_my_event sample_config (vd_account_id (sample_validated ''o2'' 5))" by code_simp
  with one_outcome_per_order [OF sample_order_out_eq(1)] show ?thesis by simp
qed

theorem approval_needs_readiness_witness:
  "reject_not_ready sample_config (sample_env\<lparr>te_registry := None\<rparr>) (sample_validated ''o2'' 5)
     = fst (on_order_validated sample_config (sample_env\<lparr>te_registry := None\<rparr>) (sample_validated ''o2'' 5) sample_treasury)"
proof -
  let ?r = "on_order_validated sample_config (sample_env\<lparr>te_registry := None\<rparr>) (sample_validated ''o2'' 5) sample_treasury"
  have m: "is_my_event sample_config (vd_account_id (sample_validated ''o2'' 5))" by code_simp
  have "?r = (fst ?r, snd ?r)" by simp
  from approval_needs_readiness [OF this m] show ?thesis by simp
qed

definition sample_filled_env :: treasury_env where
  "sample_filled_env = sample_env\<lparr>te_order_tracker := Some (\<lambda>_. Some ((sample_order ''o1'' 10)\<lparr>ot_recorded_filled_qty := 4\<rparr>))\<rparr>"

theorem cancel_after_partial_fill_witness:
  "get_budget ''bot-1'' (on_order_cancelled sample_config ''acct-1'' ''bot-1'' ''o1''
      (snd (on_order_filled sample_config sample_filled_env (sample_filled None 4) sample_treasury)))
   = Some (sample_budget\<lparr>bb_reserved := 0, bb_spent := 40, bb_available := 360\<rparr>)"
proof -
  have r: "dict_get (ty_reservations sample_treasury) ''o1'' = Some (''bot-1'', 100)"
    by (simp add: sample_treasury_facts(2))
  have ev: "ev_bot_id (sample_filled None 4) = ''bot-1''" "ev_order_id (sample_filled None 4) = ''o1''"
    "ev_side (sample_filled None 4) = ''buy''" "is_my_event sample_config (ev_account_id (sample_filled None 4))"
    "te_fault sample_filled_env = None"
    "\<forall>key. ev_fill_dedup_key (sample_filled None 4) = Some key \<longrightarrow>
       dict_get (db_fill_dedup (ty_db sample_treasury)) key = None"
    by (simp_all add: sample_filled_def sample_filled_env_def sample_env_def is_my_event_def sample_config_def)
  have tr: "te_order_tracker sample_filled_env =
      Some (\<lambda>_. Some ((sample_order ''o1'' 10)\<lparr>ot_recorded_filled_qty := 4\<rparr>))"
    "\<not> terminal_record ((sample_order ''o1'' 10)\<lparr>ot_recorded_filled_qty := 4\<rparr>)"
    by (simp_all add: sample_filled_env_def terminal_record_def sample_order_def)
  have x: "40 = ev_quantity (sample_filled None 4) * ev_price (sample_filled None 4) + ev_commission (sample_filled None 4)"
    by (simp add: sample_filled_def)
  have a: "''acct-1'' = tc_account_id sample_config" by (simp add: sample_config_def)
  show ?thesis
    using cancel_after_partial_fill [OF sample_treasury_inv sample_treasury_facts(1) r ev tr(1) refl tr(2) x _ refl]
    by (simp add: a sample_budget_def)
qed

theorem bot_stop_returns_reservations_witness:
  "get_reservations ''bot-1'' (on_bot_stopped sample_config ''acct-1'' ''bot-1'' sample_treasury) = []
   \<and> get_budget ''bot-2'' (on_bot_stopped sample_config ''acct-1'' ''bot-1'' sample_treasury)
       = get_budget ''bot-2'' sample_treasury"
proof -
  have a: "tc_account_id sample_config = ''acct-1''" by (simp add: sample_config_def)
  have "''bot-2'' \<noteq> ''bot-1''" by simp
  from bot_stop_returns_reservations [OF sample_treasury_inv sample_treasury_facts(1) this refl]
  show ?thesis unfolding a by blast
qed

theorem allocate_exact_witness:
  "\<exists>s'. allocate sample_config sample_env ''bot-1'' (Fin 200) sample_treasury = Inr s'
     \<and> ty_unallocated s' = 300 \<and> budget_field bb_allocated (ty_budgets s') ''bot-1'' = 600"
proof -
  have ok: "\<not> (\<exists>e. allocate sample_config sample_env ''bot-1'' (Fin 200) sample_treasury = Inl e)"
    using sample_treasury_facts(3)
    by (simp add: allocate_def check_bot_stopped_def sample_env_def Let_def)
  have b: "budget_field bb_allocated (ty_budgets sample_treasury) ''bot-1'' = 400"
    by code_simp
  from allocate_exact [OF sample_treasury_inv, of sample_env "''bot-1''" "Fin 200"] ok
  show ?thesis using sample_treasury_facts(3) b
    by (cases "allocate sample_config sample_env ''bot-1'' (Fin 200) sample_treasury") auto
qed

theorem update_budget_reaches_target_witness:
  "\<exists>s'. update_budget sample_config sample_env ''bot-1'' (Fin 350) sample_treasury = Inr s'
     \<and> budget_field bb_allocated (ty_budgets s') ''bot-1'' = 350 \<and> ty_unallocated s' = 550"
proof -
  define r where "r = update_budget sample_config sample_env ''bot-1'' (Fin 350) sample_treasury"
  have "case r of Inl _ \<Rightarrow> False | Inr _ \<Rightarrow> True"
    unfolding r_def by code_simp
  then obtain s' where s': "update_budget sample_config sample_env ''bot-1'' (Fin 350) sample_treasury = Inr s'"
    by (auto simp: r_def split: sum.splits)
  have b: "budget_field bb_allocated (ty_budgets sample_treasury) ''bot-1'' = 400" by code_simp
  from update_budget_reaches_target [OF sample_treasury_inv s'] show ?thesis
    using s' b sample_treasury_facts(3) by simp
qed

theorem update_budget_hides_running_bot_witness:
  "update_budget sample_config (sample_env\<lparr>te_bot_status := Some (\<lambda>_. ''running'')\<rparr>) ''bot-1'' (Fin 350) sample_treasury
     = Inl Insufficient_funds"
proof -
  have c: "check_bot_stopped (sample_env\<lparr>te_bot_status := Some (\<lambda>_. ''running'')\<rparr>) ''bot-1'' =
      Some (Bot_not_stopped ''bot-1'' ''running'')"
    by (simp add: check_bot_stopped_def)
  have b: "(350::rat) \<noteq> budget_field bb_allocated (ty_budgets sample_treasury) ''bot-1''" by code_simp
  show ?thesis by (rule update_budget_hides_running_bot [OF c refl _ b]) simp
qed

theorem failed_reserve_leaks_witness:
  "dict_get (ty_reservations (snd (reserve_and_approve sample_config (sample_env\<lparr>te_fault := Some Ft_save_budget\<rparr>)
     (sample_validated ''o2'' 5) 50 sample_treasury))) ''o2'' = Some (''bot-1'', 50)"
proof -
  let ?env = "sample_env\<lparr>te_fault := Some Ft_save_budget\<rparr>"
  let ?r = "reserve_and_approve sample_config ?env (sample_validated ''o2'' 5) 50 sample_treasury"
  have h: "(0::rat) < 50" "50 \<le> bb_available sample_budget" "te_fault ?env = Some Ft_save_budget"
    "vd_bot_id (sample_validated ''o2'' 5) = ''bot-1''" "vd_order_id (sample_validated ''o2'' 5) = ''o2''"
    by (simp_all add: sample_budget_def sample_validated_def)
  have "?r = (fst ?r, snd ?r)" by simp
  from failed_reserve_leaks [OF sample_treasury_inv sample_treasury_facts(1) h(1-4) this] show ?thesis
    by (simp add: h)
qed

theorem daily_snapshot_upsert_witness:
  "\<exists>sn. dict_get (db_snapshots (ty_db (on_daily_report sample_config ''2021-01-01''
      \<lparr>dr_account_id = ''acct-1'', dr_report_date = ''2026-01-05'', dr_daily_pnl = 3, dr_daily_return = 0,
       dr_net_trade_amount = 0, dr_unrealized_pnl = 0\<rparr> sample_treasury))) (''acct-1'', ''2026-01-05'') = Some sn"
proof -
  let ?ev = "\<lparr>dr_account_id = ''acct-1'', dr_report_date = ''2026-01-05'', dr_daily_pnl = 3, dr_daily_return = 0,
       dr_net_trade_amount = 0, dr_unrealized_pnl = 0\<rparr>"
  let ?r = "take_snapshot sample_config ''2021-01-01'' ?ev sample_treasury"
  have w: "dict_wf (db_snapshots (ty_db sample_treasury))" by code_simp
  have a: "tc_account_id sample_config = ''acct-1''" "is_my_event sample_config ''acct-1''"
    by (simp_all add: sample_config_def is_my_event_def)
  have d: "\<not> (''2026-01-05'' < (''2021-01-01'' :: string))" by code_simp
  have "?r = (fst ?r, snd ?r)" by simp
  from daily_snapshot_upsert [OF w this] a d show ?thesis
    by (simp add: on_daily_report_def)
qed

end
