(* ===== verification/Settlement_Chain.thy ===== *)
theory Settlement_Chain
  imports Fill_Exactly_Once Treasury_Behaviour
begin

text \<open>
  The chain from the broker's observations to the treasury's books, across \<open>Fill_Pipeline\<close> (which
  commits trades and outbox rows and publishes the rows at least once) and the settlement of
  \<open>Treasury_Orders\<close> (an idempotent consumer): the books show every trade once.
\<close>

text \<open>What a trade costs the bot: a purchase with its commission, or minus the proceeds of a sale.\<close>

definition trade_cost :: "trade_record \<Rightarrow> rat" where
  "trade_cost td =
     (if td_side td = ''buy'' then td_quantity td * td_price td + td_commission td
      else - (td_quantity td * td_price td - td_commission td))"

text \<open>
  The treasury's book of the trade table: the trades of the account and the bot.
\<close>

definition trades_cost :: "string \<Rightarrow> string \<Rightarrow> (string, trade_record) dict \<Rightarrow> rat" where
  "trades_cost account bt trades =
     sum_list (map trade_cost (filter (\<lambda>td. td_account_id td = account \<and> td_bot_id td = bt) (dict_values trades)))"

lemma view_cost:
  assumes "event_view ev = trade_view td"
  shows "event_cost ev = trade_cost td" and "ev_account_id ev = td_account_id td" and "ev_bot_id ev = td_bot_id td"
  using assms by (auto simp: event_view_def trade_view_def event_cost_def trade_cost_def)

lemma view_sums:
  assumes "map event_view evs = map trade_view tds"
  shows "sum_list (map event_cost (filter (\<lambda>ev. ev_account_id ev = a \<and> ev_bot_id ev = bt) evs)) =
    sum_list (map trade_cost (filter (\<lambda>td. td_account_id td = a \<and> td_bot_id td = bt) tds))"
  using assms
proof (induction evs arbitrary: tds)
  case (Cons ev evs)
  then obtain td tds' where tds: "tds = td # tds'" "event_view ev = trade_view td"
    "map event_view evs = map trade_view tds'" by (cases tds) auto
  show ?case using Cons.IH [OF tds(3)] view_cost [OF tds(2)] by (simp add: tds(1))
qed simp

lemma view_bots:
  assumes "map event_view evs = map trade_view tds" and "ev \<in> set evs"
  shows "\<exists>td\<in>set tds. td_account_id td = ev_account_id ev \<and> td_bot_id td = ev_bot_id ev"
proof -
  have "event_view ev \<in> set (map trade_view tds)" unfolding assms(1) [symmetric] using assms(2) by simp
  then obtain td where "td \<in> set tds" "event_view ev = trade_view td" by auto
  with view_cost(2,3) show ?thesis by metis
qed

subsection \<open>Other treasury events\<close>

text \<open>
  Only settlements change what the budgets show as paid and which fills are settled; a budget
  disappears only when it is released.
\<close>

definition same_books :: "treasury \<Rightarrow> treasury \<Rightarrow> bool" where
  "same_books s s' \<longleftrightarrow> (\<forall>bt. net_spent bt s' = net_spent bt s)
     \<and> db_fill_dedup (ty_db s') = db_fill_dedup (ty_db s)
     \<and> (\<forall>k. dict_get (ty_budgets s) k \<noteq> None \<longrightarrow> dict_get (ty_budgets s') k \<noteq> None)"

lemma same_books_refl [simp]: "same_books s s"
  by (simp add: same_books_def)

lemma same_books_seen:
  assumes "same_books s s'"
  shows "fill_seen s' = fill_seen s"
  using assms by (intro ext) (simp add: same_books_def fill_seen_def split: option.split)

lemma same_books_put:
  assumes "ty_budgets s' = dict_set (bb_bot_id b) b (ty_budgets s)"
    and "bb_spent b - bb_returned b = budget_field (\<lambda>b. bb_spent b - bb_returned b) (ty_budgets s) (bb_bot_id b)"
    and "db_fill_dedup (ty_db s') = db_fill_dedup (ty_db s)"
  shows "same_books s s'"
  using assms by (auto simp: same_books_def net_spent_def budget_field_def)

lemma same_books_budgets:
  assumes "\<And>k. dict_get (ty_budgets s') k = dict_get (ty_budgets s) k"
    and "db_fill_dedup (ty_db s') = db_fill_dedup (ty_db s)"
  shows "same_books s s'"
  using assms by (simp add: same_books_def net_spent_def budget_field_def)

lemma allocate_books:
  assumes inv: "treasury_inv c s" and "allocate c env k x s = Inr s'"
  shows "same_books s s'"
proof -
  define b0 where "b0 = (case dict_get (ty_budgets s) k of None \<Rightarrow> new_budget k (tc_account_id c) | Some b \<Rightarrow> b)"
  have b0: "bb_bot_id b0 = k"
    "bb_spent b0 - bb_returned b0 = budget_field (\<lambda>b. bb_spent b - bb_returned b) (ty_budgets s) k"
    using treasury_invD(3) [OF inv, of k]
    by (auto simp: b0_def budget_field_def budget_ok_def new_budget_def split: option.splits)
  show ?thesis
    by (rule same_books_put [of _ "b0\<lparr>bb_allocated := bb_allocated b0 + fval x, bb_available := bb_available b0 + fval x\<rparr>"])
      (use assms(2) b0 in \<open>auto simp: allocate_def Let_def treasury_defs b0_def split: option.splits if_splits\<close>)
qed

lemma deallocate_books:
  assumes inv: "treasury_inv c s" and d: "deallocate c env k x s = Inr s'"
  shows "same_books s s'"
proof -
  obtain b0 where get: "dict_get (ty_budgets s) k = Some b0"
    using d by (auto simp: deallocate_def Let_def split: option.splits if_splits)
  have id: "bb_bot_id b0 = k" using treasury_invD(3) [OF inv get] by (simp add: budget_ok_def)
  show ?thesis
    by (rule same_books_put [of _ "b0\<lparr>bb_allocated := bb_allocated b0 - fval x, bb_available := bb_available b0 - fval x\<rparr>"])
      (use d get id in \<open>auto simp: deallocate_def Let_def treasury_defs budget_field_def split: option.splits if_splits\<close>)
qed

lemma update_budget_books:
  assumes inv: "treasury_inv c s" and u: "update_budget c env k x s = Inr s'"
  shows "same_books s s'"
proof -
  obtain y where "s' = s \<or> allocate c env k y s = Inr s' \<or> deallocate c env k y s = Inr s'"
    using u by (auto simp: update_budget_def Let_def split: if_splits sum.splits)
  then show ?thesis using inv allocate_books deallocate_books by auto
qed

lemma reserve_books:
  assumes inv: "treasury_inv c s" and r: "reserve_for_order env k oid amount s = (res, s')"
  shows "same_books s s'"
proof -
  have id: "bb_bot_id b = k" if "dict_get (ty_budgets s) k = Some b" for b
    using treasury_invD(3) [OF inv that] by (simp add: budget_ok_def)
  show ?thesis
    using r id
    by (auto simp: reserve_for_order_def Let_def treasury_defs same_books_def net_spent_def budget_field_def
        split: if_splits option.splits)
qed

lemma validated_books:
  assumes inv: "treasury_inv c s"
  shows "same_books s (snd (on_order_validated c env ev s))"
proof -
  have "snd (on_order_validated c env ev s) = s \<or>
      (\<exists>amount res. reserve_for_order env (vd_bot_id ev) (vd_order_id ev) amount s =
         (res, snd (on_order_validated c env ev s)))"
    by (auto simp: on_order_validated_def validated_market_buy_def validated_other_def
        reserve_and_approve_def Let_def split: option.splits quote_reply.splits sum.splits prod.splits)
  then show ?thesis using reserve_books [OF inv] by (metis same_books_refl)
qed

lemma release_reservation_books:
  assumes inv: "treasury_inv c s"
  shows "same_books s (release_reservation k oid s)"
proof (cases "dict_get (ty_budgets s) k")
  case None
  then show ?thesis by (simp add: release_reservation_def same_books_def net_spent_def)
next
  case (Some b)
  have "bb_bot_id b = k" using treasury_invD(3) [OF inv Some] by (simp add: budget_ok_def)
  with Some show ?thesis
    by (auto simp: release_reservation_def Let_def treasury_defs same_books_def net_spent_def budget_field_def)
qed

lemma bot_stopped_books:
  assumes inv: "treasury_inv c s"
  shows "same_books s (on_bot_stopped c a k s)"
proof -
  have id: "bb_bot_id b = k" if "dict_get (ty_budgets s) k = Some b" for b
    using treasury_invD(3) [OF inv that] by (simp add: budget_ok_def)
  show ?thesis
    using id
    by (auto simp: on_bot_stopped_def Let_def treasury_defs same_books_def net_spent_def budget_field_def
        split: option.splits)
qed

lemma reload_books:
  assumes inv: "treasury_inv c s" and s0: "ty_budgets s0 = []" "ty_reservations s0 = []" "ty_db s0 = ty_db s"
  shows "same_books s (load_rows c s0)"
proof (rule same_books_budgets)
  have db: "ty_db (load_rows c s0) = ty_db s" by (simp add: load_rows_def Let_def s0)
  show "db_fill_dedup (ty_db (load_rows c s0)) = db_fill_dedup (ty_db s)" by (simp add: db)
  show "dict_get (ty_budgets (load_rows c s0)) k = dict_get (ty_budgets s) k" for k
    using treasury_invD(8) [OF inv, of k] treasury_invD(8) [OF load_rows_inv [OF inv s0], of k]
    unfolding db by (metis not_None_eq)
qed


lemma sync_books:
  "same_books s (snd (do_sync c br ps s))" "same_books s (snd (do_sync_virtual c r ps s))"
  "same_books s (on_daily_report c cutoff dr s)" "same_books s (keep_on_error s (set_account_balance c x s))"
  by (rule same_books_budgets,
      auto simp: do_sync_def do_sync_virtual_def sync_balance_def on_daily_report_def take_snapshot_def
        cleanup_old_snapshots_def put_snapshot_def set_account_balance_def Let_def treasury_defs
      split: option.splits sum.splits)+

fun is_release :: "treasury_event \<Rightarrow> bool" where
  "is_release (Ev_release_budget k) = True"
| "is_release _ = False"

fun filled_of :: "treasury_event \<Rightarrow> order_filled option" where
  "filled_of (Ev_filled ev) = Some ev"
| "filled_of _ = None"

lemma other_events_books:
  assumes inv: "treasury_inv c s" and other: "\<not> is_release e" "filled_of e = None"
  shows "same_books s (treasury_step c s (env, e))"
proof (cases e)
  case (Ev_allocate k x)
  then show ?thesis using allocate_books [OF inv] by (cases "allocate c env k x s") auto
next
  case (Ev_deallocate k x)
  then show ?thesis using deallocate_books [OF inv] by (cases "deallocate c env k x s") auto
next
  case (Ev_update_budget k x)
  then show ?thesis using update_budget_books [OF inv] by (cases "update_budget c env k x s") auto
next
  case (Ev_cancelled a k oid)
  then show ?thesis using release_reservation_books [OF inv] by (simp add: on_order_cancelled_def)
next
  case (Ev_failed a k oid)
  then show ?thesis using release_reservation_books [OF inv] by (simp add: on_order_failed_def)
next
  case Ev_load_from_db
  then show ?thesis using reload_books [OF inv] by (simp add: load_from_db_def)
next
  case Ev_restart
  then show ?thesis using reload_books [OF inv] by (simp add: restart_treasury_def)
qed (use other sync_books validated_books [OF inv] bot_stopped_books [OF inv] in auto)

subsection \<open>Settlements\<close>

text \<open>A settlement either leaves the books, or books an event whose key was not settled before.\<close>

lemma settlement_books:
  assumes inv: "treasury_inv c s" and key: "ev_fill_dedup_key ev = Some key"
  obtains (same) "same_books s (snd (on_order_filled c env ev s))"
      "is_my_event c (ev_account_id ev) \<Longrightarrow> te_fault env = None \<Longrightarrow>
        dict_get (ty_budgets s) (ev_bot_id ev) \<noteq> None \<Longrightarrow> fill_seen s (Some key)"
  | (booked) "is_my_event c (ev_account_id ev)" "\<not> fill_seen s (Some key)"
      "\<And>bt. net_spent bt (snd (on_order_filled c env ev s)) =
        net_spent bt s + (if ev_bot_id ev = bt then event_cost ev else 0)"
      "\<And>k. fill_seen (snd (on_order_filled c env ev s)) k \<longleftrightarrow> k = Some key \<or> fill_seen s k"
      "\<And>k. dict_get (ty_budgets s) k \<noteq> None \<Longrightarrow>
        dict_get (ty_budgets (snd (on_order_filled c env ev s))) k \<noteq> None"
proof -
  obtain f s' where r: "on_order_filled c env ev s = (f, s')" by fastforce
  show thesis
  proof (cases f)
    case (Some g)
    have "same_treasury s s'" using fill_rollback(1) [OF inv key] r Some by simp
    then have "same_books s s'" by (intro same_books_budgets) (simp_all add: same_treasury_def)
    moreover have "te_fault env \<noteq> None"
      using r Some key
      by (auto simp: on_order_filled_def settle_in_transaction_def apply_fill_settlement_def Let_def
          split: if_splits option.splits prod.splits)
    ultimately show thesis by (intro same) (simp_all add: r)
  next
    case None
    show thesis
    proof (cases "is_my_event c (ev_account_id ev) \<and> dict_get (ty_budgets s) (ev_bot_id ev) \<noteq> None
        \<and> \<not> fill_seen s (Some key)")
      case False
      then have "s' = s"
        using r None key
        by (auto simp: on_order_filled_def settle_in_transaction_def fill_seen_def
            split: if_splits option.splits prod.splits)
      with False show thesis by (intro same) (auto simp: r)
    next
      case True
      then obtain b where my: "is_my_event c (ev_account_id ev)" and b: "dict_get (ty_budgets s) (ev_bot_id ev) = Some b"
        and unseen: "\<not> fill_seen s (Some key)" by auto
      let ?s1 = "s\<lparr>ty_db := (ty_db s)\<lparr>db_fill_dedup :=
          insert_or_ignore key (ev_bot_id ev, tc_account_id c) (db_fill_dedup (ty_db s))\<rparr>\<rparr>"
      have a: "apply_fill_settlement c env ev b ?s1 = (None, s')"
        using r None key my b unseen
        by (auto simp: on_order_filled_def settle_in_transaction_def fill_seen_def Let_def
            split: if_splits option.splits prod.splits)
      note K = settlement_keeps [OF a]
      have id: "bb_bot_id b = ev_bot_id ev" using treasury_invD(3) [OF inv b] by (simp add: budget_ok_def)
      have get: "dict_get (ty_budgets ?s1) (ev_bot_id ev) = Some b" using b by simp
      have net: "net_spent bt ?s1 = net_spent bt s" for bt by (simp add: net_spent_def)
      have "dict_get (db_fill_dedup (ty_db s')) key' = None \<longleftrightarrow>
          key' \<noteq> key \<and> dict_get (db_fill_dedup (ty_db s)) key' = None" for key'
        unfolding K(1) using unseen by (simp add: fill_seen_def)
      then have seen: "fill_seen s' k \<longleftrightarrow> k = Some key \<or> fill_seen s k" for k
        by (cases k) (simp_all add: fill_seen_def)
      show thesis
      proof (rule booked [OF my unseen])
        show "net_spent bt (snd (on_order_filled c env ev s)) =
            net_spent bt s + (if ev_bot_id ev = bt then event_cost ev else 0)" for bt
          unfolding r snd_conv settlement_net [OF a id get] net ..
        show "fill_seen (snd (on_order_filled c env ev s)) k \<longleftrightarrow> k = Some key \<or> fill_seen s k" for k
          unfolding r snd_conv by (rule seen)
        show "dict_get (ty_budgets (snd (on_order_filled c env ev s))) k \<noteq> None"
          if "dict_get (ty_budgets s) k \<noteq> None" for k
          unfolding r snd_conv using K(2) that by simp
      qed
    qed
  qed
qed


text \<open>The cost of those of a set of fills that have been settled.\<close>

definition settled_cost :: "order_filled set \<Rightarrow> treasury \<Rightarrow> rat" where
  "settled_cost F s = (\<Sum>ev\<in>{ev \<in> F. fill_seen s (ev_fill_dedup_key ev)}. event_cost ev)"

text \<open>The fills that are delivered, with keys of their own, for bots of the account that have a budget.\<close>

definition fills_ok :: "treasury_config \<Rightarrow> order_filled set \<Rightarrow> treasury \<Rightarrow> bool" where
  "fills_ok c E s \<longleftrightarrow> finite E \<and> inj_on ev_fill_dedup_key E \<and> (\<forall>ev\<in>E. ev_fill_dedup_key ev \<noteq> None)
     \<and> (\<forall>ev\<in>E. is_my_event c (ev_account_id ev) \<longrightarrow> dict_get (ty_budgets s) (ev_bot_id ev) \<noteq> None)"

definition own_fills :: "treasury_config \<Rightarrow> string \<Rightarrow> order_filled set \<Rightarrow> order_filled set" where
  "own_fills c bt E = {ev \<in> E. is_my_event c (ev_account_id ev) \<and> ev_bot_id ev = bt}"

lemma step_books:
  assumes inv: "treasury_inv c s" and other: "\<not> is_release e"
    and E: "fills_ok c E s" "\<forall>ev. filled_of e = Some ev \<longrightarrow> ev \<in> E"
  shows "net_spent bt (treasury_step c s (env, e)) - settled_cost (own_fills c bt E) (treasury_step c s (env, e)) =
      net_spent bt s - settled_cost (own_fills c bt E) s"
    and "fill_seen s k \<Longrightarrow> fill_seen (treasury_step c s (env, e)) k"
    and "fills_ok c E (treasury_step c s (env, e))"
    and "e = Ev_filled ev \<Longrightarrow> te_fault env = None \<Longrightarrow> is_my_event c (ev_account_id ev) \<Longrightarrow>
      fill_seen (treasury_step c s (env, e)) (ev_fill_dedup_key ev)"
proof -
  let ?s' = "treasury_step c s (env, e)" and ?F = "own_fills c bt E"
  have quiet: "net_spent bt ?s' - settled_cost ?F ?s' = net_spent bt s - settled_cost ?F s
      \<and> (fill_seen s k \<longrightarrow> fill_seen ?s' k) \<and> fills_ok c E ?s'" if b: "same_books s ?s'"
    using b E(1) by (auto simp: same_books_seen [OF b] settled_cost_def fills_ok_def) (auto simp: same_books_def)
  have "net_spent bt ?s' - settled_cost ?F ?s' = net_spent bt s - settled_cost ?F s
      \<and> (fill_seen s k \<longrightarrow> fill_seen ?s' k) \<and> fills_ok c E ?s'
      \<and> (e = Ev_filled ev \<and> te_fault env = None \<and> is_my_event c (ev_account_id ev) \<longrightarrow>
           fill_seen ?s' (ev_fill_dedup_key ev))"
  proof (cases "filled_of e")
    case None
    with quiet other_events_books [OF inv other None] show ?thesis by auto
  next
    case (Some w)
    then have e: "e = Ev_filled w" by (cases e) auto
    have w: "w \<in> E" using E(2) Some by simp
    then obtain key where key: "ev_fill_dedup_key w = Some key" using E(1) by (auto simp: fills_ok_def)
    have s': "?s' = snd (on_order_filled c env w s)" by (simp add: e)
    show ?thesis
      using inv key
    proof (cases rule: settlement_books [where env = env])
      case same
      have "fill_seen ?s' (ev_fill_dedup_key w)" if "te_fault env = None" "is_my_event c (ev_account_id w)"
        using same(2) that E(1) w unfolding s' same_books_seen [OF same(1)] key by (auto simp: fills_ok_def)
      with quiet [OF same(1) [folded s']] e show ?thesis by auto
    next
      case booked
      have same: "ev = w" if "ev \<in> E" "ev_fill_dedup_key ev = Some key" for ev
        using that w key E(1) by (auto simp: fills_ok_def inj_on_def)
      have eq: "{ev \<in> ?F. fill_seen ?s' (ev_fill_dedup_key ev)} =
          {ev \<in> ?F. fill_seen s (ev_fill_dedup_key ev)} \<union> (if ev_bot_id w = bt then {w} else {})"
      proof (rule set_eqI)
        fix ev
        have F: "w \<in> ?F \<longleftrightarrow> ev_bot_id w = bt" using w booked(1) by (simp add: own_fills_def)
        have seen: "fill_seen ?s' k \<longleftrightarrow> k = Some key \<or> fill_seen s k" for k unfolding s' by (rule booked(4))
        show "ev \<in> {ev \<in> ?F. fill_seen ?s' (ev_fill_dedup_key ev)} \<longleftrightarrow>
          ev \<in> {ev \<in> ?F. fill_seen s (ev_fill_dedup_key ev)} \<union> (if ev_bot_id w = bt then {w} else {})"
        proof (cases "ev = w")
          case True
          show ?thesis unfolding True mem_Collect_eq Un_iff F seen key by simp
        next
          case False
          then have "ev \<notin> ?F \<or> ev_fill_dedup_key ev \<noteq> Some key" using same by (auto simp only: own_fills_def mem_Collect_eq)
          then show ?thesis using False unfolding mem_Collect_eq Un_iff seen by simp blast
        qed
      qed
      have fin: "finite {ev \<in> ?F. fill_seen s (ev_fill_dedup_key ev)}"
        using E(1) by (simp add: fills_ok_def own_fills_def)
      have "w \<notin> {ev \<in> ?F. fill_seen s (ev_fill_dedup_key ev)}" using booked(2) key by simp
      then have "settled_cost ?F ?s' = settled_cost ?F s + (if ev_bot_id w = bt then event_cost w else 0)"
        using fin by (simp add: settled_cost_def eq)
      then have "net_spent bt ?s' - settled_cost ?F ?s' = net_spent bt s - settled_cost ?F s"
        unfolding s' booked(3) by simp
      moreover have "fill_seen s k \<longrightarrow> fill_seen ?s' k" "fill_seen ?s' (ev_fill_dedup_key w)"
        unfolding s' booked(4) key by simp_all
      moreover have "fills_ok c E ?s'" using E(1) booked(5) unfolding s' fills_ok_def by blast
      ultimately show ?thesis using e by auto
    qed
  qed
  then show "net_spent bt ?s' - settled_cost ?F ?s' = net_spent bt s - settled_cost ?F s"
    and "fill_seen s k \<Longrightarrow> fill_seen ?s' k" and "fills_ok c E ?s'"
    and "e = Ev_filled ev \<Longrightarrow> te_fault env = None \<Longrightarrow> is_my_event c (ev_account_id ev) \<Longrightarrow>
      fill_seen ?s' (ev_fill_dedup_key ev)" by blast+
qed

lemma run_books:
  assumes "treasury_inv c s" and "admissible (treasury_step c) event_ok s es"
    and "\<forall>e\<in>set es. \<not> is_release (snd e)" and "fills_ok c E s"
    and "\<forall>e\<in>set es. \<forall>ev. filled_of (snd e) = Some ev \<longrightarrow> ev \<in> E"
  shows "net_spent bt (run (treasury_step c) s es) - settled_cost (own_fills c bt E) (run (treasury_step c) s es) =
      net_spent bt s - settled_cost (own_fills c bt E) s
    \<and> (\<forall>k. fill_seen s k \<longrightarrow> fill_seen (run (treasury_step c) s es) k)
    \<and> (\<forall>env ev. (env, Ev_filled ev) \<in> set es \<and> te_fault env = None \<and> is_my_event c (ev_account_id ev) \<longrightarrow>
         fill_seen (run (treasury_step c) s es) (ev_fill_dedup_key ev))"
  using assms
proof (induction es arbitrary: s)
  case (Cons x es)
  obtain env e where x: "x = (env, e)" by (cases x)
  have e: "\<not> is_release e" "\<forall>ev. filled_of e = Some ev \<longrightarrow> ev \<in> E" using Cons.prems(3,5) by (auto simp: x)
  note S = step_books [OF Cons.prems(1) e(1) Cons.prems(4) e(2), where env = env]
  have inv: "treasury_inv c (treasury_step c s (env, e))"
    by (rule treasury_step_inv [OF Cons.prems(1)]) (use Cons.prems(2) x in simp)
  have r: "run (treasury_step c) s (x # es) = run (treasury_step c) (treasury_step c s (env, e)) es"
    by (simp add: x)
  have IH: "net_spent bt (run (treasury_step c) s (x # es))
        - settled_cost (own_fills c bt E) (run (treasury_step c) s (x # es)) =
      net_spent bt (treasury_step c s (env, e)) - settled_cost (own_fills c bt E) (treasury_step c s (env, e))
    \<and> (\<forall>k. fill_seen (treasury_step c s (env, e)) k \<longrightarrow> fill_seen (run (treasury_step c) s (x # es)) k)
    \<and> (\<forall>env ev. (env, Ev_filled ev) \<in> set es \<and> te_fault env = None \<and> is_my_event c (ev_account_id ev) \<longrightarrow>
         fill_seen (run (treasury_step c) s (x # es)) (ev_fill_dedup_key ev))"
    unfolding r by (rule Cons.IH [OF inv _ _ S(3)]) (use Cons.prems(2,3,5) x in auto)
  show ?case
  proof (intro conjI allI impI)
    show "fill_seen (run (treasury_step c) s (x # es)) k" if "fill_seen s k" for k
      using IH S(2) [OF that] by blast
    show "fill_seen (run (treasury_step c) s (x # es)) (ev_fill_dedup_key ev)"
      if "(env', Ev_filled ev) \<in> set (x # es) \<and> te_fault env' = None \<and> is_my_event c (ev_account_id ev)" for env' ev
    proof (cases "(env', Ev_filled ev) \<in> set es")
      case True
      with that IH show ?thesis by blast
    next
      case False
      then have "env' = env" "e = Ev_filled ev" using that x by auto
      with that have "fill_seen (treasury_step c s (env, e)) (ev_fill_dedup_key ev)" by (intro S(4)) simp_all
      with IH show ?thesis by blast
    qed
    show "net_spent bt (run (treasury_step c) s (x # es))
        - settled_cost (own_fills c bt E) (run (treasury_step c) s (x # es)) =
      net_spent bt s - settled_cost (own_fills c bt E) s"
      using conjunct1 [OF IH] S(1) by simp
  qed
qed simp


subsection \<open>Property\<close>

text \<open>The fills among the events the treasury handled, in their order.\<close>

definition fills_of :: "(treasury_env \<times> treasury_event) list \<Rightarrow> order_filled list" where
  "fills_of es = List.map_filter (\<lambda>e. filled_of (snd e)) es"

lemma fills_of_mem: "ev \<in> set (fills_of es) \<longleftrightarrow> (\<exists>env. (env, Ev_filled ev) \<in> set es)"
proof -
  have "filled_of e = Some ev \<longleftrightarrow> e = Ev_filled ev" for e by (cases e) auto
  then show ?thesis by (force simp: fills_of_def map_filter_def)
qed

text \<open>
  C1. From observation to books, each trade counts once: run the fill pipeline through any events
  (duplicated and reordered observations, database failures, crashes between publication and
  marking) and drain the outbox.  Let the treasury, from a sound state in which none of these fills
  is settled, handle the delivered fills in any order and with any repetitions, among any other
  events of its own (allocations, validated, cancelled and failed orders, stopped bots,
  synchronisations, reloads and restarts; budgets of deleted bots are not released), where any
  settlement may fail, but each fill of the account is settled without a failure at least once and
  its bot has a budget.  Then for every bot the cash its budget shows as paid, net of what it
  received, has grown by exactly the cost of the trades in the trade table.
\<close>

theorem treasury_books_every_trade_once:
  assumes adm: "admissible fill_step fresh_trade_id (fill_init True) es"
    and dr: "catch_up_once (\<lambda>_. Delivered) (run fill_step (fill_init True) es) = (n, s)"
    and start: "treasury_inv c t" "\<forall>ev\<in>set (fs_delivered s). \<not> fill_seen t (ev_fill_dedup_key ev)"
    and budgets: "\<forall>td\<in>set (dict_values (fs_trades s)).
        td_account_id td = tc_account_id c \<longrightarrow> get_budget (td_bot_id td) t \<noteq> None"
    and events: "admissible (treasury_step c) event_ok t ts" "\<forall>e\<in>set ts. \<not> is_release (snd e)"
    and deliveries: "set (fills_of ts) = set (fs_delivered s)"
    and settled: "\<forall>ev\<in>set (fs_delivered s). ev_account_id ev = tc_account_id c \<longrightarrow>
        (\<exists>env. (env, Ev_filled ev) \<in> set ts \<and> te_fault env = None)"
  shows "net_spent bt (run (treasury_step c) t ts) = net_spent bt t + trades_cost (tc_account_id c) bt (fs_trades s)"
proof -
  note F = drained [OF adm dr]
  let ?pay = "map ob_payload (fs_outbox s)" and ?t' = "run (treasury_step c) t ts"
  let ?own = "own_fills c bt (set ?pay)"
  have del: "set (fs_delivered s) = set ?pay" using F(4) by simp
  have key: "ev_fill_dedup_key ev \<noteq> None" if "ev \<in> set ?pay" for ev
    using that outbox_invD(1) [OF F(3)] by (auto simp: outbox_row_ok_def)
  have E: "fills_ok c (set ?pay) t"
    unfolding fills_ok_def
  proof (intro conjI ballI impI)
    fix ev assume ev: "ev \<in> set ?pay" "is_my_event c (ev_account_id ev)"
    obtain td where "td \<in> set (dict_values (fs_trades s))" "td_account_id td = tc_account_id c"
      "td_bot_id td = ev_bot_id ev" using view_bots [OF F(5) ev(1)] ev(2) by (auto simp: is_my_event_def)
    with budgets show "dict_get (ty_budgets t) (ev_bot_id ev) \<noteq> None" by (metis get_budget_def)
  qed (use key distinct_payloads(2) [OF F(3)] in auto)
  have fills: "\<forall>e\<in>set ts. \<forall>ev. filled_of (snd e) = Some ev \<longrightarrow> ev \<in> set ?pay"
  proof (intro ballI allI impI)
    fix e ev assume e: "e \<in> set ts" "filled_of (snd e) = Some ev"
    moreover obtain env te where x: "e = (env, te)" by (cases e)
    ultimately have "te = Ev_filled ev" by (cases te) auto
    then have "(env, Ev_filled ev) \<in> set ts" using e(1) x by simp
    then show "ev \<in> set ?pay" unfolding del [symmetric] deliveries [symmetric] fills_of_mem by blast
  qed
  note R = run_books [OF start(1) events E fills, of bt]
  have none: "{ev \<in> ?own. fill_seen t (ev_fill_dedup_key ev)} = {}"
    using start(2) unfolding del own_fills_def by blast
  have all: "{ev \<in> ?own. fill_seen ?t' (ev_fill_dedup_key ev)} = ?own"
  proof -
    have "fill_seen ?t' (ev_fill_dedup_key ev)" if "ev \<in> ?own" for ev
      using that settled conjunct2 [OF conjunct2 [OF R]] unfolding del own_fills_def is_my_event_def by blast
    then show ?thesis by blast
  qed
  have own: "?own = set (filter (\<lambda>ev. ev_account_id ev = tc_account_id c \<and> ev_bot_id ev = bt) ?pay)"
    by (auto simp: own_fills_def is_my_event_def)
  have "net_spent bt ?t' = net_spent bt t + (\<Sum>ev\<in>?own. event_cost ev)"
    using conjunct1 [OF R] unfolding settled_cost_def none all by simp
  also have "(\<Sum>ev\<in>?own. event_cost ev) =
      sum_list (map event_cost (filter (\<lambda>ev. ev_account_id ev = tc_account_id c \<and> ev_bot_id ev = bt) ?pay))"
    unfolding own by (rule sum_list_distinct_conv_sum_set [symmetric])
      (rule distinct_filter [OF distinct_payloads(1) [OF F(3)]])
  also have "\<dots> = trades_cost (tc_account_id c) bt (fs_trades s)"
    unfolding trades_cost_def by (rule view_sums [OF F(5)])
  finally show ?thesis .
qed


subsection \<open>The property on a concrete run\<close>

text \<open>
  The fills arrive backwards, each first with a failing commit and then twice without, between a
  restart, a new allocation and a synchronisation's reload.
\<close>

definition sample_run :: "(treasury_env \<times> treasury_event) list" where
  "sample_run = (sample_env, Ev_restart) #
     concat (map (\<lambda>ev. [(sample_env\<lparr>te_fault := Some Ft_commit\<rparr>, Ev_filled ev), (sample_env, Ev_filled ev),
                      (sample_env, Ev_load_from_db), (sample_env, Ev_filled ev)])
       (rev (fs_delivered sample_drained))) @ [(sample_env, Ev_allocate ''bot-1'' (Fin 100))]"

theorem treasury_books_every_trade_once_witness:
  "net_spent ''bot-1'' (run (treasury_step sample_config) sample_treasury sample_run)
   = net_spent ''bot-1'' sample_treasury + 900"
proof -
  have dr: "catch_up_once (\<lambda>_. Delivered) (run fill_step (fill_init True) sample_events) = (Some 3, sample_drained)"
    by (simp add: sample_drained_def prod_eq_iff sample_drained_count)
  have unseen: "\<forall>ev\<in>set (fs_delivered sample_drained). \<not> fill_seen sample_treasury (ev_fill_dedup_key ev)"
    by (simp add: fill_seen_def sample_treasury_facts(4) split: option.split)
  have bots: "map (\<lambda>td. td_bot_id td) (dict_values (fs_trades sample_drained)) = [''bot-1'', ''bot-1'', ''bot-1'']"
    by code_simp
  have b: "\<forall>td\<in>set (dict_values (fs_trades sample_drained)). td_account_id td = tc_account_id sample_config \<longrightarrow>
      get_budget (td_bot_id td) sample_treasury \<noteq> None"
  proof
    fix td assume "td \<in> set (dict_values (fs_trades sample_drained))"
    then have "td_bot_id td \<in> set (map (\<lambda>td. td_bot_id td) (dict_values (fs_trades sample_drained)))" by force
    then have "td_bot_id td = ''bot-1''" by (simp only: bots) simp
    then show "td_account_id td = tc_account_id sample_config \<longrightarrow> get_budget (td_bot_id td) sample_treasury \<noteq> None"
      by (simp add: sample_treasury_facts(1))
  qed
  have adm: "admissible (treasury_step sample_config) event_ok sample_treasury sample_run" by code_simp
  have rel: "\<forall>e\<in>set sample_run. \<not> is_release (snd e)" by (auto simp: sample_run_def)
  have fills: "set (fills_of sample_run) = set (fs_delivered sample_drained)"
    by (rule set_eqI) (auto simp: fills_of_mem sample_run_def)
  have env: "te_fault sample_env = None" by (simp add: sample_env_def)
  have settled: "\<forall>ev\<in>set (fs_delivered sample_drained). ev_account_id ev = tc_account_id sample_config \<longrightarrow>
      (\<exists>env. (env, Ev_filled ev) \<in> set sample_run \<and> te_fault env = None)"
  proof (intro ballI impI exI conjI)
    show "(sample_env, Ev_filled ev) \<in> set sample_run" if "ev \<in> set (fs_delivered sample_drained)" for ev
      using that by (auto simp: sample_run_def)
  qed (rule env)
  have c: "trades_cost (tc_account_id sample_config) ''bot-1'' (fs_trades sample_drained) = 900" by code_simp
  show ?thesis
    using treasury_books_every_trade_once [OF sample_events_admissible dr sample_treasury_inv unseen b adm rel fills
        settled, of "''bot-1''"] c
    by simp
qed

text \<open>
  A delivery whose settlement fails is not repeated: the bus swallows the exception and the outbox
  row is marked as published, so when every settlement fails nothing is left to publish and none of
  the trades is ever booked.
\<close>

theorem failed_settlement_is_never_booked:
  "net_spent ''bot-1'' (run (settle_event sample_config) sample_treasury
      (map (Pair (sample_env\<lparr>te_fault := Some Ft_commit\<rparr>)) (fs_delivered sample_drained)))
     = net_spent ''bot-1'' sample_treasury"
  "trades_cost (tc_account_id sample_config) ''bot-1'' (fs_trades sample_drained) = 900"
  "unpublished_count (fs_outbox sample_drained) = 0"
  "fs_delivered (snd (catch_up_once (\<lambda>_. Delivered) sample_drained)) = fs_delivered sample_drained"
  by code_simp+

end
