(* ===== verification/Rules.thy ===== *)
theory Rules
  imports Account_Gate Python_Values
begin

text \<open>
  \<open>src/src/ante/rule/base.py\<close>, \<open>global_rules.py\<close>, \<open>strategy_rules.py\<close>, \<open>defaults.py\<close> and
  \<open>config_update.py\<close>: the six rules, their configuration checks and the stored configurations.

  A rule is its class and its configuration dictionary, whose values may have any type; only
  \<open>priority\<close>, the sort key of the rule lists, is taken to be an int.  Evaluation returns \<^theory_text>\<open>None\<close>
  where Python raises.  The message of an evaluation is a constructor with the values it shows;
  the metadata dictionary repeats them and is left out.
\<close>

subsection \<open>Results and context (base.py)\<close>

datatype rule_result = PASS | WARN | BLOCK | REJECT

datatype rule_action = LOG | NOTIFY | STOP_BOT | HALT_ACCOUNT

datatype rule_message =
    Daily_loss_sell_allowed rat pyval
  | Daily_loss_exceeded rat pyval
  | Daily_loss_within_limits
  | Sell_always_allowed
  | Exposure_exceeded pyfloat pyval
  | Exposure_within_limits
  | Invalid_timezone pyval
  | Outside_hours int string
  | Within_hours
  | Position_size_exceeded pyfloat pyval
  | Position_size_within_limits
  | Unrealized_loss_exceeded rat pyval
  | Unrealized_loss_within_limits
  | Frequency_exceeded int pyval
  | Frequency_within_limits

record rule_evaluation =
  re_rule_id :: pyval
  re_rule_name :: pyval
  re_result :: rule_result
  re_action :: rule_action
  re_message :: rule_message

record rule_context =
  cx_bot_id :: string
  cx_account_id :: string
  cx_strategy_id :: string
  cx_symbol :: string
  cx_side :: string
  cx_quantity :: pyval
  cx_order_type :: string
  cx_price :: "rat option"
  cx_current_price :: rat
  cx_current_position :: rat
  cx_bot_allocated_budget :: rat
  cx_unrealized_pnl :: rat
  cx_daily_pnl :: rat
  cx_total_pnl :: rat
  cx_prev_day_total_asset :: rat
  cx_total_asset :: rat
  cx_total_exposure :: rat
  cx_trading_hours_start :: string
  cx_trading_hours_end :: string
  cx_timezone :: string
  cx_current_time :: "int option"
  cx_recent_trade_count :: "int option"

datatype rule_kind =
    Daily_loss_limit
  | Total_exposure_limit
  | Trading_hours
  | Position_size
  | Unrealized_loss_limit
  | Trade_frequency

type_synonym rule_config = "(string, pyval) dict"

record rule =
  rl_kind :: rule_kind
  rl_rule_id :: pyval
  rl_config :: rule_config

definition param :: "rule \<Rightarrow> string \<Rightarrow> pyval \<Rightarrow> pyval" where
  "param r key dflt = dict_default dflt (rl_config r) key"

definition rl_name :: "rule \<Rightarrow> pyval" where
  "rl_name r = param r ''name'' (rl_rule_id r)"

definition rl_priority :: "rule \<Rightarrow> int" where
  "rl_priority r =
     (case param r ''priority'' (Py_int 0) of Py_int n \<Rightarrow> n | Py_bool b \<Rightarrow> (if b then 1 else 0) | _ \<Rightarrow> 0)"

definition is_applicable :: "rule \<Rightarrow> bool" where
  "is_applicable r = truthy (param r ''enabled'' (Py_bool True))"

definition evaluation :: "rule \<Rightarrow> rule_result \<Rightarrow> rule_action \<Rightarrow> rule_message \<Rightarrow> rule_evaluation" where
  "evaluation r result action message =
     \<lparr>re_rule_id = rl_rule_id r, re_rule_name = rl_name r, re_result = result, re_action = action,
      re_message = message\<rparr>"

definition passes :: "rule \<Rightarrow> rule_message \<Rightarrow> rule_evaluation option" where
  "passes r message = Some (evaluation r PASS LOG message)"

subsection \<open>Account rules (global_rules.py)\<close>

definition evaluate_daily_loss :: "rule \<Rightarrow> rule_context \<Rightarrow> rule_evaluation option" where
  "evaluate_daily_loss r cx =
     (let max_daily_loss = param r ''max_daily_loss_percent'' (Py_float (Fin (5/100)))
      in if cx_daily_pnl cx < 0 \<and> cx_prev_day_total_asset cx > 0
         then
           let daily_loss_percent = abs (cx_daily_pnl cx) / cx_prev_day_total_asset cx
           in case py_less max_daily_loss (Py_float (Fin daily_loss_percent)) of
                None \<Rightarrow> None
              | Some exceeded \<Rightarrow>
                  if \<not> exceeded then passes r Daily_loss_within_limits
                  else if \<not> formats max_daily_loss then None
                  else if cx_side cx = ''sell''
                  then passes r (Daily_loss_sell_allowed daily_loss_percent max_daily_loss)
                  else Some (evaluation r REJECT NOTIFY
                               (Daily_loss_exceeded daily_loss_percent max_daily_loss))
         else passes r Daily_loss_within_limits)"

text \<open>The value of the order: \<open>quantity * current_price\<close>.\<close>

definition order_value :: "rule_context \<Rightarrow> pyfloat option" where
  "order_value cx = py_times (cx_current_price cx) (cx_quantity cx)"

definition evaluate_total_exposure :: "rule \<Rightarrow> rule_context \<Rightarrow> rule_evaluation option" where
  "evaluate_total_exposure r cx =
     (if cx_side cx = ''sell'' then passes r Sell_always_allowed
      else
        let max_percent = param r ''max_exposure_percent'' (Py_float (Fin (20/100)));
            max_amount = param r ''max_exposure_amount'' (Py_float PInf)
        in case order_value cx of
             None \<Rightarrow> None
           | Some value \<Rightarrow>
               let expected = fplus (cx_total_exposure cx) value
               in if cx_total_asset cx > 0
                  then
                    (case py_times (cx_total_asset cx) max_percent of
                       None \<Rightarrow> None
                     | Some by_percent \<Rightarrow>
                         (case py_min max_amount (Py_float by_percent) of
                            None \<Rightarrow> None
                          | Some limit \<Rightarrow>
                              (case py_less limit (Py_float expected) of
                                 None \<Rightarrow> None
                               | Some exceeded \<Rightarrow>
                                   if \<not> exceeded then passes r Exposure_within_limits
                                   else if \<not> formats limit then None
                                   else Some (evaluation r REJECT NOTIFY (Exposure_exceeded expected limit)))))
                  else passes r Exposure_within_limits)"

definition default_start :: string where "default_start = ''09:00''"

definition default_end :: string where "default_end = ''15:30''"

text \<open>The allowed hours: those of the account if they differ from the defaults, else of the configuration.\<close>

definition allowed_hours :: "rule \<Rightarrow> rule_context \<Rightarrow> (string \<times> string) option" where
  "allowed_hours r cx =
     (if cx_trading_hours_start cx \<noteq> default_start \<or> cx_trading_hours_end cx \<noteq> default_end
      then Some (cx_trading_hours_start cx, cx_trading_hours_end cx)
      else
        let cfg = param r ''allowed_hours'' (Py_str '''')
        in if truthy cfg
           then (case cfg of
                   Py_str s \<Rightarrow>
                     (case split_at CHR ''-'' s of
                        [a, b] \<Rightarrow> Some (strip a, strip b)
                      | _ \<Rightarrow> Some (default_start, default_end))
                 | _ \<Rightarrow> None)
           else Some (default_start, default_end))"

text \<open>\<open>clock\<close> is \<open>datetime.now(ZoneInfo(tz)).time()\<close>, \<^theory_text>\<open>None\<close> for an unknown or malformed zone.\<close>

definition evaluate_trading_hours ::
  "(string \<Rightarrow> int option) \<Rightarrow> rule \<Rightarrow> rule_context \<Rightarrow> rule_evaluation option" where
  "evaluate_trading_hours clock r cx =
     (case allowed_hours r cx of
        None \<Rightarrow> None
      | Some (start_str, end_str) \<Rightarrow>
          let zone = (if cx_timezone cx \<noteq> '''' then Py_str (cx_timezone cx)
                      else param r ''timezone'' (Py_str ''Asia/Seoul''));
              compare = (\<lambda>now.
                case (time_fromisoformat start_str, time_fromisoformat end_str) of
                  (Some st, Some en) \<Rightarrow>
                    if \<not> (st \<le> now \<and> now \<le> en)
                    then Some (evaluation r REJECT LOG (Outside_hours now (start_str @ ''-'' @ end_str)))
                    else passes r Within_hours
                | _ \<Rightarrow> None)
          in case cx_current_time cx of
               Some now \<Rightarrow> compare now
             | None \<Rightarrow>
                 (case zone of
                    Py_str tz \<Rightarrow>
                      (case clock tz of
                         None \<Rightarrow> Some (evaluation r REJECT LOG (Invalid_timezone zone))
                       | Some now \<Rightarrow> compare now)
                  | _ \<Rightarrow> None))"

subsection \<open>Strategy rules (strategy_rules.py)\<close>

definition evaluate_position_size :: "rule \<Rightarrow> rule_context \<Rightarrow> rule_evaluation option" where
  "evaluate_position_size r cx =
     (let max_percent = param r ''max_position_percent'' (Py_float (Fin (10/100)));
          max_amount = param r ''max_position_amount'' (Py_float PInf);
          current_value = abs (cx_current_position cx * cx_current_price cx)
      in case order_value cx of
           None \<Rightarrow> None
         | Some value \<Rightarrow>
             let total_value = fplus current_value value
             in case py_times (cx_bot_allocated_budget cx) max_percent of
                  None \<Rightarrow> None
                | Some balance_limit \<Rightarrow>
                    (case py_min max_amount (Py_float balance_limit) of
                       None \<Rightarrow> None
                     | Some limit \<Rightarrow>
                         (case (py_less limit (Py_float total_value), py_less (Py_int 0) limit) of
                            (Some exceeds, Some positive) \<Rightarrow>
                              if \<not> (exceeds \<and> positive) then passes r Position_size_within_limits
                              else if \<not> formats limit then None
                              else Some (evaluation r REJECT NOTIFY (Position_size_exceeded total_value limit))
                          | _ \<Rightarrow> None)))"

definition evaluate_unrealized_loss :: "rule \<Rightarrow> rule_context \<Rightarrow> rule_evaluation option" where
  "evaluate_unrealized_loss r cx =
     (let max_loss_pct = param r ''max_unrealized_loss_percent'' (Py_float (Fin (10/100)));
          budget = cx_bot_allocated_budget cx
      in if budget > 0 \<and> cx_unrealized_pnl cx < 0 \<and> cx_side cx = ''buy''
         then
           let loss_pct = abs (cx_unrealized_pnl cx) / budget
           in case py_less max_loss_pct (Py_float (Fin loss_pct)) of
                None \<Rightarrow> None
              | Some exceeded \<Rightarrow>
                  if \<not> exceeded then passes r Unrealized_loss_within_limits
                  else if \<not> formats max_loss_pct then None
                  else Some (evaluation r REJECT NOTIFY (Unrealized_loss_exceeded loss_pct max_loss_pct))
         else passes r Unrealized_loss_within_limits)"

definition evaluate_trade_frequency :: "rule \<Rightarrow> rule_context \<Rightarrow> rule_evaluation option" where
  "evaluate_trade_frequency r cx =
     (let max_trades = param r ''max_trades_per_hour'' (Py_int 10);
          recent = (case cx_recent_trade_count cx of None \<Rightarrow> 0 | Some n \<Rightarrow> n)
      in case py_less_eq max_trades (Py_int recent) of
           None \<Rightarrow> None
         | Some reached \<Rightarrow>
             if reached then Some (evaluation r REJECT LOG (Frequency_exceeded recent max_trades))
             else passes r Frequency_within_limits)"

definition evaluate_rule :: "(string \<Rightarrow> int option) \<Rightarrow> rule \<Rightarrow> rule_context \<Rightarrow> rule_evaluation option" where
  "evaluate_rule clock r cx =
     (case rl_kind r of
        Daily_loss_limit \<Rightarrow> evaluate_daily_loss r cx
      | Total_exposure_limit \<Rightarrow> evaluate_total_exposure r cx
      | Trading_hours \<Rightarrow> evaluate_trading_hours clock r cx
      | Position_size \<Rightarrow> evaluate_position_size r cx
      | Unrealized_loss_limit \<Rightarrow> evaluate_unrealized_loss r cx
      | Trade_frequency \<Rightarrow> evaluate_trade_frequency r cx)"

subsection \<open>Configuration checks\<close>

text \<open>\<open>_is_finite_numeric\<close>: a bool is not a number here.\<close>

fun is_finite_numeric :: "pyval \<Rightarrow> bool" where
  "is_finite_numeric (Py_int n) = int_fits_float n"
| "is_finite_numeric (Py_float x) = isfinite x"
| "is_finite_numeric _ = False"

datatype config_error =
    Not_finite string
  | Negative string
  | Above string rat
  | Bad_time string
  | Bad_hours string

text \<open>The value of a finite number.\<close>

fun number_of :: "pyval \<Rightarrow> rat" where
  "number_of (Py_int n) = of_int n"
| "number_of (Py_float x) = fval x"
| "number_of _ = 0"

definition check_number :: "string \<Rightarrow> rat option \<Rightarrow> (string, pyval) dict \<Rightarrow> config_error list" where
  "check_number key upper params =
     (case dict_get params key of
        None \<Rightarrow> []
      | Some v \<Rightarrow>
          if \<not> is_finite_numeric v then [Not_finite key]
          else if number_of v < 0 then [Negative key]
          else (case upper of
                  None \<Rightarrow> []
                | Some u \<Rightarrow> if number_of v > u then [Above key u] else []))"

definition check_time :: "string \<Rightarrow> (string, pyval) dict \<Rightarrow> config_error list" where
  "check_time key params =
     (case dict_get params key of
        None \<Rightarrow> []
      | Some (Py_str s) \<Rightarrow> if time_fromisoformat s = None then [Bad_time key] else []
      | Some _ \<Rightarrow> [Bad_time key])"

definition check_hours :: "string \<Rightarrow> (string, pyval) dict \<Rightarrow> config_error list" where
  "check_hours key params =
     (case dict_get params key of
        Some (Py_str s) \<Rightarrow>
          if CHR ''-'' \<in> set s
          then (case split_at CHR ''-'' s of
                  [a, b] \<Rightarrow> if time_fromisoformat (strip a) = None \<or> time_fromisoformat (strip b) = None
                            then [Bad_hours key] else []
                | _ \<Rightarrow> [])
          else if s \<noteq> '''' then [Bad_hours key] else []
      | _ \<Rightarrow> [])"

fun validate_config :: "rule_kind \<Rightarrow> (string, pyval) dict \<Rightarrow> config_error list" where
  "validate_config Daily_loss_limit params =
     check_number ''max_daily_loss_percent'' (Some 1) params @ check_number ''max_loss_pct'' (Some 100) params"
| "validate_config Total_exposure_limit params =
     check_number ''max_exposure_percent'' (Some 1) params @ check_number ''max_exposure_amount'' None params"
| "validate_config Trading_hours params =
     check_time ''allowed_hours_start'' params @ check_time ''allowed_hours_end'' params
       @ check_hours ''allowed_hours'' params"
| "validate_config Position_size params =
     check_number ''max_position_percent'' (Some 1) params @ check_number ''max_position_amount'' None params"
| "validate_config Unrealized_loss_limit params = check_number ''max_unrealized_loss_percent'' (Some 1) params"
| "validate_config Trade_frequency params = check_number ''max_trades_per_hour'' None params"

subsection \<open>Building rules and storing configurations\<close>

definition rule_registry :: "(string, rule_kind) dict" where
  "rule_registry =
     [(''daily_loss_limit'', Daily_loss_limit), (''total_exposure_limit'', Total_exposure_limit),
      (''trading_hours'', Trading_hours), (''position_size'', Position_size),
      (''unrealized_loss_limit'', Unrealized_loss_limit), (''trade_frequency'', Trade_frequency)]"

definition config_type :: "rule_config \<Rightarrow> pyval" where
  "config_type cfg = dict_default Py_none cfg ''type''"

definition create_rule :: "rule_config \<Rightarrow> rule option" where
  "create_rule cfg =
     (case config_type cfg of
        Py_str t \<Rightarrow>
          (case dict_get rule_registry t of
             None \<Rightarrow> None
           | Some kind \<Rightarrow>
               Some \<lparr>rl_kind = kind,
                     rl_rule_id = dict_default (Py_str t) cfg ''id'', rl_config = cfg\<rparr>)
      | _ \<Rightarrow> None)"

definition default_rules_by_broker_type :: "(string, rule_config list) dict" where
  "default_rules_by_broker_type =
     [(''kis-domestic'', [[(''type'', Py_str ''trading_hours''), (''enabled'', Py_bool True)]]), (''test'', [])]"

definition resolve_effective_rules :: "string \<Rightarrow> rule_config list option \<Rightarrow> rule_config list" where
  "resolve_effective_rules broker_type stored =
     (let defaults = dict_default [] default_rules_by_broker_type broker_type;
          overrides = (case stored of None \<Rightarrow> [] | Some cs \<Rightarrow> cs)
      in filter (\<lambda>d. config_type d \<notin> config_type ` set overrides) defaults @ overrides)"

text \<open>The update of one stored rule: the first of its type is replaced, or it is appended.\<close>

fun replace_rule :: "string \<Rightarrow> rule_config \<Rightarrow> rule_config list \<Rightarrow> rule_config list" where
  "replace_rule rule_type new [] = [new]"
| "replace_rule rule_type new (cfg # cfgs) =
     (if config_type cfg = Py_str rule_type then new # cfgs else cfg # replace_rule rule_type new cfgs)"

datatype update_error = Unknown_rule_type string | Config_invalid "config_error list"

definition item_to_rule_config :: "string \<Rightarrow> bool \<Rightarrow> (string, pyval) dict \<Rightarrow> rule_config" where
  "item_to_rule_config rule_type enabled params =
     fold (\<lambda>(k, v) cfg. dict_set k v cfg) params
       [(''type'', Py_str rule_type), (''enabled'', Py_bool enabled)]"

definition rule_config_to_item :: "rule_config \<Rightarrow> pyval \<times> pyval \<times> (string, pyval) dict" where
  "rule_config_to_item cfg =
     (dict_default (Py_str '''') cfg ''type'', dict_default (Py_bool True) cfg ''enabled'',
      filter (\<lambda>(k, _). k \<notin> set [''type'', ''id'', ''enabled'']) cfg)"

text \<open>
  \<open>update_account_rule_config\<close> after the account was found: the list that is stored under the
  account's key.  \<open>dynamic\<close> is the stored value (\<^theory_text>\<open>None\<close>: absent, not a list or the read raised),
  \<open>static_rules\<close> the fallback of the static configuration.
\<close>

definition update_account_rule_config ::
  "string \<Rightarrow> bool \<Rightarrow> (string, pyval) dict \<Rightarrow> rule_config list option \<Rightarrow> rule_config list option \<Rightarrow>
     update_error + rule_config list" where
  "update_account_rule_config rule_type enabled params dynamic static_rules =
     (case dict_get rule_registry rule_type of
        None \<Rightarrow> Inl (Unknown_rule_type rule_type)
      | Some kind \<Rightarrow>
          let errors = validate_config kind params
          in if errors \<noteq> [] then Inl (Config_invalid errors)
             else
               let raw = (case dynamic of None \<Rightarrow> [] | Some cs \<Rightarrow> cs);
                   raw' = (if raw = [] then (case static_rules of None \<Rightarrow> [] | Some cs \<Rightarrow> cs) else raw)
               in Inr (replace_rule rule_type (item_to_rule_config rule_type enabled params) raw'))"

end
