(* ===== verification/Rule_Engine.thy ===== *)
theory Rule_Engine
  imports Rules Order_Events Treasury_Sync
begin

text \<open>
  \<open>src/src/ante/rule/engine.py\<close>: the engine that turns an order request of a strategy into a
  validated or a rejected order.

  \<open>rule_engine\<close> is the object's own state.  \<open>rule_env\<close> holds the answers it gets from outside while it
  handles one event; a call that raises answers \<^theory_text>\<open>None\<close>.  The handler publishes a list of events
  and may be interrupted by an exception: \<^theory_text>\<open>(outs, True)\<close> is what was published before it.
  \<open>rv_age\<close> is the age in seconds of an ISO timestamp, \<^theory_text>\<open>None\<close> where the code cannot compute one.
  Reasons and notifications are constructors with the values their texts show; the label of an
  instrument in a notification is its symbol and exchange.
\<close>

subsection \<open>Fields that may hold anything\<close>

fun is_finite_quantity :: "pyval \<Rightarrow> bool" where
  "is_finite_quantity (Py_int n) = int_fits_float n"
| "is_finite_quantity (Py_float x) = isfinite x"
| "is_finite_quantity _ = False"

definition coerce_finite_quantity :: "pyval \<Rightarrow> rat" where
  "coerce_finite_quantity v = (if \<not> is_finite_quantity v then 0 else number_of v)"

definition coerce_finite_optional_price :: "pyval \<Rightarrow> rat option" where
  "coerce_finite_optional_price v =
     (if v = Py_none then None else if \<not> is_finite_quantity v then None else Some (number_of v))"

text \<open>\<open>repr\<close> of an int of more than 4300 digits raises.\<close>

definition int_repr_limit :: int where
  "int_repr_limit = 10 ^ 4300"

fun renders :: "pyval \<Rightarrow> bool" where
  "renders (Py_int n) = (abs n < int_repr_limit)"
| "renders (Py_other _ r _) = (r \<noteq> None)"
| "renders _ = True"

fun type_name :: "pyval \<Rightarrow> string" where
  "type_name Py_none = ''NoneType''"
| "type_name (Py_bool _) = ''bool''"
| "type_name (Py_int _) = ''int''"
| "type_name (Py_float _) = ''float''"
| "type_name (Py_str _) = ''str''"
| "type_name (Py_other t _ _) = t"

datatype safe_text = Text string | Repr_of pyval | Unrenderable string

definition safe_repr :: "pyval \<Rightarrow> safe_text" where
  "safe_repr v = (if renders v then Repr_of v else Unrenderable (type_name v))"

definition safe_str :: "pyval \<Rightarrow> safe_text" where
  "safe_str v = (case v of Py_str s \<Rightarrow> Text s | _ \<Rightarrow> safe_repr v)"

definition py_text :: "pyval \<Rightarrow> string" where
  "py_text v = (case v of Py_str s \<Rightarrow> s | _ \<Rightarrow> '''')"

subsection \<open>Events and answers\<close>

datatype engine_reason =
    Status_reason string
  | Not_ready_reason string
  | Invalid_side safe_text
  | Invalid_order_type safe_text
  | Invalid_symbol string
  | Missing_price string
  | Missing_stop_price string
  | Invalid_stop_price safe_text
  | Negative_stop_price rat
  | Zero_stop_price
  | Invalid_quantity safe_text
  | Invalid_price safe_text
  | Negative_price rat
  | Zero_price
  | Negative_quantity rat
  | Zero_quantity
  | Unrecovered_buy string string rat order_status rat
  | Rule_reason "rule_message option"
  | Preflight_error

record rejected_order =
  rj_account_id :: string
  rj_order_id :: string
  rj_bot_id :: string
  rj_strategy_id :: string
  rj_symbol :: string
  rj_side :: safe_text
  rj_quantity :: rat
  rj_price :: "rat option"
  rj_order_type :: safe_text
  rj_reason :: engine_reason
  rj_exchange :: string

datatype engine_out =
    Out_validated order_validated
  | Out_rejected rejected_order
  | Out_not_ready notification
  | Out_rule_warning rule_message
  | Out_violation string string string
  | Out_stop_bot string
  | Out_suspend string

record account_meta =
  am_broker_type :: "string option"
  am_trading_mode :: "trading_mode option"

record account_hours =
  ah_start :: string
  ah_end :: string
  ah_timezone :: string

record service_replies =
  sr_status :: "fetched_account option option"
  sr_meta :: "account_meta option"
  sr_hours :: "account_hours option"
  sr_suspend_raises :: bool

record treasury_replies =
  tq_summary :: "(rat \<times> rat \<times> rat) option"
  tq_budget :: "string \<Rightarrow> rat option option"
  tq_yesterday_total_asset :: "rat option option"
  tq_latest_daily_pnl :: "rat option option"

record tracker_replies =
  tk_open_buys :: "string \<Rightarrow> string \<Rightarrow> order_row list option"
  tk_get :: "string \<Rightarrow> order_row option option"

record rule_env =
  rv_service :: "service_replies option"
  rv_registry :: "readiness_reader option"
  rv_treasury :: "treasury_replies option"
  rv_tracker :: "tracker_replies option"
  rv_positions :: "(string \<Rightarrow> (position_key \<times> position) list option) option"
  rv_age :: "string \<Rightarrow> rat option"
  rv_clock :: "string \<Rightarrow> int option"

record rule_engine =
  en_account_id :: string
  en_account :: "account_meta option"
  en_guard_min_age :: rat
  en_overlap_default :: bool
  en_overlap_by_bot :: "(string, bool) dict"
  en_account_rules :: "rule list"
  en_strategy_rules :: "(string, rule list) dict"

definition build_safe_rejected_event :: "rule_engine \<Rightarrow> order_request \<Rightarrow> engine_reason \<Rightarrow> engine_out" where
  "build_safe_rejected_event en ev reason =
     Out_rejected
       \<lparr>rj_account_id = en_account_id en, rj_order_id = or_event_id ev, rj_bot_id = or_bot_id ev,
        rj_strategy_id = or_strategy_id ev, rj_symbol = or_symbol ev, rj_side = safe_str (or_side ev),
        rj_quantity = coerce_finite_quantity (or_quantity ev),
        rj_price = coerce_finite_optional_price (or_price ev),
        rj_order_type = safe_str (or_order_type ev), rj_reason = reason, rj_exchange = or_exchange ev\<rparr>"

subsection \<open>Managing rules\<close>

definition add_account_rule :: "rule \<Rightarrow> rule_engine \<Rightarrow> rule_engine" where
  "add_account_rule r en = en\<lparr>en_account_rules := sort_key rl_priority (en_account_rules en @ [r])\<rparr>"

definition add_strategy_rule :: "string \<Rightarrow> rule \<Rightarrow> rule_engine \<Rightarrow> rule_engine" where
  "add_strategy_rule strategy_id r en =
     en\<lparr>en_strategy_rules := dict_set strategy_id
          (sort_key rl_priority (dict_default [] (en_strategy_rules en) strategy_id @ [r]))
          (en_strategy_rules en)\<rparr>"

definition set_unrecovered_buy_overlap :: "string \<Rightarrow> bool \<Rightarrow> rule_engine \<Rightarrow> rule_engine" where
  "set_unrecovered_buy_overlap bot_id allow en =
     en\<lparr>en_overlap_by_bot := dict_set bot_id allow (en_overlap_by_bot en)\<rparr>"

definition remove_strategy_rules :: "string \<Rightarrow> rule_engine \<Rightarrow> rule_engine" where
  "remove_strategy_rules strategy_id en =
     en\<lparr>en_strategy_rules := dict_pop strategy_id (en_strategy_rules en)\<rparr>"

definition clear_rules :: "rule_engine \<Rightarrow> rule_engine" where
  "clear_rules en = en\<lparr>en_account_rules := [], en_strategy_rules := []\<rparr>"

definition load_rules_from_config :: "rule_config list \<Rightarrow> rule_engine \<Rightarrow> rule_engine" where
  "load_rules_from_config cfgs en =
     en\<lparr>en_account_rules :=
          sort_key rl_priority (en_account_rules en @ List.map_filter create_rule cfgs)\<rparr>"

definition load_strategy_rules_from_config :: "string \<Rightarrow> rule_config list \<Rightarrow> rule_engine \<Rightarrow> rule_engine" where
  "load_strategy_rules_from_config strategy_id cfgs en =
     en\<lparr>en_strategy_rules := dict_set strategy_id
          (sort_key rl_priority (List.map_filter create_rule cfgs)) (en_strategy_rules en)\<rparr>"

datatype rule_error = No_resolver | No_strategy string

definition update_rules ::
  "(string \<Rightarrow> string option) option \<Rightarrow> string \<Rightarrow> rule_config list \<Rightarrow> rule_engine \<Rightarrow> rule_error + rule_engine"
where
  "update_rules resolver bot_id cfgs en =
     (case resolver of
        None \<Rightarrow> Inl No_resolver
      | Some strategy_of \<Rightarrow>
          (case strategy_of bot_id of
             None \<Rightarrow> Inl (No_strategy bot_id)
           | Some sid \<Rightarrow>
               if sid = '''' then Inl (No_strategy bot_id)
               else Inr (load_strategy_rules_from_config sid cfgs en)))"

text \<open>
  \<open>_on_config_changed\<close>: \<open>new_rules\<close> is the parsed value, \<^theory_text>\<open>None\<close> if it is not JSON or not a list.
\<close>

definition last_part :: "string \<Rightarrow> string" where
  "last_part key = last (split_at CHR ''.'' key)"

definition on_config_changed ::
  "string \<Rightarrow> string \<Rightarrow> rule_config list option \<Rightarrow> rule_engine \<Rightarrow> rule_engine" where
  "on_config_changed category key new_rules en =
     (if category \<notin> set [''rule'', ''global_rule'', ''strategy_rule''] then en
      else if category = ''rule'' \<and> key \<noteq> ''accounts.'' @ en_account_id en @ ''.rules'' then en
      else
        case new_rules of
          None \<Rightarrow> en
        | Some cfgs \<Rightarrow>
            if category \<in> set [''rule'', ''global_rule'']
            then
              let cleared = en\<lparr>en_account_rules := []\<rparr>
              in (case en_account en of
                    None \<Rightarrow> load_rules_from_config cfgs cleared
                  | Some meta \<Rightarrow>
                      load_rules_from_config
                        (resolve_effective_rules (case am_broker_type meta of None \<Rightarrow> '''' | Some b \<Rightarrow> b)
                           (Some cfgs)) cleared)
            else load_strategy_rules_from_config (last_part key) cfgs en)"

subsection \<open>Evaluation\<close>

definition is_blocking :: "rule_evaluation \<Rightarrow> bool" where
  "is_blocking e \<longleftrightarrow> re_result e \<in> set [BLOCK, REJECT]"

text \<open>The loop over a rule list, up to the first blocking evaluation.\<close>

fun evaluate_rules :: "(string \<Rightarrow> int option) \<Rightarrow> rule_context \<Rightarrow> rule list \<Rightarrow> rule_evaluation list option" where
  "evaluate_rules clock cx [] = Some []"
| "evaluate_rules clock cx (r # rs) =
     (if \<not> is_applicable r then evaluate_rules clock cx rs
      else (case evaluate_rule clock r cx of
              None \<Rightarrow> None
            | Some e \<Rightarrow>
                if is_blocking e then Some [e]
                else map_option ((#) e) (evaluate_rules clock cx rs)))"

fun aggregate_results ::
  "rule_evaluation list \<Rightarrow> rule_result \<Rightarrow> rule_action list \<Rightarrow>
     rule_result \<times> rule_message option \<times> rule_action list" where
  "aggregate_results [] overall actions = (overall, None, actions)"
| "aggregate_results (e # es) overall actions =
     (let actions' = (if re_action e \<noteq> LOG then actions @ [re_action e] else actions)
      in if re_result e = BLOCK then (BLOCK, Some (re_message e), actions')
         else if re_result e = REJECT then (REJECT, Some (re_message e), actions')
         else aggregate_results es
                (if re_result e = WARN \<and> overall = PASS then WARN else overall) actions')"

record evaluation_result =
  vr_overall_result :: rule_result
  vr_evaluations :: "rule_evaluation list"
  vr_rejection_reason :: "rule_message option"
  vr_actions :: "rule_action list"

definition evaluate :: "rule_engine \<Rightarrow> (string \<Rightarrow> int option) \<Rightarrow> rule_context \<Rightarrow> evaluation_result option" where
  "evaluate en clock cx =
     (case evaluate_rules clock cx (en_account_rules en) of
        None \<Rightarrow> None
      | Some es \<Rightarrow>
          let all = (if list_ex is_blocking es then Some es
                     else map_option ((@) es)
                            (evaluate_rules clock cx
                               (dict_default [] (en_strategy_rules en) (cx_strategy_id cx))))
          in map_option
               (\<lambda>evs. let (overall, reason, actions) = aggregate_results evs PASS []
                      in \<lparr>vr_overall_result = overall, vr_evaluations = evs,
                          vr_rejection_reason = reason, vr_actions = actions\<rparr>) all)"

subsection \<open>What the engine reads\<close>

record treasury_data =
  dt_daily_pnl :: rat
  dt_total_pnl :: rat
  dt_prev_day_total_asset :: rat
  dt_total_asset :: rat
  dt_total_exposure :: rat
  dt_bot_allocated_budget :: rat

definition no_treasury_data :: treasury_data where
  "no_treasury_data =
     \<lparr>dt_daily_pnl = 0, dt_total_pnl = 0, dt_prev_day_total_asset = 0, dt_total_asset = 0,
      dt_total_exposure = 0, dt_bot_allocated_budget = 0\<rparr>"

text \<open>A lookup that raises, or finds nothing, leaves 0.\<close>

definition query_treasury_data :: "treasury_replies option \<Rightarrow> string \<Rightarrow> treasury_data" where
  "query_treasury_data treasury bot_id =
     (case treasury of
        None \<Rightarrow> no_treasury_data
      | Some t \<Rightarrow>
          let (pnl, asset, exposure) = (case tq_summary t of None \<Rightarrow> (0, 0, 0) | Some x \<Rightarrow> x);
              found = (\<lambda>r. case r of Some (Some x) \<Rightarrow> x | _ \<Rightarrow> 0)
          in \<lparr>dt_daily_pnl = found (tq_latest_daily_pnl t), dt_total_pnl = pnl,
              dt_prev_day_total_asset = found (tq_yesterday_total_asset t), dt_total_asset = asset,
              dt_total_exposure = exposure,
              dt_bot_allocated_budget = (if bot_id = '''' then 0 else found (tq_budget t bot_id))\<rparr>)"

text \<open>The answers of the modelled treasury.\<close>

definition replies_of_treasury :: "treasury_config \<Rightarrow> string \<Rightarrow> treasury \<Rightarrow> treasury_replies" where
  "replies_of_treasury c yesterday s =
     (let su = get_summary s
      in \<lparr>tq_summary = Some (af_total_profit_loss (su_figures su), af_total_evaluation (su_figures su),
                             su_ante_eval_amount su),
          tq_budget = (\<lambda>b. Some (map_option bb_allocated (get_budget b s))),
          tq_yesterday_total_asset = Some (map_option sn_total_asset (get_daily_snapshot c yesterday s)),
          tq_latest_daily_pnl = Some (map_option (\<lambda>(_, sn). sn_daily_pnl sn) (get_latest_snapshot c s))\<rparr>)"

definition calculate_bot_unrealized_pnl ::
  "(string \<Rightarrow> (position_key \<times> position) list option) option \<Rightarrow> string \<Rightarrow> rat \<Rightarrow> string \<Rightarrow> rat" where
  "calculate_bot_unrealized_pnl positions bot_id current_price order_symbol =
     (case positions of
        None \<Rightarrow> 0
      | Some get \<Rightarrow>
          (case get bot_id of
             None \<Rightarrow> 0
           | Some ps \<Rightarrow>
               sum_list (map (\<lambda>((_, _, sy), p). if sy = order_symbol
                                then (current_price - ps_avg_entry_price p) * ps_quantity p else 0) ps)))"

definition unrecovered_buy_age_seconds :: "(string \<Rightarrow> rat option) \<Rightarrow> string option \<Rightarrow> rat option" where
  "unrecovered_buy_age_seconds age submitted_at =
     (case submitted_at of
        None \<Rightarrow> None
      | Some s \<Rightarrow> if s = '''' then None else map_option (\<lambda>a. max a 0) (age s))"

text \<open>The guard: \<^theory_text>\<open>None\<close> if a lookup raises, \<^theory_text>\<open>Some (Some reason)\<close> to reject.\<close>

definition is_aged :: "rule_engine \<Rightarrow> rule_env \<Rightarrow> order_row \<Rightarrow> bool" where
  "is_aged en env o' \<longleftrightarrow>
     (case unrecovered_buy_age_seconds (rv_age env) (ot_submitted_at o') of
        None \<Rightarrow> False
      | Some age \<Rightarrow> age \<ge> en_guard_min_age en)"

definition check_unrecovered_buy_guard ::
  "rule_engine \<Rightarrow> rule_env \<Rightarrow> order_request \<Rightarrow> engine_reason option option" where
  "check_unrecovered_buy_guard en env ev =
     (case (rv_tracker env, rv_positions env) of
        (Some tracker, Some get_positions') \<Rightarrow>
          if or_side ev \<noteq> Py_str ''buy'' then Some None
          else if dict_default (en_overlap_default en) (en_overlap_by_bot en) (or_bot_id ev) then Some None
          else
            (case tk_open_buys tracker (or_bot_id ev) (or_symbol ev) of
               None \<Rightarrow> None
             | Some open_orders \<Rightarrow>
                 let unrecovered = filter (\<lambda>o'. ot_ordered_qty o' - ot_recorded_filled_qty o' > 0) open_orders
                 in if unrecovered = [] then Some None
                    else
                      (case filter (is_aged en env) unrecovered of
                         [] \<Rightarrow> Some None
                       | oldest # _ \<Rightarrow>
                           (case get_positions' (or_bot_id ev) of
                              None \<Rightarrow> None
                            | Some ps \<Rightarrow>
                                let held_qty = sum_list (map (\<lambda>((_, _, sy), p).
                                      if sy = or_symbol ev then ps_quantity p else 0) ps)
                                in if held_qty \<noteq> 0 then Some None
                                   else Some (Some (Unrecovered_buy (ot_order_id oldest) (or_symbol ev)
                                          (ot_ordered_qty oldest - ot_recorded_filled_qty oldest)
                                          (ot_status oldest) (en_guard_min_age en))))))
      | _ \<Rightarrow> Some None)"

text \<open>Broker type and trading mode for the gate: the engine's snapshot, else the service.\<close>

definition complete_meta :: "account_meta \<Rightarrow> (string \<times> trading_mode) option" where
  "complete_meta m =
     (case (am_broker_type m, am_trading_mode m) of (Some b, Some t) \<Rightarrow> Some (b, t) | _ \<Rightarrow> None)"

definition resolve_account_meta :: "rule_engine \<Rightarrow> rule_env \<Rightarrow> (string \<times> trading_mode) option" where
  "resolve_account_meta en env =
     (case (case en_account en of None \<Rightarrow> None | Some m \<Rightarrow> complete_meta m) of
        Some x \<Rightarrow> Some x
      | None \<Rightarrow>
          (case rv_service env of
             None \<Rightarrow> None
           | Some svc \<Rightarrow> (case sr_meta svc of None \<Rightarrow> None | Some m \<Rightarrow> complete_meta m)))"

definition engine_account_status :: "rule_engine \<Rightarrow> rule_env \<Rightarrow> status_view" where
  "engine_account_status en env =
     resolve_account_status
       (map_option (\<lambda>svc. \<lparr>svc_get = Some (\<lambda>_. sr_status svc)\<rparr>) (rv_service env)) (en_account_id en)"

definition default_hours :: account_hours where
  "default_hours = \<lparr>ah_start = ''09:00'', ah_end = ''15:30'', ah_timezone = ''Asia/Seoul''\<rparr>"

definition account_hours_of :: "rule_env \<Rightarrow> account_hours" where
  "account_hours_of env =
     (case rv_service env of
        None \<Rightarrow> default_hours
      | Some svc \<Rightarrow> (case sr_hours svc of None \<Rightarrow> default_hours | Some h \<Rightarrow> h))"

text \<open>The context both handlers build; what they do not set keeps its default.\<close>

definition make_context ::
  "rule_engine \<Rightarrow> rule_env \<Rightarrow> string \<Rightarrow> string \<Rightarrow> string \<Rightarrow> string \<Rightarrow> pyval \<Rightarrow> string \<Rightarrow> rat option \<Rightarrow> rat \<Rightarrow>
     rule_context" where
  "make_context en env bot_id strategy_id symbol side quantity order_type price current_price =
     (let d = query_treasury_data (rv_treasury env) bot_id;
          h = account_hours_of env
      in \<lparr>cx_bot_id = bot_id, cx_account_id = en_account_id en, cx_strategy_id = strategy_id,
          cx_symbol = symbol, cx_side = side, cx_quantity = quantity, cx_order_type = order_type,
          cx_price = price, cx_current_price = current_price, cx_current_position = 0,
          cx_bot_allocated_budget = dt_bot_allocated_budget d,
          cx_unrealized_pnl = calculate_bot_unrealized_pnl (rv_positions env) bot_id current_price symbol,
          cx_daily_pnl = dt_daily_pnl d, cx_total_pnl = dt_total_pnl d,
          cx_prev_day_total_asset = dt_prev_day_total_asset d, cx_total_asset = dt_total_asset d,
          cx_total_exposure = dt_total_exposure d, cx_trading_hours_start = ah_start h,
          cx_trading_hours_end = ah_end h, cx_timezone = ah_timezone h, cx_current_time = None,
          cx_recent_trade_count = None\<rparr>)"

subsection \<open>Order requests\<close>

definition valid_order_sides :: "string list" where
  "valid_order_sides = [''buy'', ''sell'']"

definition valid_order_types :: "string list" where
  "valid_order_types = [''market'', ''limit'', ''stop'', ''stop_limit'']"

definition is_krx_symbol :: "string \<Rightarrow> bool" where
  "is_krx_symbol s \<longleftrightarrow> length s = 6 \<and> list_all is_digit_char s"

definition one_of :: "string list \<Rightarrow> pyval \<Rightarrow> bool" where
  "one_of xs v = (case v of Py_str s \<Rightarrow> s \<in> set xs | _ \<Rightarrow> False)"

text \<open>The contract checks, in the order of the code.\<close>

definition preflight_shape :: "order_request \<Rightarrow> engine_reason option" where
  "preflight_shape ev =
     (if \<not> one_of valid_order_sides (or_side ev) then Some (Invalid_side (safe_repr (or_side ev)))
      else if \<not> one_of valid_order_types (or_order_type ev)
      then Some (Invalid_order_type (safe_repr (or_order_type ev)))
      else if or_exchange ev = ''KRX'' \<and> \<not> is_krx_symbol (or_symbol ev)
      then Some (Invalid_symbol (or_symbol ev))
      else if one_of [''limit'', ''stop_limit''] (or_order_type ev) \<and> or_price ev = Py_none
      then Some (Missing_price (py_text (or_order_type ev)))
      else if one_of [''stop'', ''stop_limit''] (or_order_type ev) \<and> or_stop_price ev = Py_none
      then Some (Missing_stop_price (py_text (or_order_type ev)))
      else if or_stop_price ev \<noteq> Py_none \<and> \<not> is_finite_quantity (or_stop_price ev)
      then Some (Invalid_stop_price (safe_repr (or_stop_price ev)))
      else if or_stop_price ev \<noteq> Py_none \<and> number_of (or_stop_price ev) < 0
      then Some (Negative_stop_price (number_of (or_stop_price ev)))
      else if or_stop_price ev \<noteq> Py_none \<and> number_of (or_stop_price ev) = 0 then Some Zero_stop_price
      else None)"

definition preflight_amounts :: "order_request \<Rightarrow> engine_reason option" where
  "preflight_amounts ev =
     (if \<not> is_finite_quantity (or_quantity ev) then Some (Invalid_quantity (safe_repr (or_quantity ev)))
      else if or_price ev \<noteq> Py_none \<and> \<not> is_finite_quantity (or_price ev)
      then Some (Invalid_price (safe_repr (or_price ev)))
      else if or_price ev \<noteq> Py_none \<and> number_of (or_price ev) < 0
      then Some (Negative_price (number_of (or_price ev)))
      else if or_price ev \<noteq> Py_none \<and> number_of (or_price ev) = 0 then Some Zero_price
      else if number_of (or_quantity ev) < 0 then Some (Negative_quantity (number_of (or_quantity ev)))
      else if number_of (or_quantity ev) = 0 then Some Zero_quantity
      else None)"

definition preflight :: "order_request \<Rightarrow> engine_reason option" where
  "preflight ev = (case preflight_shape ev of Some r \<Rightarrow> Some r | None \<Rightarrow> preflight_amounts ev)"

text \<open>\<open>_execute_actions\<close>, in order, up to an action that raises.\<close>

fun execute_actions ::
  "rule_env \<Rightarrow> rule_engine \<Rightarrow> order_request \<Rightarrow> rule_action list \<Rightarrow> engine_out list \<times> bool" where
  "execute_actions env en ev [] = ([], False)"
| "execute_actions env en ev (a # as) =
     (let rest = execute_actions env en ev as;
          after = (\<lambda>out. (out # fst rest, snd rest))
      in case a of
           NOTIFY \<Rightarrow> after (Out_violation (or_bot_id ev) (or_symbol ev) (or_exchange ev))
         | STOP_BOT \<Rightarrow> after (Out_stop_bot (or_bot_id ev))
         | HALT_ACCOUNT \<Rightarrow>
             (case rv_service env of
                None \<Rightarrow> rest
              | Some svc \<Rightarrow>
                  if sr_suspend_raises svc then ([], True) else after (Out_suspend (en_account_id en)))
         | _ \<Rightarrow> rest)"

definition optional_number :: "pyval \<Rightarrow> rat option" where
  "optional_number v = (if v = Py_none then None else Some (number_of v))"

definition validated_event :: "rule_engine \<Rightarrow> order_request \<Rightarrow> order_validated" where
  "validated_event en ev =
     \<lparr>vd_account_id = en_account_id en, vd_order_id = or_event_id ev, vd_bot_id = or_bot_id ev,
      vd_strategy_id = or_strategy_id ev, vd_symbol = or_symbol ev, vd_side = py_text (or_side ev),
      vd_quantity = number_of (or_quantity ev), vd_price = optional_number (or_price ev),
      vd_order_type = py_text (or_order_type ev), vd_stop_price = optional_number (or_stop_price ev),
      vd_reason = or_reason ev, vd_exchange = or_exchange ev\<rparr>"

definition reject_and_notify ::
  "rule_engine \<Rightarrow> order_request \<Rightarrow> engine_reason \<Rightarrow> string \<Rightarrow> engine_out list \<times> bool" where
  "reject_and_notify en ev reason text =
     ([build_safe_rejected_event en ev reason,
       Out_not_ready (build_not_ready_notification (en_account_id en) text (py_text (or_side ev))
                        (is_liquidation_reason (or_reason ev)))], False)"

text \<open>The end of the handler: evaluate the rules and publish.\<close>

definition evaluate_request :: "rule_engine \<Rightarrow> rule_env \<Rightarrow> order_request \<Rightarrow> engine_out list \<times> bool" where
  "evaluate_request en env ev =
     (let current_price = (case optional_number (or_price ev) of None \<Rightarrow> 0 | Some p \<Rightarrow> p);
          cx = make_context en env (or_bot_id ev) (or_strategy_id ev) (or_symbol ev) (py_text (or_side ev))
                 (or_quantity ev) (py_text (or_order_type ev)) (optional_number (or_price ev)) current_price
      in case evaluate en (rv_clock env) cx of
           None \<Rightarrow> ([], True)
         | Some result \<Rightarrow>
             if vr_overall_result result \<in> set [PASS, WARN]
             then (Out_validated (validated_event en ev)
                     # (if vr_overall_result result = WARN
                        then map (\<lambda>e. Out_rule_warning (re_message e))
                               (filter (\<lambda>e. re_result e = WARN) (vr_evaluations result))
                        else []), False)
             else
               let (outs, raised) = execute_actions env en ev (vr_actions result)
               in (build_safe_rejected_event en ev (Rule_reason (vr_rejection_reason result)) # outs, raised))"

text \<open>The body of the \<open>try\<close>.\<close>

definition handle_order_request :: "rule_engine \<Rightarrow> rule_env \<Rightarrow> order_request \<Rightarrow> engine_out list \<times> bool" where
  "handle_order_request en env ev =
     (case engine_account_status en env of
        Status SUSPENDED \<Rightarrow>
          reject_and_notify en ev (Status_reason account_suspended_reason) account_suspended_reason
      | Status_unavailable \<Rightarrow>
          reject_and_notify en ev (Status_reason account_status_unavailable_reason)
            account_status_unavailable_reason
      | _ \<Rightarrow>
          let (blocked, reason) =
                (case resolve_account_meta en env of
                   None \<Rightarrow> (True, account_not_ready_reason @ '': account_metadata_unavailable'')
                 | Some (broker_type, mode) \<Rightarrow>
                     (active_trading_blocked (rv_registry env) (en_account_id en) broker_type mode,
                      not_ready_reason (rv_registry env) (en_account_id en) broker_type mode))
          in if blocked then reject_and_notify en ev (Not_ready_reason reason) reason
             else
               (case preflight ev of
                  Some r \<Rightarrow> ([build_safe_rejected_event en ev r], False)
                | None \<Rightarrow>
                    (case check_unrecovered_buy_guard en env ev of
                       None \<Rightarrow> ([], True)
                     | Some (Some r) \<Rightarrow> ([build_safe_rejected_event en ev r], False)
                     | Some None \<Rightarrow> evaluate_request en env ev)))"

definition on_order_request :: "rule_engine \<Rightarrow> rule_env \<Rightarrow> order_request \<Rightarrow> engine_out list" where
  "on_order_request en env ev =
     (if or_account_id ev \<noteq> en_account_id en then []
      else
        let (outs, raised) = handle_order_request en env ev
        in if raised then outs @ [build_safe_rejected_event en ev Preflight_error] else outs)"

subsection \<open>Modifications\<close>

datatype modify_reason = Modify_invalid_args | Modify_rule_rejected "rule_message option" | Rule_evaluation_error

text \<open>Symbol and side are filled in from the tracked order of the same account.\<close>

definition enrich_modify :: "rule_env \<Rightarrow> order_modify \<Rightarrow> order_modify" where
  "enrich_modify env ev =
     (if om_symbol ev \<noteq> '''' \<or> om_side ev \<noteq> '''' then ev
      else
        case rv_tracker env of
          None \<Rightarrow> ev
        | Some tracker \<Rightarrow>
            (case tk_get tracker (om_order_id ev) of
               Some (Some record) \<Rightarrow>
                 if ot_account_id record = om_account_id ev
                 then ev\<lparr>om_symbol := ot_symbol record, om_side := ot_side record\<rparr> else ev
             | _ \<Rightarrow> ev))"

text \<open>The rejection, if there is one, and the event the next handler sees.\<close>

definition on_order_modify ::
  "rule_engine \<Rightarrow> rule_env \<Rightarrow> order_modify \<Rightarrow> modify_reason option \<times> order_modify" where
  "on_order_modify en env ev0 =
     (if om_account_id ev0 \<noteq> en_account_id en then (None, ev0)
      else
        let ev = enrich_modify env ev0
        in if \<not> is_finite_quantity (om_price ev) \<or> number_of (om_price ev) \<le> 0
           then (Some Modify_invalid_args, ev\<lparr>om_consumed := True\<rparr>)
           else
             let price = number_of (om_price ev);
                 cx = make_context en env (om_bot_id ev) (om_strategy_id ev) (om_symbol ev) (om_side ev)
                        (om_quantity ev) ''limit'' (Some price) price
             in case evaluate en (rv_clock env) cx of
                  None \<Rightarrow> (Some Rule_evaluation_error, ev\<lparr>om_consumed := True\<rparr>)
                | Some result \<Rightarrow>
                    if vr_overall_result result \<in> set [BLOCK, REJECT]
                    then (Some (Modify_rule_rejected (vr_rejection_reason result)), ev\<lparr>om_consumed := True\<rparr>)
                    else (None, ev))"

end
