(* ===== verification/Stop_Orders.thy ===== *)
theory Stop_Orders
  imports Order_Events
begin

text \<open>
  \<open>src/src/ante/gateway/stop_order.py\<close>: stop orders emulated on a market that has none.  A stop order is
  registered, triggered by a price of its own symbol and account inside its session (and turned into
  an ordinary order request), cancelled, or expired.

  A call is one step: the \<open>shield\<close> of the expiry task only protects the publication against a
  cancellation of the caller.  In the code \<open>on_price_update\<close> awaits the publications between the orders
  of its snapshot without looking again at whether an order was triggered or expired meanwhile; a call
  that overlaps another (an expiry during a price update) is not represented.  The clock of a call is the minute of the UTC day and the business
  date; \<open>fresh\<close> is the event id of the request made from a stop order.  A price is any float.
  \<open>registered_at\<close> is read by nothing and left out.
\<close>

subsection \<open>State\<close>

record stop_order =
  so_stop_order_id :: string
  so_order_id :: string
  so_bot_id :: string
  so_strategy_id :: string
  so_symbol :: string
  so_side :: string
  so_quantity :: rat
  so_order_type :: string
  so_stop_price :: rat
  so_limit_price :: "rat option"
  so_trading_session :: string
  so_account_id :: string
  so_triggered :: bool
  so_expired :: bool
  so_exchange :: string
  so_entered_session :: bool

text \<open>The epoch key \<open>date:session\<close> is a pair: the date has no colon.\<close>

record stop_manager =
  sm_orders :: "(string, stop_order) dict"
  sm_running :: bool
  sm_session_tick_marked :: "(string \<times> string) list"

record stop_clock =
  ck_minutes :: int
  ck_business_date :: string

datatype stop_error = Stop_account account_id_error | Stop_manager_stopped

datatype stop_out =
    Stop_registered stop_order
  | Stop_triggered stop_order pyfloat string
  | Stop_request order_request
  | Stop_expired stop_order string

definition new_stop_manager :: stop_manager where
  "new_stop_manager = \<lparr>sm_orders = [], sm_running = False, sm_session_tick_marked = []\<rparr>"

subsection \<open>Sessions\<close>

definition session_types :: "string list" where
  "session_types = [''regular'', ''extended'']"

definition regular_session_start :: "int \<times> int" where "regular_session_start = (0, 0)"

definition regular_session_end :: "int \<times> int" where "regular_session_end = (6, 30)"

definition extended_session_start :: "int \<times> int" where "extended_session_start = (23, 30)"

definition extended_session_end :: "int \<times> int" where "extended_session_end = (9, 0)"

definition minutes_of :: "int \<times> int \<Rightarrow> int" where
  "minutes_of hm = fst hm * 60 + snd hm"

definition is_session_type_active_now :: "stop_clock \<Rightarrow> string \<Rightarrow> bool" where
  "is_session_type_active_now ck session_type =
     (let now = ck_minutes ck
      in if session_type = ''extended''
         then
           let s = minutes_of extended_session_start; e = minutes_of extended_session_end
           in if s > e then now \<ge> s \<or> now < e else s \<le> now \<and> now < e
         else
           let s = minutes_of regular_session_start; e = minutes_of regular_session_end
           in s \<le> now \<and> now < e)"

definition is_in_session :: "stop_clock \<Rightarrow> stop_order \<Rightarrow> bool" where
  "is_in_session ck o' = is_session_type_active_now ck (so_trading_session o')"

definition session_epoch_key :: "stop_clock \<Rightarrow> string \<Rightarrow> string \<times> string" where
  "session_epoch_key ck session_type = (ck_business_date ck, session_type)"

subsection \<open>Operations\<close>

definition is_active :: "stop_order \<Rightarrow> bool" where
  "is_active o' \<longleftrightarrow> \<not> so_triggered o' \<and> \<not> so_expired o'"

definition active_orders :: "stop_manager \<Rightarrow> stop_order list" where
  "active_orders m = filter is_active (dict_values (sm_orders m))"

definition monitored_symbols :: "stop_manager \<Rightarrow> string set" where
  "monitored_symbols m = so_symbol ` set (active_orders m)"

text \<open>Changing an order object in place.\<close>

definition update_order :: "(stop_order \<Rightarrow> stop_order) \<Rightarrow> stop_order \<Rightarrow> stop_manager \<Rightarrow> stop_manager" where
  "update_order f o' m =
     m\<lparr>sm_orders := map (\<lambda>(k, x). (k, if k = so_stop_order_id o' then f x else x)) (sm_orders m)\<rparr>"

definition start_manager :: "stop_manager \<Rightarrow> stop_manager" where
  "start_manager m = m\<lparr>sm_running := True\<rparr>"

definition register_stop ::
  "stop_clock \<Rightarrow> string \<Rightarrow> stop_order \<Rightarrow> stop_manager \<Rightarrow> (stop_error + stop_out list) \<times> stop_manager" where
  "register_stop ck stop_order_id o0 m =
     (case require_account_id ''stop_order.register'' (Some (so_account_id o0)) of
        Inl e \<Rightarrow> (Inl (Stop_account e), m)
      | Inr _ \<Rightarrow>
          if \<not> sm_running m then (Inl Stop_manager_stopped, m)
          else
            let o1 = o0\<lparr>so_stop_order_id := stop_order_id, so_triggered := False, so_expired := False,
                        so_entered_session := False\<rparr>;
                o2 = (if is_in_session ck o1
                         \<and> session_epoch_key ck (so_trading_session o1) \<in> set (sm_session_tick_marked m)
                      then o1\<lparr>so_entered_session := True\<rparr> else o1)
            in (Inr [Stop_registered o2], m\<lparr>sm_orders := dict_set stop_order_id o2 (sm_orders m)\<rparr>))"

definition cancel_stop :: "string \<Rightarrow> stop_manager \<Rightarrow> bool \<times> stop_manager" where
  "cancel_stop stop_order_id m =
     (case dict_get (sm_orders m) stop_order_id of
        None \<Rightarrow> (False, m)
      | Some o' \<Rightarrow>
          if so_triggered o' \<or> so_expired o' then (False, m)
          else (True, m\<lparr>sm_orders := dict_pop stop_order_id (sm_orders m)\<rparr>))"

definition get_stop_order :: "string \<Rightarrow> stop_manager \<Rightarrow> stop_order option" where
  "get_stop_order stop_order_id m = dict_get (sm_orders m) stop_order_id"

definition get_orders_for_bot :: "string \<Rightarrow> stop_manager \<Rightarrow> stop_order list" where
  "get_orders_for_bot bot_id m = filter (\<lambda>o'. so_bot_id o' = bot_id) (active_orders m)"

definition get_orders_for_account :: "string \<Rightarrow> stop_manager \<Rightarrow> stop_order list" where
  "get_orders_for_account account_id m = filter (\<lambda>o'. so_account_id o' = account_id) (active_orders m)"

definition should_trigger :: "stop_order \<Rightarrow> pyfloat \<Rightarrow> bool" where
  "should_trigger o' price =
     (if so_side o' = ''buy'' then fle (Fin (so_stop_price o')) price
      else fle price (Fin (so_stop_price o')))"

definition converted_type :: "stop_order \<Rightarrow> string" where
  "converted_type o' = (if so_order_type o' = ''stop_limit'' then ''limit'' else ''market'')"

definition converted_price :: "stop_order \<Rightarrow> rat option" where
  "converted_price o' = (if converted_type o' = ''limit'' then so_limit_price o' else None)"

definition converted_request :: "(string \<Rightarrow> string) \<Rightarrow> stop_order \<Rightarrow> order_request" where
  "converted_request fresh o' =
     \<lparr>or_event_id = fresh (so_stop_order_id o'), or_account_id = so_account_id o', or_bot_id = so_bot_id o',
      or_strategy_id = so_strategy_id o', or_symbol = so_symbol o', or_side = Py_str (so_side o'),
      or_quantity = Py_float (Fin (so_quantity o')), or_order_type = Py_str (converted_type o'),
      or_price = (case converted_price o' of None \<Rightarrow> Py_none | Some p \<Rightarrow> Py_float (Fin p)),
      or_stop_price = Py_none, or_reason = ''stop_triggered: '' @ so_stop_order_id o',
      or_exchange = so_exchange o'\<rparr>"

definition trigger_order ::
  "(string \<Rightarrow> string) \<Rightarrow> pyfloat \<Rightarrow> stop_order \<Rightarrow> stop_out list \<times> stop_manager \<Rightarrow> stop_out list \<times> stop_manager" where
  "trigger_order fresh price o' om =
     (let o1 = o'\<lparr>so_triggered := True\<rparr>
      in (fst om @ [Stop_triggered o1 price (converted_type o1), Stop_request (converted_request fresh o1)],
          update_order (\<lambda>x. x\<lparr>so_triggered := True\<rparr>) o' (snd om)))"

definition expire_order ::
  "string \<Rightarrow> stop_order \<Rightarrow> stop_out list \<times> stop_manager \<Rightarrow> stop_out list \<times> stop_manager" where
  "expire_order reason o' om =
     (fst om @ [Stop_expired (o'\<lparr>so_expired := True\<rparr>) reason],
      update_order (\<lambda>x. x\<lparr>so_expired := True\<rparr>) o' (snd om))"

text \<open>\<open>stop\<close>: every active order is expired, and the marks are dropped.\<close>

definition stop_manager_step :: "stop_manager \<Rightarrow> stop_out list \<times> stop_manager" where
  "stop_manager_step m =
     (let (outs, m1) = fold (expire_order ''manager_stopped'') (active_orders m) ([], m\<lparr>sm_running := False\<rparr>)
      in (outs, m1\<lparr>sm_session_tick_marked := []\<rparr>))"

text \<open>A tick of the exchange marks the orders and the session types whose session is open now.\<close>

definition mark_sessions :: "stop_clock \<Rightarrow> stop_manager \<Rightarrow> stop_manager" where
  "mark_sessions ck m =
     m\<lparr>sm_orders := map (\<lambda>(k, o'). (k, if is_active o' \<and> is_in_session ck o'
                                        then o'\<lparr>so_entered_session := True\<rparr> else o')) (sm_orders m),
       sm_session_tick_marked :=
         fold List.insert (map (session_epoch_key ck) (filter (is_session_type_active_now ck) session_types))
           (sm_session_tick_marked m)\<rparr>"

definition on_price_update ::
  "(string \<Rightarrow> string) \<Rightarrow> stop_clock \<Rightarrow> string \<Rightarrow> pyfloat \<Rightarrow> string \<Rightarrow> bool \<Rightarrow> stop_manager \<Rightarrow>
     account_id_error + stop_out list \<times> stop_manager" where
  "on_price_update fresh ck symbol price account_id is_exchange_tick m =
     (case require_account_id ''stop_order.on_price_update'' (Some account_id) of
        Inl e \<Rightarrow> Inl e
      | Inr _ \<Rightarrow>
          if \<not> sm_running m then Inr ([], m)
          else
            let m1 = (if is_exchange_tick then mark_sessions ck m else m);
                hit = filter (\<lambda>o'. so_symbol o' = symbol \<and> so_account_id o' = account_id \<and> is_in_session ck o')
                        (active_orders m1)
            in Inr (fold (trigger_order fresh price) (filter (\<lambda>o'. should_trigger o' price) hit) ([], m1)))"

definition check_session_expiry :: "stop_clock \<Rightarrow> stop_manager \<Rightarrow> stop_out list \<times> stop_manager" where
  "check_session_expiry ck m =
     (let m1 = m\<lparr>sm_session_tick_marked :=
                   filter (\<lambda>(d, _). d = ck_business_date ck) (sm_session_tick_marked m)\<rparr>
      in fold (expire_order ''session_ended'')
           (filter (\<lambda>o'. so_entered_session o' \<and> \<not> is_in_session ck o') (active_orders m1)) ([], m1))"

subsection \<open>The manager as a machine\<close>

datatype stop_event =
    Se_start
  | Se_stop
  | Se_register stop_clock string stop_order
  | Se_cancel string
  | Se_price "string \<Rightarrow> string" stop_clock string pyfloat string bool
  | Se_expiry stop_clock

fun stop_outputs :: "stop_manager \<Rightarrow> stop_event \<Rightarrow> stop_out list \<times> stop_manager" where
  "stop_outputs m Se_start = ([], start_manager m)"
| "stop_outputs m Se_stop = stop_manager_step m"
| "stop_outputs m (Se_register ck sid o0) =
     (case register_stop ck sid o0 m of (Inl _, m') \<Rightarrow> ([], m') | (Inr outs, m') \<Rightarrow> (outs, m'))"
| "stop_outputs m (Se_cancel sid) = ([], snd (cancel_stop sid m))"
| "stop_outputs m (Se_price fresh ck symbol price acct tick) =
     (case on_price_update fresh ck symbol price acct tick m of Inl _ \<Rightarrow> ([], m) | Inr r \<Rightarrow> r)"
| "stop_outputs m (Se_expiry ck) = check_session_expiry ck m"

text \<open>The manager with everything it has published so far.\<close>

type_synonym stop_history = "stop_manager \<times> stop_out list"

definition stop_step :: "stop_history \<Rightarrow> stop_event \<Rightarrow> stop_history" where
  "stop_step h e = (let (outs, m) = stop_outputs (fst h) e in (m, snd h @ outs))"

end
