(* ===== verification/Api_Support.thy ===== *)
theory Api_Support
  imports Prelude
begin

text \<open>
  \<open>src/src/ante/gateway/cache.py\<close> and \<open>rate_limiter.py\<close>: the response cache and the sliding window
  limiter of the gateway.  \<open>time.monotonic()\<close> is a rational number of seconds handed to each call.
\<close>

subsection \<open>The cache\<close>

record 'd cache_entry =
  ce_data :: 'd
  ce_created_at :: rat
  ce_ttl_seconds :: rat

type_synonym 'd response_cache = "(string, 'd cache_entry) dict"

text \<open>An expired entry is dropped by the lookup that finds it.\<close>

definition cache_get :: "rat \<Rightarrow> string \<Rightarrow> 'd response_cache \<Rightarrow> 'd option \<times> 'd response_cache" where
  "cache_get now key c =
     (case dict_get c key of
        None \<Rightarrow> (None, c)
      | Some entry \<Rightarrow>
          if now - ce_created_at entry > ce_ttl_seconds entry then (None, dict_pop key c)
          else (Some (ce_data entry), c))"

text \<open>\<open>ttl or 30\<close>: no TTL and a TTL of 0 both mean 30 seconds.\<close>

definition cache_set :: "rat \<Rightarrow> string \<Rightarrow> 'd \<Rightarrow> rat option \<Rightarrow> 'd response_cache \<Rightarrow> 'd response_cache" where
  "cache_set now key data ttl c =
     dict_set key
       \<lparr>ce_data = data, ce_created_at = now,
        ce_ttl_seconds = (case ttl of None \<Rightarrow> 30 | Some t \<Rightarrow> if t = 0 then 30 else t)\<rparr> c"

definition starts_with :: "string \<Rightarrow> string \<Rightarrow> bool" where
  "starts_with k p \<longleftrightarrow> take (length p) k = p"

definition cache_invalidate :: "string \<Rightarrow> 'd response_cache \<Rightarrow> 'd response_cache" where
  "cache_invalidate pattern c =
     (if pattern = '''' then []
      else fold dict_pop (filter (\<lambda>k. starts_with k pattern) (map fst c)) c)"

definition cache_size :: "'d response_cache \<Rightarrow> nat" where
  "cache_size c = length c"

subsection \<open>The limiter\<close>

record rate_config =
  rc_max_requests :: nat
  rc_window_seconds :: rat

definition drop_expired :: "rate_config \<Rightarrow> rat \<Rightarrow> rat list \<Rightarrow> rat list" where
  "drop_expired cfg now ts = dropWhile (\<lambda>t. now - t > rc_window_seconds cfg) ts"

text \<open>
  How long \<open>acquire\<close> sleeps, \<^theory_text>\<open>None\<close> if reading the oldest of no timestamps raises.
\<close>

definition slot_wait :: "rate_config \<Rightarrow> rat \<Rightarrow> rat list \<Rightarrow> rat option" where
  "slot_wait cfg now ts =
     (if length ts \<ge> rc_max_requests cfg
      then (case ts of [] \<Rightarrow> None | t # _ \<Rightarrow> Some (max 0 (rc_window_seconds cfg - (now - t))))
      else Some 0)"

text \<open>\<open>later\<close> is the clock after the sleep; it is read again before the slot is taken.\<close>

definition acquire :: "rate_config \<Rightarrow> rat \<Rightarrow> rat \<Rightarrow> rat list \<Rightarrow> rat list option" where
  "acquire cfg now later ts =
     (let kept = drop_expired cfg now ts
      in map_option (\<lambda>_. kept @ [later]) (slot_wait cfg now kept))"

definition pending_count :: "rate_config \<Rightarrow> rat \<Rightarrow> rat list \<Rightarrow> nat \<times> rat list" where
  "pending_count cfg now ts = (let kept = drop_expired cfg now ts in (length kept, kept))"

subsection \<open>Facts about the cache\<close>

lemma dict_get_fold_pop: "dict_get (fold dict_pop ks d) k = (if k \<in> set ks then None else dict_get d k)"
  by (induction ks arbitrary: d) (auto simp: delete_conv')

lemma cache_get_fresh:
  assumes "cache_get now key c = (Some d, c')"
  shows "c' = c \<and> (\<exists>e. dict_get c key = Some e \<and> ce_data e = d \<and> now - ce_created_at e \<le> ce_ttl_seconds e)"
  using assms by (auto simp: cache_get_def split: option.splits if_splits)

lemma cache_invalidate_get:
  "dict_get (cache_invalidate p c) k =
     (if p = '''' \<or> starts_with k p then None else dict_get c k)"
proof -
  have "dict_get c k = None" if "k \<notin> set (map fst c)" using that by (simp add: map_of_eq_None_iff)
  then show ?thesis by (auto simp: cache_invalidate_def dict_get_fold_pop simp del: set_map)
qed

lemma cache_set_get:
  "dict_get (cache_set now key d ttl c) k =
     (if k = key then Some \<lparr>ce_data = d, ce_created_at = now,
          ce_ttl_seconds = (case ttl of None \<Rightarrow> 30 | Some t \<Rightarrow> if t = 0 then 30 else t)\<rparr>
      else dict_get c k)"
  by (simp add: cache_set_def update_conv')

text \<open>What a caller relies on.\<close>

locale ttl_cache =
  fixes get :: "rat \<Rightarrow> string \<Rightarrow> 'c \<Rightarrow> 'd option \<times> 'c"
    and put :: "rat \<Rightarrow> string \<Rightarrow> 'd \<Rightarrow> rat \<Rightarrow> 'c \<Rightarrow> 'c"
    and drop_prefix :: "string \<Rightarrow> 'c \<Rightarrow> 'c"
  assumes get_put: "0 < ttl \<Longrightarrow> now \<le> t \<Longrightarrow>
      fst (get t k' (put now k d ttl c)) = (if k' = k then if t - now \<le> ttl then Some d else None else fst (get t k' c))"
    and get_drop: "p \<noteq> '''' \<Longrightarrow>
      fst (get t k (drop_prefix p c)) = (if starts_with k p then None else fst (get t k c))"
begin

lemma read_back: "0 < ttl \<Longrightarrow> now \<le> t \<Longrightarrow> t - now \<le> ttl \<Longrightarrow> fst (get t k (put now k d ttl c)) = Some d"
  by (simp add: get_put)

lemma dropped_everywhere:
  assumes "\<And>p. p \<in> set ps \<Longrightarrow> p \<noteq> ''''"
  shows "fst (get t k (fold drop_prefix ps c)) =
    (if \<exists>p\<in>set ps. starts_with k p then None else fst (get t k c))"
  using assms by (induction ps arbitrary: c) (auto simp: get_drop)

end

interpretation response: ttl_cache cache_get "\<lambda>now k d ttl. cache_set now k d (Some ttl)" cache_invalidate
proof
  fix ttl now t :: rat and k k' :: string and d :: 'a and c :: "'a response_cache"
  assume "0 < ttl" "now \<le> t"
  then show "fst (cache_get t k' (cache_set now k d (Some ttl) c)) =
      (if k' = k then if t - now \<le> ttl then Some d else None else fst (cache_get t k' c))"
    by (auto simp: cache_get_def cache_set_get split: option.splits)
next
  fix t :: rat and p k :: string and c :: "'a response_cache"
  assume "p \<noteq> ''''"
  then show "fst (cache_get t k (cache_invalidate p c)) = (if starts_with k p then None else fst (cache_get t k c))"
    by (auto simp: cache_get_def cache_invalidate_get split: option.splits)
qed

subsection \<open>The window bound\<close>

text \<open>
  The slots taken so far.  Every call reads the clock in order, and a call that slept wakes strictly
  after the window of the oldest slot has passed.
\<close>

record slot_log =
  sl_window :: "rat list"
  sl_taken :: "rat list"

definition slot_step :: "rate_config \<Rightarrow> slot_log \<Rightarrow> rat \<times> rat \<Rightarrow> slot_log" where
  "slot_step cfg s e =
     (case acquire cfg (fst e) (snd e) (sl_window s) of
        None \<Rightarrow> s
      | Some ts \<Rightarrow> \<lparr>sl_window = ts, sl_taken = sl_taken s @ [snd e]\<rparr>)"

definition clock_guard :: "rate_config \<Rightarrow> slot_log \<Rightarrow> rat \<times> rat \<Rightarrow> bool" where
  "clock_guard cfg s e \<longleftrightarrow>
     (\<forall>t\<in>set (sl_taken s). t \<le> fst e) \<and> fst e \<le> snd e
     \<and> (let kept = drop_expired cfg (fst e) (sl_window s)
        in length kept \<ge> rc_max_requests cfg \<longrightarrow> kept \<noteq> [] \<longrightarrow> snd e - hd kept > rc_window_seconds cfg)"

definition windows_ok :: "rate_config \<Rightarrow> rat list \<Rightarrow> bool" where
  "windows_ok cfg ts \<longleftrightarrow>
     (\<forall>i. i + rc_max_requests cfg < length ts \<longrightarrow> ts ! (i + rc_max_requests cfg) - ts ! i > rc_window_seconds cfg)"

definition slots_inv :: "rate_config \<Rightarrow> slot_log \<Rightarrow> bool" where
  "slots_inv cfg s \<longleftrightarrow> 0 < rc_max_requests cfg \<and> windows_ok cfg (sl_taken s)
     \<and> (\<exists>n\<le>length (sl_taken s). sl_window s = drop n (sl_taken s)
          \<and> (\<forall>i<n. last (sl_taken s) - sl_taken s ! i > rc_window_seconds cfg))"

lemma windows_ok_snoc:
  assumes "windows_ok cfg ts"
    and "rc_max_requests cfg \<le> length ts \<Longrightarrow> 0 < rc_max_requests cfg \<Longrightarrow>
           t - ts ! (length ts - rc_max_requests cfg) > rc_window_seconds cfg"
    and "0 < rc_max_requests cfg"
  shows "windows_ok cfg (ts @ [t])"
  unfolding windows_ok_def
proof (intro allI impI)
  fix i assume i: "i + rc_max_requests cfg < length (ts @ [t])"
  show "(ts @ [t]) ! (i + rc_max_requests cfg) - (ts @ [t]) ! i > rc_window_seconds cfg"
  proof (cases "i + rc_max_requests cfg < length ts")
    case True
    then show ?thesis using assms(1) by (simp add: windows_ok_def nth_append)
  next
    case False
    then have "i + rc_max_requests cfg = length ts" using i by simp
    moreover from this have "i = length ts - rc_max_requests cfg" "i < length ts" using assms(3) by auto
    ultimately show ?thesis using assms(2,3) by (simp add: nth_append)
  qed
qed

lemma slot_step_inv:
  assumes inv: "slots_inv cfg s" and guard: "clock_guard cfg s e"
  shows "slots_inv cfg (slot_step cfg s e)"
proof -
  let ?w = "rc_window_seconds cfg" and ?max = "rc_max_requests cfg" and ?ts = "sl_taken s"
  obtain now later where e: "e = (now, later)" by (cases e)
  obtain n where n: "n \<le> length ?ts" "sl_window s = drop n ?ts" "\<forall>i<n. last ?ts - ?ts ! i > ?w"
    and max: "0 < ?max" and ok: "windows_ok cfg ?ts"
    using inv by (auto simp: slots_inv_def)
  define P where "P = (\<lambda>t. now - t > ?w)"
  define n' where "n' = n + length (takeWhile P (drop n ?ts))"
  have kept: "drop_expired cfg now (sl_window s) = drop n' ?ts"
    by (simp add: drop_expired_def n(2) P_def [symmetric] dropWhile_eq_drop n'_def add.commute)
  have past: "t \<le> now" if "t \<in> set ?ts" for t using guard that by (simp add: clock_guard_def e)
  have now: "now \<le> later" using guard by (simp add: clock_guard_def e)
  have n': "n' \<le> length ?ts"
    using n(1) length_takeWhile_le [of P "drop n ?ts"] by (simp add: n'_def)
  have gone: "later - ?ts ! i > ?w" if "i < n'" for i
  proof (cases "i < n")
    case True
    then have "?ts \<noteq> []" using n(1) by auto
    then have "last ?ts \<le> now" using past by simp
    then show ?thesis using n(3) True now by fastforce
  next
    case False
    then have j: "i - n < length (takeWhile P (drop n ?ts))" using that by (simp add: n'_def)
    then have "P (takeWhile P (drop n ?ts) ! (i - n))" by (meson nth_mem set_takeWhileD)
    moreover have "takeWhile P (drop n ?ts) ! (i - n) = ?ts ! i"
      using takeWhile_nth [OF j] False n(1) by simp
    ultimately show ?thesis using now by (simp add: P_def)
  qed
  show ?thesis
  proof (cases "slot_wait cfg now (drop n' ?ts)")
    case None
    then show ?thesis using inv by (simp add: slot_step_def acquire_def e kept)
  next
    case (Some wt)
    then have step: "slot_step cfg s e = \<lparr>sl_window = drop n' ?ts @ [later], sl_taken = ?ts @ [later]\<rparr>"
      by (simp add: slot_step_def acquire_def e kept)
    have "later - ?ts ! (length ?ts - ?max) > ?w" if len: "?max \<le> length ?ts"
    proof (cases "length ?ts - ?max < n'")
      case True
      then show ?thesis by (rule gone)
    next
      case False
      then have more: "n' < length ?ts" "length (drop n' ?ts) \<ge> ?max" using len max by auto
      have hd: "hd (drop n' ?ts) = ?ts ! n'" using more(1) by (simp add: hd_drop_conv_nth)
      have "later - ?ts ! n' > ?w"
        using guard more hd by (auto simp: clock_guard_def e kept Let_def)
      moreover have "length ?ts - ?max = n'"
      proof (rule ccontr)
        assume "length ?ts - ?max \<noteq> n'"
        then have "n' + ?max < length ?ts" using False len by simp
        then have "?ts ! (n' + ?max) - ?ts ! n' > ?w" "?ts ! (n' + ?max) \<le> now"
          using ok past by (simp_all add: windows_ok_def)
        then have "P (?ts ! n')" by (simp add: P_def)
        moreover have "\<not> P (drop n ?ts ! length (takeWhile P (drop n ?ts)))"
          using more(1) by (intro nth_length_takeWhile) (simp add: n'_def)
        ultimately show False using n(1) by (simp add: n'_def)
      qed
      ultimately show ?thesis by simp
    qed
    then have "windows_ok cfg (?ts @ [later])" by (intro windows_ok_snoc [OF ok]) (use max in auto)
    moreover have "\<forall>i<n'. last (?ts @ [later]) - (?ts @ [later]) ! i > ?w"
      using gone n' by (auto simp: nth_append)
    ultimately show ?thesis
      unfolding step slots_inv_def using max n' by (auto intro!: exI [of _ n'])
  qed
qed

interpretation limiter: guarded_machine "slot_step cfg" "clock_guard cfg" "slots_inv cfg" for cfg
  by unfold_locales (rule slot_step_inv)

definition no_slots :: slot_log where
  "no_slots = \<lparr>sl_window = [], sl_taken = []\<rparr>"

subsection \<open>The properties\<close>

text \<open>
  The limiter keeps its bound: whatever the calls, any \<open>max_requests\<close> consecutive slots and the
  next one span more than \<open>window_seconds\<close>, so no window holds more than \<open>max_requests\<close> requests,
  provided the clock never runs backwards and a sleep ends after the oldest slot has left the window.
\<close>

theorem rate_limit_holds:
  assumes "0 < rc_max_requests cfg" and "admissible (slot_step cfg) (clock_guard cfg) no_slots es"
    and "i + rc_max_requests cfg < length (sl_taken (run (slot_step cfg) no_slots es))"
  shows "sl_taken (run (slot_step cfg) no_slots es) ! (i + rc_max_requests cfg)
    - sl_taken (run (slot_step cfg) no_slots es) ! i > rc_window_seconds cfg"
proof -
  have "slots_inv cfg no_slots" using assms(1) by (simp add: slots_inv_def windows_ok_def no_slots_def)
  from limiter.run_inv [OF this assms(2)] assms(3) show ?thesis
    by (simp add: slots_inv_def windows_ok_def)
qed

text \<open>
  The proviso matters: when a sleep ends exactly when the window of the oldest slot closes, the
  next call finds that slot still in its window, computes a wait of 0 and takes a slot too many.
\<close>

theorem rate_limit_exceeded_on_exact_wakeup:
  "\<exists>cfg es. rc_max_requests cfg = 2 \<and> rc_window_seconds cfg = 60
     \<and> (let taken = sl_taken (run (slot_step cfg) no_slots es)
        in length taken = 4 \<and> taken ! 3 - taken ! 1 \<le> rc_window_seconds cfg)
     \<and> (\<forall>e\<in>set es. fst e \<le> snd e)"
proof -
  let ?cfg = "\<lparr>rc_max_requests = 2, rc_window_seconds = 60\<rparr>"
  have "(let taken = sl_taken (run (slot_step ?cfg) no_slots [(0, 0), (1, 1), (2, 60), (60, 60)])
        in length taken = 4 \<and> taken ! 3 - taken ! 1 \<le> rc_window_seconds ?cfg)"
    by code_simp
  then show ?thesis by (intro exI [of _ ?cfg] exI [of _ "[(0, 0), (1, 1), (2, 60), (60, 60)]"]) simp
qed

definition sample_rate :: rate_config where
  "sample_rate = \<lparr>rc_max_requests = 2, rc_window_seconds = 60\<rparr>"

theorem rate_limit_holds_witness:
  "sl_taken (run (slot_step sample_rate) no_slots [(0, 0), (1, 1), (2, 601/10)]) ! (0 + 2)
    - sl_taken (run (slot_step sample_rate) no_slots [(0, 0), (1, 1), (2, 601/10)]) ! 0 > 60"
proof -
  have "0 < rc_max_requests sample_rate" by code_simp
  moreover have "admissible (slot_step sample_rate) (clock_guard sample_rate) no_slots [(0, 0), (1, 1), (2, 601/10)]"
    by code_simp
  moreover have "0 + rc_max_requests sample_rate < length (sl_taken (run (slot_step sample_rate) no_slots [(0, 0), (1, 1), (2, 601/10)]))"
    by code_simp
  ultimately show ?thesis
    using rate_limit_holds [of sample_rate "[(0, 0), (1, 1), (2, 601/10)]" 0] by (simp add: sample_rate_def)
qed

end
