(* ===== verification/Api_Gateway.thy ===== *)
theory Api_Gateway
  imports Rule_Engine Stop_Orders Api_Support
begin

text \<open>
  \<open>src/src/ante/gateway/gateway.py\<close>: the one way to the broker.  Approved orders are checked once more
  and submitted, cancellations and price changes are translated to the broker's order number, stop
  orders go to the stop order manager, and read calls are cached and rate limited.

  \<open>gateway_env\<close> holds what one call gets from outside: the account lookups, the broker's answers, the
  order tracker's rows, the clock.  The account service is always there; an account without a trading
  mode has \<^theory_text>\<open>None\<close>.  Calls of the broker that change something there are outputs, in order
  with the published events.  An exception is \<open>gateway_exc\<close>; the text of a failure event is the
  exception itself.
\<close>

subsection \<open>Events and answers\<close>

datatype gateway_exc =
    Account_id_exc account_id_error
  | Stop_exc stop_error
  | Api_error string string
  | Orgno_unavailable string
  | Other_exc string

datatype 'a reply = Raises gateway_exc | Returns 'a

record gateway_account =
  ga_broker_type :: "string option"
  ga_trading_mode :: "trading_mode option"
  ga_status :: "account_status option"

datatype account_fetch = No_get | Get_raises | Got "gateway_account option"

record tracker_reads =
  tg_get :: "string \<Rightarrow> order_row option option"
  tg_get_again :: "string \<Rightarrow> order_row option option"

record gateway_env =
  ge_fetch_routing :: account_fetch
  ge_fetch_gate :: account_fetch
  ge_registry :: "readiness_reader option"
  ge_tracker :: "tracker_reads option"
  ge_now :: rat
  ge_slot_now :: rat
  ge_slot_later :: rat
  ge_after :: rat
  ge_broker :: "unit reply"
  ge_place_order :: "string reply"
  ge_cancel_order :: "bool reply"
  ge_modify_order :: "bool reply"
  ge_stop_clock :: stop_clock
  ge_stop_id :: string

record 'd api_gateway =
  gw_rate_config :: rate_config
  gw_rate_limiters :: "(string, rat list) dict"
  gw_cache :: "'d response_cache"
  gw_running :: bool
  gw_stop_manager :: "stop_manager option"

text \<open>\<open>OrderApprovedEvent\<close>; \<open>ap_virtual_handled\<close> is the transient marker \<open>_virtual_handled\<close>.\<close>

record approved_order =
  ap_order :: order_outcome
  ap_stop_price :: "rat option"
  ap_virtual_handled :: bool

record order_cancel =
  oc_account_id :: string
  oc_bot_id :: string
  oc_strategy_id :: string
  oc_order_id :: string
  oc_reason :: string

datatype cancel_failure = Broker_returned_false | Cancel_raised gateway_exc

datatype modify_failure =
    Gm_invalid_args
  | Gm_partial_or_terminal
  | Gm_not_owner
  | Gm_qty_change
  | Gm_order_type
  | Gm_budget_increase
  | Gm_orgno_unavailable
  | Gm_raised gateway_exc
  | Gm_failed

datatype gateway_out =
    Call_place_order string string string rat string "rat option"
  | Call_cancel_order string string
  | Call_modify_order string string rat rat
  | Gw_notify notification
  | Order_submitted order_outcome string
  | Order_failed order_outcome gateway_exc string
  | Stop_out stop_out
  | Order_cancelled order_cancel string string string
  | Order_cancel_failed order_cancel string string cancel_failure
  | Modify_executed order_modify string string rat rat string
  | Modify_rejected order_modify string string modify_failure

definition new_gateway :: "rate_config option \<Rightarrow> stop_manager option \<Rightarrow> 'd api_gateway" where
  "new_gateway cfg stops =
     \<lparr>gw_rate_config = (case cfg of None \<Rightarrow> \<lparr>rc_max_requests = 20, rc_window_seconds = 60\<rparr> | Some c \<Rightarrow> c),
      gw_rate_limiters = [], gw_cache = [], gw_running = False, gw_stop_manager = stops\<rparr>"

subsection \<open>The gate in front of the broker\<close>

definition get_account :: "account_fetch \<Rightarrow> gateway_account option \<times> bool" where
  "get_account f = (case f of No_get \<Rightarrow> (None, False) | Get_raises \<Rightarrow> (None, True) | Got a \<Rightarrow> (a, False))"

definition gate_status :: "gateway_account option \<Rightarrow> bool \<Rightarrow> status_view" where
  "gate_status fetched failed =
     derive_account_status (Some \<lparr>svc_get = None\<rparr>)
       (map_option (\<lambda>a. \<lparr>acct_status = ga_status a\<rparr>) fetched) failed"

definition readiness_block :: "gateway_env \<Rightarrow> string \<Rightarrow> gateway_account option \<Rightarrow> string option" where
  "readiness_block env account_id fetched =
     (let broker_type = (case fetched of None \<Rightarrow> Some '''' | Some a \<Rightarrow> ga_broker_type a);
          trading_mode = (case fetched of None \<Rightarrow> None | Some a \<Rightarrow> ga_trading_mode a)
      in case (broker_type, trading_mode) of
           (Some bt, Some mode) \<Rightarrow>
             if mode \<noteq> LIVE then Some (account_not_ready_reason @ '': non_live_broker_call_blocked'')
             else if active_trading_blocked (ge_registry env) account_id bt mode
             then Some (not_ready_reason (ge_registry env) account_id bt mode)
             else None
         | _ \<Rightarrow> Some (account_not_ready_reason @ '': account_metadata_unavailable''))"

definition readiness_gate :: "gateway_env \<Rightarrow> string \<Rightarrow> string \<Rightarrow> gateway_out list \<times> gateway_exc option" where
  "readiness_gate env account_id side =
     (let (fetched, failed) = get_account (ge_fetch_gate env);
          status = gate_status fetched failed;
          status_reason = (if status = Status SUSPENDED then Some account_suspended_reason
                           else if status = Status_unavailable then Some account_status_unavailable_reason
                           else None);
          reason = (case status_reason of
                      Some r \<Rightarrow> Some r
                    | None \<Rightarrow> readiness_block env account_id fetched)
      in case reason of
           None \<Rightarrow> ([], None)
         | Some r \<Rightarrow>
             let error_code = (if r \<in> set [account_suspended_reason, account_status_unavailable_reason]
                               then r else account_not_ready_reason)
             in ([Gw_notify (build_not_ready_notification account_id r side False)], Some (Api_error r error_code)))"

subsection \<open>Rate limited calls\<close>

text \<open>The limiter of the account, made on its first use; \<^theory_text>\<open>Inl\<close> if \<open>acquire\<close> raises.\<close>

definition take_slot :: "gateway_env \<Rightarrow> string \<Rightarrow> 'd api_gateway \<Rightarrow> (gateway_exc + unit) \<times> 'd api_gateway" where
  "take_slot env account_id gw =
     (let slots = dict_default [] (gw_rate_limiters gw) account_id
      in case acquire (gw_rate_config gw) (ge_slot_now env) (ge_slot_later env) slots of
           None \<Rightarrow> (Inl (Other_exc ''IndexError''),
                    gw\<lparr>gw_rate_limiters := dict_set account_id (drop_expired (gw_rate_config gw) (ge_slot_now env) slots)
                         (gw_rate_limiters gw)\<rparr>)
         | Some slots' \<Rightarrow> (Inr (), gw\<lparr>gw_rate_limiters := dict_set account_id slots' (gw_rate_limiters gw)\<rparr>))"

text \<open>A slot, then the account's broker.\<close>

definition reach_broker :: "gateway_env \<Rightarrow> string \<Rightarrow> 'd api_gateway \<Rightarrow> (gateway_exc + unit) \<times> 'd api_gateway" where
  "reach_broker env account_id gw =
     (case take_slot env account_id gw of
        (Inl e, gw') \<Rightarrow> (Inl e, gw')
      | (Inr _, gw') \<Rightarrow> (case ge_broker env of Raises e \<Rightarrow> (Inl e, gw') | Returns _ \<Rightarrow> (Inr (), gw')))"

text \<open>
  The read calls: the cache first, then the broker, whose answer is cached.  \<open>answer\<close> is what the
  broker says to this call; cached data is never \<open>None\<close>.
\<close>

definition cached_call ::
  "string \<Rightarrow> string \<Rightarrow> rat \<Rightarrow> gateway_env \<Rightarrow> string \<Rightarrow> 'd reply \<Rightarrow> 'd api_gateway \<Rightarrow> (gateway_exc + 'd) \<times> 'd api_gateway"
where
  "cached_call ctxt key ttl env account_id answer gw =
     (case require_account_id ctxt (Some account_id) of
        Inl e \<Rightarrow> (Inl (Account_id_exc e), gw)
      | Inr _ \<Rightarrow>
          (case cache_get (ge_now env) key (gw_cache gw) of
             (Some d, c) \<Rightarrow> (Inr d, gw\<lparr>gw_cache := c\<rparr>)
           | (None, c) \<Rightarrow>
               (case reach_broker env account_id (gw\<lparr>gw_cache := c\<rparr>) of
                  (Inl e, gw') \<Rightarrow> (Inl e, gw')
                | (Inr _, gw') \<Rightarrow>
                    (case answer of
                       Raises e \<Rightarrow> (Inl e, gw')
                     | Returns d \<Rightarrow> (Inr d, gw'\<lparr>gw_cache := cache_set (ge_after env) key d (Some ttl) (gw_cache gw')\<rparr>)))))"

definition price_key :: "string \<Rightarrow> string \<Rightarrow> string" where
  "price_key account_id symbol = account_id @ '':price:'' @ symbol"

definition positions_key :: "string \<Rightarrow> string" where
  "positions_key account_id = account_id @ '':positions''"

definition balance_key :: "string \<Rightarrow> string" where
  "balance_key account_id = account_id @ '':balance''"

definition get_current_price ::
  "gateway_env \<Rightarrow> string \<Rightarrow> string \<Rightarrow> 'd reply \<Rightarrow> 'd api_gateway \<Rightarrow> (gateway_exc + 'd) \<times> 'd api_gateway" where
  "get_current_price env account_id symbol answer gw =
     cached_call ''gateway.get_current_price'' (price_key account_id symbol) 5 env account_id answer gw"

definition get_positions ::
  "gateway_env \<Rightarrow> string \<Rightarrow> 'd reply \<Rightarrow> 'd api_gateway \<Rightarrow> (gateway_exc + 'd) \<times> 'd api_gateway" where
  "get_positions env account_id answer gw =
     cached_call ''gateway.get_positions'' (positions_key account_id) 30 env account_id answer gw"

definition get_account_balance ::
  "gateway_env \<Rightarrow> string \<Rightarrow> 'd reply \<Rightarrow> 'd api_gateway \<Rightarrow> (gateway_exc + 'd) \<times> 'd api_gateway" where
  "get_account_balance env account_id answer gw =
     cached_call ''gateway.get_account_balance'' (balance_key account_id) 30 env account_id answer gw"

text \<open>
  Candles are cached per exchange; \<open>limit\<close> is the decimal text of the number.  A broker without the
  call answers \<^theory_text>\<open>None\<close>, and the empty list it gets is not cached.
\<close>

definition get_ohlcv ::
  "gateway_env \<Rightarrow> string \<Rightarrow> string \<Rightarrow> string \<Rightarrow> string \<Rightarrow> string \<Rightarrow> 'd \<Rightarrow> 'd reply option \<Rightarrow> 'd api_gateway \<Rightarrow>
     (gateway_exc + 'd) \<times> 'd api_gateway" where
  "get_ohlcv env account_id exchange symbol timeframe limit_text no_bars answer gw =
     (let key = ''ohlcv:'' @ exchange @ '':'' @ symbol @ '':'' @ timeframe @ '':'' @ limit_text
      in case answer of
           Some r \<Rightarrow> cached_call ''gateway.get_ohlcv'' key 60 env account_id r gw
         | None \<Rightarrow>
             (case require_account_id ''gateway.get_ohlcv'' (Some account_id) of
                Inl e \<Rightarrow> (Inl (Account_id_exc e), gw)
              | Inr _ \<Rightarrow>
                  (case cache_get (ge_now env) key (gw_cache gw) of
                     (Some d, c) \<Rightarrow> (Inr d, gw\<lparr>gw_cache := c\<rparr>)
                   | (None, c) \<Rightarrow>
                       (case reach_broker env account_id (gw\<lparr>gw_cache := c\<rparr>) of
                          (Inl e, gw') \<Rightarrow> (Inl e, gw')
                        | (Inr _, gw') \<Rightarrow> (Inr no_bars, gw')))))"

subsection \<open>Approved orders\<close>

definition submit_order ::
  "gateway_env \<Rightarrow> order_outcome \<Rightarrow> 'd api_gateway \<Rightarrow> (gateway_out list \<times> (gateway_exc + string)) \<times> 'd api_gateway" where
  "submit_order env o' gw =
     (case require_account_id ''gateway.submit_order'' (Some (oo_account_id o')) of
        Inl e \<Rightarrow> (([], Inl (Account_id_exc e)), gw)
      | Inr _ \<Rightarrow>
          (case reach_broker env (oo_account_id o') gw of
             (Inl e, gw') \<Rightarrow> (([], Inl e), gw')
           | (Inr _, gw') \<Rightarrow>
               (case readiness_gate env (oo_account_id o') (oo_side o') of
                  (outs, Some e) \<Rightarrow> ((outs, Inl e), gw')
                | (outs, None) \<Rightarrow>
                    let call = Call_place_order (oo_account_id o') (oo_symbol o') (oo_side o') (oo_quantity o')
                                 (oo_order_type o') (oo_price o')
                    in (case ge_place_order env of
                          Raises e \<Rightarrow> ((outs @ [call], Inl e), gw')
                        | Returns broker_order_id \<Rightarrow> ((outs @ [call], Inr broker_order_id), gw')))))"

text \<open>\<open>event.price or 0.0\<close>.\<close>

definition failed_order :: "order_outcome \<Rightarrow> order_outcome" where
  "failed_order o' = o'\<lparr>oo_price := Some (case oo_price o' of None \<Rightarrow> 0 | Some p \<Rightarrow> p)\<rparr>"

fun error_code_of :: "gateway_exc \<Rightarrow> string" where
  "error_code_of (Api_error _ c) = c"
| "error_code_of _ = ''''"

definition stop_order_of :: "approved_order \<Rightarrow> stop_order" where
  "stop_order_of ev =
     (let o' = ap_order ev
      in \<lparr>so_stop_order_id = '''', so_order_id = oo_order_id o', so_bot_id = oo_bot_id o',
          so_strategy_id = oo_strategy_id o', so_symbol = oo_symbol o', so_side = oo_side o',
          so_quantity = oo_quantity o', so_order_type = oo_order_type o',
          so_stop_price = (case ap_stop_price ev of None \<Rightarrow> 0 | Some p \<Rightarrow> p), so_limit_price = oo_price o',
          so_trading_session = ''regular'', so_account_id = oo_account_id o', so_triggered = False,
          so_expired = False, so_exchange = oo_exchange o', so_entered_session = False\<rparr>)"

definition submit_and_report ::
  "gateway_env \<Rightarrow> order_outcome \<Rightarrow> 'd api_gateway \<Rightarrow> gateway_out list \<times> 'd api_gateway" where
  "submit_and_report env o' gw =
     (case submit_order env o' gw of
        ((outs, Inr broker_order_id), gw') \<Rightarrow> (outs @ [Order_submitted o' broker_order_id], gw')
      | ((outs, Inl e), gw') \<Rightarrow> (outs @ [Order_failed (failed_order o') e (error_code_of e)], gw'))"

definition on_order_approved ::
  "gateway_env \<Rightarrow> approved_order \<Rightarrow> 'd api_gateway \<Rightarrow> gateway_out list \<times> 'd api_gateway" where
  "on_order_approved env ev gw =
     (let o' = ap_order ev;
          live = submit_and_report env o' gw;
          route = (case fst (get_account (ge_fetch_routing env)) of
                     Some a \<Rightarrow> if ga_trading_mode a = Some VIRTUAL then ([], gw) else live
                   | None \<Rightarrow> if ap_virtual_handled ev then ([], gw) else live)
      in if oo_order_type o' \<in> set [''stop'', ''stop_limit'']
         then (case gw_stop_manager gw of
                 None \<Rightarrow> route
               | Some m \<Rightarrow>
                   (case register_stop (ge_stop_clock env) (ge_stop_id env) (stop_order_of ev) m of
                      (Inr outs, m') \<Rightarrow> (map Stop_out outs, gw\<lparr>gw_stop_manager := Some m'\<rparr>)
                    | (Inl e, m') \<Rightarrow> ([Order_failed (failed_order o') (Stop_exc e) ''''],
                                      gw\<lparr>gw_stop_manager := Some m'\<rparr>)))
         else route)"

subsection \<open>Cancellations\<close>

definition cancel_order ::
  "gateway_env \<Rightarrow> string \<Rightarrow> string \<Rightarrow> 'd api_gateway \<Rightarrow> (gateway_out list \<times> (gateway_exc + bool)) \<times> 'd api_gateway" where
  "cancel_order env order_id account_id gw =
     (case require_account_id ''gateway.cancel_order'' (Some account_id) of
        Inl e \<Rightarrow> (([], Inl (Account_id_exc e)), gw)
      | Inr _ \<Rightarrow>
          (case ge_tracker env of
             None \<Rightarrow> (([], Inr False), gw)
           | Some tracker \<Rightarrow>
               (case tg_get_again tracker order_id of
                  None \<Rightarrow> (([], Inl (Other_exc ''tracker'')), gw)
                | Some None \<Rightarrow> (([], Inr False), gw)
                | Some (Some record) \<Rightarrow>
                    if ot_account_id record \<noteq> account_id then (([], Inr False), gw)
                    else
                      (case reach_broker env account_id gw of
                         (Inl e, gw') \<Rightarrow> (([], Inl e), gw')
                       | (Inr _, gw') \<Rightarrow>
                           let call = Call_cancel_order account_id (ot_broker_order_id record)
                           in (case ge_cancel_order env of
                                 Raises e \<Rightarrow> (([call], Inl e), gw')
                               | Returns ok \<Rightarrow> (([call], Inr ok), gw'))))))"

definition or_krx :: "string option \<Rightarrow> string" where
  "or_krx e = (case e of None \<Rightarrow> ''KRX'' | Some x \<Rightarrow> if x = '''' then ''KRX'' else x)"

text \<open>
  \<open>_on_order_cancel\<close>: the first lookup is outside the \<open>try\<close>; when it raises the handler publishes
  nothing, which is \<^theory_text>\<open>None\<close>.
\<close>

definition on_order_cancel ::
  "gateway_env \<Rightarrow> order_cancel \<Rightarrow> 'd api_gateway \<Rightarrow> gateway_out list option \<times> 'd api_gateway" where
  "on_order_cancel env ev gw =
     (let names = (case ge_tracker env of
                     None \<Rightarrow> Some ('''', '''', ''KRX'')
                   | Some tracker \<Rightarrow>
                       map_option (\<lambda>r. case r of
                            None \<Rightarrow> ('''', '''', ''KRX'')
                          | Some record \<Rightarrow>
                              if ot_account_id record = oc_account_id ev
                              then (ot_symbol record, ot_side record, or_krx (ot_exchange record))
                              else ('''', '''', ''KRX''))
                         (tg_get tracker (oc_order_id ev)))
      in case names of
           None \<Rightarrow> (None, gw)
         | Some (sy, sd, exch) \<Rightarrow>
             (case cancel_order env (oc_order_id ev) (oc_account_id ev) gw of
                ((outs, Inl e), gw') \<Rightarrow> (Some (outs @ [Order_cancel_failed ev sy sd (Cancel_raised e)]), gw')
              | ((outs, Inr ok), gw') \<Rightarrow>
                  (Some (outs @ [if ok then Order_cancelled ev sy sd exch
                                 else Order_cancel_failed ev sy sd Broker_returned_false]), gw')))"

subsection \<open>Price changes\<close>

definition non_empty_or :: "string \<Rightarrow> string \<Rightarrow> string" where
  "non_empty_or s d = (if s = '''' then d else s)"

definition reject_modify :: "order_modify \<Rightarrow> string \<Rightarrow> string \<Rightarrow> modify_failure \<Rightarrow> gateway_out" where
  "reject_modify ev sy sd why =
     Modify_rejected ev (non_empty_or sy (om_symbol ev)) (non_empty_or sd (om_side ev)) why"

text \<open>The checks against the tracked order, in their order.\<close>

definition modify_objection :: "order_modify \<Rightarrow> order_row \<Rightarrow> modify_failure option" where
  "modify_objection ev record =
     (let qty = number_of (om_quantity ev); price = number_of (om_price ev)
      in if ot_bot_id record \<noteq> om_bot_id ev then Some Gm_not_owner
         else if qty > 0 \<and> qty \<noteq> ot_ordered_qty record then Some Gm_qty_change
         else if ot_status record \<noteq> OPEN then Some Gm_partial_or_terminal
         else if ot_order_type record \<noteq> ''limit'' then Some Gm_order_type
         else if ot_side record = ''buy''
                 \<and> (case ot_order_price record of None \<Rightarrow> True | Some p \<Rightarrow> price > p)
         then Some Gm_budget_increase
         else None)"

definition delegate_modify ::
  "gateway_env \<Rightarrow> order_modify \<Rightarrow> order_row \<Rightarrow> 'd api_gateway \<Rightarrow> gateway_out list \<times> 'd api_gateway" where
  "delegate_modify env ev record gw =
     (let sy = ot_symbol record; sd = ot_side record;
          new_price = number_of (om_price ev);
          reject = (\<lambda>e. reject_modify ev sy sd
                          (case e of Orgno_unavailable _ \<Rightarrow> Gm_orgno_unavailable | _ \<Rightarrow> Gm_raised e))
      in case reach_broker env (om_account_id ev) gw of
           (Inl e, gw') \<Rightarrow> ([reject e], gw')
         | (Inr _, gw') \<Rightarrow>
             let call = Call_modify_order (om_account_id ev) (ot_broker_order_id record)
                          (ot_ordered_qty record) new_price
             in (case ge_modify_order env of
                   Raises e \<Rightarrow> ([call, reject e], gw')
                 | Returns ok \<Rightarrow>
                     if \<not> ok then ([call, reject_modify ev sy sd Gm_failed], gw')
                     else ([call, Modify_executed ev sy sd (ot_ordered_qty record) new_price
                                    (or_krx (ot_exchange record))], gw')))"

definition on_gateway_modify ::
  "gateway_env \<Rightarrow> order_modify \<Rightarrow> 'd api_gateway \<Rightarrow> gateway_out list option \<times> 'd api_gateway" where
  "on_gateway_modify env ev gw =
     (if om_consumed ev then (Some [], gw)
      else if \<not> is_finite_quantity (om_price ev) \<or> number_of (om_price ev) \<le> 0
      then (Some [reject_modify ev '''' '''' Gm_invalid_args], gw)
      else if \<not> is_finite_quantity (om_quantity ev) \<or> number_of (om_quantity ev) < 0
      then (Some [reject_modify ev '''' '''' Gm_invalid_args], gw)
      else
        case ge_tracker env of
          None \<Rightarrow> (Some [reject_modify ev '''' '''' Gm_partial_or_terminal], gw)
        | Some tracker \<Rightarrow>
            (case tg_get tracker (om_order_id ev) of
               None \<Rightarrow> (None, gw)
             | Some None \<Rightarrow> (Some [reject_modify ev '''' '''' Gm_partial_or_terminal], gw)
             | Some (Some record) \<Rightarrow>
                 if ot_account_id record \<noteq> om_account_id ev
                 then (Some [reject_modify ev '''' '''' Gm_partial_or_terminal], gw)
                 else
                   (case modify_objection ev record of
                      Some why \<Rightarrow> (Some [reject_modify ev (ot_symbol record) (ot_side record) why], gw)
                    | None \<Rightarrow> (case delegate_modify env ev record gw of (outs, gw') \<Rightarrow> (Some outs, gw')))))"

subsection \<open>Fills\<close>

definition gateway_order_filled :: "string \<Rightarrow> string \<Rightarrow> 'd api_gateway \<Rightarrow> 'd api_gateway" where
  "gateway_order_filled account_id symbol gw =
     gw\<lparr>gw_cache := fold cache_invalidate
          [balance_key account_id, positions_key account_id, price_key account_id symbol] (gw_cache gw)\<rparr>"

definition start_gateway :: "'d api_gateway \<Rightarrow> 'd api_gateway" where
  "start_gateway gw = gw\<lparr>gw_running := True\<rparr>"

definition stop_gateway :: "'d api_gateway \<Rightarrow> 'd api_gateway" where
  "stop_gateway gw = gw\<lparr>gw_running := False\<rparr>"

end
