(* ===== verification/Virtual_Executor.thy ===== *)
theory Virtual_Executor
  imports Api_Gateway
begin

text \<open>
  \<open>src/src/ante/bot/providers/virtual.py\<close>: accounts that do not trade for real.  The executor fills
  an approved order of a registered bot at once, from the order's or the current price, in an
  in-memory portfolio.

  It handles \<open>OrderApprovedEvent\<close> with priority 60, before the gateway (50), and marks the orders it
  owns.  A price is a finite float.
\<close>

subsection \<open>Portfolios\<close>

record virtual_position =
  vp_quantity :: rat
  vp_avg_entry_price :: rat
  vp_realized_pnl :: rat

record virtual_portfolio =
  vf_initial_balance :: rat
  vf_balance :: rat
  vf_reserved :: rat
  vf_positions :: "(string, virtual_position) dict"
  vf_pending_orders :: "(string, rat) dict"

definition new_portfolio :: "rat \<Rightarrow> virtual_portfolio" where
  "new_portfolio initial_balance =
     \<lparr>vf_initial_balance = initial_balance, vf_balance = initial_balance, vf_reserved = 0,
      vf_positions = [], vf_pending_orders = []\<rparr>"

definition virtual_positions :: "virtual_portfolio \<Rightarrow> (string, virtual_position) dict" where
  "virtual_positions p = filter (\<lambda>(_, pos). vp_quantity pos > 0) (vf_positions p)"

definition virtual_available :: "virtual_portfolio \<Rightarrow> rat" where
  "virtual_available p = vf_balance p - vf_reserved p"

definition apply_virtual_fill ::
  "string \<Rightarrow> string \<Rightarrow> rat \<Rightarrow> rat \<Rightarrow> rat \<Rightarrow> virtual_portfolio \<Rightarrow> virtual_portfolio" where
  "apply_virtual_fill symbol side quantity price commission p =
     (let pos = dict_default \<lparr>vp_quantity = 0, vp_avg_entry_price = 0, vp_realized_pnl = 0\<rparr>
                  (vf_positions p) symbol
      in if side = ''buy''
         then
           let total_cost = vp_avg_entry_price pos * vp_quantity pos;
               new_cost = price * quantity;
               new_qty = vp_quantity pos + quantity;
               new_avg = (if new_qty > 0 then (total_cost + new_cost) / new_qty else 0)
           in p\<lparr>vf_balance := vf_balance p - (price * quantity + commission),
                vf_positions := dict_set symbol
                  (pos\<lparr>vp_quantity := new_qty, vp_avg_entry_price := new_avg\<rparr>) (vf_positions p)\<rparr>
         else if side = ''sell''
         then
           let pnl = (price - vp_avg_entry_price pos) * quantity - commission;
               new_qty = vp_quantity pos - quantity
           in p\<lparr>vf_balance := vf_balance p + (price * quantity - commission),
                vf_positions := dict_set symbol
                  (pos\<lparr>vp_quantity := max new_qty 0,
                       vp_avg_entry_price := (if new_qty \<le> 0 then 0 else vp_avg_entry_price pos),
                       vp_realized_pnl := vp_realized_pnl pos + pnl\<rparr>) (vf_positions p)\<rparr>
         else p\<lparr>vf_positions := dict_set symbol pos (vf_positions p)\<rparr>)"

definition check_balance :: "rat \<Rightarrow> virtual_portfolio \<Rightarrow> bool" where
  "check_balance amount p \<longleftrightarrow> virtual_available p \<ge> amount"

definition reserve_virtual :: "string \<Rightarrow> rat \<Rightarrow> virtual_portfolio \<Rightarrow> virtual_portfolio" where
  "reserve_virtual order_id amount p =
     p\<lparr>vf_reserved := vf_reserved p + amount,
       vf_pending_orders := dict_set order_id amount (vf_pending_orders p)\<rparr>"

definition release_virtual :: "string \<Rightarrow> virtual_portfolio \<Rightarrow> virtual_portfolio" where
  "release_virtual order_id p =
     (let p' = p\<lparr>vf_pending_orders := dict_pop order_id (vf_pending_orders p)\<rparr>
      in case dict_get (vf_pending_orders p) order_id of
           None \<Rightarrow> p'
         | Some amount \<Rightarrow> p'\<lparr>vf_reserved := vf_reserved p - amount\<rparr>)"

subsection \<open>The executor\<close>

record commission_info =
  cm_buy_commission_rate :: rat
  cm_sell_commission_rate :: rat

definition calculate_commission :: "commission_info \<Rightarrow> string \<Rightarrow> rat \<Rightarrow> rat" where
  "calculate_commission c side filled_value =
     (if side = ''sell'' then filled_value * cm_sell_commission_rate c
      else filled_value * cm_buy_commission_rate c)"

record virtual_executor =
  vx_commission_info :: commission_info
  vx_slippage_rate :: rat
  vx_portfolios :: "(string, virtual_portfolio) dict"

text \<open>
  \<open>ve_service\<close> is \<^theory_text>\<open>None\<close> without an account service; \<open>ve_price\<close> is \<^theory_text>\<open>None\<close> without a gateway.
\<close>

record virtual_env =
  ve_registry :: "readiness_reader option"
  ve_service :: "account_fetch option"
  ve_price :: "rat reply option"

datatype virtual_failure = Vf_blocked string | Vf_price_unavailable

datatype virtual_out =
    Virtual_filled order_filled
  | Virtual_failed order_outcome virtual_failure string
  | Virtual_notify notification

definition new_executor :: "rat \<Rightarrow> rat \<Rightarrow> rat \<Rightarrow> virtual_executor" where
  "new_executor commission_rate sell_tax_rate slippage_rate =
     \<lparr>vx_commission_info = \<lparr>cm_buy_commission_rate = commission_rate,
                            cm_sell_commission_rate = commission_rate + sell_tax_rate\<rparr>,
      vx_slippage_rate = slippage_rate, vx_portfolios = []\<rparr>"

definition register_bot :: "string \<Rightarrow> virtual_portfolio \<Rightarrow> virtual_executor \<Rightarrow> virtual_executor" where
  "register_bot bot_id p vx = vx\<lparr>vx_portfolios := dict_set bot_id p (vx_portfolios vx)\<rparr>"

definition unregister_bot :: "string \<Rightarrow> virtual_executor \<Rightarrow> virtual_executor" where
  "unregister_bot bot_id vx = vx\<lparr>vx_portfolios := dict_pop bot_id (vx_portfolios vx)\<rparr>"

text \<open>A service without a \<open>get\<close> raises here too.\<close>

definition gate_blocked_reason :: "virtual_env \<Rightarrow> string \<Rightarrow> string option" where
  "gate_blocked_reason env account_id =
     (case (ve_registry env, ve_service env) of
        (Some registry, Some fetch) \<Rightarrow>
          let (fetched, failed) = (case fetch of Got a \<Rightarrow> (a, False) | _ \<Rightarrow> (None, True));
              status = gate_status fetched failed
          in if status = Status SUSPENDED then Some account_suspended_reason
             else if status = Status_unavailable then Some account_status_unavailable_reason
             else (case fetched of
                     None \<Rightarrow> Some account_not_ready_reason
                   | Some a \<Rightarrow>
                       (case (ga_broker_type a, ga_trading_mode a) of
                          (Some bt, Some mode) \<Rightarrow>
                            if active_trading_blocked (Some registry) account_id bt mode
                            then Some account_not_ready_reason else None
                        | _ \<Rightarrow> Some account_not_ready_reason))
      | _ \<Rightarrow> Some account_not_ready_reason)"

text \<open>\<open>_fail_order\<close>; the event has no \<open>reason\<close>, so the notification is never a liquidation's.\<close>

definition fail_order :: "order_outcome \<Rightarrow> virtual_failure \<Rightarrow> virtual_out list" where
  "fail_order o' why =
     (case why of
        Vf_blocked r \<Rightarrow>
          [Virtual_failed (failed_order o') why r,
           Virtual_notify (build_not_ready_notification (oo_account_id o') r (oo_side o') False)]
      | Vf_price_unavailable \<Rightarrow> [Virtual_failed (failed_order o') why ''''])"

definition market_price :: "virtual_env \<Rightarrow> order_outcome \<Rightarrow> rat option" where
  "market_price env o' =
     (case ve_price env of
        Some (Returns p) \<Rightarrow> Some p
      | Some (Raises _) \<Rightarrow> None
      | None \<Rightarrow> oo_price o')"

definition slipped_price :: "virtual_executor \<Rightarrow> string \<Rightarrow> rat \<Rightarrow> rat" where
  "slipped_price vx side current_price =
     (if vx_slippage_rate vx > 0
      then (if side = ''buy'' then current_price * (1 + vx_slippage_rate vx)
            else current_price * (1 - vx_slippage_rate vx))
      else current_price)"

definition virtual_fill_price :: "virtual_env \<Rightarrow> virtual_executor \<Rightarrow> order_outcome \<Rightarrow> rat option" where
  "virtual_fill_price env vx o' =
     (if oo_order_type o' = ''limit'' \<and> oo_price o' \<noteq> None then oo_price o'
      else (case market_price env o' of
              None \<Rightarrow> None
            | Some current_price \<Rightarrow>
                if current_price \<le> 0 then None else Some (slipped_price vx (oo_side o') current_price)))"

definition fill_virtually ::
  "order_outcome \<Rightarrow> rat \<Rightarrow> virtual_portfolio \<Rightarrow> virtual_executor \<Rightarrow> virtual_out list \<times> virtual_executor" where
  "fill_virtually o' fill_price portfolio vx =
     (let trade_amount = fill_price * oo_quantity o';
          commission = calculate_commission (vx_commission_info vx) (oo_side o') trade_amount
      in ([Virtual_filled
             \<lparr>ev_account_id = oo_account_id o', ev_order_id = oo_order_id o',
              ev_broker_order_id = ''virtual-'' @ take 8 (oo_order_id o'), ev_bot_id = oo_bot_id o',
              ev_strategy_id = oo_strategy_id o', ev_symbol = oo_symbol o', ev_side = oo_side o',
              ev_quantity = oo_quantity o', ev_price = fill_price, ev_commission = commission,
              ev_order_type = oo_order_type o', ev_exchange = oo_exchange o', ev_fill_dedup_key = None\<rparr>],
          vx\<lparr>vx_portfolios := dict_set (oo_bot_id o')
               (apply_virtual_fill (oo_symbol o') (oo_side o') (oo_quantity o') fill_price commission portfolio)
               (vx_portfolios vx)\<rparr>))"

text \<open>The event comes back with the marker the gateway reads.\<close>

definition on_virtual_approved ::
  "virtual_env \<Rightarrow> approved_order \<Rightarrow> virtual_executor \<Rightarrow> virtual_out list \<times> approved_order \<times> virtual_executor"
where
  "on_virtual_approved env ev vx =
     (let o' = ap_order ev
      in if oo_order_type o' \<in> set [''stop'', ''stop_limit''] then ([], ev, vx)
         else case dict_get (vx_portfolios vx) (oo_bot_id o') of
                None \<Rightarrow> ([], ev, vx)
              | Some portfolio \<Rightarrow>
                  let ev' = ev\<lparr>ap_virtual_handled := True\<rparr>
                  in (case gate_blocked_reason env (oo_account_id o') of
                        Some r \<Rightarrow> (fail_order o' (Vf_blocked r), ev', vx)
                      | None \<Rightarrow>
                          (case virtual_fill_price env vx o' of
                             None \<Rightarrow> (fail_order o' Vf_price_unavailable, ev', vx)
                           | Some fill_price \<Rightarrow>
                               (case fill_virtually o' fill_price portfolio vx of
                                  (outs, vx') \<Rightarrow> (outs, ev', vx')))))"

subsection \<open>Both handlers of one approval\<close>

text \<open>The bus runs the executor first and hands the marked event on to the gateway.\<close>

datatype approval_out = From_executor virtual_out | From_gateway gateway_out

definition dispatch_approved ::
  "virtual_env \<Rightarrow> gateway_env \<Rightarrow> approved_order \<Rightarrow> virtual_executor \<times> 'd api_gateway \<Rightarrow>
     approval_out list \<times> virtual_executor \<times> 'd api_gateway" where
  "dispatch_approved venv genv ev s =
     (case on_virtual_approved venv ev (fst s) of
        (vouts, ev', vx') \<Rightarrow>
          (case on_order_approved genv ev' (snd s) of
             (gouts, gw') \<Rightarrow> (map From_executor vouts @ map From_gateway gouts, vx', gw')))"

subsection \<open>The tracker's handlers (main.py)\<close>

text \<open>\<open>business_date\<close> and \<open>submitted_at\<close> are computed from the event's timestamp.\<close>

definition on_submitted ::
  "string \<Rightarrow> string option \<Rightarrow> order_outcome \<Rightarrow> string \<Rightarrow> order_tracker \<Rightarrow> account_id_error + order_tracker" where
  "on_submitted business_date submitted_at o' broker_order_id t =
     (if oo_order_id o' = '''' \<or> broker_order_id = '''' then Inr t
      else open_order
             \<lparr>ot_order_id = oo_order_id o', ot_account_id = oo_account_id o', ot_bot_id = oo_bot_id o',
              ot_strategy_id = oo_strategy_id o', ot_broker_order_id = broker_order_id,
              ot_symbol = oo_symbol o', ot_side = oo_side o', ot_order_type = oo_order_type o',
              ot_ordered_qty = oo_quantity o', ot_recorded_filled_qty = 0, ot_avg_fill_price = 0,
              ot_status = OPEN, ot_submitted_at = submitted_at, ot_submitted_date = business_date,
              ot_order_price = oo_price o', ot_exchange = Some (oo_exchange o')\<rparr> t)"

datatype terminal_event = Ev_cancelled | Ev_rejected | Ev_failed

fun terminal_status :: "terminal_event \<Rightarrow> order_status" where
  "terminal_status Ev_cancelled = CANCELLED"
| "terminal_status Ev_rejected = REJECTED"
| "terminal_status Ev_failed = FAILED"

definition on_terminal :: "terminal_event \<Rightarrow> string \<Rightarrow> order_tracker \<Rightarrow> mark_error + order_tracker" where
  "on_terminal e order_id t =
     (if order_id = '''' then Inr t else mark_terminal order_id (terminal_status e) t)"

end
