(* ===== verification/Rule_Properties.thy ===== *)
theory Rule_Properties
  imports Rule_Engine
begin

text \<open>
  What the rule engine guarantees: its evaluation is the first objection in rule order; every order
  request of the account is answered exactly once, whatever raises; a validated order meets the
  contract the treasury relies on; a rule update reaches the effective rules.  Two theorems show
  what the engine does not feed to its rules.
\<close>

subsection \<open>Evaluation\<close>

definition rule_passes :: "(string \<Rightarrow> int option) \<Rightarrow> rule_context \<Rightarrow> rule \<Rightarrow> bool" where
  "rule_passes clock cx r \<longleftrightarrow>
     (case evaluate_rule clock r cx of None \<Rightarrow> False | Some e \<Rightarrow> re_result e = PASS)"

definition first_objection :: "(string \<Rightarrow> int option) \<Rightarrow> rule_context \<Rightarrow> rule list \<Rightarrow> rule option" where
  "first_objection clock cx rs = find (\<lambda>r. is_applicable r \<and> \<not> rule_passes clock cx r) rs"

definition rules_for :: "rule_engine \<Rightarrow> string \<Rightarrow> rule list" where
  "rules_for en strategy_id = en_account_rules en @ dict_default [] (en_strategy_rules en) strategy_id"

lemma evaluate_rule_results:
  assumes "evaluate_rule clock r cx = Some e"
  shows "re_result e = PASS \<and> re_action e = LOG \<or> re_result e = REJECT \<and> re_action e \<in> {LOG, NOTIFY}"
proof (cases "rl_kind r")
  case Trading_hours
  with assms show ?thesis
    by (auto simp: evaluate_rule_def evaluate_trading_hours_def passes_def evaluation_def Let_def
        split: option.splits prod.splits pyval.splits if_splits)
qed (use assms in \<open>auto simp: evaluate_rule_def evaluate_daily_loss_def evaluate_total_exposure_def
      evaluate_position_size_def evaluate_unrealized_loss_def evaluate_trade_frequency_def
      passes_def evaluation_def Let_def split: option.splits if_splits\<close>)

lemma rule_passes_result:
  assumes "evaluate_rule clock r cx = Some e"
  shows "rule_passes clock cx r \<longleftrightarrow> re_result e = PASS"
    and "\<not> rule_passes clock cx r \<longleftrightarrow> is_blocking e"
  using assms evaluate_rule_results [OF assms] by (auto simp: rule_passes_def is_blocking_def)

definition quiet :: "rule_evaluation \<Rightarrow> bool" where
  "quiet e \<longleftrightarrow> re_result e = PASS \<and> re_action e = LOG"

lemma evaluate_rules_spec:
  "case first_objection clock cx rs of
     None \<Rightarrow> (\<exists>es. evaluate_rules clock cx rs = Some es \<and> list_all quiet es)
   | Some r \<Rightarrow>
       (case evaluate_rule clock r cx of
          None \<Rightarrow> evaluate_rules clock cx rs = None
        | Some e \<Rightarrow> \<exists>ps. evaluate_rules clock cx rs = Some (ps @ [e]) \<and> list_all quiet ps \<and> is_blocking e)"
proof (induction rs)
  case (Cons r rs)
  show ?case
  proof (cases "is_applicable r")
    case False
    then have "first_objection clock cx (r # rs) = first_objection clock cx rs"
      and "evaluate_rules clock cx (r # rs) = evaluate_rules clock cx rs"
      by (simp_all add: first_objection_def)
    then show ?thesis using Cons by (simp only:)
  next
    case app: True
    show ?thesis
    proof (cases "evaluate_rule clock r cx")
      case None
      with app show ?thesis by (simp add: first_objection_def rule_passes_def)
    next
      case (Some e)
      note res = rule_passes_result [OF Some]
      show ?thesis
      proof (cases "is_blocking e")
        case True
        with app Some res show ?thesis by (simp add: first_objection_def)
      next
        case False
        then have q: "quiet e" and p: "rule_passes clock cx r"
          using res evaluate_rule_results [OF Some] by (auto simp: quiet_def is_blocking_def)
        have fo: "first_objection clock cx (r # rs) = first_objection clock cx rs"
          using p by (simp add: first_objection_def)
        have ev: "evaluate_rules clock cx (r # rs) = map_option ((#) e) (evaluate_rules clock cx rs)"
          using app Some False by simp
        show ?thesis
        proof (cases "first_objection clock cx rs")
          case None
          with Cons obtain es where "evaluate_rules clock cx rs = Some es" "list_all quiet es" by auto
          with None q show ?thesis unfolding fo ev by simp
        next
          case (Some r')
          show ?thesis
          proof (cases "evaluate_rule clock r' cx")
            case None
            with Cons Some show ?thesis unfolding fo ev by simp
          next
            case (Some e')
            with Cons \<open>first_objection clock cx rs = Some r'\<close> obtain ps where
              "evaluate_rules clock cx rs = Some (ps @ [e'])" "list_all quiet ps" "is_blocking e'" by auto
            with Some \<open>first_objection clock cx rs = Some r'\<close> q show ?thesis
              unfolding fo ev by (auto intro: exI [of _ "e # ps"])
          qed
        qed
      qed
    qed
  qed
qed (simp add: first_objection_def)

lemma aggregate_quiet: "list_all quiet es \<Longrightarrow> aggregate_results (es @ fs) PASS acts = aggregate_results fs PASS acts"
  by (induction es) (auto simp: quiet_def)

lemma first_objection_append:
  "first_objection clock cx (rs @ ss) =
     (case first_objection clock cx rs of None \<Rightarrow> first_objection clock cx ss | Some r \<Rightarrow> Some r)"
  by (induction rs) (auto simp: first_objection_def)

lemma quiet_not_blocking: "list_all quiet es \<Longrightarrow> \<not> list_ex is_blocking es"
  by (induction es) (auto simp: quiet_def is_blocking_def)

definition outcome_of_result :: "evaluation_result \<Rightarrow> rule_result \<times> rule_message option \<times> rule_action list" where
  "outcome_of_result v = (vr_overall_result v, vr_rejection_reason v, vr_actions v)"

lemma evaluate_spec:
  "map_option outcome_of_result (evaluate en clock cx) =
     (case first_objection clock cx (rules_for en (cx_strategy_id cx)) of
        None \<Rightarrow> Some (PASS, None, [])
      | Some r \<Rightarrow> map_option (\<lambda>e. (REJECT, Some (re_message e), filter (\<lambda>a. a \<noteq> LOG) [re_action e]))
                    (evaluate_rule clock r cx))"
proof -
  let ?A = "en_account_rules en" and ?S = "dict_default [] (en_strategy_rules en) (cx_strategy_id cx)"
  have rej: "re_result e = REJECT" if "evaluate_rule clock r cx = Some e" "is_blocking e" for r e
    using evaluate_rule_results [OF that(1)] that(2) by (auto simp: is_blocking_def)
  have tail: "aggregate_results (ps @ [e]) PASS [] =
      (REJECT, Some (re_message e), filter (\<lambda>a. a \<noteq> LOG) [re_action e])"
    if "list_all quiet ps" "re_result e = REJECT" for ps e
    using that by (simp add: aggregate_quiet)
  have all: "aggregate_results es PASS [] = (PASS, None, [])" if "list_all quiet es" for es
    using aggregate_quiet [OF that, of "[]" "[]"] by simp
  show ?thesis
  proof (cases "first_objection clock cx ?A")
    case (Some r)
    note A = evaluate_rules_spec [of clock cx ?A, unfolded Some]
    show ?thesis
    proof (cases "evaluate_rule clock r cx")
      case None
      with A Some show ?thesis
        by (simp add: evaluate_def rules_for_def first_objection_append)
    next
      case e: (Some e)
      with A obtain ps where ps: "evaluate_rules clock cx ?A = Some (ps @ [e])" "list_all quiet ps" "is_blocking e"
        by auto
      with rej [OF e] tail [of ps e] Some e show ?thesis
        by (simp add: evaluate_def rules_for_def first_objection_append outcome_of_result_def)
    qed
  next
    case None
    note A = evaluate_rules_spec [of clock cx ?A, unfolded None]
    then obtain es where es: "evaluate_rules clock cx ?A = Some es" "list_all quiet es" by auto
    note nb = quiet_not_blocking [OF es(2)]
    note S = evaluate_rules_spec [of clock cx ?S]
    have fo: "first_objection clock cx (rules_for en (cx_strategy_id cx)) = first_objection clock cx ?S"
      using None by (simp add: rules_for_def first_objection_append)
    show ?thesis
    proof (cases "first_objection clock cx ?S")
      case n: None
      with S obtain es' where es': "evaluate_rules clock cx ?S = Some es'" "list_all quiet es'" by auto
      with es have "list_all quiet (es @ es')" by simp
      from all [OF this] show ?thesis
        using es es' nb unfolding fo n by (simp add: evaluate_def outcome_of_result_def)
    next
      case r: (Some r)
      show ?thesis
      proof (cases "evaluate_rule clock r cx")
        case n: None
        with S r have "evaluate_rules clock cx ?S = None" by simp
        with es nb n show ?thesis unfolding fo r by (simp add: evaluate_def)
      next
        case e: (Some e)
        with S r obtain ps where ps: "evaluate_rules clock cx ?S = Some (ps @ [e])" "list_all quiet ps" "is_blocking e"
          by auto
        with es have "list_all quiet (es @ ps)" by simp
        from tail [OF this rej [OF e ps(3)]] show ?thesis
          using es ps nb e unfolding fo r by (simp add: evaluate_def outcome_of_result_def)
      qed
    qed
  qed
qed

text \<open>
  C32. The engine's verdict is the first objection: account rules come before strategy rules, disabled
  rules do not count, and the outcome (result, reason, actions) is a pass if every applicable rule
  passes, the rejection of the first rule that objects, or an exception if that rule raises.
\<close>

theorem evaluate_is_first_objection:
  "map_option outcome_of_result (evaluate en clock cx) =
     (case first_objection clock cx (rules_for en (cx_strategy_id cx)) of
        None \<Rightarrow> Some (PASS, None, [])
      | Some r \<Rightarrow> map_option (\<lambda>e. (REJECT, Some (re_message e), filter (\<lambda>a. a \<noteq> LOG) [re_action e]))
                    (evaluate_rule clock r cx))"
  by (rule evaluate_spec)

subsection \<open>Answering a request\<close>

fun is_answer :: "engine_out \<Rightarrow> bool" where
  "is_answer (Out_validated _) = True"
| "is_answer (Out_rejected _) = True"
| "is_answer _ = False"

fun is_validation :: "engine_out \<Rightarrow> bool" where
  "is_validation (Out_validated _) = True"
| "is_validation _ = False"

lemma evaluate_cases:
  assumes "evaluate en clock cx = Some v"
  obtains (pass) "vr_overall_result v = PASS" "first_objection clock cx (rules_for en (cx_strategy_id cx)) = None"
  | (reject) "vr_overall_result v = REJECT" "vr_actions v = [] \<or> vr_actions v = [NOTIFY]"
proof (cases "first_objection clock cx (rules_for en (cx_strategy_id cx))")
  case None
  then show ?thesis using evaluate_spec [of en clock cx] assms pass by (simp add: outcome_of_result_def)
next
  case (Some r)
  then obtain e where e: "evaluate_rule clock r cx = Some e"
    "outcome_of_result v = (REJECT, Some (re_message e), filter (\<lambda>a. a \<noteq> LOG) [re_action e])"
    using evaluate_spec [of en clock cx] assms by (cases "evaluate_rule clock r cx") auto
  then show ?thesis
    using evaluate_rule_results [OF e(1)] reject by (auto simp: outcome_of_result_def split: if_splits)
qed

text \<open>The price and the context of a request as the rules see them.\<close>

definition request_context :: "rule_engine \<Rightarrow> rule_env \<Rightarrow> order_request \<Rightarrow> rule_context" where
  "request_context en env ev =
     make_context en env (or_bot_id ev) (or_strategy_id ev) (or_symbol ev) (py_text (or_side ev))
       (or_quantity ev) (py_text (or_order_type ev)) (optional_number (or_price ev))
       (case optional_number (or_price ev) of None \<Rightarrow> 0 | Some p \<Rightarrow> p)"

lemma evaluate_request_cases:
  obtains (raised) "evaluate_request en env ev = ([], True)"
  | (pass) "evaluate_request en env ev = ([Out_validated (validated_event en ev)], False)"
      "first_objection (rv_clock env) (request_context en env ev) (rules_for en (or_strategy_id ev)) = None"
  | (reject) r outs where "evaluate_request en env ev = (build_safe_rejected_event en ev r # outs, False)"
      "filter is_answer outs = []" "filter is_validation outs = []"
proof (cases "evaluate en (rv_clock env) (request_context en env ev)")
  case None
  then show ?thesis using raised by (simp add: evaluate_request_def request_context_def Let_def)
next
  case (Some v)
  have st: "cx_strategy_id (request_context en env ev) = or_strategy_id ev"
    by (simp add: request_context_def make_context_def Let_def)
  from Some show ?thesis
  proof (cases rule: evaluate_cases)
    case p: pass
    with Some show ?thesis
      using pass st by (simp add: evaluate_request_def request_context_def Let_def)
  next
    case r: reject
    show ?thesis
    proof (cases "vr_actions v = []")
      case True
      with Some r(1) show ?thesis
        using reject [of "Rule_reason (vr_rejection_reason v)" "[]"]
        by (simp add: evaluate_request_def request_context_def Let_def)
    next
      case False
      with Some r show ?thesis
        using reject [of "Rule_reason (vr_rejection_reason v)" "[Out_violation (or_bot_id ev) (or_symbol ev) (or_exchange ev)]"]
        by (auto simp: evaluate_request_def request_context_def Let_def)
    qed
  qed
qed

lemma build_is_rejection [simp]:
  "is_answer (build_safe_rejected_event en ev r)" "\<not> is_validation (build_safe_rejected_event en ev r)"
  by (simp_all add: build_safe_rejected_event_def)

text \<open>The conditions under which the handler gets to the rules.\<close>

definition gate_open :: "rule_engine \<Rightarrow> rule_env \<Rightarrow> bool" where
  "gate_open en env \<longleftrightarrow>
     engine_account_status en env \<notin> {Status SUSPENDED, Status_unavailable}
     \<and> (\<exists>b m. resolve_account_meta en env = Some (b, m)
          \<and> \<not> active_trading_blocked (rv_registry env) (en_account_id en) b m)"

lemma handle_order_request_cases:
  obtains (raised) "handle_order_request en env ev = ([], True)"
  | (validated) "handle_order_request en env ev = ([Out_validated (validated_event en ev)], False)"
      "gate_open en env" "preflight ev = None" "check_unrecovered_buy_guard en env ev = Some None"
      "first_objection (rv_clock env) (request_context en env ev) (rules_for en (or_strategy_id ev)) = None"
  | (rejected) r outs where "handle_order_request en env ev = (build_safe_rejected_event en ev r # outs, False)"
      "filter is_answer outs = []" "filter is_validation outs = []"
proof (cases "gate_open en env")
  case False
  have "\<exists>r t. handle_order_request en env ev = reject_and_notify en ev r t"
  proof (cases "engine_account_status en env \<in> {Status SUSPENDED, Status_unavailable}")
    case True
    then have "handle_order_request en env ev =
          reject_and_notify en ev (Status_reason account_suspended_reason) account_suspended_reason
        \<or> handle_order_request en env ev =
          reject_and_notify en ev (Status_reason account_status_unavailable_reason) account_status_unavailable_reason"
      by (auto simp: handle_order_request_def)
    then show ?thesis by blast
  next
    case ok: False
    with False have "\<not> (\<exists>b m. resolve_account_meta en env = Some (b, m)
        \<and> \<not> active_trading_blocked (rv_registry env) (en_account_id en) b m)" by (simp add: gate_open_def)
    with ok show ?thesis
      by (auto simp: handle_order_request_def Let_def split: status_view.splits account_status.splits option.splits)
  qed
  then obtain r t where "handle_order_request en env ev = reject_and_notify en ev r t" by blast
  then show ?thesis by (intro rejected) (auto simp: reject_and_notify_def)
next
  case True
  then obtain b m where meta: "resolve_account_meta en env = Some (b, m)"
    "\<not> active_trading_blocked (rv_registry env) (en_account_id en) b m"
    and st: "engine_account_status en env \<notin> {Status SUSPENDED, Status_unavailable}"
    by (auto simp: gate_open_def)
  have body: "handle_order_request en env ev =
      (case preflight ev of
         Some r \<Rightarrow> ([build_safe_rejected_event en ev r], False)
       | None \<Rightarrow>
           (case check_unrecovered_buy_guard en env ev of
              None \<Rightarrow> ([], True)
            | Some (Some r) \<Rightarrow> ([build_safe_rejected_event en ev r], False)
            | Some None \<Rightarrow> evaluate_request en env ev))"
    using meta st by (auto simp: handle_order_request_def split: status_view.splits account_status.splits)
  show ?thesis
  proof (cases "preflight ev")
    case (Some r)
    with body show ?thesis using rejected [of r "[]"] by simp
  next
    case pf: None
    show ?thesis
    proof (cases "check_unrecovered_buy_guard en env ev")
      case None
      with body pf show ?thesis using raised by simp
    next
      case g: (Some og)
      show ?thesis
      proof (cases og)
        case (Some r)
        with body pf g show ?thesis using rejected [of r "[]"] by simp
      next
        case None
        with body pf g have e: "handle_order_request en env ev = evaluate_request en env ev" by simp
        show ?thesis
          using e raised validated [OF _ True pf] g None rejected
          by (cases en env ev rule: evaluate_request_cases) simp_all
      qed
    qed
  qed
qed

lemma on_order_request_cases:
  assumes "or_account_id ev = en_account_id en"
  obtains (validated) "on_order_request en env ev = [Out_validated (validated_event en ev)]"
      "gate_open en env" "preflight ev = None" "check_unrecovered_buy_guard en env ev = Some None"
      "first_objection (rv_clock env) (request_context en env ev) (rules_for en (or_strategy_id ev)) = None"
  | (rejected) r outs where "on_order_request en env ev = build_safe_rejected_event en ev r # outs"
      "filter is_answer outs = []" "filter is_validation outs = []"
proof (cases en env ev rule: handle_order_request_cases)
  case r: raised
  show ?thesis using rejected [of Preflight_error "[]"] r assms by (simp add: on_order_request_def)
next
  case v: validated
  then show ?thesis using validated assms by (simp add: on_order_request_def)
next
  case (rejected r outs)
  then show ?thesis using that(2) assms by (simp add: on_order_request_def)
qed

text \<open>
  C31. Every order request is answered exactly once: the handler publishes exactly one of a validation
  and a rejection for a request of its account (a lookup or a rule that raises, a missing registry or
  an ill-typed field included), and nothing for other accounts.
\<close>

theorem every_request_answered_once:
  "length (filter is_answer (on_order_request en env ev)) =
     (if or_account_id ev = en_account_id en then 1 else 0)"
proof (cases "or_account_id ev = en_account_id en")
  case True
  then show ?thesis by (cases rule: on_order_request_cases [OF True, of env]) simp_all
qed (simp add: on_order_request_def)

subsection \<open>The contract of a validated order\<close>

lemma one_of_text: "one_of xs v \<longleftrightarrow> (\<exists>s. v = Py_str s \<and> py_text v = s \<and> s \<in> set xs)"
  by (cases v) (auto simp: one_of_def py_text_def)

lemma preflight_None:
  assumes "preflight ev = None"
  shows "one_of valid_order_sides (or_side ev)" and "one_of valid_order_types (or_order_type ev)"
    and "or_exchange ev = ''KRX'' \<Longrightarrow> is_krx_symbol (or_symbol ev)"
    and "one_of [''limit'', ''stop_limit''] (or_order_type ev) \<Longrightarrow> or_price ev \<noteq> Py_none"
    and "one_of [''stop'', ''stop_limit''] (or_order_type ev) \<Longrightarrow> or_stop_price ev \<noteq> Py_none"
    and "or_stop_price ev \<noteq> Py_none \<Longrightarrow> 0 < number_of (or_stop_price ev)"
    and "or_price ev \<noteq> Py_none \<Longrightarrow> 0 < number_of (or_price ev)"
    and "0 < number_of (or_quantity ev)"
proof -
  have if_None: "((if c then Some x else y) = None) = (\<not> c \<and> y = None)" for c x and y :: "engine_reason option"
    by simp
  have case_None: "((case x of Some r \<Rightarrow> Some r | None \<Rightarrow> y) = None) = (x = None \<and> y = None)"
    for x y :: "engine_reason option" by (cases x) simp_all
  note P = assms [unfolded preflight_def case_None preflight_shape_def preflight_amounts_def if_None]
  from P show "one_of valid_order_sides (or_side ev)" "one_of valid_order_types (or_order_type ev)"
    "or_exchange ev = ''KRX'' \<Longrightarrow> is_krx_symbol (or_symbol ev)"
    "one_of [''limit'', ''stop_limit''] (or_order_type ev) \<Longrightarrow> or_price ev \<noteq> Py_none"
    "one_of [''stop'', ''stop_limit''] (or_order_type ev) \<Longrightarrow> or_stop_price ev \<noteq> Py_none"
    by blast+
  from P have "or_stop_price ev \<noteq> Py_none \<Longrightarrow> \<not> number_of (or_stop_price ev) < 0 \<and> number_of (or_stop_price ev) \<noteq> 0"
    "or_price ev \<noteq> Py_none \<Longrightarrow> \<not> number_of (or_price ev) < 0 \<and> number_of (or_price ev) \<noteq> 0"
    "\<not> number_of (or_quantity ev) < 0 \<and> number_of (or_quantity ev) \<noteq> 0"
    by blast+
  then show "or_stop_price ev \<noteq> Py_none \<Longrightarrow> 0 < number_of (or_stop_price ev)"
    "or_price ev \<noteq> Py_none \<Longrightarrow> 0 < number_of (or_price ev)" "0 < number_of (or_quantity ev)"
    by (meson linorder_cases)+
qed

lemma validated_from:
  assumes "Out_validated v \<in> set (on_order_request en env ev)"
  shows "v = validated_event en ev" and "gate_open en env" and "preflight ev = None"
    and "first_objection (rv_clock env) (request_context en env ev) (rules_for en (or_strategy_id ev)) = None"
proof -
  have own: "or_account_id ev = en_account_id en"
    using assms by (auto simp: on_order_request_def split: if_splits)
  have "v = validated_event en ev \<and> gate_open en env \<and> preflight ev = None
    \<and> first_objection (rv_clock env) (request_context en env ev) (rules_for en (or_strategy_id ev)) = None"
  proof (cases rule: on_order_request_cases [OF own, of env])
    case 1
    with assms show ?thesis by simp
  next
    case (2 r outs)
    from assms have "Out_validated v \<in> set (filter is_validation (on_order_request en env ev))" by simp
    with 2 show ?thesis by simp
  qed
  then show "v = validated_event en ev" "gate_open en env" "preflight ev = None"
    "first_objection (rv_clock env) (request_context en env ev) (rules_for en (or_strategy_id ev)) = None"
    by blast+
qed

lemma validated_numbers:
  assumes "Out_validated v \<in> set (on_order_request en env ev)"
  shows "0 < vd_quantity v" and "\<And>p. vd_price v = Some p \<Longrightarrow> 0 < p"
    and "\<And>p. vd_stop_price v = Some p \<Longrightarrow> 0 < p"
    and "vd_order_type v \<in> set [''limit'', ''stop_limit''] \<Longrightarrow> vd_price v \<noteq> None"
    and "vd_order_type v \<in> set [''stop'', ''stop_limit''] \<Longrightarrow> vd_stop_price v \<noteq> None"
    and "vd_side v \<in> set valid_order_sides" and "vd_order_type v \<in> set valid_order_types"
    and "vd_exchange v = ''KRX'' \<Longrightarrow> is_krx_symbol (vd_symbol v)"
proof -
  note f = validated_from [OF assms]
  note pf = preflight_None [OF f(3)]
  have "\<exists>t. or_order_type ev = Py_str t" using pf(2) by (auto simp: one_of_text)
  then obtain t where "or_order_type ev = Py_str t" ..
  then have ty: "one_of xs (or_order_type ev) \<longleftrightarrow> vd_order_type v \<in> set xs" for xs
    by (simp add: one_of_def f(1) validated_event_def py_text_def)
  show "0 < vd_quantity v" "\<And>p. vd_price v = Some p \<Longrightarrow> 0 < p" "\<And>p. vd_stop_price v = Some p \<Longrightarrow> 0 < p"
    using pf(6-8) by (auto simp: f(1) validated_event_def optional_number_def split: if_splits)
  have pr: "vd_price v \<noteq> None \<longleftrightarrow> or_price ev \<noteq> Py_none" "vd_stop_price v \<noteq> None \<longleftrightarrow> or_stop_price ev \<noteq> Py_none"
    by (simp_all add: f(1) validated_event_def optional_number_def)
  show "vd_order_type v \<in> set [''limit'', ''stop_limit''] \<Longrightarrow> vd_price v \<noteq> None"
    "vd_order_type v \<in> set [''stop'', ''stop_limit''] \<Longrightarrow> vd_stop_price v \<noteq> None"
    using pf(4,5) unfolding ty pr by blast+
  show "vd_side v \<in> set valid_order_sides" "vd_order_type v \<in> set valid_order_types"
    using pf(1,2) by (auto simp: one_of_text f(1) validated_event_def)
  show "vd_exchange v = ''KRX'' \<Longrightarrow> is_krx_symbol (vd_symbol v)"
    using pf(3) by (simp add: f(1) validated_event_def)
qed

text \<open>
  C6. A validated order keeps its contract: side and type are known, a KRX symbol has six digits, the
  quantity and every price it carries are positive, limit orders have a price and stop orders a stop
  price; the account's status was verified and not suspended (or no account service is attached),
  its readiness was confirmed, and every applicable account and strategy rule passed.
\<close>

theorem validated_order_contract:
  assumes "Out_validated v \<in> set (on_order_request en env ev)"
  shows "vd_side v \<in> {''buy'', ''sell''} \<and> vd_order_type v \<in> {''market'', ''limit'', ''stop'', ''stop_limit''}
    \<and> (vd_exchange v = ''KRX'' \<longrightarrow> is_krx_symbol (vd_symbol v))
    \<and> 0 < vd_quantity v
    \<and> (case vd_price v of None \<Rightarrow> vd_order_type v \<in> {''market'', ''stop''} | Some p \<Rightarrow> 0 < p)
    \<and> (case vd_stop_price v of None \<Rightarrow> vd_order_type v \<in> {''market'', ''limit''} | Some p \<Rightarrow> 0 < p)
    \<and> engine_account_status en env \<notin> {Status SUSPENDED, Status_unavailable}
    \<and> (\<exists>b m. resolve_account_meta en env = Some (b, m)
         \<and> \<not> active_trading_blocked (rv_registry env) (en_account_id en) b m)
    \<and> (\<forall>r\<in>set (rules_for en (vd_strategy_id v)).
         is_applicable r \<longrightarrow> rule_passes (rv_clock env) (request_context en env ev) r)"
proof -
  note f = validated_from [OF assms] and n = validated_numbers [OF assms]
  have "\<forall>r\<in>set (rules_for en (vd_strategy_id v)).
         is_applicable r \<longrightarrow> rule_passes (rv_clock env) (request_context en env ev) r"
    using f(4) by (auto simp: first_objection_def find_None_iff f(1) validated_event_def)
  moreover have "case vd_price v of None \<Rightarrow> vd_order_type v \<in> {''market'', ''stop''} | Some p \<Rightarrow> 0 < p"
    using n(2,4,7) by (auto simp: valid_order_types_def split: option.splits)
  moreover have "case vd_stop_price v of None \<Rightarrow> vd_order_type v \<in> {''market'', ''limit''} | Some p \<Rightarrow> 0 < p"
    using n(3,5,7) by (auto simp: valid_order_types_def split: option.splits)
  moreover have "vd_side v \<in> {''buy'', ''sell''}" "vd_order_type v \<in> {''market'', ''limit'', ''stop'', ''stop_limit''}"
    using n(6,7) by (auto simp: valid_order_sides_def valid_order_types_def)
  ultimately show ?thesis using n(1,8) f(2) by (simp add: gate_open_def)
qed

subsection \<open>What the treasury makes of a validated order\<close>

fun invalid_amount :: "treasury_out \<Rightarrow> bool" where
  "invalid_amount (Order_rejected _ (Reserve_amount_invalid _)) = True"
| "invalid_amount (Order_rejected _ (Reserve_failed Amount_not_positive)) = True"
| "invalid_amount _ = False"

lemma reserve_and_approve_amount:
  assumes "0 < x" and "reserve_and_approve c env ev x s = (outs, s')"
  shows "\<forall>out\<in>set outs. \<not> invalid_amount out"
proof -
  obtain res s1 where r: "reserve_for_order env (vd_bot_id ev) (vd_order_id ev) x s = (res, s1)"
    by (cases "reserve_for_order env (vd_bot_id ev) (vd_order_id ev) x s")
  have res: "res \<noteq> Inl Amount_not_positive"
    using assms(1) r by (auto simp: reserve_for_order_def Let_def split: option.splits if_splits)
  show ?thesis
  proof (cases res)
    case (Inl e)
    with res have "e = Save_budget_failed" by (cases e) auto
    with Inl r assms(2) show ?thesis by (auto simp: reserve_and_approve_def reject_def)
  next
    case (Inr ok)
    with r assms(2) show ?thesis
      by (auto simp: reserve_and_approve_def reject_def approve_def split: if_splits)
  qed
qed

text \<open>
  The engine's checks discharge the treasury's: an order the engine validated is never rejected
  by the treasury of the account for a reservation amount that is not positive, whatever its type,
  provided the commission rate and the market buffer are not negative.
\<close>

theorem validated_order_is_reservable:
  assumes "Out_validated v \<in> set (on_order_request en env ev)"
    and "0 \<le> tc_buy_commission_rate c" and "0 \<le> tc_market_order_reserve_buffer_rate c"
    and "on_order_validated c tenv v s = (outs, s')"
  shows "\<forall>out\<in>set outs. \<not> invalid_amount out"
proof -
  note n = validated_numbers [OF assms(1)]
  have pos: "0 < x * (1 + r)" if "0 < x" "0 \<le> r" for x r :: rat
    using that by (simp add: add_pos_nonneg)
  have market: "0 < market_buy_reserve c (vd_quantity v) q" if "0 < q" for q
  proof -
    have "0 < vd_quantity v * q" using n(1) that by simp
    from pos [OF pos [OF this assms(3)] assms(2)] show ?thesis
      by (simp add: market_buy_reserve_def Let_def algebra_simps)
  qed
  have limit: "0 < limit_buy_reserve c v" if "vd_price v = Some p" for p
  proof -
    have "0 < vd_quantity v * p" using n(1) n(2) [OF that] by simp
    from pos [OF this assms(2)] show ?thesis
      by (simp add: limit_buy_reserve_def Let_def that algebra_simps)
  qed
  consider "outs = []" | "outs = reject_not_ready c tenv v" | "outs = [approve c v 0]"
    | "vd_price v = None" "validated_market_buy c tenv v s = (outs, s')"
    | p where "vd_price v = Some p" "validated_other c tenv v s = (outs, s')"
    | "vd_side v \<noteq> ''buy''" "validated_other c tenv v s = (outs, s')"
  proof -
    have "vd_price v = None \<Longrightarrow> vd_order_type v \<in> set [''market'', ''stop'']"
      using n(4,7) by (auto simp: valid_order_types_def)
    then show ?thesis
      using assms(4) that unfolding on_order_validated_def
      by (cases "vd_price v") (auto split: if_splits)
  qed
  then show ?thesis
  proof cases
    case 4
    then show ?thesis
      using market [THEN reserve_and_approve_amount] market [THEN not_le [THEN iffD2]]
      by (fastforce simp: validated_market_buy_def reject_def Let_def isfinite_iff
          split: option.splits quote_reply.splits if_splits)
  next
    case 5
    then show ?thesis
      using limit [OF 5(1), THEN reserve_and_approve_amount] limit [OF 5(1), THEN not_le [THEN iffD2]]
      by (fastforce simp: validated_other_def approve_def Let_def split: if_splits)
  qed (auto simp: reject_not_ready_def reject_def approve_def validated_other_def Let_def)
qed

subsection \<open>What the rules do not see\<close>

lemma request_context_defaults [simp]:
  "cx_current_position (request_context en env ev) = 0"
  "cx_recent_trade_count (request_context en env ev) = None"
  "cx_side (request_context en env ev) = py_text (or_side ev)"
  "cx_quantity (request_context en env ev) = or_quantity ev"
  "cx_current_price (request_context en env ev) =
     (case optional_number (or_price ev) of None \<Rightarrow> 0 | Some p \<Rightarrow> p)"
  "cx_unrealized_pnl (request_context en env ev) =
     calculate_bot_unrealized_pnl (rv_positions env) (or_bot_id ev)
       (case optional_number (or_price ev) of None \<Rightarrow> 0 | Some p \<Rightarrow> p) (or_symbol ev)"
  by (simp_all add: request_context_def make_context_def Let_def)

lemma ftimes_zero: "ftimes 0 x = Fin 0 \<or> ftimes 0 x = NaN"
  by (cases x) auto

text \<open>
  The engine starves its rules.  It evaluates a request without price at price 0, so the position
  size rule lets every market order through, however large, and the unrealised loss it computes for
  a held symbol is its whole cost; and it never passes the count of recent trades, so the trade
  frequency rule lets every request through as long as its limit is positive.
\<close>

theorem engine_starves_rules:
  assumes "evaluate_rule clock r (request_context en env ev) = Some e"
  shows "(rl_kind r = Position_size \<and> or_price ev = Py_none \<longrightarrow> re_result e = PASS)
    \<and> (rl_kind r = Trade_frequency \<and> py_less_eq (param r ''max_trades_per_hour'' (Py_int 10)) (Py_int 0) = Some False
         \<longrightarrow> re_result e = PASS)
    \<and> (or_price ev = Py_none \<and> rv_positions env = Some get \<and> get (or_bot_id ev) = Some ps
         \<longrightarrow> cx_unrealized_pnl (request_context en env ev) =
             - (\<Sum>((_, _, sy), p) \<leftarrow> ps. if sy = or_symbol ev then ps_avg_entry_price p * ps_quantity p else 0))"
proof (intro conjI impI)
  assume h: "rl_kind r = Position_size \<and> or_price ev = Py_none"
  then have pr: "cx_current_price (request_context en env ev) = 0" by (simp add: optional_number_def)
  have no: "\<not> (py_less limit (Py_float y) = Some True \<and> py_less (Py_int 0) limit = Some True)"
    if "y = Fin 0 \<or> y = NaN" for limit y
    using that by (cases limit) (auto simp: py_less_def elim: flt.elims)
  have y: "fplus 0 x = Fin 0 \<or> fplus 0 x = NaN" if "py_times 0 v = Some x" for v x
  proof -
    from that obtain z where "x = ftimes 0 z" by (auto simp: py_times_def)
    then show ?thesis using ftimes_zero [of z] by auto
  qed
  show "re_result e = PASS"
    using assms h pr y no
    by (auto simp: evaluate_rule_def evaluate_position_size_def order_value_def passes_def evaluation_def Let_def
        split: option.splits if_splits)
next
  assume "rl_kind r = Trade_frequency \<and> py_less_eq (param r ''max_trades_per_hour'' (Py_int 10)) (Py_int 0) = Some False"
  then show "re_result e = PASS"
    using assms by (auto simp: evaluate_rule_def evaluate_trade_frequency_def passes_def evaluation_def Let_def)
next
  assume "or_price ev = Py_none \<and> rv_positions env = Some get \<and> get (or_bot_id ev) = Some ps"
  moreover have "sum_list (map (\<lambda>((_, _, sy), p). if sy = or_symbol ev
        then (0 - ps_avg_entry_price p) * ps_quantity p else 0) qs) =
      - (\<Sum>((_, _, sy), p) \<leftarrow> qs. if sy = or_symbol ev then ps_avg_entry_price p * ps_quantity p else 0)"
    for qs :: "(position_key \<times> position) list"
    by (induction qs) auto
  ultimately show "cx_unrealized_pnl (request_context en env ev) =
      - (\<Sum>((_, _, sy), p) \<leftarrow> ps. if sy = or_symbol ev then ps_avg_entry_price p * ps_quantity p else 0)"
    by (simp add: optional_number_def calculate_bot_unrealized_pnl_def)
qed

subsection \<open>Updating a rule\<close>

lemma fold_set_new_keys:
  assumes "distinct (map fst ps)" and "\<forall>k\<in>set (map fst ps). dict_get d k = None"
  shows "fold (\<lambda>(k, v) cfg. dict_set k v cfg) ps d = d @ ps"
  using assms
proof (induction ps arbitrary: d)
  case (Cons p ps)
  obtain k v where p: "p = (k, v)" by (cases p)
  then have "dict_get d k = None" using Cons.prems(2) by simp
  then have set: "dict_set k v d = d @ [(k, v)]" by (simp add: dict_append_absent)
  have "\<forall>k'\<in>set (map fst ps). dict_get (d @ [(k, v)]) k' = None"
    using Cons.prems p by (auto simp: map_add_def)
  then have "fold (\<lambda>(k, v) cfg. dict_set k v cfg) ps (d @ [(k, v)]) = (d @ [(k, v)]) @ ps"
    using Cons.IH Cons.prems(1) by simp
  then show ?case by (simp add: p set)
qed simp

definition plain_params :: "(string, pyval) dict \<Rightarrow> bool" where
  "plain_params ps \<longleftrightarrow> dict_wf ps \<and> (\<forall>k\<in>set (map fst ps). k \<notin> set [''type'', ''id'', ''enabled''])"

lemma item_to_rule_config_plain:
  assumes "plain_params ps"
  shows "item_to_rule_config t enabled ps = [(''type'', Py_str t), (''enabled'', Py_bool enabled)] @ ps"
  unfolding item_to_rule_config_def
  by (rule fold_set_new_keys) (use assms in \<open>auto simp: plain_params_def dict_wf_def\<close>)

lemma replace_rule_find:
  "config_type new = Py_str t \<Longrightarrow> find (\<lambda>c. config_type c = Py_str t) (replace_rule t new cfgs) = Some new"
  by (induction cfgs) auto

lemma replace_rule_others:
  "u \<noteq> Py_str t \<Longrightarrow> config_type new = Py_str t \<Longrightarrow>
     filter (\<lambda>c. config_type c = u) (replace_rule t new cfgs) = filter (\<lambda>c. config_type c = u) cfgs"
  by (induction cfgs) auto

lemma find_none_append: "find P xs = None \<Longrightarrow> find P (xs @ ys) = find P ys"
  by (induction xs) (auto split: if_splits)

text \<open>
  A rule update takes effect and nothing else changes: when the update of one rule type is
  accepted, its parameters passed the checks of the rule, reading the stored item back gives the
  same type, flag and parameters, it is the configuration of that type among the account's effective
  rules (a broker default of the type no longer applies), and the stored rules of every other type
  are what they were.
\<close>

theorem rule_update_takes_effect:
  assumes "update_account_rule_config t enabled ps (Some cfgs) None = Inr stored" and "plain_params ps"
  shows "(\<exists>kind. dict_get rule_registry t = Some kind \<and> validate_config kind ps = [])
    \<and> rule_config_to_item (item_to_rule_config t enabled ps) = (Py_str t, Py_bool enabled, ps)
    \<and> find (\<lambda>c. config_type c = Py_str t) (resolve_effective_rules broker_type (Some stored))
        = Some (item_to_rule_config t enabled ps)
    \<and> (\<forall>u. u \<noteq> Py_str t \<longrightarrow>
         filter (\<lambda>c. config_type c = u) stored = filter (\<lambda>c. config_type c = u) cfgs)"
proof -
  let ?new = "item_to_rule_config t enabled ps"
  note new = item_to_rule_config_plain [OF assms(2), of t enabled]
  have ty: "config_type ?new = Py_str t" by (simp add: new config_type_def dict_default_def)
  obtain kind where kind: "dict_get rule_registry t = Some kind" "validate_config kind ps = []"
    and stored: "stored = replace_rule t ?new cfgs"
    using assms(1) by (auto simp: update_account_rule_config_def Let_def split: option.splits if_splits)
  have keep: "filter (\<lambda>(k, _). k \<notin> set [''type'', ''id'', ''enabled'']) ps = ps"
    using assms(2) by (intro filter_True) (auto simp: plain_params_def)
  have item: "rule_config_to_item ?new = (Py_str t, Py_bool enabled, ps)"
    using keep by (simp add: rule_config_to_item_def new dict_default_def)
  have found: "find (\<lambda>c. config_type c = Py_str t) stored = Some ?new"
    unfolding stored by (rule replace_rule_find [OF ty])
  then have "?new \<in> set stored" by (auto simp: find_Some_iff)
  with ty have "Py_str t \<in> config_type ` set stored" by (metis image_eqI)
  then have "find (\<lambda>c. config_type c = Py_str t)
      (filter (\<lambda>d. config_type d \<notin> config_type ` set stored)
         (dict_default [] default_rules_by_broker_type broker_type)) = None"
    by (auto simp: find_None_iff)
  from find_none_append [OF this] found
  have "find (\<lambda>c. config_type c = Py_str t) (resolve_effective_rules broker_type (Some stored)) = Some ?new"
    by (simp add: resolve_effective_rules_def Let_def)
  then show ?thesis using kind item replace_rule_others [OF _ ty] by (auto simp: stored)
qed

subsection \<open>The properties on a concrete request\<close>

definition sample_engine :: rule_engine where
  "sample_engine =
     load_rules_from_config (resolve_effective_rules ''kis-domestic'' (Some [[(''type'', Py_str ''position_size'')]]))
       \<lparr>en_account_id = ''acct-1'',
        en_account = Some \<lparr>am_broker_type = Some ''kis-domestic'', am_trading_mode = Some VIRTUAL\<rparr>,
        en_guard_min_age = 60, en_overlap_default = False, en_overlap_by_bot = [],
        en_account_rules = [], en_strategy_rules = []\<rparr>"

definition sample_rule_env :: rule_env where
  "sample_rule_env =
     \<lparr>rv_service = None, rv_registry = Some (reader_of (mark_ready ''acct-1'' TREASURY_SYNC [])),
      rv_treasury = None, rv_tracker = None,
      rv_positions = Some (\<lambda>_. Some [((''acct-1'', ''bot-1'', ''005930''),
        \<lparr>ps_quantity = 2, ps_avg_entry_price = 100, ps_realized_pnl = 0\<rparr>)]),
      rv_age = (\<lambda>_. None), rv_clock = (\<lambda>_. Some 36000000000)\<rparr>"

definition sample_request :: "pyval \<Rightarrow> order_request" where
  "sample_request price =
     \<lparr>or_event_id = ''o1'', or_account_id = ''acct-1'', or_bot_id = ''bot-1'', or_strategy_id = ''s'',
      or_symbol = ''005930'', or_side = Py_str ''buy'', or_quantity = Py_int 1000000,
      or_order_type = Py_str (if price = Py_none then ''market'' else ''limit''), or_price = price,
      or_stop_price = Py_none, or_reason = '''', or_exchange = ''KRX''\<rparr>"

lemma sample_request_validated:
  "on_order_request sample_engine sample_rule_env (sample_request (Py_float (Fin 50))) =
     [Out_validated (validated_event sample_engine (sample_request (Py_float (Fin 50))))]"
  by code_simp

theorem validated_order_contract_witness:
  "0 < vd_quantity (validated_event sample_engine (sample_request (Py_float (Fin 50))))
   \<and> vd_side (validated_event sample_engine (sample_request (Py_float (Fin 50)))) \<in> {''buy'', ''sell''}"
proof -
  have "Out_validated (validated_event sample_engine (sample_request (Py_float (Fin 50))))
      \<in> set (on_order_request sample_engine sample_rule_env (sample_request (Py_float (Fin 50))))"
    by (simp add: sample_request_validated)
  from validated_order_contract [OF this] show ?thesis by blast
qed

definition sample_treasury_config :: treasury_config where
  "sample_treasury_config = \<lparr>tc_account_id = ''acct-1'', tc_buy_commission_rate = 1/1000,
     tc_market_order_reserve_buffer_rate = 1/10, tc_broker_type = ''kis-domestic'', tc_trading_mode = VIRTUAL\<rparr>"

definition sample_treasury_env :: treasury_env where
  "sample_treasury_env = \<lparr>te_price_resolver = None, te_bot_status = None, te_order_tracker = None,
     te_registry = Some (reader_of (mark_ready ''acct-1'' TREASURY_SYNC [])), te_fault = None\<rparr>"

definition bare_treasury :: treasury where
  "bare_treasury = \<lparr>ty_budgets = [], ty_unallocated = 0, ty_reservations = [], ty_figures = no_figures,
     ty_db = \<lparr>db_budgets = [], db_state = [], db_log = [], db_fill_dedup = [], db_snapshots = []\<rparr>\<rparr>"

theorem validated_order_is_reservable_witness:
  "\<not> list_ex invalid_amount (fst (on_order_validated sample_treasury_config sample_treasury_env
      (validated_event sample_engine (sample_request (Py_float (Fin 50)))) bare_treasury))"
proof -
  let ?r = "on_order_validated sample_treasury_config sample_treasury_env
      (validated_event sample_engine (sample_request (Py_float (Fin 50)))) bare_treasury"
  have v: "Out_validated (validated_event sample_engine (sample_request (Py_float (Fin 50))))
      \<in> set (on_order_request sample_engine sample_rule_env (sample_request (Py_float (Fin 50))))"
    by (simp add: sample_request_validated)
  have c: "0 \<le> tc_buy_commission_rate sample_treasury_config"
    "0 \<le> tc_market_order_reserve_buffer_rate sample_treasury_config"
    by (simp_all add: sample_treasury_config_def)
  have "?r = (fst ?r, snd ?r)" by simp
  from validated_order_is_reservable [OF v c this] show ?thesis by (auto simp: list_ex_iff)
qed

definition sample_size_rule :: rule where
  "sample_size_rule = \<lparr>rl_kind = Position_size, rl_rule_id = Py_str ''position_size'', rl_config = []\<rparr>"

theorem engine_starves_rules_witness:
  "\<exists>e. evaluate_rule (rv_clock sample_rule_env) sample_size_rule
        (request_context sample_engine sample_rule_env (sample_request Py_none)) = Some e
     \<and> re_result e = PASS
     \<and> cx_unrealized_pnl (request_context sample_engine sample_rule_env (sample_request Py_none)) = - 200"
proof -
  let ?cx = "request_context sample_engine sample_rule_env (sample_request Py_none)"
  have "evaluate_rule (rv_clock sample_rule_env) sample_size_rule ?cx \<noteq> None" by code_simp
  then obtain e where e: "evaluate_rule (rv_clock sample_rule_env) sample_size_rule ?cx = Some e" by blast
  have p: "or_price (sample_request Py_none) = Py_none" "rl_kind sample_size_rule = Position_size"
    by (simp_all add: sample_request_def sample_size_rule_def)
  show ?thesis
    using e p engine_starves_rules [OF e,
        of "\<lambda>_. Some [((''acct-1'', ''bot-1'', ''005930''), \<lparr>ps_quantity = 2, ps_avg_entry_price = 100, ps_realized_pnl = 0\<rparr>)]"
        "[((''acct-1'', ''bot-1'', ''005930''), \<lparr>ps_quantity = 2, ps_avg_entry_price = 100, ps_realized_pnl = 0\<rparr>)]"]
    by (simp add: sample_rule_env_def sample_request_def)
qed

definition sample_stored :: "rule_config list" where
  "sample_stored = replace_rule ''trading_hours''
     (item_to_rule_config ''trading_hours'' False [(''allowed_hours'', Py_str ''09:00-15:00'')]) []"

theorem rule_update_takes_effect_witness:
  "find (\<lambda>c. config_type c = Py_str ''trading_hours'')
     (resolve_effective_rules ''kis-domestic'' (Some sample_stored))
   = Some (item_to_rule_config ''trading_hours'' False [(''allowed_hours'', Py_str ''09:00-15:00'')])"
proof -
  have u: "update_account_rule_config ''trading_hours'' False [(''allowed_hours'', Py_str ''09:00-15:00'')]
      (Some []) None = Inr sample_stored"
    by code_simp
  have "plain_params [(''allowed_hours'', Py_str ''09:00-15:00'')]"
    by (simp add: plain_params_def)
  from rule_update_takes_effect [OF u this] show ?thesis by blast
qed

end
