(* ===== verification/Stop_Properties.thy ===== *)
theory Stop_Properties
  imports Stop_Orders
begin

text \<open>
  What the stop order manager guarantees: over any history every stop order ends at most once (by a
  trigger with exactly one request, or by an expiry), a stopped manager has no active order, and a
  price triggers exactly the orders it crosses.
\<close>

subsection \<open>Loops over orders\<close>

definition set_flag :: "(stop_order \<Rightarrow> stop_order) \<Rightarrow> string set \<Rightarrow> stop_manager \<Rightarrow> stop_manager" where
  "set_flag f ids m = m\<lparr>sm_orders := map (\<lambda>(k, x). (k, if k \<in> ids then f x else x)) (sm_orders m)\<rparr>"

lemma set_flag_empty [simp]: "set_flag f {} m = m"
  by (simp add: set_flag_def)

lemma set_flag_update:
  assumes "\<And>x. f (f x) = f x"
  shows "set_flag f ids (update_order f o' m) = set_flag f (insert (so_stop_order_id o') ids) m"
  by (simp add: set_flag_def update_order_def assms case_prod_unfold)

lemma fold_expire:
  "fold (expire_order reason) os (outs, m) =
     (outs @ map (\<lambda>o'. Stop_expired (o'\<lparr>so_expired := True\<rparr>) reason) os,
      set_flag (\<lambda>x. x\<lparr>so_expired := True\<rparr>) (so_stop_order_id ` set os) m)"
  by (induction os arbitrary: outs m) (simp_all add: expire_order_def set_flag_update)

definition trigger_outs :: "(string \<Rightarrow> string) \<Rightarrow> pyfloat \<Rightarrow> stop_order \<Rightarrow> stop_out list" where
  "trigger_outs fresh price o' =
     [Stop_triggered (o'\<lparr>so_triggered := True\<rparr>) price (converted_type o'),
      Stop_request (converted_request fresh o')]"

lemma converted_triggered [simp]:
  "converted_type (o'\<lparr>so_triggered := b\<rparr>) = converted_type o'"
  "converted_request fresh (o'\<lparr>so_triggered := b\<rparr>) = converted_request fresh o'"
  "converted_request fresh (o'\<lparr>so_entered_session := b\<rparr>) = converted_request fresh o'"
  by (simp_all add: converted_type_def converted_request_def converted_price_def)

lemma fold_trigger:
  "fold (trigger_order fresh price) os (outs, m) =
     (outs @ concat (map (trigger_outs fresh price) os),
      set_flag (\<lambda>x. x\<lparr>so_triggered := True\<rparr>) (so_stop_order_id ` set os) m)"
  by (induction os arbitrary: outs m)
    (simp_all add: trigger_order_def set_flag_update trigger_outs_def Let_def)

lemma dict_get_set_flag:
  "dict_get (sm_orders (set_flag f ids m)) k =
     map_option (\<lambda>x. if k \<in> ids then f x else x) (dict_get (sm_orders m) k)"
proof -
  have "dict_get (map (\<lambda>(k, x). (k, if k \<in> ids then f x else x)) d) k =
      map_option (\<lambda>x. if k \<in> ids then f x else x) (dict_get d k)" for d
    by (induction d) auto
  then show ?thesis by (simp add: set_flag_def)
qed

lemma keys_set_flag: "map fst (sm_orders (set_flag f ids m)) = map fst (sm_orders m)"
  by (auto simp: set_flag_def)

lemma dict_wf_set_flag [simp]: "dict_wf (sm_orders (set_flag f ids m)) = dict_wf (sm_orders m)"
  by (simp only: dict_wf_def keys_set_flag)

lemma set_flag_running [simp]: "sm_running (set_flag f ids m) = sm_running m"
  by (simp add: set_flag_def)

subsection \<open>The invariant\<close>

fun ends_order :: "string \<Rightarrow> stop_out \<Rightarrow> bool" where
  "ends_order sid (Stop_triggered o' _ _) = (so_stop_order_id o' = sid)"
| "ends_order sid (Stop_expired o' _) = (so_stop_order_id o' = sid)"
| "ends_order sid _ = False"

fun requests_order :: "string \<Rightarrow> stop_out \<Rightarrow> bool" where
  "requests_order sid (Stop_request r) = (or_reason r = ''stop_triggered: '' @ sid)"
| "requests_order sid _ = False"

fun triggers_order :: "string \<Rightarrow> stop_out \<Rightarrow> bool" where
  "triggers_order sid (Stop_triggered o' _ _) = (so_stop_order_id o' = sid)"
| "triggers_order sid _ = False"

definition count :: "('a \<Rightarrow> bool) \<Rightarrow> 'a list \<Rightarrow> nat" where
  "count P xs = length (filter P xs)"

lemma count_simps [simp]:
  "count P [] = 0" "count P (x # xs) = (if P x then 1 else 0) + count P xs"
  "count P (xs @ ys) = count P xs + count P ys"
  by (simp_all add: count_def)

definition orders_ok :: "stop_manager \<Rightarrow> bool" where
  "orders_ok m \<longleftrightarrow> dict_wf (sm_orders m)
     \<and> (\<forall>k o'. dict_get (sm_orders m) k = Some o' \<longrightarrow>
          so_stop_order_id o' = k \<and> \<not> (so_triggered o' \<and> so_expired o'))
     \<and> (\<not> sm_running m \<longrightarrow> active_orders m = [])"

definition ended_flag :: "string \<Rightarrow> stop_manager \<Rightarrow> nat" where
  "ended_flag sid m = (case dict_get (sm_orders m) sid of None \<Rightarrow> 0 | Some o' \<Rightarrow> if is_active o' then 0 else 1)"

definition triggered_flag :: "string \<Rightarrow> stop_manager \<Rightarrow> nat" where
  "triggered_flag sid m = (case dict_get (sm_orders m) sid of None \<Rightarrow> 0 | Some o' \<Rightarrow> if so_triggered o' then 1 else 0)"

definition stop_inv :: "stop_history \<Rightarrow> bool" where
  "stop_inv h \<longleftrightarrow> orders_ok (fst h)
     \<and> (\<forall>sid. count (ends_order sid) (snd h) = ended_flag sid (fst h)
            \<and> count (requests_order sid) (snd h) = triggered_flag sid (fst h)
            \<and> count (triggers_order sid) (snd h) = triggered_flag sid (fst h))"

text \<open>\<open>uuid4\<close>: a stop order id is new when it is used, also with respect to cancelled orders.\<close>

fun fresh_stop_id :: "stop_history \<Rightarrow> stop_event \<Rightarrow> bool" where
  "fresh_stop_id h (Se_register ck sid o0) = (dict_get (sm_orders (fst h)) sid = None)"
| "fresh_stop_id h _ = True"

lemma active_orders_mem:
  assumes "dict_wf (sm_orders m)"
  shows "o' \<in> set (active_orders m) \<longleftrightarrow> (\<exists>k. dict_get (sm_orders m) k = Some o') \<and> is_active o'"
proof
  assume "o' \<in> set (active_orders m)"
  then show "(\<exists>k. dict_get (sm_orders m) k = Some o') \<and> is_active o'"
    using dict_values_ex [OF assms] by (auto simp: active_orders_def)
next
  assume "(\<exists>k. dict_get (sm_orders m) k = Some o') \<and> is_active o'"
  then show "o' \<in> set (active_orders m)"
    using dict_get_in_values by (auto simp: active_orders_def)
qed

lemma active_ids_distinct:
  assumes "orders_ok m"
  shows "distinct (map so_stop_order_id (active_orders m))"
proof -
  have "map so_stop_order_id (dict_values d) = map fst d"
    if "\<And>k o'. (k, o') \<in> set d \<Longrightarrow> so_stop_order_id o' = k" for d
    using that by (induction d) auto
  moreover have "so_stop_order_id o' = k" if "(k, o') \<in> set (sm_orders m)" for k o'
    using that assms by (simp add: orders_ok_def dict_get_mem)
  ultimately have "map so_stop_order_id (dict_values (sm_orders m)) = map fst (sm_orders m)"
    by blast
  moreover have "distinct (map fst (sm_orders m))"
    using assms by (simp add: orders_ok_def dict_wf_def)
  ultimately have "distinct (map so_stop_order_id (dict_values (sm_orders m)))"
    by (simp only:)
  then show ?thesis unfolding active_orders_def by (rule distinct_map_filter)
qed

lemma count_ids:
  "distinct (map so_stop_order_id os) \<Longrightarrow>
     count (\<lambda>o'. so_stop_order_id o' = sid) os = (if sid \<in> so_stop_order_id ` set os then 1 else 0)"
  by (induction os) auto

lemma count_expired:
  "count (ends_order sid) (map (\<lambda>o'. Stop_expired (o'\<lparr>so_expired := True\<rparr>) reason) os) =
     count (\<lambda>o'. so_stop_order_id o' = sid) os"
  "count (requests_order sid) (map (\<lambda>o'. Stop_expired (o'\<lparr>so_expired := True\<rparr>) reason) os) = 0"
  "count (triggers_order sid) (map (\<lambda>o'. Stop_expired (o'\<lparr>so_expired := True\<rparr>) reason) os) = 0"
  by (induction os) auto

lemma count_triggered:
  "count (ends_order sid) (concat (map (trigger_outs fresh price) os)) =
     count (\<lambda>o'. so_stop_order_id o' = sid) os"
  "count (requests_order sid) (concat (map (trigger_outs fresh price) os)) =
     count (\<lambda>o'. so_stop_order_id o' = sid) os"
  "count (triggers_order sid) (concat (map (trigger_outs fresh price) os)) =
     count (\<lambda>o'. so_stop_order_id o' = sid) os"
  by (induction os) (auto simp: trigger_outs_def converted_request_def)

text \<open>Ending a set of active orders.\<close>

lemma end_orders_inv:
  assumes inv: "stop_inv (m, outs)" and sub: "set os \<subseteq> set (active_orders m)" and dist: "distinct (map so_stop_order_id os)"
    and f: "f = (\<lambda>x. x\<lparr>so_expired := True\<rparr>) \<and> requested = (0::nat) \<or> f = (\<lambda>x. x\<lparr>so_triggered := True\<rparr>) \<and> requested = 1"
    and ends: "\<And>sid. count (ends_order sid) new = count (\<lambda>o'. so_stop_order_id o' = sid) os"
    and reqs: "\<And>sid. count (requests_order sid) new = requested * count (\<lambda>o'. so_stop_order_id o' = sid) os"
    and trigs: "\<And>sid. count (triggers_order sid) new = requested * count (\<lambda>o'. so_stop_order_id o' = sid) os"
  shows "stop_inv (set_flag f (so_stop_order_id ` set os) m, outs @ new)"
proof -
  let ?ids = "so_stop_order_id ` set os" and ?m = "set_flag f (so_stop_order_id ` set os) m"
  have ok: "orders_ok m" and cnt: "\<And>sid. count (ends_order sid) outs = ended_flag sid m"
    "\<And>sid. count (requests_order sid) outs = triggered_flag sid m"
    "\<And>sid. count (triggers_order sid) outs = triggered_flag sid m"
    using inv by (auto simp: stop_inv_def)
  have act: "\<exists>o'. dict_get (sm_orders m) sid = Some o' \<and> is_active o'" if "sid \<in> ?ids" for sid
  proof -
    from that obtain o' where o: "o' \<in> set os" "sid = so_stop_order_id o'" by blast
    from o(1) sub have "o' \<in> set (active_orders m)" by blast
    moreover have "dict_wf (sm_orders m)" using ok by (simp add: orders_ok_def)
    ultimately obtain k where k: "dict_get (sm_orders m) k = Some o'" "is_active o'"
      using active_orders_mem by blast
    moreover have "k = sid" using ok o(2) k(1) by (simp add: orders_ok_def)
    ultimately show ?thesis by blast
  qed
  have f_id: "so_stop_order_id (f x) = so_stop_order_id x" for x using f by auto
  have f_end: "\<not> is_active (f x)" for x using f by (auto simp: is_active_def)
  have f_flags: "\<not> (so_triggered (f x) \<and> so_expired (f x))" if "is_active x" for x
    using f that by (auto simp: is_active_def)
  have get: "dict_get (sm_orders ?m) sid = map_option (\<lambda>x. if sid \<in> ?ids then f x else x) (dict_get (sm_orders m) sid)" for sid
    by (rule dict_get_set_flag)
  have "orders_ok ?m"
    unfolding orders_ok_def
  proof (intro conjI allI impI)
    show "dict_wf (sm_orders ?m)" using ok by (simp add: orders_ok_def)
  next
    fix k o' assume "dict_get (sm_orders ?m) k = Some o'"
    then obtain x where x: "dict_get (sm_orders m) k = Some x" "o' = (if k \<in> ?ids then f x else x)"
      unfolding get by (auto split: option.splits)
    have "so_stop_order_id x = k" "\<not> (so_triggered x \<and> so_expired x)" using ok x(1) by (auto simp: orders_ok_def)
    moreover have "is_active x" if "k \<in> ?ids" using act [OF that] x(1) by auto
    ultimately show "so_stop_order_id o' = k" "\<not> (so_triggered o' \<and> so_expired o')"
      using x(2) f_id f_flags by auto
  next
    assume "\<not> sm_running ?m"
    then have "active_orders m = []" using ok by (simp add: orders_ok_def)
    then have "os = []" using sub by simp
    with \<open>active_orders m = []\<close> show "active_orders ?m = []" by simp
  qed
  moreover have "count (ends_order sid) (outs @ new) = ended_flag sid ?m
      \<and> count (requests_order sid) (outs @ new) = triggered_flag sid ?m
      \<and> count (triggers_order sid) (outs @ new) = triggered_flag sid ?m" for sid
  proof (cases "sid \<in> ?ids")
    case True
    with act obtain x where x: "dict_get (sm_orders m) sid = Some x" "is_active x" by blast
    have "count (\<lambda>o'. so_stop_order_id o' = sid) os = 1" using True count_ids [OF dist] by simp
    moreover have "triggered_flag sid ?m = requested"
      using f True x by (auto simp: triggered_flag_def get is_active_def)
    ultimately show ?thesis
      using x True f_end by (simp add: cnt ends reqs trigs ended_flag_def triggered_flag_def get is_active_def)
  next
    case False
    then have "count (\<lambda>o'. so_stop_order_id o' = sid) os = 0" using count_ids [OF dist] by simp
    moreover have "dict_get (sm_orders ?m) sid = dict_get (sm_orders m) sid"
      using False unfolding get by (cases "dict_get (sm_orders m) sid") auto
    ultimately show ?thesis by (simp add: cnt ends reqs trigs ended_flag_def triggered_flag_def)
  qed
  ultimately show ?thesis by (simp add: stop_inv_def)
qed


text \<open>Changes of an order that end nothing.\<close>

lemma keep_flags_inv:
  assumes inv: "stop_inv (m, outs)" and ords: "sm_orders m' = map (\<lambda>(k, x). (k, f x)) (sm_orders m)"
    and run: "sm_running m' = sm_running m"
    and f: "\<And>x. so_stop_order_id (f x) = so_stop_order_id x \<and> so_triggered (f x) = so_triggered x
              \<and> so_expired (f x) = so_expired x"
  shows "stop_inv (m', outs)"
proof -
  have get: "dict_get (sm_orders m') k = map_option f (dict_get (sm_orders m) k)" for k
    unfolding ords map_of_map by simp
  have act: "is_active (f x) = is_active x" for x using f by (simp add: is_active_def)
  have acts: "active_orders m' = map f (active_orders m)"
    by (simp add: active_orders_def ords case_prod_unfold filter_map o_def act)
  have "dict_wf (sm_orders m') = dict_wf (sm_orders m)" unfolding ords by (rule dict_wf_map_values)
  then have "orders_ok m'"
    using inv f by (auto simp: stop_inv_def orders_ok_def get acts run)
  moreover have "ended_flag sid m' = ended_flag sid m" "triggered_flag sid m' = triggered_flag sid m" for sid
    by (auto simp: ended_flag_def triggered_flag_def get act f split: option.splits)
  ultimately show ?thesis using inv by (simp add: stop_inv_def)
qed

lemma mark_sessions_inv:
  assumes "stop_inv (m, outs)" shows "stop_inv (mark_sessions ck m, outs)"
  by (rule keep_flags_inv [OF assms, where f = "\<lambda>x. if is_active x \<and> is_in_session ck x
        then x\<lparr>so_entered_session := True\<rparr> else x"]) (auto simp: mark_sessions_def)

lemma stop_inv_marks:
  "stop_inv (m\<lparr>sm_session_tick_marked := ms\<rparr>, outs) = stop_inv (m, outs)"
  by (simp add: stop_inv_def orders_ok_def ended_flag_def triggered_flag_def active_orders_def)

lemma active_marks [simp]:
  "active_orders (m\<lparr>sm_session_tick_marked := ms\<rparr>) = active_orders m"
  "active_orders (m\<lparr>sm_running := b\<rparr>) = active_orders m"
  by (simp_all add: active_orders_def)

lemma set_flag_commutes:
  "set_flag f ids (m\<lparr>sm_running := b\<rparr>) = (set_flag f ids m)\<lparr>sm_running := b\<rparr>"
  by (simp add: set_flag_def)

lemma stop_inv_running:
  assumes "stop_inv (m, outs)" and "b \<or> active_orders m = []"
  shows "stop_inv (m\<lparr>sm_running := b\<rparr>, outs)"
  using assms by (auto simp: stop_inv_def orders_ok_def ended_flag_def triggered_flag_def)

lemma active_after_ending:
  assumes ok: "orders_ok m" and f: "\<And>x. \<not> is_active (f x)"
  shows "active_orders (set_flag f ids m) = filter (\<lambda>o'. so_stop_order_id o' \<notin> ids) (active_orders m)"
proof -
  have "filter is_active (dict_values (map (\<lambda>(k, x). (k, if k \<in> ids then f x else x)) d)) =
      filter (\<lambda>o'. so_stop_order_id o' \<notin> ids) (filter is_active (dict_values d))"
    if "\<forall>x\<in>set d. fst x = so_stop_order_id (snd x)" for d
    using that by (induction d) (simp_all add: f case_prod_unfold)
  moreover have "\<forall>x\<in>set (sm_orders m). fst x = so_stop_order_id (snd x)"
    using ok by (auto simp: orders_ok_def dict_get_mem)
  ultimately show ?thesis by (simp add: active_orders_def set_flag_def)
qed

lemma expire_active_inv:
  assumes "stop_inv (m, outs)" and sub: "os = filter P (active_orders m)"
  shows "stop_inv (set_flag (\<lambda>x. x\<lparr>so_expired := True\<rparr>) (so_stop_order_id ` set os) m,
     outs @ map (\<lambda>o'. Stop_expired (o'\<lparr>so_expired := True\<rparr>) reason) os)"
proof (rule end_orders_inv [OF assms(1), where requested = 0])
  show "distinct (map so_stop_order_id os)"
    using active_ids_distinct [of m] assms(1) by (simp add: sub stop_inv_def distinct_map_filter)
qed (auto simp: sub count_expired)

lemma trigger_active_inv:
  assumes "stop_inv (m, outs)" and sub: "os = filter P (active_orders m)"
  shows "stop_inv (set_flag (\<lambda>x. x\<lparr>so_triggered := True\<rparr>) (so_stop_order_id ` set os) m,
     outs @ concat (map (trigger_outs fresh price) os))"
proof (rule end_orders_inv [OF assms(1), where requested = 1])
  show "distinct (map so_stop_order_id os)"
    using active_ids_distinct [of m] assms(1) by (simp add: sub stop_inv_def distinct_map_filter)
qed (auto simp: sub count_triggered)

lemma all_ended:
  assumes "orders_ok m" and "\<And>x. \<not> is_active (f x)"
  shows "active_orders (set_flag f (so_stop_order_id ` set (active_orders m)) m) = []"
  by (simp add: active_after_ending [OF assms] filter_empty_conv)

lemma stop_manager_step_eq:
  "stop_manager_step m =
     (map (\<lambda>o'. Stop_expired (o'\<lparr>so_expired := True\<rparr>) ''manager_stopped'') (active_orders m),
      (set_flag (\<lambda>x. x\<lparr>so_expired := True\<rparr>) (so_stop_order_id ` set (active_orders m)) m)
        \<lparr>sm_running := False, sm_session_tick_marked := []\<rparr>)"
  by (simp add: stop_manager_step_def fold_expire set_flag_commutes)

lemma register_stop_cases:
  obtains (refused) e where "register_stop ck sid o0 m = (Inl e, m)"
  | (kept) o2 where "register_stop ck sid o0 m = (Inr [Stop_registered o2], m\<lparr>sm_orders := dict_set sid o2 (sm_orders m)\<rparr>)"
      "so_stop_order_id o2 = sid" "is_active o2" "sm_running m"
proof -
  show ?thesis
  proof (cases "(\<exists>e. require_account_id ''stop_order.register'' (Some (so_account_id o0)) = Inl e) \<or> \<not> sm_running m")
    case True
    then have "\<exists>e. register_stop ck sid o0 m = (Inl e, m)"
      by (cases "require_account_id ''stop_order.register'' (Some (so_account_id o0))")
        (simp_all add: register_stop_def)
    then show ?thesis using refused by blast
  next
    case False
    then obtain a where a: "require_account_id ''stop_order.register'' (Some (so_account_id o0)) = Inr a" "sm_running m"
      by (cases "require_account_id ''stop_order.register'' (Some (so_account_id o0))") auto
    let ?o1 = "o0\<lparr>so_stop_order_id := sid, so_triggered := False, so_expired := False, so_entered_session := False\<rparr>"
    let ?o2 = "if is_in_session ck ?o1 \<and> session_epoch_key ck (so_trading_session ?o1) \<in> set (sm_session_tick_marked m)
               then ?o1\<lparr>so_entered_session := True\<rparr> else ?o1"
    show ?thesis
    proof (rule kept [of ?o2])
      show "register_stop ck sid o0 m = (Inr [Stop_registered ?o2], m\<lparr>sm_orders := dict_set sid ?o2 (sm_orders m)\<rparr>)"
        unfolding register_stop_def a(1) by (simp add: a(2) Let_def)
    qed (simp_all add: is_active_def a(2))
  qed
qed

lemma register_inv:
  assumes inv: "stop_inv (m, outs)" and new: "dict_get (sm_orders m) sid = None"
    and o2: "so_stop_order_id o2 = sid" "is_active o2" and run: "sm_running m"
  shows "stop_inv (m\<lparr>sm_orders := dict_set sid o2 (sm_orders m)\<rparr>, outs @ [Stop_registered o2])"
proof -
  let ?m = "m\<lparr>sm_orders := dict_set sid o2 (sm_orders m)\<rparr>"
  have flags: "ended_flag k ?m = ended_flag k m" "triggered_flag k ?m = triggered_flag k m" for k
    using o2 new by (auto simp: ended_flag_def triggered_flag_def is_active_def update_conv' split: option.splits)
  have "orders_ok ?m"
    using inv o2 run by (auto simp: stop_inv_def orders_ok_def update_conv' is_active_def)
  then show ?thesis using inv by (simp add: stop_inv_def flags)
qed

lemma cancel_inv:
  assumes inv: "stop_inv (m, outs)"
  shows "stop_inv (snd (cancel_stop sid m), outs)"
proof (cases "\<exists>o'. dict_get (sm_orders m) sid = Some o' \<and> is_active o'")
  case True
  then obtain x where x: "dict_get (sm_orders m) sid = Some x" "is_active x" by blast
  let ?m = "m\<lparr>sm_orders := dict_pop sid (sm_orders m)\<rparr>"
  have r: "snd (cancel_stop sid m) = ?m" using x by (simp add: cancel_stop_def is_active_def)
  have flags: "ended_flag k ?m = ended_flag k m" "triggered_flag k ?m = triggered_flag k m" for k
    using x by (auto simp: ended_flag_def triggered_flag_def is_active_def delete_conv' split: option.splits)
  have ok: "orders_ok m" using inv by (simp add: stop_inv_def)
  then have "active_orders m \<noteq> []"
    using x active_orders_mem [of m x] by (auto simp: orders_ok_def)
  then have "orders_ok ?m" using ok by (auto simp: orders_ok_def delete_conv' split: if_splits)
  then show ?thesis using inv by (simp add: r stop_inv_def flags)
next
  case False
  then have "snd (cancel_stop sid m) = m" by (auto simp: cancel_stop_def is_active_def split: option.splits)
  then show ?thesis using inv by simp
qed

lemma price_update_cases:
  assumes "on_price_update fresh ck symbol price acct tick m = Inr r"
  obtains (stopped) "\<not> sm_running m" "r = ([], m)"
  | (live) m1 os where "sm_running m" "m1 = (if tick then mark_sessions ck m else m)"
      "os = filter (\<lambda>o'. (so_symbol o' = symbol \<and> so_account_id o' = acct \<and> is_in_session ck o')
              \<and> should_trigger o' price) (active_orders m1)"
      "r = (concat (map (trigger_outs fresh price) os),
            set_flag (\<lambda>x. x\<lparr>so_triggered := True\<rparr>) (so_stop_order_id ` set os) m1)"
proof (cases "sm_running m")
  case True
  show ?thesis
    by (rule live [OF True refl refl]) (use assms True in \<open>auto simp: on_price_update_def Let_def fold_trigger
        split: sum.splits\<close>)
next
  case False
  then show ?thesis using assms stopped by (auto simp: on_price_update_def split: sum.splits)
qed


subsection \<open>Every step\<close>

lemma stop_step_inv:
  assumes "stop_inv h" and "fresh_stop_id h e"
  shows "stop_inv (stop_step h e)"
proof -
  obtain m outs where h: "h = (m, outs)" by (cases h)
  have inv: "stop_inv (m, outs)" and ok: "orders_ok m" using assms(1) by (simp_all add: h stop_inv_def)
  show ?thesis
  proof (cases e)
    case Se_start
    then show ?thesis using stop_inv_running [OF inv, of True] by (simp add: h stop_step_def start_manager_def)
  next
    case Se_stop
    have "filter (\<lambda>_. True) (active_orders m) = active_orders m" by simp
    note inv1 = expire_active_inv [OF inv this [symmetric], of "''manager_stopped''"]
    have "active_orders (set_flag (\<lambda>x. x\<lparr>so_expired := True\<rparr>) (so_stop_order_id ` set (active_orders m)) m) = []"
      by (rule all_ended [OF ok]) (simp add: is_active_def)
    with inv1 have "stop_inv ((set_flag (\<lambda>x. x\<lparr>so_expired := True\<rparr>) (so_stop_order_id ` set (active_orders m)) m)
        \<lparr>sm_running := False\<rparr>, outs @ map (\<lambda>o'. Stop_expired (o'\<lparr>so_expired := True\<rparr>) ''manager_stopped'') (active_orders m))"
      using stop_inv_running by blast
    then show ?thesis using Se_stop by (simp add: h stop_step_def stop_manager_step_eq stop_inv_marks)
  next
    case (Se_register ck sid o0)
    show ?thesis
    proof (cases rule: register_stop_cases [of ck sid o0 m])
      case (refused x)
      then show ?thesis using Se_register inv by (simp add: h stop_step_def)
    next
      case (kept o2)
      have "dict_get (sm_orders m) sid = None" using assms(2) Se_register by (simp add: h)
      from register_inv [OF inv this kept(2-4)] show ?thesis
        using Se_register kept(1) by (simp add: h stop_step_def)
    qed
  next
    case (Se_cancel sid)
    then show ?thesis using cancel_inv [OF inv] by (simp add: h stop_step_def)
  next
    case (Se_price fresh ck symbol price acct tick)
    show ?thesis
    proof (cases "on_price_update fresh ck symbol price acct tick m")
      case (Inl x)
      then show ?thesis using Se_price inv by (simp add: h stop_step_def)
    next
      case (Inr r)
      show ?thesis
      proof (cases rule: price_update_cases [OF Inr])
        case 1
        then show ?thesis using Se_price inv Inr by (simp add: h stop_step_def)
      next
        case (2 m1 os)
        have "stop_inv (m1, outs)" using 2(2) inv mark_sessions_inv by simp
        from trigger_active_inv [OF this 2(3)] show ?thesis
          using Se_price Inr 2(4) by (simp add: h stop_step_def)
      qed
    qed
  next
    case (Se_expiry ck)
    have "stop_inv (m\<lparr>sm_session_tick_marked := filter (\<lambda>(d, _). d = ck_business_date ck) (sm_session_tick_marked m)\<rparr>, outs)"
      using inv by (simp add: stop_inv_marks)
    from expire_active_inv [OF this refl, where reason = "''session_ended''"
        and P = "\<lambda>o'. so_entered_session o' \<and> \<not> is_in_session ck o'"]
    show ?thesis using Se_expiry by (simp add: h stop_step_def check_session_expiry_def fold_expire)
  qed
qed

interpretation stop: guarded_machine stop_step fresh_stop_id stop_inv
  by unfold_locales (rule stop_step_inv)

lemma stop_inv_new: "stop_inv (new_stop_manager, [])"
  by (simp add: stop_inv_def orders_ok_def new_stop_manager_def ended_flag_def triggered_flag_def active_orders_def)

lemma stop_run_inv:
  assumes "admissible stop_step fresh_stop_id (new_stop_manager, []) es"
    and "run stop_step (new_stop_manager, []) es = (m, outs)"
  shows "stop_inv (m, outs)"
  using stop.run_inv [OF stop_inv_new assms(1)] assms(2) by simp

text \<open>An order a price crosses: it trades the symbol for the account, its session is open, and the
  price is at or beyond its stop price.\<close>

definition crosses :: "stop_clock \<Rightarrow> string \<Rightarrow> string \<Rightarrow> pyfloat \<Rightarrow> stop_order \<Rightarrow> bool" where
  "crosses ck symbol acct price o' \<longleftrightarrow> so_symbol o' = symbol \<and> so_account_id o' = acct \<and> is_in_session ck o'
     \<and> (if so_side o' = ''buy'' then fle (Fin (so_stop_price o')) price else fle price (Fin (so_stop_price o')))"

definition entered :: "stop_clock \<Rightarrow> stop_order \<Rightarrow> stop_order" where
  "entered ck x = (if is_active x \<and> is_in_session ck x then x\<lparr>so_entered_session := True\<rparr> else x)"

lemma entered_simps [simp]:
  "so_stop_order_id (entered ck x) = so_stop_order_id x" "crosses ck s a p (entered ck' x) = crosses ck s a p x"
  "is_active (entered ck x) = is_active x" "converted_request fresh (entered ck x) = converted_request fresh x"
  by (simp_all add: entered_def crosses_def is_in_session_def is_active_def)

lemma active_mark_sessions: "active_orders (mark_sessions ck m) = map (entered ck) (active_orders m)"
proof -
  have "filter is_active (dict_values (map (\<lambda>(k, o'). (k, entered ck o')) d)) =
      map (entered ck) (filter is_active (dict_values d))" for d :: "(string, stop_order) dict"
    by (induction d) auto
  then show ?thesis
    by (simp add: active_orders_def mark_sessions_def entered_def [abs_def])
qed

lemma requests_of_triggers:
  "Stop_request r \<in> set (concat (map (trigger_outs fresh price) os)) \<longleftrightarrow> (\<exists>o'\<in>set os. r = converted_request fresh o')"
  by (auto simp: trigger_outs_def)

subsection \<open>The properties\<close>


text \<open>
  A price that reaches a running manager turns exactly the active orders it crosses into order
  requests, and exactly the others stay active; whether it is a tick of the exchange does not matter.
\<close>

theorem price_triggers_crossed_orders:
  assumes "admissible stop_step fresh_stop_id (new_stop_manager, []) es"
    and "run stop_step (new_stop_manager, []) es = (m, outs)"
    and "sm_running m" and "on_price_update fresh ck symbol price acct tick m = Inr (outs', m')"
  shows "(Stop_request r \<in> set outs' \<longleftrightarrow>
            (\<exists>o'\<in>set (active_orders m). crosses ck symbol acct price o' \<and> r = converted_request fresh o'))
    \<and> so_stop_order_id ` set (active_orders m') =
        so_stop_order_id ` {o' \<in> set (active_orders m). \<not> crosses ck symbol acct price o'}"
proof -
  have inv: "stop_inv (m, outs)" by (rule stop_run_inv [OF assms(1,2)])
  obtain m1 os where d: "m1 = (if tick then mark_sessions ck m else m)"
    "os = filter (crosses ck symbol acct price) (active_orders m1)"
    "outs' = concat (map (trigger_outs fresh price) os)"
    "m' = set_flag (\<lambda>x. x\<lparr>so_triggered := True\<rparr>) (so_stop_order_id ` set os) m1"
    by (rule price_update_cases [OF assms(4)])
      (use assms(3) in \<open>auto simp: crosses_def [abs_def] should_trigger_def\<close>)
  have "stop_inv (m1, outs)" using d(1) inv mark_sessions_inv by simp
  then have ok: "orders_ok m1" by (simp add: stop_inv_def)
  obtain f where acts: "active_orders m1 = map f (active_orders m)"
    and f: "\<And>x. so_stop_order_id (f x) = so_stop_order_id x"
      "\<And>x. crosses ck symbol acct price (f x) = crosses ck symbol acct price x"
      "\<And>x. converted_request fresh (f x) = converted_request fresh x"
  proof (cases tick)
    case True
    show ?thesis by (rule that [of "entered ck"]) (simp_all add: d(1) True active_mark_sessions)
  next
    case False
    show ?thesis by (rule that [of "\<lambda>x. x"]) (simp_all add: d(1) False)
  qed
  have "Stop_request r \<in> set outs' \<longleftrightarrow>
      (\<exists>o'\<in>set (active_orders m). crosses ck symbol acct price o' \<and> r = converted_request fresh o')"
    by (auto simp: d(2,3) requests_of_triggers acts f simp del: set_concat)
  moreover have "so_stop_order_id ` set (active_orders m') =
      so_stop_order_id ` {o' \<in> set (active_orders m1). so_stop_order_id o' \<notin> so_stop_order_id ` set os}"
    by (simp add: d(4) active_after_ending [OF ok] is_active_def)
  moreover have "so_stop_order_id o' \<in> so_stop_order_id ` set os \<longleftrightarrow> crosses ck symbol acct price o'"
    if "o' \<in> set (active_orders m1)" for o'
    using that active_ids_distinct [OF ok] by (auto simp: d(2) distinct_map dest: inj_onD)
  then have "{o' \<in> set (active_orders m1). so_stop_order_id o' \<notin> so_stop_order_id ` set os} =
      {o' \<in> set (active_orders m1). \<not> crosses ck symbol acct price o'}"
    by blast
  moreover have "{o' \<in> set (active_orders m1). \<not> crosses ck symbol acct price o'} =
      f ` {o' \<in> set (active_orders m). \<not> crosses ck symbol acct price o'}"
    by (auto simp: acts f(2))
  ultimately show ?thesis by (simp only: image_image f(1))
qed


subsection \<open>The properties on a concrete day\<close>

definition sample_stop :: stop_order where
  "sample_stop = \<lparr>so_stop_order_id = '''', so_order_id = ''o1'', so_bot_id = ''bot-1'', so_strategy_id = ''s'',
     so_symbol = ''005930'', so_side = ''buy'', so_quantity = 3, so_order_type = ''stop_limit'', so_stop_price = 60,
     so_limit_price = Some 61, so_trading_session = ''regular'', so_account_id = ''acct-1'', so_triggered = False,
     so_expired = False, so_exchange = ''KRX'', so_entered_session = False\<rparr>"

definition sample_clock :: stop_clock where
  "sample_clock = \<lparr>ck_minutes = 60, ck_business_date = ''2025-01-02''\<rparr>"

definition sample_stop_events :: "stop_event list" where
  "sample_stop_events =
     [Se_start, Se_register sample_clock ''sl-1'' sample_stop,
      Se_register sample_clock ''sl-2'' (sample_stop\<lparr>so_side := ''sell''\<rparr>)]"

definition sample_stop_state :: stop_history where
  "sample_stop_state = run stop_step (new_stop_manager, []) sample_stop_events"

lemma sample_stop_run:
  "run stop_step (new_stop_manager, []) sample_stop_events = (fst sample_stop_state, snd sample_stop_state)"
  by (simp add: sample_stop_state_def)

lemma sample_stop_admissible: "admissible stop_step fresh_stop_id (new_stop_manager, []) sample_stop_events"
  by code_simp


definition sample_price_update :: "stop_out list \<times> stop_manager" where
  "sample_price_update = projr (on_price_update (\<lambda>_. ''o2'') sample_clock ''005930'' (Fin 62) ''acct-1'' True (fst sample_stop_state))"

lemma sample_price_update:
  "on_price_update (\<lambda>_. ''o2'') sample_clock ''005930'' (Fin 62) ''acct-1'' True (fst sample_stop_state) =
     Inr (fst sample_price_update, snd sample_price_update)"
  by code_simp

lemma sample_stop_active:
  "sm_running (fst sample_stop_state)" "map so_side (active_orders (fst sample_stop_state)) = [''buy'', ''sell'']"
  "map (crosses sample_clock ''005930'' ''acct-1'' (Fin 62)) (active_orders (fst sample_stop_state)) = [True, False]"
  by code_simp+

theorem price_triggers_crossed_orders_witness:
  "so_stop_order_id ` set (active_orders (snd sample_price_update)) =
     so_stop_order_id ` {o' \<in> set (active_orders (fst sample_stop_state)).
       \<not> crosses sample_clock ''005930'' ''acct-1'' (Fin 62) o'}"
  using price_triggers_crossed_orders [OF sample_stop_admissible sample_stop_run sample_stop_active(1) sample_price_update]
  by blast

end
