(* ===== verification/Execution_Properties.thy ===== *)
theory Execution_Properties
  imports Virtual_Executor Rule_Properties Stop_Properties Treasury_Behaviour
begin

text \<open>
  The execution end of the order path: what happens to an approved order, a price change and a
  cancellation between the treasury, the virtual executor, the gateway, the stop order manager and
  the broker.
\<close>

subsection \<open>Outcomes\<close>

fun ends_approval :: "approval_out \<Rightarrow> bool" where
  "ends_approval (From_executor (Virtual_filled _)) = True"
| "ends_approval (From_executor (Virtual_failed _ _ _)) = True"
| "ends_approval (From_gateway (Order_submitted _ _)) = True"
| "ends_approval (From_gateway (Order_failed _ _ _)) = True"
| "ends_approval (From_gateway (Stop_out (Stop_registered _))) = True"
| "ends_approval _ = False"

abbreviation ends_count :: "approval_out list \<Rightarrow> nat" where
  "ends_count outs \<equiv> length (filter ends_approval outs)"

abbreviation is_stop_type :: "order_outcome \<Rightarrow> bool" where
  "is_stop_type o' \<equiv> oo_order_type o' \<in> set [''stop'', ''stop_limit'']"

definition owned :: "virtual_executor \<Rightarrow> order_outcome \<Rightarrow> bool" where
  "owned vx o' \<longleftrightarrow> dict_get (vx_portfolios vx) (oo_bot_id o') \<noteq> None"

lemma readiness_gate_outs: "ends_count (map From_gateway (fst (readiness_gate env a sd))) = 0"
  by (simp add: readiness_gate_def Let_def split: prod.splits option.splits)

lemma submit_order_outs: "ends_count (map From_gateway (fst (fst (submit_order env o' gw)))) = 0"
proof -
  obtain outs e where g: "readiness_gate env (oo_account_id o') (oo_side o') = (outs, e)" by fastforce
  then have "ends_count (map From_gateway outs) = 0" using readiness_gate_outs [of env "oo_account_id o'" "oo_side o'"] by simp
  with g show ?thesis
    by (auto simp: submit_order_def Let_def split: sum.splits prod.splits option.splits reply.splits)
qed

lemma submit_and_report_once: "ends_count (map From_gateway (fst (submit_and_report env o' gw))) = 1"
proof -
  obtain outs res gw' where s: "submit_order env o' gw = ((outs, res), gw')" by (metis prod.collapse)
  then show ?thesis using submit_order_outs [of env o' gw]
    by (cases res) (simp_all add: submit_and_report_def)
qed

lemma gateway_ends:
  assumes "gw_stop_manager gw \<noteq> None"
  shows "ends_count (map From_gateway (fst (on_order_approved env ev gw))) =
    (if is_stop_type (ap_order ev) then 1
     else case fst (get_account (ge_fetch_routing env)) of
            Some a \<Rightarrow> if ga_trading_mode a = Some VIRTUAL then 0 else 1
          | None \<Rightarrow> if ap_virtual_handled ev then 0 else 1)"
proof (cases "is_stop_type (ap_order ev)")
  case True
  obtain m where m: "gw_stop_manager gw = Some m" using assms by blast
  show ?thesis
  proof (cases rule: register_stop_cases [of "ge_stop_clock env" "ge_stop_id env" "stop_order_of ev" m])
    case (refused e)
    then show ?thesis using True m by (simp add: on_order_approved_def Let_def)
  next
    case (kept o2)
    then show ?thesis using True m by (simp add: on_order_approved_def Let_def)
  qed
next
  case False
  then show ?thesis using submit_and_report_once [of env "ap_order ev" gw]
    by (simp add: on_order_approved_def Let_def split: option.splits)
qed

lemma executor_ends:
  assumes "on_virtual_approved env ev vx = (outs, ev', vx')"
  shows "ends_count (map From_executor outs) = (if is_stop_type (ap_order ev) \<or> \<not> owned vx (ap_order ev) then 0 else 1)"
    and "ap_order ev' = ap_order ev"
    and "ap_virtual_handled ev' = (ap_virtual_handled ev \<or> (\<not> is_stop_type (ap_order ev) \<and> owned vx (ap_order ev)))"
  using assms
  by (auto simp: on_virtual_approved_def owned_def Let_def fail_order_def fill_virtually_def
      split: if_splits option.splits virtual_failure.splits)

subsection \<open>Gates\<close>

text \<open>An account that may trade now.\<close>

definition may_trade :: "readiness_reader option \<Rightarrow> string \<Rightarrow> gateway_account \<Rightarrow> trading_mode \<Rightarrow> bool" where
  "may_trade registry account_id a mode \<longleftrightarrow> ga_trading_mode a = Some mode
     \<and> ga_status a \<noteq> None \<and> ga_status a \<noteq> Some SUSPENDED
     \<and> (\<exists>bt. ga_broker_type a = Some bt \<and> \<not> active_trading_blocked registry account_id bt mode)"

lemma gate_status_open:
  assumes "gate_status f failed \<noteq> Status SUSPENDED" and "gate_status f failed \<noteq> Status_unavailable"
  obtains a st where "f = Some a" "\<not> failed" "ga_status a = Some st" "st \<noteq> SUSPENDED"
  using assms by (auto simp: gate_status_def derive_account_status_def split: if_splits option.splits)

lemma readiness_gate_open:
  assumes "readiness_gate env account_id side = (outs, None)"
  shows "outs = []" and "\<exists>a. ge_fetch_gate env = Got (Some a) \<and> may_trade (ge_registry env) account_id a LIVE"
proof -
  obtain f failed where g: "get_account (ge_fetch_gate env) = (f, failed)" by fastforce
  have s: "gate_status f failed \<noteq> Status SUSPENDED" "gate_status f failed \<noteq> Status_unavailable"
    and r: "readiness_block env account_id f = None"
    using assms by (auto simp: readiness_gate_def g Let_def split: if_splits option.splits)
  from s obtain a st where a: "f = Some a" "\<not> failed" "ga_status a = Some st" "st \<noteq> SUSPENDED"
    by (rule gate_status_open)
  have "ge_fetch_gate env = Got (Some a)"
    using g a(1) by (auto simp: get_account_def split: account_fetch.splits)
  moreover have "may_trade (ge_registry env) account_id a LIVE"
    using r a by (auto simp: readiness_block_def may_trade_def split: option.splits if_splits)
  ultimately show "\<exists>a. ge_fetch_gate env = Got (Some a) \<and> may_trade (ge_registry env) account_id a LIVE" by blast
  show "outs = []" using assms by (auto simp: readiness_gate_def g Let_def split: if_splits option.splits)
qed

lemma readiness_gate_no_call:
  "Call_place_order a sy sd q ty p \<notin> set (fst (readiness_gate env account_id side))"
  by (simp add: readiness_gate_def Let_def split: prod.splits option.splits)

lemma submit_call:
  assumes "Call_place_order a sy sd q ty p \<in> set (fst (fst (submit_order env o' gw)))"
  shows "a = oo_account_id o' \<and> sy = oo_symbol o' \<and> sd = oo_side o' \<and> q = oo_quantity o' \<and> ty = oo_order_type o'
     \<and> p = oo_price o'" and "\<not> is_invalid_account_id (Some a)"
    and "\<exists>acc. ge_fetch_gate env = Got (Some acc) \<and> may_trade (ge_registry env) a acc LIVE"
proof -
  obtain outs e where g: "readiness_gate env (oo_account_id o') (oo_side o') = (outs, e)" by fastforce
  have n: "Call_place_order a sy sd q ty p \<notin> set outs"
    using readiness_gate_no_call [of a sy sd q ty p env "oo_account_id o'" "oo_side o'"] g by simp
  have id: "\<not> is_invalid_account_id (Some (oo_account_id o'))"
    using assms by (auto simp: submit_order_def split: sum.splits)
  have e: "e = None"
    using assms n by (auto simp: submit_order_def g split: sum.splits prod.splits option.splits)
  with g have "outs = []" and gate: "\<exists>acc. ge_fetch_gate env = Got (Some acc) \<and> may_trade (ge_registry env) (oo_account_id o') acc LIVE"
    using readiness_gate_open by blast+
  then have same: "a = oo_account_id o' \<and> sy = oo_symbol o' \<and> sd = oo_side o' \<and> q = oo_quantity o'
      \<and> ty = oo_order_type o' \<and> p = oo_price o'"
    using assms by (auto simp: submit_order_def g e Let_def split: sum.splits prod.splits reply.splits)
  then show "a = oo_account_id o' \<and> sy = oo_symbol o' \<and> sd = oo_side o' \<and> q = oo_quantity o'
      \<and> ty = oo_order_type o' \<and> p = oo_price o'" .
  show "\<not> is_invalid_account_id (Some a)" "\<exists>acc. ge_fetch_gate env = Got (Some acc) \<and> may_trade (ge_registry env) a acc LIVE"
    using id gate same by simp_all
qed

lemma approved_call:
  assumes "Call_place_order a sy sd q ty p \<in> set (fst (on_order_approved env ev gw))"
  shows "Call_place_order a sy sd q ty p \<in> set (fst (fst (submit_order env (ap_order ev) gw)))"
  using assms
  by (auto simp: on_order_approved_def submit_and_report_def Let_def
      split: if_splits option.splits prod.splits sum.splits)

subsection \<open>The properties\<close>


text \<open>
  C10. No order reaches the broker past a closed gate.  A call to the broker carries the approved
  order's own data for its own valid account, and the account was looked up right before it: it is
  live, its status is known and not suspended, and the registry says it is ready.
\<close>

theorem broker_call_is_gated:
  assumes "dispatch_approved venv genv ev (vx, gw) = (outs, vx', gw')"
    and "From_gateway (Call_place_order a sy sd q ty p) \<in> set outs"
  shows "a = oo_account_id (ap_order ev) \<and> sy = oo_symbol (ap_order ev) \<and> sd = oo_side (ap_order ev)
    \<and> q = oo_quantity (ap_order ev) \<and> ty = oo_order_type (ap_order ev) \<and> p = oo_price (ap_order ev)
    \<and> \<not> is_invalid_account_id (Some a)
    \<and> (\<exists>acc. ge_fetch_gate genv = Got (Some acc) \<and> may_trade (ge_registry genv) a acc LIVE)"
proof -
  obtain vouts ev' vx1 where v: "on_virtual_approved venv ev vx = (vouts, ev', vx1)" by (metis prod.collapse)
  have "outs = map From_executor vouts @ map From_gateway (fst (on_order_approved genv ev' gw))"
    using assms(1) v by (auto simp: dispatch_approved_def split: prod.splits)
  then have "Call_place_order a sy sd q ty p \<in> set (fst (on_order_approved genv ev' gw))"
    using assms(2) by auto
  from submit_call [OF approved_call [OF this]] show ?thesis by (simp add: executor_ends(2) [OF v])
qed

lemma slipped_price_pos:
  "0 < p \<Longrightarrow> vx_slippage_rate vx < 1 \<Longrightarrow> 0 < slipped_price vx side p"
  by (simp add: slipped_price_def)

lemma virtual_price_pos:
  assumes "virtual_fill_price env vx o' = Some p" and "vx_slippage_rate vx < 1"
  shows "0 < p \<or> oo_price o' = Some p \<and> oo_order_type o' = ''limit''"
  using assms slipped_price_pos [OF _ assms(2)]
  by (auto simp: virtual_fill_price_def split: if_splits option.splits)

lemma virtual_fill_passed:
  assumes "on_virtual_approved env ev vx = (outs, ev', vx')" and "Virtual_filled f \<in> set outs"
  shows "gate_blocked_reason env (oo_account_id (ap_order ev)) = None"
    and "virtual_fill_price env vx (ap_order ev) = Some (ev_price f)"
    and "ev_quantity f = oo_quantity (ap_order ev) \<and> ev_order_id f = oo_order_id (ap_order ev)"
    and "\<not> is_stop_type (ap_order ev)" and "owned vx (ap_order ev)"
  using assms
  by (auto simp: on_virtual_approved_def fail_order_def fill_virtually_def Let_def owned_def
      split: if_splits option.splits virtual_failure.splits)

lemma gate_blocked_reason_None:
  assumes "gate_blocked_reason env account_id = None"
  shows "\<exists>acc mode. ve_service env = Some (Got (Some acc)) \<and> may_trade (ve_registry env) account_id acc mode"
proof -
  from assms obtain reg fetch where rf: "ve_registry env = Some reg" "ve_service env = Some fetch"
    by (auto simp: gate_blocked_reason_def split: option.splits)
  obtain f' failed where g: "(case fetch of Got a \<Rightarrow> (a, False) | _ \<Rightarrow> (None, True)) = (f', failed)" by fastforce
  have s: "gate_status f' failed \<noteq> Status SUSPENDED" "gate_status f' failed \<noteq> Status_unavailable"
    using assms by (auto simp: gate_blocked_reason_def rf g Let_def split: if_splits)
  from s obtain acc st where acc: "f' = Some acc" "\<not> failed" "ga_status acc = Some st" "st \<noteq> SUSPENDED"
    by (rule gate_status_open)
  have "fetch = Got (Some acc)" using g acc(1) by (auto split: account_fetch.splits)
  moreover have "\<exists>mode. may_trade (Some reg) account_id acc mode"
    using assms s acc
    by (auto simp: gate_blocked_reason_def rf g Let_def may_trade_def split: if_splits option.splits)
  ultimately show ?thesis using rf by auto
qed

text \<open>
  A virtual fill passes the same gate as a real order and is never made at no price: the account
  is known, not suspended and ready, and the price is the limit of a limit order or else positive,
  also when the price lookup fails, as long as the slippage rate is below one.
\<close>

theorem virtual_fill_is_gated:
  assumes "dispatch_approved venv genv ev (vx, gw) = (outs, vx', gw')"
    and "From_executor (Virtual_filled f) \<in> set outs" and "vx_slippage_rate vx < 1"
  shows "(\<exists>acc mode. ve_service venv = Some (Got (Some acc))
       \<and> may_trade (ve_registry venv) (oo_account_id (ap_order ev)) acc mode)
    \<and> (0 < ev_price f \<or> oo_price (ap_order ev) = Some (ev_price f) \<and> oo_order_type (ap_order ev) = ''limit'')
    \<and> ev_quantity f = oo_quantity (ap_order ev) \<and> ev_order_id f = oo_order_id (ap_order ev)"
proof -
  obtain vouts ev' vx1 where v: "on_virtual_approved venv ev vx = (vouts, ev', vx1)" by (metis prod.collapse)
  have "Virtual_filled f \<in> set vouts"
    using assms(1,2) v by (auto simp: dispatch_approved_def split: prod.splits)
  note f = virtual_fill_passed [OF v this]
  show ?thesis
    using gate_blocked_reason_None [OF f(1)] virtual_price_pos [OF f(2) assms(3)] f(3) by blast
qed

subsection \<open>Money of a failed order\<close>

text \<open>A failure event of either handler; both keep the order's account, bot and id.\<close>

fun failure_of :: "approval_out \<Rightarrow> order_outcome option" where
  "failure_of (From_executor (Virtual_failed o' _ _)) = Some o'"
| "failure_of (From_gateway (Order_failed o' _ _)) = Some o'"
| "failure_of _ = None"

lemma failed_order_simps [simp]:
  "oo_account_id (failed_order o') = oo_account_id o'" "oo_bot_id (failed_order o') = oo_bot_id o'"
  "oo_order_id (failed_order o') = oo_order_id o'"
  by (simp_all add: failed_order_def)

lemma gateway_failure:
  assumes "Order_failed f e code \<in> set (fst (on_order_approved env ev gw))"
  shows "f = failed_order (ap_order ev)"
proof -
  have n: "Order_failed f e code \<notin> set (fst (readiness_gate env a sd))" for a sd
    by (simp add: readiness_gate_def Let_def split: prod.splits option.splits)
  have "Order_failed f e code \<notin> set (fst (fst (submit_order env o' gw)))" for o'
  proof -
    obtain outs e' where g: "readiness_gate env (oo_account_id o') (oo_side o') = (outs, e')" by fastforce
    then have "Order_failed f e code \<notin> set outs" using n [of "oo_account_id o'" "oo_side o'"] by simp
    with g show ?thesis
      by (auto simp: submit_order_def Let_def split: sum.splits prod.splits option.splits reply.splits)
  qed
  then have live: "f = failed_order o'" if "Order_failed f e code \<in> set (fst (submit_and_report env o' gw))" for o'
  proof -
    obtain outs res gw' where s: "submit_order env o' gw = ((outs, res), gw')" by (metis prod.collapse)
    then show ?thesis using that \<open>Order_failed f e code \<notin> set (fst (fst (submit_order env o' gw)))\<close>
      by (cases res) (auto simp: submit_and_report_def)
  qed
  show ?thesis
    using assms live [of "ap_order ev"]
    by (auto simp: on_order_approved_def Let_def split: if_splits option.splits prod.splits sum.splits)
qed

lemma dispatch_failure:
  assumes "dispatch_approved venv genv ev (vx, gw) = (outs, vx', gw')"
    and "out \<in> set outs" and "failure_of out = Some f"
  shows "f = failed_order (ap_order ev)"
proof -
  obtain vouts ev' vx1 where v: "on_virtual_approved venv ev vx = (vouts, ev', vx1)" by (metis prod.collapse)
  have outs: "outs = map From_executor vouts @ map From_gateway (fst (on_order_approved genv ev' gw))"
    using assms(1) v by (auto simp: dispatch_approved_def split: prod.splits)
  show ?thesis
  proof (cases out)
    case (From_executor x)
    then have "x \<in> set vouts" using assms(2) by (auto simp: outs)
    then show ?thesis
      using From_executor assms(3) v
      by (cases x) (auto simp: on_virtual_approved_def fail_order_def fill_virtually_def Let_def
          split: if_splits option.splits virtual_failure.splits)
  next
    case (From_gateway x)
    then have x: "x \<in> set (fst (on_order_approved genv ev' gw))" using assms(2) by (auto simp: outs)
    from From_gateway assms(3) obtain e code where "x = Order_failed f e code" by (cases x) auto
    with x gateway_failure [of f e code genv ev' gw] show ?thesis by (simp add: executor_ends(2) [OF v])
  qed
qed

lemma approved_other_unchanged:
  assumes "on_order_validated c env v s = (outs, s1)" and "Order_approved o' sp r \<in> set outs"
    and "\<not> (vd_side v = ''buy'' \<and> vd_order_type v \<notin> set [''stop'', ''stop_limit''])"
  shows "s1 = s"
  using assms
  by (auto simp: on_order_validated_def reject_not_ready_def validated_market_buy_def validated_other_def Let_def
      split: if_splits option.splits quote_reply.splits)

lemma reserve_then_release:
  assumes inv: "treasury_inv c s" and res: "reserve_for_order env k oid amount s = (Inr True, s1)"
    and new: "dict_get (ty_reservations s) oid = None"
  shows "get_budget b (release_reservation k oid s1) = get_budget b s"
    and "dict_get (ty_reservations (release_reservation k oid s1)) i = dict_get (ty_reservations s) i"
    and "ty_unallocated (release_reservation k oid s1) = ty_unallocated s"
proof -
  from res obtain x where x: "dict_get (ty_budgets s) k = Some x" "amount \<le> bb_available x" "0 < amount"
    "s1 = save_budget (x\<lparr>bb_available := bb_available x - amount, bb_reserved := bb_reserved x + amount\<rparr>)
         ((put_budget (x\<lparr>bb_available := bb_available x - amount, bb_reserved := bb_reserved x + amount\<rparr>) s)
            \<lparr>ty_reservations := dict_set oid (k, amount) (ty_reservations s)\<rparr>)"
    by (rule reserve_for_order_True)
  note D = treasury_invD [OF inv]
  have id: "bb_bot_id x = k" using D(3) [OF x(1)] by (simp add: budget_ok_def)
  have "0 \<le> reserved_for k (ty_reservations s)"
    by (rule reserved_for_nonneg [OF D(2)]) (use D(4) in \<open>auto simp: reservation_ok_def\<close>)
  then have pos: "0 \<le> bb_reserved x" using D(5) [of k] x(1) by (simp add: slack_def budget_field_def)
  show "get_budget b (release_reservation k oid s1) = get_budget b s"
    "dict_get (ty_reservations (release_reservation k oid s1)) i = dict_get (ty_reservations s) i"
    "ty_unallocated (release_reservation k oid s1) = ty_unallocated s"
    using x id pos new
    by (auto simp: release_reservation_def treasury_defs get_budget_def Let_def max_def update_conv' delete_conv')
qed

text \<open>
  C8. A failed order gives its money back exactly.  Whatever the treasury reserved when it approved an
  order, once either executor reports the order as failed and the treasury handles that event, every
  budget, every reservation and the unallocated money are as they were before the order.
\<close>

theorem failed_execution_restores_funds:
  assumes "treasury_inv c s" and "on_order_validated c tenv v s = (touts, s1)"
    and "Order_approved o' sp r \<in> set touts" and "dict_get (ty_reservations s) (vd_order_id v) = None"
    and "dispatch_approved venv genv \<lparr>ap_order = o', ap_stop_price = sp, ap_virtual_handled = False\<rparr> (vx, gw) = (outs, vx', gw')"
    and "out \<in> set outs" and "failure_of out = Some f"
    and "s2 = on_order_failed c (oo_account_id f) (oo_bot_id f) (oo_order_id f) s1"
  shows "get_budget b s2 = get_budget b s \<and> dict_get (ty_reservations s2) i = dict_get (ty_reservations s) i
    \<and> ty_unallocated s2 = ty_unallocated s"
proof -
  have "f = failed_order o'" using dispatch_failure [OF assms(5-7)] by simp
  moreover have "o' = outcome_of c v"
    using assms(2,3)
    by (auto simp: on_order_validated_def reject_not_ready_def validated_market_buy_def validated_other_def
        reserve_and_approve_def approve_def reject_def Let_def
        split: if_splits option.splits quote_reply.splits sum.splits prod.splits)
  ultimately have s2: "s2 = release_reservation (vd_bot_id v) (vd_order_id v) s1"
    by (simp add: assms(8) on_order_failed_def is_my_event_def outcome_of_def)
  show ?thesis
  proof (cases "vd_side v = ''buy'' \<and> vd_order_type v \<notin> set [''stop'', ''stop_limit'']")
    case True
    obtain amount where "reserve_for_order tenv (vd_bot_id v) (vd_order_id v) amount s = (Inr True, s1)"
      by (rule buy_approval [OF assms(2,3)]) (use True in auto)
    from reserve_then_release [OF assms(1) this assms(4)] show ?thesis by (simp add: s2)
  next
    case False
    with approved_other_unchanged [OF assms(2,3)] have "s1 = s" by blast
    then show ?thesis using release_none [OF assms(4)] by (simp add: s2)
  qed
qed


subsection \<open>Price changes and cancellations\<close>

fun ends_modify :: "gateway_out \<Rightarrow> bool" where
  "ends_modify (Modify_executed _ _ _ _ _ _) = True"
| "ends_modify (Modify_rejected _ _ _ _) = True"
| "ends_modify _ = False"

lemma reject_modify_ends [simp]: "ends_modify (reject_modify ev sy sd why)"
  by (simp add: reject_modify_def)

lemma delegate_modify_once: "length (filter ends_modify (fst (delegate_modify env ev row gw))) = 1"
  by (simp add: delegate_modify_def Let_def split: prod.splits sum.splits reply.splits)

lemma gateway_modify_once:
  assumes "on_gateway_modify env ev gw = (Some outs, gw')" and "\<not> om_consumed ev"
  shows "length (filter ends_modify outs) = 1"
  using assms delegate_modify_once [of env ev _ gw]
  by (auto simp: on_gateway_modify_def split: if_splits option.splits prod.splits) (metis fst_conv)+

lemma on_order_modify_consumed:
  assumes "on_order_modify en env ev = (rej, ev')" and "\<not> om_consumed ev"
  shows "om_consumed ev' = (rej \<noteq> None)" and "om_order_id ev' = om_order_id ev"
  using assms
  by (auto simp: on_order_modify_def enrich_modify_def Let_def split: if_splits option.splits)

text \<open>
  A price change is answered exactly once between the rule engine and the gateway: the engine
  rejects it and the gateway stays silent, or the engine lets it pass and the gateway reports its
  execution or a rejection.  The only way to get no answer is the tracker's lookup raising.
\<close>

theorem price_change_answered_once:
  assumes "on_order_modify en renv ev = (rej, ev')" and "\<not> om_consumed ev"
    and "on_gateway_modify genv ev' gw = (answer, gw')"
  shows "case answer of
      Some outs \<Rightarrow> (if rej = None then 0 else 1) + length (filter ends_modify outs) = (1::nat)
    | None \<Rightarrow> rej = None \<and> (\<exists>tracker. ge_tracker genv = Some tracker \<and> tg_get tracker (om_order_id ev) = None)"
proof (cases answer)
  case None
  with assms(3) on_order_modify_consumed [OF assms(1,2)] show ?thesis
    by (auto simp: on_gateway_modify_def split: if_splits option.splits prod.splits)
next
  case (Some outs)
  show ?thesis
  proof (cases rej)
    case None
    then have "\<not> om_consumed ev'" using on_order_modify_consumed [OF assms(1,2)] by simp
    with gateway_modify_once [of genv ev' gw outs gw'] assms(3) Some None show ?thesis by simp
  next
    case (Some r)
    then have "om_consumed ev'" using on_order_modify_consumed [OF assms(1,2)] by simp
    then have "answer = Some []" using assms(3) by (auto simp: on_gateway_modify_def)
    with Some show ?thesis by simp
  qed
qed

text \<open>
  C34. The broker is asked to change a price only for an open limit order that the requesting bot owns
  in its own account: under the tracked order's broker number and unchanged quantity, with a positive
  price that for a buy does not exceed the price the order was placed, and its money reserved, at.
\<close>

theorem price_change_is_safe:
  assumes "on_gateway_modify env ev gw = (Some outs, gw')" and "Call_modify_order a number q p \<in> set outs"
  shows "\<exists>tracker row. ge_tracker env = Some tracker \<and> tg_get tracker (om_order_id ev) = Some (Some row)
    \<and> a = om_account_id ev \<and> ot_account_id row = a \<and> ot_bot_id row = om_bot_id ev
    \<and> ot_status row = OPEN \<and> ot_order_type row = ''limit''
    \<and> number = ot_broker_order_id row \<and> q = ot_ordered_qty row
    \<and> 0 < p \<and> p = number_of (om_price ev) \<and> is_finite_quantity (om_price ev)
    \<and> (ot_side row = ''buy'' \<longrightarrow> (\<exists>p0. ot_order_price row = Some p0 \<and> p \<le> p0))"
proof -
  have n: "Call_modify_order a number q p \<noteq> reject_modify ev sy sd why" for sy sd why
    by (simp add: reject_modify_def)
  obtain tracker row where t: "ge_tracker env = Some tracker" "tg_get tracker (om_order_id ev) = Some (Some row)"
    and own: "ot_account_id row = om_account_id ev" and obj: "modify_objection ev row = None"
    and price: "is_finite_quantity (om_price ev)" "0 < number_of (om_price ev)"
    and outs: "outs = fst (delegate_modify env ev row gw)"
    using assms n by (auto simp: on_gateway_modify_def split: if_splits option.splits prod.splits)
  have "a = om_account_id ev \<and> number = ot_broker_order_id row \<and> q = ot_ordered_qty row \<and> p = number_of (om_price ev)"
    using assms(2) n
    by (auto simp: outs delegate_modify_def Let_def split: prod.splits sum.splits reply.splits if_splits)
  moreover have "ot_bot_id row = om_bot_id ev \<and> ot_status row = OPEN \<and> ot_order_type row = ''limit''
      \<and> (ot_side row = ''buy'' \<longrightarrow> (\<exists>p0. ot_order_price row = Some p0 \<and> number_of (om_price ev) \<le> p0))"
    using obj by (auto simp: modify_objection_def Let_def split: if_splits option.splits)
  ultimately show ?thesis using t own price by auto
qed

fun ends_cancel :: "gateway_out \<Rightarrow> bool" where
  "ends_cancel (Order_cancelled _ _ _ _) = True"
| "ends_cancel (Order_cancel_failed _ _ _ _) = True"
| "ends_cancel _ = False"

lemma cancel_order_outs:
  assumes "cancel_order env oid acct gw = ((outs, res), gw')"
  shows "filter ends_cancel outs = []"
    and "Call_cancel_order a number \<in> set outs \<Longrightarrow>
      \<exists>tracker row. ge_tracker env = Some tracker \<and> tg_get_again tracker oid = Some (Some row)
        \<and> ot_account_id row = acct \<and> a = acct \<and> number = ot_broker_order_id row"
    and "res = Inr True \<Longrightarrow> \<exists>number. outs = [Call_cancel_order acct number] \<and> ge_cancel_order env = Returns True"
  using assms
  by (auto simp: cancel_order_def Let_def split: sum.splits option.splits if_splits prod.splits reply.splits)

text \<open>
  A cancellation is answered exactly once unless the tracker's first lookup raises; it is reported
  as cancelled only if the broker confirmed it, and the broker is only ever asked about an order of
  the requesting account, under that order's broker number.
\<close>

theorem cancel_answered_once:
  assumes "on_order_cancel env ev gw = (answer, gw')"
  shows "case answer of
      None \<Rightarrow> \<exists>tracker. ge_tracker env = Some tracker \<and> tg_get tracker (oc_order_id ev) = None
    | Some outs \<Rightarrow> length (filter ends_cancel outs) = 1
        \<and> (\<forall>sy sd exch. Order_cancelled ev sy sd exch \<in> set outs \<longrightarrow> ge_cancel_order env = Returns True)
        \<and> (\<forall>a number. Call_cancel_order a number \<in> set outs \<longrightarrow>
             (\<exists>tracker row. ge_tracker env = Some tracker \<and> tg_get_again tracker (oc_order_id ev) = Some (Some row)
                \<and> ot_account_id row = oc_account_id ev \<and> a = oc_account_id ev \<and> number = ot_broker_order_id row))"
proof (cases answer)
  case None
  with assms show ?thesis
    by (auto simp: on_order_cancel_def Let_def split: option.splits prod.splits sum.splits)
next
  case (Some outs)
  obtain couts res gw1 where c: "cancel_order env (oc_order_id ev) (oc_account_id ev) gw = ((couts, res), gw1)"
    by (metis prod.collapse)
  note q = cancel_order_outs [OF c]
  obtain e where outs: "outs = couts @ [e]" "ends_cancel e"
    "\<And>sy sd exch. e = Order_cancelled ev sy sd exch \<Longrightarrow> res = Inr True"
    "\<And>a number. e \<noteq> Call_cancel_order a number"
    using assms Some
    by (auto simp: on_order_cancel_def c Let_def split: option.splits prod.splits sum.splits if_splits)
  have "Order_cancelled ev sy sd exch \<notin> set couts" for sy sd exch
    using q(1) by (auto simp: filter_empty_conv)
  then have "ge_cancel_order env = Returns True" if "Order_cancelled ev sy sd exch \<in> set outs" for sy sd exch
    using that outs(1,3) q(3) by auto
  moreover have "length (filter ends_cancel outs) = 1" by (simp add: outs(1,2) q(1))
  moreover have "Call_cancel_order a number \<in> set couts" if "Call_cancel_order a number \<in> set outs" for a number
    using that outs(1,4) by auto
  ultimately show ?thesis using q(2) Some by auto
qed


subsection \<open>Cached answers after a fill\<close>

lemma starts_with_append: "starts_with k p \<longleftrightarrow> (\<exists>z. k = p @ z)"
  unfolding starts_with_def by (metis append_eq_conv_conj append_take_drop_id)

lemma valid_id_no_colon:
  assumes "\<not> is_invalid_account_id (Some a)" shows "CHR '':'' \<notin> set a"
proof
  assume "CHR '':'' \<in> set a"
  moreover have "list_all account_id_char a"
    using assms by (auto simp: is_invalid_account_id_def account_id_pattern_def split: if_splits)
  ultimately have "account_id_char CHR '':''" by (auto simp: list_all_iff)
  then show False by (simp add: account_id_char_def Let_def)
qed

lemma id_prefix:
  assumes "starts_with (b @ CHR '':'' # x) (a @ CHR '':'' # y)" and "CHR '':'' \<notin> set a" and "CHR '':'' \<notin> set b"
  shows "a = b"
proof -
  obtain z where z: "b @ CHR '':'' # x = a @ CHR '':'' # (y @ z)" using assms(1) by (auto simp: starts_with_append)
  have "takeWhile (\<lambda>c. c \<noteq> CHR '':'') (b @ CHR '':'' # x) = b"
    "takeWhile (\<lambda>c. c \<noteq> CHR '':'') (a @ CHR '':'' # (y @ z)) = a"
    using assms(2,3) by (subst takeWhile_append2; auto)+
  with z show ?thesis by simp
qed

lemma filled_cache_get:
  "fst (cache_get t k (gw_cache (gateway_order_filled a sy gw))) =
     (if starts_with k (balance_key a) \<or> starts_with k (positions_key a) \<or> starts_with k (price_key a sy) then None
      else fst (cache_get t k (gw_cache gw)))"
proof -
  have "p \<noteq> ''''" if "p \<in> set [balance_key a, positions_key a, price_key a sy]" for p
    using that by (auto simp: balance_key_def positions_key_def price_key_def)
  from response.dropped_everywhere [where ps = "[balance_key a, positions_key a, price_key a sy]"
      and t = t and k = k and c = "gw_cache gw", OF this]
  show ?thesis by (simp add: gateway_order_filled_def)
qed

lemma cached_call_miss:
  assumes "cached_call ctxt key ttl env a answer gw = (Inr d, gw')" and "fst (cache_get (ge_now env) key (gw_cache gw)) = None"
  shows "answer = Returns d"
  using assms by (auto simp: cached_call_def split: sum.splits prod.splits option.splits reply.splits)

lemma cached_call_hit:
  assumes "\<not> is_invalid_account_id (Some a)" and "fst (cache_get (ge_now env) key (gw_cache gw)) = Some d"
  shows "fst (cached_call ctxt key ttl env a answer gw) = Inr d"
  using assms by (auto simp: cached_call_def split: prod.splits)

definition account_key :: "string \<Rightarrow> string \<Rightarrow> bool" where
  "account_key b k \<longleftrightarrow> k = balance_key b \<or> k = positions_key b \<or> (\<exists>sy. k = price_key b sy)"

text \<open>
  After a fill the gateway never answers with what it knew before: the next balance, positions and
  price of that account and symbol come from the broker.  Nothing cached for another account is lost.
\<close>

theorem fill_refreshes_account_only:
  assumes "\<not> is_invalid_account_id (Some a)"
  shows "(\<forall>env answer d gw'. get_account_balance env a answer (gateway_order_filled a sy gw) = (Inr d, gw') \<longrightarrow> answer = Returns d)
    \<and> (\<forall>env answer d gw'. get_positions env a answer (gateway_order_filled a sy gw) = (Inr d, gw') \<longrightarrow> answer = Returns d)
    \<and> (\<forall>env answer d gw'. get_current_price env a sy answer (gateway_order_filled a sy gw) = (Inr d, gw') \<longrightarrow> answer = Returns d)
    \<and> (\<forall>b key t. b \<noteq> a \<longrightarrow> \<not> is_invalid_account_id (Some b) \<longrightarrow> account_key b key \<longrightarrow>
         fst (cache_get t key (gw_cache (gateway_order_filled a sy gw))) = fst (cache_get t key (gw_cache gw)))"
proof -
  have self: "starts_with k k" for k by (simp add: starts_with_def)
  have gone: "fst (cache_get t k (gw_cache (gateway_order_filled a sy gw))) = None"
    if "k \<in> set [balance_key a, positions_key a, price_key a sy]" for t k
    using that self by (auto simp: filled_cache_get)
  have other: "fst (cache_get t key (gw_cache (gateway_order_filled a sy gw))) = fst (cache_get t key (gw_cache gw))"
    if "b \<noteq> a" "\<not> is_invalid_account_id (Some b)" "account_key b key" for b key t
  proof -
    note h = that
    obtain x where "key = b @ CHR '':'' # x"
      using h(3) by (auto simp: account_key_def balance_key_def positions_key_def price_key_def)
    then have "\<not> starts_with key (a @ CHR '':'' # y)" for y
      using id_prefix [of b x a y] valid_id_no_colon [OF assms] valid_id_no_colon [OF h(2)] h(1) by blast
    then show ?thesis by (simp add: filled_cache_get balance_key_def positions_key_def price_key_def)
  qed
  show ?thesis
    unfolding get_account_balance_def get_positions_def get_current_price_def
    using cached_call_miss gone other by (auto intro: cached_call_miss)
qed

subsection \<open>Stop orders from request to request\<close>

lemma registered_stop_fields:
  assumes "register_stop ck sid o0 m = (Inr [Stop_registered o2], m')"
  shows "so_stop_order_id o2 = sid \<and> so_side o2 = so_side o0 \<and> so_symbol o2 = so_symbol o0
    \<and> so_quantity o2 = so_quantity o0 \<and> so_order_type o2 = so_order_type o0 \<and> so_limit_price o2 = so_limit_price o0
    \<and> so_exchange o2 = so_exchange o0 \<and> so_account_id o2 = so_account_id o0 \<and> so_bot_id o2 = so_bot_id o0
    \<and> so_stop_price o2 = so_stop_price o0"
  using assms by (auto simp: register_stop_def Let_def split: sum.splits if_splits)

lemma approved_order_is_outcome:
  assumes "on_order_validated c tenv v s = (touts, s1)" and "Order_approved o' sp r \<in> set touts"
  shows "o' = outcome_of c v" and "sp = vd_stop_price v" and "tc_account_id c = vd_account_id v"
    and "vd_side v = ''buy'' \<Longrightarrow> vd_order_type v \<in> set [''stop'', ''stop_limit''] \<Longrightarrow> r = 0"
  using assms
  by (auto simp: on_order_validated_def reject_not_ready_def validated_market_buy_def validated_other_def
      reserve_and_approve_def approve_def reject_def is_my_event_def Let_def
      split: if_splits option.splits quote_reply.splits sum.splits prod.splits)

text \<open>
  C17. A stop order stays valid from the strategy's request to its trigger.  If the engine validated it,
  the treasury approved it and the gateway registered it, nothing is reserved for it yet, and the
  order request it turns into when it is triggered passes the engine's preflight: a market order, or
  for a stop-limit a limit order at the strategy's own limit price, of the same account, bot, symbol,
  side and quantity.
\<close>

theorem stop_order_keeps_contract:
  assumes "Out_validated v \<in> set (on_order_request en renv req)"
    and "vd_order_type v \<in> set [''stop'', ''stop_limit'']"
    and "on_order_validated c tenv v s = (touts, s1)" and "Order_approved o' sp r \<in> set touts"
    and "gw_stop_manager gw = Some m"
    and "on_order_approved genv \<lparr>ap_order = o', ap_stop_price = sp, ap_virtual_handled = False\<rparr> gw = (gouts, gw')"
    and "Stop_out (Stop_registered o2) \<in> set gouts"
  shows "(vd_side v = ''buy'' \<longrightarrow> r = 0) \<and> s1 = s \<and> preflight (converted_request fresh o2) = None
    \<and> or_account_id (converted_request fresh o2) = vd_account_id v
    \<and> or_bot_id (converted_request fresh o2) = vd_bot_id v
    \<and> or_symbol (converted_request fresh o2) = vd_symbol v
    \<and> or_side (converted_request fresh o2) = Py_str (vd_side v)
    \<and> or_quantity (converted_request fresh o2) = Py_float (Fin (vd_quantity v))
    \<and> or_price (converted_request fresh o2) =
        (if vd_order_type v = ''stop'' then Py_none
         else Py_float (Fin (case vd_price v of None \<Rightarrow> 0 | Some p \<Rightarrow> p)))"
proof -
  note n = validated_numbers [OF assms(1)]
  note ap = approved_order_is_outcome [OF assms(3,4)]
  have s1: "s1 = s" using approved_other_unchanged [OF assms(3,4)] assms(2) by blast
  let ?ev = "\<lparr>ap_order = o', ap_stop_price = sp, ap_virtual_handled = False\<rparr>"
  have ty: "oo_order_type o' \<in> set [''stop'', ''stop_limit'']" using assms(2) by (simp add: ap(1) outcome_of_def)
  have reg: "register_stop (ge_stop_clock genv) (ge_stop_id genv) (stop_order_of ?ev) m =
      (Inr [Stop_registered o2], m\<lparr>sm_orders := dict_set (ge_stop_id genv) o2 (sm_orders m)\<rparr>)"
  proof (cases rule: register_stop_cases [of "ge_stop_clock genv" "ge_stop_id genv" "stop_order_of ?ev" m])
    case (refused e)
    then have "gouts = [Order_failed (failed_order o') (Stop_exc e) '''']"
      using assms(5,6) ty by (simp add: on_order_approved_def Let_def)
    then show ?thesis using assms(7) by simp
  next
    case (kept o3)
    then have "gouts = [Stop_out (Stop_registered o3)]"
      using assms(5,6) ty by (simp add: on_order_approved_def Let_def)
    then show ?thesis using assms(7) kept(1) by simp
  qed
  note f = registered_stop_fields [OF reg]
  have o2: "so_side o2 = vd_side v" "so_symbol o2 = vd_symbol v" "so_quantity o2 = vd_quantity v"
    "so_order_type o2 = vd_order_type v" "so_limit_price o2 = vd_price v" "so_exchange o2 = vd_exchange v"
    "so_account_id o2 = vd_account_id v" "so_bot_id o2 = vd_bot_id v"
    using f by (simp_all add: stop_order_of_def Let_def ap(1,3) outcome_of_def)
  have price: "vd_order_type v = ''stop_limit'' \<Longrightarrow> \<exists>p. vd_price v = Some p \<and> 0 < p"
    using n(2,4) by auto
  have "preflight (converted_request fresh o2) = None"
    using n(1,6,8) price assms(2)
    by (auto simp: preflight_def preflight_shape_def preflight_amounts_def converted_request_def converted_price_def converted_type_def o2 one_of_def
        valid_order_sides_def valid_order_types_def)
  moreover have "or_price (converted_request fresh o2) =
      (if vd_order_type v = ''stop'' then Py_none else Py_float (Fin (case vd_price v of None \<Rightarrow> 0 | Some p \<Rightarrow> p)))"
    using price assms(2) by (auto simp: converted_request_def converted_price_def converted_type_def o2)
  ultimately show ?thesis
    using ap(4) assms(2) s1 by (simp add: converted_request_def o2)
qed

subsection \<open>Virtual money\<close>

record virtual_fill =
  vl_symbol :: string
  vl_side :: string
  vl_quantity :: rat
  vl_price :: rat
  vl_commission :: rat

definition virtual_step :: "virtual_portfolio \<Rightarrow> virtual_fill \<Rightarrow> virtual_portfolio" where
  "virtual_step p f = apply_virtual_fill (vl_symbol f) (vl_side f) (vl_quantity f) (vl_price f) (vl_commission f) p"

text \<open>Fills of a positive quantity; a sale does not exceed what is held.\<close>

definition virtual_guard :: "virtual_portfolio \<Rightarrow> virtual_fill \<Rightarrow> bool" where
  "virtual_guard p f \<longleftrightarrow> 0 < vl_quantity f \<and> vl_side f \<in> {''buy'', ''sell''}
     \<and> (vl_side f = ''sell'' \<longrightarrow>
          (case dict_get (vf_positions p) (vl_symbol f) of None \<Rightarrow> False | Some pos \<Rightarrow> vl_quantity f \<le> vp_quantity pos))"

definition holdings_cost :: "virtual_portfolio \<Rightarrow> rat" where
  "holdings_cost p = dict_sum (\<lambda>pos. vp_avg_entry_price pos * vp_quantity pos) (vf_positions p)"

definition virtual_ok :: "virtual_portfolio \<Rightarrow> bool" where
  "virtual_ok p \<longleftrightarrow> dict_wf (vf_positions p)
     \<and> (\<forall>k pos. dict_get (vf_positions p) k = Some pos \<longrightarrow> 0 \<le> vp_quantity pos)"

definition buy_fees :: "virtual_fill list \<Rightarrow> rat" where
  "buy_fees fs = sum_list (map (\<lambda>f. if vl_side f = ''buy'' then vl_commission f else 0) fs)"

lemma virtual_step_books:
  assumes ok: "virtual_ok p" and g: "virtual_guard p f"
  shows "virtual_ok (virtual_step p f)"
    and "vf_balance (virtual_step p f) - dict_sum vp_realized_pnl (vf_positions (virtual_step p f))
           + holdings_cost (virtual_step p f) =
         vf_balance p - dict_sum vp_realized_pnl (vf_positions p) + holdings_cost p
           - (if vl_side f = ''buy'' then vl_commission f else 0)"
proof -
  have wf: "dict_wf (vf_positions p)" and nn: "\<And>k pos. dict_get (vf_positions p) k = Some pos \<Longrightarrow> 0 \<le> vp_quantity pos"
    using ok by (auto simp: virtual_ok_def)
  let ?pos = "dict_default \<lparr>vp_quantity = 0, vp_avg_entry_price = 0, vp_realized_pnl = 0\<rparr> (vf_positions p) (vl_symbol f)"
  have "0 \<le> vp_quantity ?pos" using nn by (auto simp: dict_default_def split: option.splits)
  moreover have "0 < vl_quantity f" using g by (simp add: virtual_guard_def)
  ultimately have "0 \<le> vp_quantity ?pos + vl_quantity f" by simp
  then show "virtual_ok (virtual_step p f)"
    using wf nn \<open>0 \<le> vp_quantity ?pos\<close>
    by (auto simp: virtual_ok_def virtual_step_def apply_virtual_fill_def Let_def update_conv' split: if_splits)
  show "vf_balance (virtual_step p f) - dict_sum vp_realized_pnl (vf_positions (virtual_step p f))
           + holdings_cost (virtual_step p f) =
         vf_balance p - dict_sum vp_realized_pnl (vf_positions p) + holdings_cost p
           - (if vl_side f = ''buy'' then vl_commission f else 0)"
  proof (cases "dict_get (vf_positions p) (vl_symbol f)")
    case None
    then show ?thesis using g wf
      by (auto simp: virtual_step_def virtual_guard_def apply_virtual_fill_def Let_def dict_default_def
          holdings_cost_def dict_sum_set)
  next
    case (Some pos)
    have n: "0 < vp_quantity pos + vl_quantity f" using nn [OF Some] g by (simp add: virtual_guard_def)
    show ?thesis
    proof (cases "vl_side f = ''buy''")
      case True
      have "t / (vp_quantity pos + vl_quantity f) * (vp_quantity pos + vl_quantity f) = t" for t
        using n by simp
      then show ?thesis using n wf Some True
        by (simp add: virtual_step_def apply_virtual_fill_def Let_def dict_default_def
            holdings_cost_def dict_sum_set del: times_divide_eq_left)
    next
      case False
      then show ?thesis using g wf Some
        by (auto simp: virtual_step_def virtual_guard_def apply_virtual_fill_def Let_def dict_default_def
            holdings_cost_def dict_sum_set algebra_simps)
    qed
  qed
qed

lemma virtual_run_books:
  assumes "virtual_ok p" and "admissible virtual_step virtual_guard p fs"
  shows "vf_balance (run virtual_step p fs) - dict_sum vp_realized_pnl (vf_positions (run virtual_step p fs))
           + holdings_cost (run virtual_step p fs) =
         vf_balance p - dict_sum vp_realized_pnl (vf_positions p) + holdings_cost p - buy_fees fs"
  using assms
proof (induction fs arbitrary: p)
  case (Cons f fs)
  have g: "virtual_guard p f" "admissible virtual_step virtual_guard (virtual_step p f) fs" using Cons.prems by simp_all
  show ?case
    using Cons.IH [OF virtual_step_books(1) [OF Cons.prems(1) g(1)] g(2)] virtual_step_books(2) [OF Cons.prems(1) g(1)]
    by (simp add: buy_fees_def)
qed (simp add: buy_fees_def)

text \<open>
  Virtual money is conserved: after any admissible fills the balance of a portfolio is the initial
  balance plus its realised profit less the cost of what it holds, less the commissions of its
  purchases, which the realised profit leaves out.
\<close>

theorem virtual_balance_conserved:
  assumes "admissible virtual_step virtual_guard (new_portfolio x) fs"
    and "p = run virtual_step (new_portfolio x) fs"
  shows "vf_balance p = x + dict_sum vp_realized_pnl (vf_positions p) - holdings_cost p - buy_fees fs"
proof -
  have "virtual_ok (new_portfolio x)" by (simp add: virtual_ok_def new_portfolio_def)
  from virtual_run_books [OF this assms(1)] show ?thesis
    by (simp add: assms(2) new_portfolio_def holdings_cost_def algebra_simps)
qed


subsection \<open>The properties on concrete orders\<close>

definition sample_account :: "trading_mode \<Rightarrow> gateway_account" where
  "sample_account mode = \<lparr>ga_broker_type = Some ''kis-domestic'', ga_trading_mode = Some mode, ga_status = Some ACTIVE\<rparr>"

definition sample_ready :: readiness_reader where
  "sample_ready = reader_of (fold (mark_ready ''acct-1'') all_flags [])"

definition sample_open_row :: order_row where
  "sample_open_row = \<lparr>ot_order_id = ''o2'', ot_account_id = ''acct-1'', ot_bot_id = ''bot-1'', ot_strategy_id = ''s'',
     ot_broker_order_id = ''B2'', ot_symbol = ''005930'', ot_side = ''buy'', ot_order_type = ''limit'',
     ot_ordered_qty = 5, ot_recorded_filled_qty = 0, ot_avg_fill_price = 0, ot_status = OPEN,
     ot_submitted_at = None, ot_submitted_date = ''20250102'', ot_order_price = Some 10, ot_exchange = Some ''KRX''\<rparr>"

definition sample_genv :: gateway_env where
  "sample_genv = \<lparr>ge_fetch_routing = Got (Some (sample_account LIVE)), ge_fetch_gate = Got (Some (sample_account LIVE)),
     ge_registry = Some sample_ready,
     ge_tracker = Some \<lparr>tg_get = (\<lambda>_. Some (Some sample_open_row)), tg_get_again = (\<lambda>_. Some (Some sample_open_row))\<rparr>,
     ge_now = 0, ge_slot_now = 0, ge_slot_later = 0, ge_after = 0, ge_broker = Returns (),
     ge_place_order = Returns ''B2'', ge_cancel_order = Returns True, ge_modify_order = Returns True,
     ge_stop_clock = sample_clock, ge_stop_id = ''sl-1''\<rparr>"

definition sample_gateway :: "string api_gateway" where
  "sample_gateway = new_gateway None (Some (start_manager new_stop_manager))"

definition sample_approved :: approved_order where
  "sample_approved = \<lparr>ap_order = outcome_of sample_config (sample_validated ''o2'' 5), ap_stop_price = None,
     ap_virtual_handled = False\<rparr>"

definition sample_venv :: virtual_env where
  "sample_venv = \<lparr>ve_registry = Some sample_ready, ve_service = Some (Got (Some (sample_account VIRTUAL))),
     ve_price = Some (Returns 12)\<rparr>"

definition sample_executor :: virtual_executor where
  "sample_executor = new_executor (1/1000) (2/1000) 0"

definition sample_virtual :: virtual_executor where
  "sample_virtual = register_bot ''bot-1'' (new_portfolio 1000) sample_executor"

definition sample_live_run :: "approval_out list \<times> virtual_executor \<times> string api_gateway" where
  "sample_live_run = dispatch_approved sample_venv sample_genv sample_approved (sample_executor, sample_gateway)"

lemma sample_live_run:
  "dispatch_approved sample_venv sample_genv sample_approved (sample_executor, sample_gateway) =
     (fst sample_live_run, fst (snd sample_live_run), snd (snd sample_live_run))"
  by (simp add: sample_live_run_def)

lemma sample_gateway_stops: "gw_stop_manager sample_gateway \<noteq> None"
  by (simp add: sample_gateway_def new_gateway_def)


lemma sample_live_call:
  "From_gateway (Call_place_order ''acct-1'' ''005930'' ''buy'' 5 ''limit'' (Some 10)) \<in> set (fst sample_live_run)"
  by code_simp

theorem broker_call_is_gated_witness:
  "\<exists>acc. ge_fetch_gate sample_genv = Got (Some acc) \<and> may_trade (ge_registry sample_genv) ''acct-1'' acc LIVE"
  using broker_call_is_gated [OF sample_live_run sample_live_call] by blast

definition sample_virtual_run :: "approval_out list \<times> virtual_executor \<times> string api_gateway" where
  "sample_virtual_run = dispatch_approved sample_venv sample_genv sample_approved (sample_virtual, sample_gateway)"

lemma sample_virtual_run:
  "dispatch_approved sample_venv sample_genv sample_approved (sample_virtual, sample_gateway) =
     (fst sample_virtual_run, fst (snd sample_virtual_run), snd (snd sample_virtual_run))"
  by (simp add: sample_virtual_run_def)

definition sample_virtual_fill :: order_filled where
  "sample_virtual_fill = \<lparr>ev_account_id = ''acct-1'', ev_order_id = ''o2'', ev_broker_order_id = ''virtual-o2'',
     ev_bot_id = ''bot-1'', ev_strategy_id = ''s'', ev_symbol = ''005930'', ev_side = ''buy'', ev_quantity = 5,
     ev_price = 10, ev_commission = 1/20, ev_order_type = ''limit'', ev_exchange = ''KRX'', ev_fill_dedup_key = None\<rparr>"

lemma sample_virtual_filled: "From_executor (Virtual_filled sample_virtual_fill) \<in> set (fst sample_virtual_run)"
  by code_simp

theorem virtual_fill_is_gated_witness:
  "ev_quantity sample_virtual_fill = oo_quantity (ap_order sample_approved)"
proof -
  have "vx_slippage_rate sample_virtual < 1" by code_simp
  from virtual_fill_is_gated [OF sample_virtual_run sample_virtual_filled this] show ?thesis by blast
qed

definition sample_broken_genv :: gateway_env where
  "sample_broken_genv = sample_genv\<lparr>ge_place_order := Raises (Api_error ''down'' ''E1'')\<rparr>"

definition sample_failed_run :: "approval_out list \<times> virtual_executor \<times> string api_gateway" where
  "sample_failed_run = dispatch_approved sample_venv sample_broken_genv sample_approved (sample_executor, sample_gateway)"

definition sample_failed_out :: approval_out where
  "sample_failed_out = From_gateway (Order_failed (failed_order (ap_order sample_approved)) (Api_error ''down'' ''E1'') ''E1'')"

theorem failed_execution_restores_funds_witness:
  "get_budget ''bot-1'' (on_order_failed sample_config ''acct-1'' ''bot-1'' ''o2'' (snd sample_order_out)) = Some sample_budget"
proof -
  let ?o = "outcome_of sample_config (sample_validated ''o2'' 5)"
  have ap: "Order_approved ?o None 50 \<in> set [approve sample_config (sample_validated ''o2'' 5) 50]"
    by (simp add: approve_def sample_validated_def)
  have new: "dict_get (ty_reservations sample_treasury) (vd_order_id (sample_validated ''o2'' 5)) = None"
    by (simp add: sample_treasury_facts(2) sample_validated_def)
  have run: "dispatch_approved sample_venv sample_broken_genv
      \<lparr>ap_order = ?o, ap_stop_price = None, ap_virtual_handled = False\<rparr> (sample_executor, sample_gateway) =
      (fst sample_failed_run, fst (snd sample_failed_run), snd (snd sample_failed_run))"
    by (simp add: sample_failed_run_def sample_approved_def)
  have out: "sample_failed_out \<in> set (fst sample_failed_run)" by code_simp
  have f: "failure_of sample_failed_out = Some (failed_order ?o)"
    by (simp add: sample_failed_out_def sample_approved_def)
  have id: "on_order_failed sample_config ''acct-1'' ''bot-1'' ''o2'' (snd sample_order_out) =
      on_order_failed sample_config (oo_account_id (failed_order ?o)) (oo_bot_id (failed_order ?o))
        (oo_order_id (failed_order ?o)) (snd sample_order_out)"
    by (simp add: outcome_of_def sample_config_def sample_validated_def)
  from failed_execution_restores_funds [OF sample_treasury_inv sample_order_out_eq(1) ap new run out f refl, of "''bot-1''"]
  show ?thesis unfolding id by (simp add: sample_treasury_facts(1))
qed

definition sample_modify :: order_modify where
  "sample_modify = \<lparr>om_account_id = ''acct-1'', om_order_id = ''o2'', om_bot_id = ''bot-1'', om_strategy_id = ''s'',
     om_symbol = ''005930'', om_side = ''buy'', om_quantity = Py_float (Fin 0), om_price = Py_float (Fin 9),
     om_reason = '''', om_consumed = False\<rparr>"

definition sample_modify_run :: "gateway_out list option \<times> string api_gateway" where
  "sample_modify_run = on_gateway_modify sample_genv sample_modify sample_gateway"

lemma sample_modify_run:
  "on_gateway_modify sample_genv sample_modify sample_gateway = (Some (the (fst sample_modify_run)), snd sample_modify_run)"
  "Call_modify_order ''acct-1'' ''B2'' 5 9 \<in> set (the (fst sample_modify_run))"
  by code_simp+

theorem price_change_answered_once_witness:
  "length (filter ends_modify (the (fst sample_modify_run))) = 1"
proof -
  have c: "\<not> om_consumed sample_modify" by (simp add: sample_modify_def)
  have e: "on_order_modify sample_engine sample_rule_env sample_modify = (None, sample_modify)" by code_simp
  from price_change_answered_once [OF e c sample_modify_run(1)] show ?thesis by simp
qed

theorem price_change_is_safe_witness:
  "\<exists>tracker row. ge_tracker sample_genv = Some tracker \<and> tg_get tracker ''o2'' = Some (Some row)
     \<and> ot_status row = OPEN \<and> (ot_side row = ''buy'' \<longrightarrow> (\<exists>p0. ot_order_price row = Some p0 \<and> 9 \<le> p0))"
proof -
  have "om_order_id sample_modify = ''o2''" by (simp add: sample_modify_def)
  with price_change_is_safe [OF sample_modify_run] show ?thesis by auto
qed

definition sample_cancel :: order_cancel where
  "sample_cancel = \<lparr>oc_account_id = ''acct-1'', oc_bot_id = ''bot-1'', oc_strategy_id = ''s'', oc_order_id = ''o2'', oc_reason = ''''\<rparr>"

theorem cancel_answered_once_witness:
  "length (filter ends_cancel (the (fst (on_order_cancel sample_genv sample_cancel sample_gateway)))) = 1"
proof -
  let ?r = "on_order_cancel sample_genv sample_cancel sample_gateway"
  have "fst ?r \<noteq> None" by code_simp
  then obtain outs where r: "?r = (Some outs, snd ?r)" by (cases ?r) auto
  from cancel_answered_once [OF r] have "length (filter ends_cancel outs) = 1" by simp
  then show ?thesis using r by (metis fst_conv option.sel)
qed

theorem fill_refreshes_account_only_witness:
  "fst (cache_get 1 ''acct-2:balance'' (gw_cache (gateway_order_filled ''acct-1'' ''005930'' sample_gateway))) =
     fst (cache_get 1 ''acct-2:balance'' (gw_cache sample_gateway))"
proof -
  have "\<not> is_invalid_account_id (Some ''acct-1'')" by code_simp
  note f = fill_refreshes_account_only [OF this]
  have v: "\<not> is_invalid_account_id (Some ''acct-2'')" by code_simp
  have k: "account_key ''acct-2'' ''acct-2:balance''" by (simp add: account_key_def balance_key_def)
  have n: "''acct-2'' \<noteq> ''acct-1''" by simp
  from f [where sy = "''005930''" and gw = sample_gateway, THEN conjunct2, THEN conjunct2, THEN conjunct2, rule_format,
      OF n v k, of 1] show ?thesis .
qed

definition sample_stop_request :: order_request where
  "sample_stop_request = (sample_request (Py_float (Fin 61)))
     \<lparr>or_order_type := Py_str ''stop_limit'', or_stop_price := Py_float (Fin 60)\<rparr>"

definition sample_stop_validated :: order_validated where
  "sample_stop_validated = validated_event sample_engine sample_stop_request"

definition sample_stop_approved :: "treasury_out list \<times> treasury" where
  "sample_stop_approved = on_order_validated sample_treasury_config sample_treasury_env sample_stop_validated bare_treasury"

definition sample_stop_gateway_run :: "gateway_out list \<times> string api_gateway" where
  "sample_stop_gateway_run = on_order_approved sample_genv
     \<lparr>ap_order = outcome_of sample_treasury_config sample_stop_validated, ap_stop_price = vd_stop_price sample_stop_validated,
      ap_virtual_handled = False\<rparr> sample_gateway"

definition sample_registered :: stop_order where
  "sample_registered = \<lparr>so_stop_order_id = ''sl-1'', so_order_id = ''o1'', so_bot_id = ''bot-1'', so_strategy_id = ''s'',
     so_symbol = ''005930'', so_side = ''buy'', so_quantity = 1000000, so_order_type = ''stop_limit'',
     so_stop_price = 60, so_limit_price = Some 61, so_trading_session = ''regular'', so_account_id = ''acct-1'',
     so_triggered = False, so_expired = False, so_exchange = ''KRX'', so_entered_session = False\<rparr>"

theorem stop_order_keeps_contract_witness:
  "preflight (converted_request (\<lambda>_. ''o3'') sample_registered) = None"
proof -
  have v: "Out_validated sample_stop_validated \<in> set (on_order_request sample_engine sample_rule_env sample_stop_request)"
    by code_simp
  have t: "vd_order_type sample_stop_validated \<in> set [''stop'', ''stop_limit'']" by code_simp
  have a: "on_order_validated sample_treasury_config sample_treasury_env sample_stop_validated bare_treasury =
      (fst sample_stop_approved, snd sample_stop_approved)" by (simp add: sample_stop_approved_def)
  have ap: "Order_approved (outcome_of sample_treasury_config sample_stop_validated) (vd_stop_price sample_stop_validated) 0
      \<in> set (fst sample_stop_approved)" by code_simp
  have m: "gw_stop_manager sample_gateway = Some (start_manager new_stop_manager)"
    by (simp add: sample_gateway_def new_gateway_def)
  have g: "on_order_approved sample_genv
     \<lparr>ap_order = outcome_of sample_treasury_config sample_stop_validated, ap_stop_price = vd_stop_price sample_stop_validated,
      ap_virtual_handled = False\<rparr> sample_gateway = (fst sample_stop_gateway_run, snd sample_stop_gateway_run)"
    by (simp add: sample_stop_gateway_run_def)
  have o2: "Stop_out (Stop_registered sample_registered) \<in> set (fst sample_stop_gateway_run)" by code_simp
  from stop_order_keeps_contract [OF v t a ap m g o2] show ?thesis by blast
qed

definition sample_virtual_fills :: "virtual_fill list" where
  "sample_virtual_fills =
     [\<lparr>vl_symbol = ''005930'', vl_side = ''buy'', vl_quantity = 5, vl_price = 10, vl_commission = 1\<rparr>,
      \<lparr>vl_symbol = ''005930'', vl_side = ''sell'', vl_quantity = 2, vl_price = 12, vl_commission = 1\<rparr>]"

theorem virtual_balance_conserved_witness:
  "vf_balance (run virtual_step (new_portfolio 1000) sample_virtual_fills) =
     1000 + dict_sum vp_realized_pnl (vf_positions (run virtual_step (new_portfolio 1000) sample_virtual_fills))
       - holdings_cost (run virtual_step (new_portfolio 1000) sample_virtual_fills) - buy_fees sample_virtual_fills"
proof -
  have "admissible virtual_step virtual_guard (new_portfolio 1000) sample_virtual_fills" by code_simp
  from virtual_balance_conserved [OF this refl] show ?thesis .
qed

end
