(* ===== verification/Event_Bus.thy ===== *)
theory Event_Bus
  imports Prelude "HOL-Library.Multiset"
begin

text \<open>
  \<open>src/src/ante/eventbus/bus.py\<close> and \<open>fill_dedup_guard.py\<close>: the bus that carries every order event
  between the components, and the bounded guard its consumers keep against redelivered fills.

  Handlers and middlewares are names; \<open>call\<close> runs one on an event and says whether it raised.  The
  world it changes includes the bus, so a handler may subscribe, unsubscribe and publish.  A call is
  one step: awaiting it lets nothing else run.  Middlewares are registered at start only.
\<close>

subsection \<open>The bus\<close>

record ('t, 'h, 'e) event_bus =
  eb_handlers :: "('t, (int \<times> 'h) list) dict"
  eb_history :: "'e list"
  eb_history_size :: nat
  eb_middlewares :: "'h list"

definition new_bus :: "nat \<Rightarrow> ('t, 'h, 'e) event_bus" where
  "new_bus history_size =
     \<lparr>eb_handlers = [], eb_history = [], eb_history_size = history_size, eb_middlewares = []\<rparr>"

definition use_middleware :: "'h \<Rightarrow> ('t, 'h, 'e) event_bus \<Rightarrow> ('t, 'h, 'e) event_bus" where
  "use_middleware mw b = b\<lparr>eb_middlewares := eb_middlewares b @ [mw]\<rparr>"

text \<open>\<open>sort(reverse=True)\<close> is stable: equal priorities keep their order.\<close>

definition by_priority :: "(int \<times> 'h) list \<Rightarrow> (int \<times> 'h) list" where
  "by_priority hs = sort_key (\<lambda>(p, _). - p) hs"

definition subscribe :: "'t \<Rightarrow> 'h \<Rightarrow> int \<Rightarrow> ('t, 'h, 'e) event_bus \<Rightarrow> ('t, 'h, 'e) event_bus" where
  "subscribe t h priority b =
     b\<lparr>eb_handlers := dict_set t (by_priority (dict_default [] (eb_handlers b) t @ [(priority, h)])) (eb_handlers b)\<rparr>"

definition unsubscribe :: "'t \<Rightarrow> 'h \<Rightarrow> ('t, 'h, 'e) event_bus \<Rightarrow> ('t, 'h, 'e) event_bus" where
  "unsubscribe t h b =
     (case dict_get (eb_handlers b) t of
        None \<Rightarrow> b
      | Some hs \<Rightarrow> b\<lparr>eb_handlers := dict_set t (filter (\<lambda>(_, h'). h' \<noteq> h) hs) (eb_handlers b)\<rparr>)"

definition get_handlers :: "'t \<Rightarrow> ('t, 'h, 'e) event_bus \<Rightarrow> (int \<times> 'h) list" where
  "get_handlers t b = dict_default [] (eb_handlers b) t"

text \<open>The slice \<open>xs[-n:]\<close>: all of \<open>xs\<close> for \<open>n = 0\<close>, and \<open>xs[k:]\<close> for \<open>n = -k\<close>.\<close>

definition last_slice :: "int \<Rightarrow> 'a list \<Rightarrow> 'a list" where
  "last_slice n xs = (if 0 < n then drop (length xs - nat n) xs else drop (nat (- n)) xs)"

definition record_history :: "'e \<Rightarrow> ('t, 'h, 'e) event_bus \<Rightarrow> ('t, 'h, 'e) event_bus" where
  "record_history e b =
     (let history = eb_history b @ [e]
      in b\<lparr>eb_history := (if length history > eb_history_size b
                          then last_slice (int (eb_history_size b)) history else history)\<rparr>)"

definition get_history :: "('e \<Rightarrow> 't \<Rightarrow> bool) \<Rightarrow> 't option \<Rightarrow> int \<Rightarrow> ('t, 'h, 'e) event_bus \<Rightarrow> 'e list" where
  "get_history isinstance event_type limit b =
     (let events = (case event_type of
                      None \<Rightarrow> eb_history b
                    | Some t \<Rightarrow> filter (\<lambda>e. isinstance e t) (eb_history b))
      in rev (last_slice limit events))"

type_synonym ('t, 'h, 'e, 'w) bus_world = "'w \<times> ('t, 'h, 'e) event_bus"

text \<open>A handler that raises is logged and the next one runs.\<close>

fun deliver ::
  "('h \<Rightarrow> 'e \<Rightarrow> ('t, 'h, 'e, 'w) bus_world \<Rightarrow> bool \<times> ('t, 'h, 'e, 'w) bus_world) \<Rightarrow> 'e \<Rightarrow> 'h list \<Rightarrow>
     ('t, 'h, 'e, 'w) bus_world \<Rightarrow> ('t, 'h, 'e, 'w) bus_world" where
  "deliver call e [] s = s"
| "deliver call e (h # hs) s =
     (case call h e s of (raised, s') \<Rightarrow> deliver call e hs s')"

definition publish ::
  "('h \<Rightarrow> 'e \<Rightarrow> ('t, 'h, 'e, 'w) bus_world \<Rightarrow> bool \<times> ('t, 'h, 'e, 'w) bus_world) \<Rightarrow> ('e \<Rightarrow> 't) \<Rightarrow> 'e \<Rightarrow>
     ('t, 'h, 'e, 'w) bus_world \<Rightarrow> ('t, 'h, 'e, 'w) bus_world" where
  "publish call type_of e s =
     (let s1 = (fst s, record_history e (snd s));
          s2 = deliver call e (eb_middlewares (snd s1)) s1
      in deliver call e (map snd (get_handlers (type_of e) (snd s2))) s2)"

subsection \<open>The dedup guard\<close>

record 'k dedup_guard =
  dg_maxlen :: nat
  dg_order :: "'k list"
  dg_seen :: "'k set"

definition new_guard :: "nat \<Rightarrow> 'k dedup_guard" where
  "new_guard maxlen = \<lparr>dg_maxlen = maxlen, dg_order = [], dg_seen = {}\<rparr>"

definition default_fill_dedup_maxlen :: nat where
  "default_fill_dedup_maxlen = 512"

definition guard_contains :: "'k \<Rightarrow> 'k dedup_guard \<Rightarrow> bool" where
  "guard_contains key g \<longleftrightarrow> key \<in> dg_seen g"

text \<open>Appending to a \<open>deque(maxlen)\<close> drops from the left; \<open>deque[0]\<close> of an empty one raises.\<close>

definition deque_append :: "nat \<Rightarrow> 'k \<Rightarrow> 'k list \<Rightarrow> 'k list" where
  "deque_append maxlen k xs = (let ys = xs @ [k] in drop (length ys - maxlen) ys)"

definition seen_or_add :: "'k \<Rightarrow> 'k dedup_guard \<Rightarrow> (bool \<times> 'k dedup_guard) option" where
  "seen_or_add key g =
     (if key \<in> dg_seen g then Some (True, g)
      else
        let add = (\<lambda>seen. Some (False, g\<lparr>dg_order := deque_append (dg_maxlen g) key (dg_order g),
                                          dg_seen := insert key seen\<rparr>))
        in if length (dg_order g) \<ge> dg_maxlen g
           then (case dg_order g of
                   [] \<Rightarrow> None
                 | evicted # _ \<Rightarrow> add (dg_seen g - {evicted}))
           else add (dg_seen g))"

text \<open>A consumer: the keys whose effect ran, in order.\<close>

fun guarded_effects :: "'k list \<Rightarrow> 'k dedup_guard \<Rightarrow> ('k list \<times> 'k dedup_guard) option" where
  "guarded_effects [] g = Some ([], g)"
| "guarded_effects (k # ks) g =
     (case seen_or_add k g of
        None \<Rightarrow> None
      | Some (True, g') \<Rightarrow> guarded_effects ks g'
      | Some (False, g') \<Rightarrow> map_option (\<lambda>(es, g''). (k # es, g'')) (guarded_effects ks g'))"

subsection \<open>The bus against a list of subscriptions\<close>

text \<open>The reference: the subscriptions in the order they were made.\<close>

datatype ('t, 'h) bus_call = Subscribe 't 'h int | Unsubscribe 't 'h

fun bus_step :: "('t, 'h, 'e) event_bus \<Rightarrow> ('t, 'h) bus_call \<Rightarrow> ('t, 'h, 'e) event_bus" where
  "bus_step b (Subscribe t h p) = subscribe t h p b"
| "bus_step b (Unsubscribe t h) = unsubscribe t h b"

fun standing :: "('t \<times> int \<times> 'h) list \<Rightarrow> ('t, 'h) bus_call \<Rightarrow> ('t \<times> int \<times> 'h) list" where
  "standing subs (Subscribe t h p) = subs @ [(t, p, h)]"
| "standing subs (Unsubscribe t h) = filter (\<lambda>(t', _, h'). \<not> (t' = t \<and> h' = h)) subs"

definition subscribed :: "('t \<times> int \<times> 'h) list \<Rightarrow> 't \<Rightarrow> (int \<times> 'h) list" where
  "subscribed subs t = map snd (filter (\<lambda>(t', _). t' = t) subs)"

lemma sort_key_same: "sort_key f (filter (\<lambda>x. c = f x) xs) = filter (\<lambda>x. c = f x) xs"
proof (rule sort_key_id_if_sorted)
  show "sorted (map f (filter (\<lambda>x. c = f x) xs))" by (induction xs) auto
qed

lemma by_priority_append: "by_priority (by_priority xs @ ys) = by_priority (xs @ ys)"
  unfolding by_priority_def
proof (rule properties_for_sort_key)
  fix k assume "k \<in> set (sort_key (\<lambda>(p, _). - p) (xs @ ys))"
  show "filter (\<lambda>x. (case k of (p, _) \<Rightarrow> - p) = (case x of (p, _) \<Rightarrow> - p)) (sort_key (\<lambda>(p, _). - p) (xs @ ys)) =
      filter (\<lambda>x. (case k of (p, _) \<Rightarrow> - p) = (case x of (p, _) \<Rightarrow> - p)) (sort_key (\<lambda>(p, _). - p) xs @ ys)"
    by (simp only: filter_sort filter_append sort_key_same flip: filter_append)
      (simp only: filter_append filter_sort sort_key_same)
qed simp_all

lemma filter_by_priority: "filter P (by_priority xs) = by_priority (filter P xs)"
  by (simp add: by_priority_def filter_sort)

lemma get_handlers_subscribe:
  "get_handlers t' (subscribe t h p b) =
     (if t' = t then by_priority (get_handlers t b @ [(p, h)]) else get_handlers t' b)"
  by (auto simp: get_handlers_def subscribe_def dict_default_def update_conv')

lemma get_handlers_unsubscribe:
  "get_handlers t' (unsubscribe t h b) =
     (if t' = t then filter (\<lambda>(_, h'). h' \<noteq> h) (get_handlers t b) else get_handlers t' b)"
  by (auto simp: get_handlers_def unsubscribe_def dict_default_def update_conv' split: option.splits)

lemma subscribed_standing:
  "subscribed (standing subs (Subscribe t h p)) t' = subscribed subs t' @ (if t' = t then [(p, h)] else [])"
  "subscribed (standing subs (Unsubscribe t h)) t' =
     (if t' = t then filter (\<lambda>(_, h'). h' \<noteq> h) (subscribed subs t') else subscribed subs t')"
proof -
  show "subscribed (standing subs (Unsubscribe t h)) t' =
     (if t' = t then filter (\<lambda>(_, h'). h' \<noteq> h) (subscribed subs t') else subscribed subs t')"
    by (induction subs) (auto simp: subscribed_def)
qed (auto simp: subscribed_def)

lemma bus_step_refines:
  assumes "\<And>t. get_handlers t b = by_priority (subscribed subs t)"
  shows "get_handlers t (bus_step b c) = by_priority (subscribed (standing subs c) t)"
  using assms
  by (cases c)
    (auto simp: get_handlers_subscribe get_handlers_unsubscribe subscribed_standing by_priority_append
      filter_by_priority simp del: standing.simps)

lemma bus_refines:
  assumes "\<And>t. get_handlers t b = by_priority (subscribed subs t)"
  shows "get_handlers t (run bus_step b cs) = by_priority (subscribed (run standing subs cs) t)"
  using assms
proof (induction cs arbitrary: b subs t)
  case (Cons c cs)
  show ?case using Cons.IH [of "bus_step b c" "standing subs c" t] bus_step_refines [OF Cons.prems] by simp
qed simp

lemma new_bus_handlers [simp]: "get_handlers t (new_bus n) = []" "by_priority [] = []"
  by (simp_all add: get_handlers_def new_bus_def dict_default_def by_priority_def)

lemma bus_is_sorted_subscriptions:
  "get_handlers t (run bus_step (new_bus n) cs) = by_priority (subscribed (run standing [] cs) t)"
  by (rule bus_refines) (simp add: subscribed_def)


subsection \<open>The guard's window\<close>

definition guard_inv :: "'k dedup_guard \<Rightarrow> bool" where
  "guard_inv g \<longleftrightarrow> 0 < dg_maxlen g \<and> length (dg_order g) \<le> dg_maxlen g \<and> distinct (dg_order g)
     \<and> dg_seen g = set (dg_order g)"

lemma guard_inv_new: "0 < n \<Longrightarrow> guard_inv (new_guard n)"
  by (simp add: guard_inv_def new_guard_def)

text \<open>Under the invariant: seen or not, and the window of the last keys added.\<close>

definition window_append :: "nat \<Rightarrow> 'k \<Rightarrow> 'k list \<Rightarrow> 'k list" where
  "window_append n k ws = (if length ws = n then tl ws else ws) @ [k]"

lemma seen_or_add_window:
  assumes "guard_inv g"
  shows "seen_or_add k g =
    (if k \<in> set (dg_order g) then Some (True, g)
     else Some (False, g\<lparr>dg_order := window_append (dg_maxlen g) k (dg_order g),
                         dg_seen := set (window_append (dg_maxlen g) k (dg_order g))\<rparr>))"
proof -
  obtain n ws ss where g: "g = \<lparr>dg_maxlen = n, dg_order = ws, dg_seen = ss\<rparr>" by (cases g)
  have inv: "0 < n" "length ws \<le> n" "distinct ws" "ss = set ws" using assms by (simp_all add: guard_inv_def g)
  show ?thesis
  proof (cases "n \<le> length ws")
    case True
    then obtain w ws' where ws: "ws = w # ws'" using inv by (cases ws) auto
    then have "Suc (length ws') = n" "set ws - {w} = set ws'" using True inv by auto
    then show ?thesis using True inv(4)
      by (simp add: seen_or_add_def g ws window_append_def deque_append_def)
  next
    case False
    then show ?thesis using inv(4)
      by (simp add: seen_or_add_def g window_append_def deque_append_def)
  qed
qed

lemma guard_inv_add:
  assumes inv: "guard_inv g" and "seen_or_add k g = Some (b, g')"
  shows "guard_inv g'"
proof (cases "k \<in> set (dg_order g)")
  case True
  then show ?thesis using assms by (simp add: seen_or_add_window)
next
  case False
  then have "g' = g\<lparr>dg_order := window_append (dg_maxlen g) k (dg_order g),
                    dg_seen := set (window_append (dg_maxlen g) k (dg_order g))\<rparr>"
    using assms by (simp add: seen_or_add_window)
  moreover have "distinct (window_append (dg_maxlen g) k (dg_order g))"
    using inv False by (cases "dg_order g") (auto simp: window_append_def guard_inv_def)
  moreover have "length (window_append (dg_maxlen g) k (dg_order g)) \<le> dg_maxlen g"
    using inv by (auto simp: window_append_def guard_inv_def)
  ultimately show ?thesis using inv by (simp add: guard_inv_def)
qed

text \<open>Two runs of one key's effect have more than \<open>maxlen\<close> others between them.\<close>

definition spaced :: "nat \<Rightarrow> 'k list \<Rightarrow> bool" where
  "spaced n ks \<longleftrightarrow> (\<forall>i j. i < j \<longrightarrow> j < length ks \<longrightarrow> ks ! i = ks ! j \<longrightarrow> n < j - i)"

lemma spaced_snoc:
  assumes "spaced n ks" and "k \<notin> set (drop (length ks - n) ks)"
  shows "spaced n (ks @ [k])"
  unfolding spaced_def
proof (intro allI impI)
  fix i j assume ij: "i < j" "j < length (ks @ [k])" "(ks @ [k]) ! i = (ks @ [k]) ! j"
  show "n < j - i"
  proof (cases "j < length ks")
    case True
    then show ?thesis using assms(1) ij by (auto simp: spaced_def nth_append)
  next
    case False
    then have j: "j = length ks" using ij by simp
    then have "ks ! i = k" "i < length ks" using ij by (auto simp: nth_append)
    have "\<not> length ks - n \<le> i"
    proof
      assume "length ks - n \<le> i"
      then have "drop (length ks - n) ks ! (i - (length ks - n)) = k"
        using \<open>ks ! i = k\<close> \<open>i < length ks\<close> by (simp add: nth_drop)
      moreover have "i - (length ks - n) < length (drop (length ks - n) ks)"
        using \<open>i < length ks\<close> \<open>length ks - n \<le> i\<close> by simp
      ultimately show False using assms(2) by (metis nth_mem)
    qed
    then show ?thesis using j by simp
  qed
qed

text \<open>The window is the last keys whose effect ran.\<close>

lemma guarded_effects_window:
  assumes "guard_inv g" and "spaced (dg_maxlen g) past" and "dg_order g = drop (length past - dg_maxlen g) past"
  shows "\<exists>es g'. guarded_effects ks g = Some (es, g') \<and> spaced (dg_maxlen g) (past @ es)
     \<and> set ks \<subseteq> set past \<union> set es \<and> set es \<subseteq> set ks"
  using assms
proof (induction ks arbitrary: g past)
  case Nil
  then show ?case by simp
next
  case (Cons k ks)
  show ?case
  proof (cases "k \<in> set (dg_order g)")
    case True
    have s: "seen_or_add k g = Some (True, g)" using True seen_or_add_window [OF Cons.prems(1)] by simp
    from Cons.IH [OF Cons.prems] obtain es g' where
      "guarded_effects ks g = Some (es, g')" "spaced (dg_maxlen g) (past @ es)" "set ks \<subseteq> set past \<union> set es" "set es \<subseteq> set ks"
      by blast
    moreover have "k \<in> set past" using True Cons.prems(3) by (metis in_set_dropD)
    ultimately show ?thesis using s by auto
  next
    case False
    let ?g = "g\<lparr>dg_order := window_append (dg_maxlen g) k (dg_order g),
               dg_seen := set (window_append (dg_maxlen g) k (dg_order g))\<rparr>"
    have s: "seen_or_add k g = Some (False, ?g)" using False seen_or_add_window [OF Cons.prems(1)] by simp
    have "guard_inv ?g" by (rule guard_inv_add [OF Cons.prems(1) s])
    moreover have "spaced (dg_maxlen ?g) (past @ [k])"
      using spaced_snoc [OF Cons.prems(2)] False Cons.prems(3) by simp
    moreover have "dg_order ?g = drop (length (past @ [k]) - dg_maxlen ?g) (past @ [k])"
    proof (cases "length past < dg_maxlen g")
      case True
      then show ?thesis using Cons.prems(3) by (simp add: window_append_def)
    next
      case False
      then have "length (dg_order g) = dg_maxlen g" using Cons.prems(3) by simp
      then show ?thesis
        using False Cons.prems(1,3) by (simp add: window_append_def tl_drop drop_Suc [symmetric] Suc_diff_le guard_inv_def)
    qed
    ultimately obtain es g' where
      "guarded_effects ks ?g = Some (es, g')" "spaced (dg_maxlen g) ((past @ [k]) @ es)"
      "set ks \<subseteq> set (past @ [k]) \<union> set es" "set es \<subseteq> set ks"
      using Cons.IH [of ?g "past @ [k]"] by auto
    then show ?thesis using s by auto
  qed
qed

lemma spaced_distinct:
  assumes "spaced n ks" and "card (set ks) \<le> n"
  shows "distinct ks"
  using assms
proof (induction ks rule: rev_induct)
  case Nil
  then show ?case by simp
next
  case (snoc k ks)
  have sp: "spaced n ks"
    unfolding spaced_def
  proof (intro allI impI)
    fix i j assume "i < j" "j < length ks" "ks ! i = ks ! j"
    then show "n < j - i" using snoc.prems(1) by (auto simp: spaced_def nth_append dest: spec [of _ i])
  qed
  moreover have "card (set ks) \<le> n"
    using snoc.prems(2) card_mono [of "set (ks @ [k])" "set ks"] by (auto intro: order_trans)
  ultimately have d: "distinct ks" using snoc.IH by blast
  have "k \<notin> set ks"
  proof
    assume k: "k \<in> set ks"
    then obtain i where i: "i < length ks" "ks ! i = k" by (auto simp: in_set_conv_nth)
    then have "n < length ks - i"
      using snoc.prems(1) unfolding spaced_def by (auto dest!: spec [of _ i] spec [of _ "length ks"] simp: nth_append)
    then have "n < length ks" by simp
    also have "length ks = card (set ks)" using d by (simp add: distinct_card)
    also have "\<dots> \<le> n" using \<open>card (set ks) \<le> n\<close> .
    finally show False by simp
  qed
  with d show ?case by simp
qed


subsection \<open>The properties\<close>

lemma deliver_log:
  assumes "\<And>h e s. served (snd (call h e s)) = served s @ [h]"
  shows "served (deliver call e hs s) = served s @ hs"
proof (induction hs arbitrary: s)
  case (Cons h hs)
  show ?case using Cons.IH assms [of h e s] by (cases "call h e s") simp
qed simp


text \<open>
  C38. A consumer behind the dedup guard runs the effect of every key it is sent, never raises, and
  runs it twice for one key only if at least \<open>maxlen\<close> other effects ran in between; a stream of at
  most \<open>maxlen\<close> different keys has each effect exactly once.
\<close>

theorem dedup_guard_window:
  assumes "0 < n"
  shows "\<exists>es g. guarded_effects ks (new_guard n) = Some (es, g) \<and> set es = set ks
    \<and> (\<forall>i j. i < j \<longrightarrow> j < length es \<longrightarrow> es ! i = es ! j \<longrightarrow> n < j - i)
    \<and> (card (set ks) \<le> n \<longrightarrow> distinct es)"
proof -
  have "spaced n []" by (simp add: spaced_def)
  from guarded_effects_window [OF guard_inv_new [OF assms], of "[]" ks] this
  obtain es g where "guarded_effects ks (new_guard n) = Some (es, g)" "spaced n es" "set es = set ks"
    by (auto simp: new_guard_def)
  with spaced_distinct [of n es] show ?thesis unfolding spaced_def by metis
qed

text \<open>
  \<open>_subscribe_order_tracker\<close> in \<open>main.py\<close> gives the order tracker priority 5 in order to run before
  the trade recorder (10) and the treasury (80).
\<close>

datatype order_handler = Tracker_handler | Recorder_handler | Treasury_handler

fun order_priority :: "order_handler \<Rightarrow> int" where
  "order_priority Tracker_handler = 5"
| "order_priority Recorder_handler = 10"
| "order_priority Treasury_handler = 80"

text \<open>
  Whatever the order of the three subscriptions, the treasury's handler runs first and the order
  tracker's runs last.
\<close>

theorem order_tracker_runs_last:
  assumes "set hs = {Tracker_handler, Recorder_handler, Treasury_handler}" and "distinct hs"
  shows "map snd (get_handlers t (run bus_step (new_bus n) (map (\<lambda>h. Subscribe t h (order_priority h)) hs))) =
    [Treasury_handler, Recorder_handler, Tracker_handler]"
proof -
  have "length hs = 3" using distinct_card [OF assms(2)] by (simp add: assms(1))
  then obtain a b c where hs: "hs = [a, b, c]" by (auto simp: numeral_3_eq_3 length_Suc_conv)
  show ?thesis
    using assms unfolding hs bus_is_sorted_subscriptions
    by (cases a; cases b; cases c; simp add: subscribed_def by_priority_def; blast?)
qed

subsection \<open>The properties on concrete values\<close>

definition sample_calls :: "(string, nat) bus_call list" where
  "sample_calls = [Subscribe ''f'' 1 10, Subscribe ''f'' 2 80, Subscribe ''f'' 3 80, Unsubscribe ''f'' 1]"

definition log_call :: "nat \<Rightarrow> string \<Rightarrow> (string, nat, string, nat list) bus_world \<Rightarrow>
    bool \<times> (string, nat, string, nat list) bus_world" where
  "log_call h e s = (h = 2, (fst s @ [h], unsubscribe ''f'' 3 (snd s)))"


theorem dedup_guard_window_witness:
  "\<exists>es g. guarded_effects [1, 2, 1, 3, 4, 1] (new_guard 2) = Some (es, g) \<and> set es = {1, 2, 3, 4::int}"
proof -
  have "0 < (2::nat)" by simp
  from dedup_guard_window [OF this, of "[1, 2, 1, 3, 4, 1 :: int]"] show ?thesis by auto
qed

theorem order_tracker_runs_last_witness:
  "map snd (get_handlers ''f'' (run bus_step (new_bus 5 :: (string, order_handler, nat) event_bus)
      (map (\<lambda>h. Subscribe ''f'' h (order_priority h)) [Tracker_handler, Recorder_handler, Treasury_handler]))) =
    [Treasury_handler, Recorder_handler, Tracker_handler]"
  by (rule order_tracker_runs_last) auto

end
