(* ===== verification/Circuit_Breaker.thy ===== *)
theory Circuit_Breaker
  imports Prelude
begin

text \<open>
  \<open>src/src/ante/broker/circuit_breaker.py\<close>: the breaker in front of the broker.

  Times are readings of \<open>time.monotonic()\<close>.  Every operation returns the events it schedules on the
  running loop; without an event bus (\<open>cb_has_bus\<close>) there are none.
\<close>

subsection \<open>The breaker\<close>

datatype circuit_state = CLOSED | OPEN | HALF_OPEN

datatype circuit_reason = Recovery_elapsed | Call_succeeded | Trial_failed | Failures_in_row nat

datatype circuit_event =
    Circuit_changed circuit_state circuit_state nat circuit_reason
  | Circuit_notified string circuit_state circuit_state circuit_reason

record breaker_config =
  cb_threshold :: int
  cb_timeout :: rat
  cb_has_bus :: bool

record breaker =
  cb_state :: circuit_state
  cb_failures :: nat
  cb_last_failure :: rat

definition new_breaker :: breaker where
  "new_breaker = \<lparr>cb_state = CLOSED, cb_failures = 0, cb_last_failure = 0\<rparr>"

text \<open>\<open>_publish_event\<close>: opening and closing are also notified.\<close>

definition circuit_events ::
  "circuit_state \<Rightarrow> circuit_state \<Rightarrow> nat \<Rightarrow> circuit_reason \<Rightarrow> circuit_event list" where
  "circuit_events old new count reason =
     Circuit_changed old new count reason #
     (case new of
        OPEN \<Rightarrow> [Circuit_notified ''error'' old new reason]
      | CLOSED \<Rightarrow> [Circuit_notified ''info'' old new reason]
      | HALF_OPEN \<Rightarrow> [])"

definition circuit_transition ::
  "breaker_config \<Rightarrow> circuit_state \<Rightarrow> circuit_reason \<Rightarrow> breaker \<Rightarrow> circuit_event list \<times> breaker" where
  "circuit_transition cfg new reason b =
     (if cb_has_bus cfg then circuit_events (cb_state b) new (cb_failures b) reason else [],
      b\<lparr>cb_state := new\<rparr>)"

text \<open>The property \<open>state\<close> moves an open breaker on once the recovery time is over.\<close>

definition circuit_look :: "breaker_config \<Rightarrow> rat \<Rightarrow> breaker \<Rightarrow> circuit_event list \<times> breaker" where
  "circuit_look cfg now b =
     (if cb_state b = OPEN \<and> cb_timeout cfg \<le> now - cb_last_failure b
      then circuit_transition cfg HALF_OPEN Recovery_elapsed b else ([], b))"

text \<open>\<open>check\<close>: the first component tells whether \<open>CircuitOpenError\<close> is raised.\<close>

definition circuit_check :: "breaker_config \<Rightarrow> rat \<Rightarrow> breaker \<Rightarrow> bool \<times> circuit_event list \<times> breaker" where
  "circuit_check cfg now b =
     (case circuit_look cfg now b of (events, b') \<Rightarrow> (cb_state b' = OPEN, events, b'))"

definition record_success :: "breaker_config \<Rightarrow> breaker \<Rightarrow> circuit_event list \<times> breaker" where
  "record_success cfg b =
     (case (if cb_state b \<noteq> CLOSED then circuit_transition cfg CLOSED Call_succeeded b else ([], b)) of
        (events, b') \<Rightarrow> (events, b'\<lparr>cb_failures := 0\<rparr>))"

definition record_failure :: "breaker_config \<Rightarrow> rat \<Rightarrow> breaker \<Rightarrow> circuit_event list \<times> breaker" where
  "record_failure cfg now b =
     (let b' = b\<lparr>cb_failures := cb_failures b + 1, cb_last_failure := now\<rparr>
      in if cb_state b' = HALF_OPEN then circuit_transition cfg OPEN Trial_failed b'
         else if cb_state b' = CLOSED \<and> cb_threshold cfg \<le> int (cb_failures b')
         then circuit_transition cfg OPEN (Failures_in_row (cb_failures b')) b'
         else ([], b'))"

lemmas circuit_defs = Let_def circuit_look_def circuit_check_def record_success_def record_failure_def
  circuit_transition_def

subsection \<open>Histories of calls\<close>

datatype circuit_call = Checked rat | Succeeded | Failed rat

fun circuit_step :: "breaker_config \<Rightarrow> breaker \<Rightarrow> circuit_call \<Rightarrow> breaker" where
  "circuit_step cfg b (Checked now) = snd (snd (circuit_check cfg now b))"
| "circuit_step cfg b Succeeded = snd (record_success cfg b)"
| "circuit_step cfg b (Failed now) = snd (record_failure cfg now b)"

fun circuit_published :: "breaker_config \<Rightarrow> breaker \<Rightarrow> circuit_call \<Rightarrow> circuit_event list" where
  "circuit_published cfg b (Checked now) = fst (snd (circuit_check cfg now b))"
| "circuit_published cfg b Succeeded = fst (record_success cfg b)"
| "circuit_published cfg b (Failed now) = fst (record_failure cfg now b)"

fun circuit_log :: "breaker_config \<Rightarrow> breaker \<Rightarrow> circuit_call list \<Rightarrow> circuit_event list" where
  "circuit_log cfg b [] = []"
| "circuit_log cfg b (c # cs) = circuit_published cfg b c @ circuit_log cfg (circuit_step cfg b c) cs"

text \<open>What the history alone says: the failures since the last success, and when the last one was.\<close>

fun streak_from :: "nat \<Rightarrow> circuit_call list \<Rightarrow> nat" where
  "streak_from n [] = n"
| "streak_from n (Checked _ # cs) = streak_from n cs"
| "streak_from n (Succeeded # cs) = streak_from 0 cs"
| "streak_from n (Failed _ # cs) = streak_from (n + 1) cs"

fun last_failed_from :: "rat \<Rightarrow> circuit_call list \<Rightarrow> rat" where
  "last_failed_from t [] = t"
| "last_failed_from t (Failed t' # cs) = last_failed_from t' cs"
| "last_failed_from t (_ # cs) = last_failed_from t cs"

fun call_times :: "circuit_call list \<Rightarrow> rat list" where
  "call_times [] = []"
| "call_times (Checked t # cs) = t # call_times cs"
| "call_times (Succeeded # cs) = call_times cs"
| "call_times (Failed t # cs) = t # call_times cs"

definition tripped :: "breaker_config \<Rightarrow> nat \<Rightarrow> bool" where
  "tripped cfg n \<longleftrightarrow> 0 < n \<and> cb_threshold cfg \<le> int n"

text \<open>The breaker at a time \<open>t\<close> not before any reading it has seen.\<close>

definition circuit_ok :: "breaker_config \<Rightarrow> rat \<Rightarrow> breaker \<Rightarrow> bool" where
  "circuit_ok cfg t b \<longleftrightarrow>
     (cb_state b = CLOSED \<longleftrightarrow> \<not> tripped cfg (cb_failures b)) \<and>
     (cb_state b = HALF_OPEN \<longrightarrow> cb_timeout cfg \<le> t - cb_last_failure b)"

lemma circuit_ok_new [simp]: "circuit_ok cfg t new_breaker"
  by (simp add: circuit_ok_def new_breaker_def tripped_def)

lemma circuit_ok_later: "circuit_ok cfg t b \<Longrightarrow> t \<le> t' \<Longrightarrow> circuit_ok cfg t' b"
  by (auto simp: circuit_ok_def)

lemma circuit_ok_step:
  assumes "circuit_ok cfg t b" and "\<forall>x\<in>set (call_times [c]). t \<le> x"
  shows "circuit_ok cfg (last (t # call_times [c])) (circuit_step cfg b c)"
  using assms
  by (cases c; cases "cb_state b") (auto simp: circuit_ok_def circuit_defs tripped_def)

lemma circuit_step_counts:
  "cb_failures (circuit_step cfg b c) = streak_from (cb_failures b) [c]"
  "cb_last_failure (circuit_step cfg b c) = last_failed_from (cb_last_failure b) [c]"
  by (cases c; auto simp: circuit_defs Let_def)+

lemma circuit_run:
  assumes "circuit_ok cfg t b" and "sorted (t # call_times cs)"
  shows "circuit_ok cfg (last (t # call_times cs)) (run (circuit_step cfg) b cs) \<and>
    cb_failures (run (circuit_step cfg) b cs) = streak_from (cb_failures b) cs \<and>
    cb_last_failure (run (circuit_step cfg) b cs) = last_failed_from (cb_last_failure b) cs"
  using assms
proof (induction cs arbitrary: b t)
  case (Cons c cs)
  have "circuit_ok cfg (last (t # call_times [c])) (circuit_step cfg b c)"
    using circuit_ok_step [OF Cons.prems(1), of c] Cons.prems(2) by (cases c) auto
  moreover have "sorted (last (t # call_times [c]) # call_times cs)"
    using Cons.prems(2) by (cases c) auto
  ultimately show ?case
    using Cons.IH [of "last (t # call_times [c])" "circuit_step cfg b c"]
    by (cases c) (auto simp: circuit_step_counts simp del: circuit_step.simps)
qed simp

lemma check_blocked:
  assumes "circuit_ok cfg now b"
  shows "fst (circuit_check cfg now b) \<longleftrightarrow>
    tripped cfg (cb_failures b) \<and> now - cb_last_failure b < cb_timeout cfg"
  using assms by (cases "cb_state b") (auto simp: circuit_ok_def circuit_defs)

subsection \<open>Calls one after another\<close>

text \<open>
  An outcome is recorded only by a call that was let through: never while the breaker is \<open>OPEN\<close>.
  (A call that is still under way when the breaker opens can break this, see below.)
\<close>

fun outcomes_admitted :: "breaker_config \<Rightarrow> breaker \<Rightarrow> circuit_call list \<Rightarrow> bool" where
  "outcomes_admitted cfg b [] = True"
| "outcomes_admitted cfg b (Checked t # cs) = outcomes_admitted cfg (circuit_step cfg b (Checked t)) cs"
| "outcomes_admitted cfg b (c # cs) = (cb_state b \<noteq> OPEN \<and> outcomes_admitted cfg (circuit_step cfg b c) cs)"

text \<open>The changes that are published, and the state diagram of the module.\<close>

fun changes :: "circuit_event list \<Rightarrow> (circuit_state \<times> circuit_state) list" where
  "changes [] = []"
| "changes (Circuit_changed old new _ _ # es) = (old, new) # changes es"
| "changes (Circuit_notified _ _ _ _ # es) = changes es"

lemma changes_append [simp]: "changes (xs @ ys) = changes xs @ changes ys"
  by (induction xs rule: changes.induct) auto

fun diagram_path :: "circuit_state \<Rightarrow> (circuit_state \<times> circuit_state) list \<Rightarrow> circuit_state \<Rightarrow> bool" where
  "diagram_path s [] s' = (s = s')"
| "diagram_path s ((a, b) # ps) s' =
     (a = s \<and> (a, b) \<in> {(CLOSED, OPEN), (OPEN, HALF_OPEN), (HALF_OPEN, CLOSED), (HALF_OPEN, OPEN)} \<and> diagram_path b ps s')"

lemma diagram_path_append: "diagram_path s ps m \<Longrightarrow> diagram_path m qs s' \<Longrightarrow> diagram_path s (ps @ qs) s'"
  by (induction s ps m rule: diagram_path.induct) auto

lemma admitted_diagram:
  "outcomes_admitted cfg b cs \<Longrightarrow> cb_has_bus cfg \<Longrightarrow>
   diagram_path (cb_state b) (changes (circuit_log cfg b cs)) (cb_state (run (circuit_step cfg) b cs))"
proof (induction cs arbitrary: b)
  case (Cons c cs)
  have "diagram_path (cb_state b) (changes (circuit_published cfg b c)) (cb_state (circuit_step cfg b c))"
    using Cons.prems by (cases c; cases "cb_state b") (auto simp: circuit_defs circuit_events_def Let_def)
  moreover have "outcomes_admitted cfg (circuit_step cfg b c) cs" using Cons.prems(1) by (cases c) auto
  ultimately show ?case using diagram_path_append Cons.IH [OF _ Cons.prems(2)] by simp
qed simp

text \<open>
  C23. With a monotone clock and outcomes recorded only by calls that were let through, a call is
  refused exactly when the failures since the last success have reached the threshold and the last
  of them is less than the recovery time ago, whatever was checked in between; and the published
  changes are a path of the state diagram from closed to the present state: closed to open, open to
  half open, half open to closed or open.
\<close>

theorem breaker_blocks_exactly:
  assumes "sorted (call_times (cs @ [Checked now]))" and "outcomes_admitted cfg new_breaker cs"
  shows "(fst (circuit_check cfg now (run (circuit_step cfg) new_breaker cs)) \<longleftrightarrow>
      0 < streak_from 0 cs \<and> cb_threshold cfg \<le> int (streak_from 0 cs) \<and>
      now - last_failed_from 0 cs < cb_timeout cfg)
    \<and> (cb_has_bus cfg \<longrightarrow>
        diagram_path CLOSED (changes (circuit_log cfg new_breaker cs)) (cb_state (run (circuit_step cfg) new_breaker cs)))"
proof -
  have app: "call_times (cs @ [Checked now]) = call_times cs @ [now]"
    by (induction cs rule: call_times.induct) auto
  define t where "t = hd (call_times cs @ [now])"
  have srt: "sorted (t # call_times cs)" and le: "last (t # call_times cs) \<le> now"
    using assms(1) unfolding app t_def by (cases "call_times cs"; auto simp: sorted_append)+
  note r = circuit_run [OF circuit_ok_new [of cfg t] srt]
  have "circuit_ok cfg now (run (circuit_step cfg) new_breaker cs)"
    using r circuit_ok_later le by blast
  from check_blocked [OF this] r admitted_diagram [OF assms(2)] show ?thesis
    by (simp add: tripped_def new_breaker_def)
qed

text \<open>Witness: two failures block until 60 seconds after the last one; then one trial is let through.\<close>

theorem breaker_blocks_exactly_witness:
  "fst (circuit_check \<lparr>cb_threshold = 2, cb_timeout = 60, cb_has_bus = True\<rparr> 100
     (run (circuit_step \<lparr>cb_threshold = 2, cb_timeout = 60, cb_has_bus = True\<rparr>) new_breaker
       [Failed 1, Checked 2, Failed 3, Checked 63, Failed 64]))
   \<and> changes (circuit_log \<lparr>cb_threshold = 2, cb_timeout = 60, cb_has_bus = True\<rparr> new_breaker
       [Failed 1, Checked 2, Failed 3, Checked 63, Failed 64]) = [(CLOSED, OPEN), (OPEN, HALF_OPEN), (HALF_OPEN, OPEN)]"
proof -
  have s: "sorted (call_times ([Failed 1, Checked 2, Failed 3, Checked 63, Failed 64] @ [Checked 100]))" by simp
  have a: "outcomes_admitted \<lparr>cb_threshold = 2, cb_timeout = 60, cb_has_bus = True\<rparr> new_breaker
      [Failed 1, Checked 2, Failed 3, Checked 63, Failed 64]" by code_simp
  have c: "changes (circuit_log \<lparr>cb_threshold = 2, cb_timeout = 60, cb_has_bus = True\<rparr> new_breaker
      [Failed 1, Checked 2, Failed 3, Checked 63, Failed 64]) = [(CLOSED, OPEN), (OPEN, HALF_OPEN), (HALF_OPEN, OPEN)]"
    by code_simp
  show ?thesis using conjunct1 [OF breaker_blocks_exactly [OF s a]] c by simp
qed

subsection \<open>What is published\<close>

text \<open>A path: every change starts where the one before ended, and is a change.\<close>

fun path :: "circuit_state \<Rightarrow> (circuit_state \<times> circuit_state) list \<Rightarrow> circuit_state \<Rightarrow> bool" where
  "path s [] s' = (s = s')"
| "path s ((a, b) # ps) s' = (a = s \<and> b \<noteq> s \<and> (a, b) \<noteq> (CLOSED, HALF_OPEN) \<and> path b ps s')"

lemma path_append: "path s ps m \<Longrightarrow> path m qs s' \<Longrightarrow> path s (ps @ qs) s'"
  by (induction s ps m rule: path.induct) auto

lemma published_path:
  "cb_has_bus cfg \<Longrightarrow>
   path (cb_state b) (changes (circuit_published cfg b c)) (cb_state (circuit_step cfg b c))"
  by (cases c; cases "cb_state b") (auto simp: circuit_defs circuit_events_def Let_def)

theorem published_changes_are_path:
  "cb_has_bus cfg \<Longrightarrow>
   path (cb_state b) (changes (circuit_log cfg b cs)) (cb_state (run (circuit_step cfg) b cs))"
proof (induction cs arbitrary: b)
  case (Cons c cs)
  then show ?case using path_append [OF published_path] by simp
qed simp

text \<open>
  The state diagram of the module leaves \<open>OPEN\<close> only by the recovery time; a call that was already
  under way when the breaker opened closes it at once when it succeeds.
\<close>

theorem late_success_closes_open_breaker:
  "cb_state (run (circuit_step cfg) b [Failed t, Succeeded]) = CLOSED"
  by (cases "cb_state b") (auto simp: circuit_defs Let_def)

end
