(* ===== verification/Kis_Requests.thy ===== *)
theory Kis_Requests
  imports Circuit_Breaker Python_Values
begin

text \<open>
  The request layer of \<open>src/src/ante/broker/kis.py\<close> with its error tables
  (\<open>error_codes.py\<close>, \<open>exceptions.py\<close>): classification of errors and answers, OAuth tokens with the
  cache and cooldowns shared by all adapters of the process, the rate limit, and the retry loop
  behind the circuit breaker.

  The server is a parameter: what each HTTP call raises or answers.  Texts of messages are left out.
  Wall-clock times (\<open>datetime.now(UTC)\<close>) and monotonic times are seconds; a phase reads its clock
  once.  Response fields the code tests are strings, as the service documents them; an absent field
  is the default the code gives it.
\<close>

subsection \<open>Errors\<close>

datatype broker_error =
    Circuit_open_error
  | Authentication_error string
  | Token_rate_limit_error "rat option"
  | Timeout_error
  | Network_error
  | Rate_limit_error
  | Api_error string int bool
  | Order_not_found_error
  | Modify_orgno_unavailable_error
  | Unknown_error

definition permanent_msg_codes :: "string list" where
  "permanent_msg_codes =
     [''APBK0013'', ''APBK0014'', ''APBK0919'', ''APBK0920'', ''APBK0921'', ''APBK1000'',
      ''APBK1001'', ''APBK1002'', ''APBK1003'', ''APBK0501'', ''APBK0502'', ''APBK0503'',
      ''40580000'', ''40570000'', ''40240000'', ''40910000'', ''IGW00022'']"

definition transient_msg_codes :: "string list" where
  "transient_msg_codes = [''APBK0600'', ''APBK0601'', ''APBK0602'', ''EGW00201'']"

definition token_rate_limit_msg_code :: string where
  "token_rate_limit_msg_code = ''EGW00133''"

definition retryable_http_status_codes :: "int list" where
  "retryable_http_status_codes = [500, 502, 503, 429]"

definition is_retryable_msg_code :: "string \<Rightarrow> bool" where
  "is_retryable_msg_code msg_cd =
     (if msg_cd = token_rate_limit_msg_code then False
      else if msg_cd \<in> set permanent_msg_codes then False
      else if msg_cd \<in> set transient_msg_codes then True
      else True)"

definition is_retryable_http_status :: "int \<Rightarrow> bool" where
  "is_retryable_http_status status_code \<longleftrightarrow> status_code \<in> set retryable_http_status_codes"

text \<open>\<open>KISErrorClassifier.classify\<close>: is it retried, does the breaker count it.\<close>

fun classify :: "broker_error \<Rightarrow> bool \<times> bool" where
  "classify Timeout_error = (True, True)"
| "classify Network_error = (True, True)"
| "classify Rate_limit_error = (True, True)"
| "classify (Api_error _ _ retryable) = (if \<not> retryable then (False, False) else (True, True))"
| "classify _ = (False, False)"

fun to_api_error :: "broker_error \<Rightarrow> broker_error" where
  "to_api_error Timeout_error = Api_error '''' 0 True"
| "to_api_error Network_error = Api_error '''' 0 True"
| "to_api_error e = e"

subsection \<open>Answers\<close>

text \<open>The parts of a JSON answer the layer reads; \<open>kp_data\<close> is the rest, for the caller.\<close>

record 'd kis_payload =
  kp_rt_cd :: string
  kp_msg_cd :: string
  kp_fk100 :: string
  kp_nk100 :: string
  kp_data :: 'd

datatype 'd kis_body = No_json | Json_other | Payload "'d kis_payload"

datatype 'd http_outcome =
    Http_raises broker_error
  | Http_reply int "'d kis_body" string

definition handle_response :: "int \<Rightarrow> 'd kis_body \<Rightarrow> broker_error + 'd kis_payload" where
  "handle_response status body =
     (if status \<noteq> 200 then
        let retryable = is_retryable_http_status status;
            msg_cd = (case body of
                        Payload p \<Rightarrow> if kp_rt_cd p \<notin> set ['''', ''0''] then kp_msg_cd p else ''''
                      | _ \<Rightarrow> '''')
        in if msg_cd \<noteq> '''' then
             Inl (Api_error msg_cd status
               (if msg_cd \<in> set permanent_msg_codes then False
                else if \<not> is_retryable_http_status status then False
                else if msg_cd \<in> set transient_msg_codes then True
                else retryable))
           else Inl (Api_error '''' status retryable)
      else
        case body of
          Payload p \<Rightarrow>
            if kp_rt_cd p \<noteq> ''0''
            then Inl (Api_error (kp_msg_cd p) 0 (is_retryable_msg_code (kp_msg_cd p)))
            else Inr p
        | _ \<Rightarrow> Inl Unknown_error)"

fun send_http :: "'d http_outcome \<Rightarrow> broker_error + ('d kis_payload \<times> string)" where
  "send_http (Http_raises e) = Inl e"
| "send_http (Http_reply status body tr_cont) =
     (case handle_response status body of Inl e \<Rightarrow> Inl e | Inr p \<Rightarrow> Inr (p, tr_cont))"

subsection \<open>Tokens\<close>

type_synonym token_key = "string \<times> string \<times> string"

record token_store =
  tk_cache :: "(token_key, string \<times> rat) dict"
  tk_cooldowns :: "(string, rat) dict"

record kis_adapter =
  ka_app_key :: string
  ka_app_secret :: string
  ka_is_paper :: bool
  ka_access_token :: "string option"
  ka_token_expires_at :: "rat option"
  ka_request_times :: "rat list"
  ka_breaker :: breaker

definition token_rate_limit_cooldown_seconds :: rat where
  "token_rate_limit_cooldown_seconds = 60"

definition token_expiry_margin :: rat where
  "token_expiry_margin = 5 * 60"

definition token_cache_key :: "kis_adapter \<Rightarrow> token_key" where
  "token_cache_key a = (ka_app_key a, ka_app_secret a, if ka_is_paper a then ''paper'' else ''live'')"

definition token_cooldown_until :: "rat \<Rightarrow> string \<Rightarrow> token_store \<Rightarrow> rat option" where
  "token_cooldown_until now app_key tk =
     (case dict_get (tk_cooldowns tk) app_key of
        None \<Rightarrow> None
      | Some until \<Rightarrow> if until \<le> now then None else Some until)"

definition is_cached_token_fresh :: "rat \<Rightarrow> rat \<Rightarrow> bool" where
  "is_cached_token_fresh expires_at now \<longleftrightarrow> now < expires_at - token_expiry_margin"

text \<open>\<open>_hydrate_from_cache\<close>: the adapter with the shared token, if that is fresh.\<close>

definition hydrate_from_cache :: "rat \<Rightarrow> token_store \<Rightarrow> kis_adapter \<Rightarrow> kis_adapter option" where
  "hydrate_from_cache now tk a =
     (case dict_get (tk_cache tk) (token_cache_key a) of
        None \<Rightarrow> None
      | Some (token, expires_at) \<Rightarrow>
          if \<not> is_cached_token_fresh expires_at now then None
          else Some (a\<lparr>ka_access_token := Some token, ka_token_expires_at := Some expires_at\<rparr>))"

datatype token_reply = Token_issued string | Token_refused string | Token_raises broker_error

text \<open>\<open>_issue_token\<close> with \<open>_raise_token_error\<close>; \<open>now\<close> is read after the answer.\<close>

definition issue_token ::
  "rat \<Rightarrow> token_reply \<Rightarrow> string \<Rightarrow> token_store \<Rightarrow> (broker_error + (string \<times> rat)) \<times> token_store" where
  "issue_token now reply app_key tk =
     (case reply of
        Token_raises e \<Rightarrow> (Inl e, tk)
      | Token_refused code \<Rightarrow>
          if code = token_rate_limit_msg_code
          then let until = now + token_rate_limit_cooldown_seconds
               in (Inl (Token_rate_limit_error (Some until)),
                   tk\<lparr>tk_cooldowns := dict_set app_key until (tk_cooldowns tk)\<rparr>)
          else (Inl (Authentication_error code), tk)
      | Token_issued token \<Rightarrow> (Inr (token, now + 24 * 3600), tk))"

text \<open>
  \<open>_authenticate\<close>: before the lock of the app key, and with the lock held (\<open>tk\<close> is then what other
  adapters left).  The boolean tells whether the token endpoint was called.
\<close>

definition authenticate_fast :: "rat \<Rightarrow> token_store \<Rightarrow> kis_adapter \<Rightarrow> (broker_error option \<times> kis_adapter) option" where
  "authenticate_fast now tk a =
     (case hydrate_from_cache now tk a of
        Some a' \<Rightarrow> Some (None, a')
      | None \<Rightarrow>
          (case token_cooldown_until now (ka_app_key a) tk of
             Some until \<Rightarrow> Some (Some (Token_rate_limit_error (Some until)), a)
           | None \<Rightarrow> None))"

definition authenticate_locked ::
  "rat \<Rightarrow> rat \<Rightarrow> token_reply \<Rightarrow> token_store \<Rightarrow> kis_adapter \<Rightarrow> bool \<times> broker_error option \<times> token_store \<times> kis_adapter"
where
  "authenticate_locked now answered reply tk a =
     (case authenticate_fast now tk a of
        Some (e, a') \<Rightarrow> (False, e, tk, a')
      | None \<Rightarrow>
          (case issue_token answered reply (ka_app_key a) tk of
             (Inl e, tk') \<Rightarrow> (True, Some e, tk', a)
           | (Inr (token, expires_at), tk') \<Rightarrow>
               (True, None,
                tk'\<lparr>tk_cache := dict_set (token_cache_key a) (token, expires_at) (tk_cache tk')\<rparr>,
                a\<lparr>ka_access_token := Some token, ka_token_expires_at := Some expires_at\<rparr>)))"

record auth_env =
  au_start :: rat
  au_locked :: rat
  au_answered :: rat
  au_others :: "token_store \<Rightarrow> token_store"
  au_reply :: token_reply

definition authenticate ::
  "auth_env \<Rightarrow> token_store \<Rightarrow> kis_adapter \<Rightarrow> bool \<times> broker_error option \<times> token_store \<times> kis_adapter" where
  "authenticate env tk a =
     (case authenticate_fast (au_start env) tk a of
        Some (e, a') \<Rightarrow> (False, e, tk, a')
      | None \<Rightarrow>
          authenticate_locked (au_locked env) (au_answered env) (au_reply env) (au_others env tk) a)"

definition ensure_authenticated ::
  "auth_env \<Rightarrow> token_store \<Rightarrow> kis_adapter \<Rightarrow> bool \<times> broker_error option \<times> token_store \<times> kis_adapter" where
  "ensure_authenticated env tk a =
     (case (ka_access_token a, ka_token_expires_at a) of
        (Some token, Some expires_at) \<Rightarrow>
          if token = '''' \<or> expires_at - token_expiry_margin \<le> au_start env then authenticate env tk a
          else (False, None, tk, a)
      | _ \<Rightarrow> authenticate env tk a)"

subsection \<open>Rate limit\<close>

definition rate_limit_per_minute :: "kis_adapter \<Rightarrow> nat" where
  "rate_limit_per_minute a = (if ka_is_paper a then 5 else 20)"

text \<open>\<open>_rate_limit_wait\<close>: the sleep, if any, and the recorded times; \<open>now\<close> is read before the sleep.\<close>

definition rate_limit_wait :: "rat \<Rightarrow> kis_adapter \<Rightarrow> rat option \<times> kis_adapter" where
  "rate_limit_wait now a =
     (let times = filter (\<lambda>t. now - 60 < t) (ka_request_times a);
          wait = (if rate_limit_per_minute a \<le> length times
                  then let seconds = 60 - (now - Min (set times))
                       in if 0 < seconds then Some seconds else None
                  else None)
      in (wait, a\<lparr>ka_request_times := times @ [now]\<rparr>))"

subsection \<open>The retry loop\<close>

definition order_tr_ids :: "string list" where
  "order_tr_ids =
     [''VTTC0012U'', ''TTTC0012U'', ''VTTC0011U'', ''TTTC0011U'', ''VTTC0013U'', ''TTTC0013U'']"

record kis_config =
  kc_retries_order :: int
  kc_retries_query :: int
  kc_backoff_base :: rat
  kc_breaker :: breaker_config

definition get_max_retries :: "kis_config \<Rightarrow> string \<Rightarrow> int" where
  "get_max_retries cfg tr_id =
     (if tr_id \<in> set order_tr_ids then kc_retries_order cfg else kc_retries_query cfg)"

definition retry_delay :: "kis_config \<Rightarrow> nat \<Rightarrow> rat" where
  "retry_delay cfg attempt = kc_backoff_base cfg * 2 ^ attempt"

definition should_retry :: "nat \<Rightarrow> int \<Rightarrow> bool" where
  "should_retry attempt max_retries \<longleftrightarrow> int attempt < max_retries"

text \<open>What a request leaves besides its result: the breaker, the attempts sent, the back-off waits.\<close>

record request_trace =
  rq_breaker :: breaker
  rq_sent :: "nat list"
  rq_waits :: "rat list"
  rq_events :: "circuit_event list"

text \<open>
  The loop over \<open>range(max_retries + 1)\<close>; \<open>http n\<close> is the outcome of attempt \<open>n\<close> and \<open>clock n\<close> the
  monotonic time at which its failure is recorded.  An empty range raises \<open>None\<close>, a \<open>TypeError\<close>.
\<close>

fun request_attempts ::
  "kis_config \<Rightarrow> bool \<Rightarrow> int \<Rightarrow> (nat \<Rightarrow> 'd http_outcome) \<Rightarrow> (nat \<Rightarrow> rat) \<Rightarrow> nat list \<Rightarrow> broker_error option \<Rightarrow>
     request_trace \<Rightarrow> (broker_error + ('d kis_payload \<times> string)) \<times> request_trace" where
  "request_attempts cfg exempt max_retries http clock [] last_error q =
     (Inl (case last_error of Some e \<Rightarrow> e | None \<Rightarrow> Unknown_error), q)"
| "request_attempts cfg exempt max_retries http clock (n # ns) last_error q =
     (let q0 = q\<lparr>rq_sent := rq_sent q @ [n]\<rparr>
      in case send_http (http n) of
           Inr result \<Rightarrow>
             (case record_success (kc_breaker cfg) (rq_breaker q0) of
                (events, b) \<Rightarrow> (Inr result, q0\<lparr>rq_breaker := b, rq_events := rq_events q0 @ events\<rparr>))
         | Inl e \<Rightarrow>
             if \<not> fst (classify e) then (Inl e, q0)
             else
               let q1 = (if snd (classify e) \<and> \<not> (exempt \<and> e = Timeout_error)
                         then case record_failure (kc_breaker cfg) (clock n) (rq_breaker q0) of
                                (events, b) \<Rightarrow> q0\<lparr>rq_breaker := b, rq_events := rq_events q0 @ events\<rparr>
                         else q0);
                   q2 = (if should_retry n max_retries
                         then q1\<lparr>rq_waits := rq_waits q1 @ [retry_delay cfg n]\<rparr> else q1)
               in request_attempts cfg exempt max_retries http clock ns (Some (to_api_error e)) q2)"

record 'd request_env =
  re_check_at :: rat
  re_auth :: auth_env
  re_rate_now :: rat
  re_http :: "nat \<Rightarrow> 'd http_outcome"
  re_clock :: "nat \<Rightarrow> rat"

record request_report =
  rp_result_sent :: "nat list"
  rp_waits :: "rat list"
  rp_token_calls :: nat
  rp_rate_wait :: "rat option"
  rp_events :: "circuit_event list"

type_synonym kis_world = "token_store \<times> kis_adapter"

text \<open>\<open>_request_with_cont\<close>: breaker, token, rate limit, then the attempts.\<close>

definition request_with_cont ::
  "kis_config \<Rightarrow> bool \<Rightarrow> string \<Rightarrow> 'd request_env \<Rightarrow> kis_world \<Rightarrow>
     (broker_error + ('d kis_payload \<times> string)) \<times> request_report \<times> kis_world" where
  "request_with_cont cfg exempt tr_id env w =
     (let (tk, a) = w;
          (blocked, events, b) = circuit_check (kc_breaker cfg) (re_check_at env) (ka_breaker a);
          a1 = a\<lparr>ka_breaker := b\<rparr>
      in if blocked
         then (Inl Circuit_open_error,
               \<lparr>rp_result_sent = [], rp_waits = [], rp_token_calls = 0, rp_rate_wait = None,
                rp_events = events\<rparr>, (tk, a1))
         else
           let (asked, failure, tk2, a2) = ensure_authenticated (re_auth env) tk a1;
               calls = (if asked then 1 else 0)
           in case failure of
                Some e \<Rightarrow>
                  (Inl e, \<lparr>rp_result_sent = [], rp_waits = [], rp_token_calls = calls,
                           rp_rate_wait = None, rp_events = events\<rparr>, (tk2, a2))
              | None \<Rightarrow>
                  let (wait, a3) = rate_limit_wait (re_rate_now env) a2;
                      max_retries = get_max_retries cfg tr_id;
                      (result, q) = request_attempts cfg exempt max_retries (re_http env) (re_clock env)
                        [0..<nat (max_retries + 1)] None
                        \<lparr>rq_breaker = ka_breaker a3, rq_sent = [], rq_waits = [], rq_events = events\<rparr>
                  in (result,
                      \<lparr>rp_result_sent = rq_sent q, rp_waits = rq_waits q, rp_token_calls = calls,
                       rp_rate_wait = wait, rp_events = rq_events q\<rparr>,
                      (tk2, a3\<lparr>ka_breaker := rq_breaker q\<rparr>)))"

end
