(* ===== verification/Kis_Adapter.thy ===== *)
theory Kis_Adapter
  imports Kis_Requests
begin

text \<open>
  The domestic adapter of \<open>src/src/ante/broker/kis.py\<close> on top of the request layer: continued queries
  page by page, the order history folded per order and day, and order submission, cancellation and
  price change with the cache of exchange routing numbers they share.

  Numbers of a row are the rationals its texts denote (\<open>float(x or 0)\<close>); a text that is no number
  raises in the code and is outside the model.  Dates are \<open>YYYYMMDD\<close> texts.
\<close>

subsection \<open>Continued queries\<close>

definition tr_cont_has_next :: "string list" where
  "tr_cont_has_next = [''F'', ''M'']"

definition max_pagination_pages :: nat where
  "max_pagination_pages = 100"

text \<open>
  \<open>_request_paginated\<close>: \<open>ask cursor header\<close> is one request of the layer, \<open>rows\<close> what was collected.
  The cursor is the pair of \<open>CTX_AREA\<close> parameters.
\<close>

fun paginate_from ::
  "(string \<times> string \<Rightarrow> string \<Rightarrow> 'w \<Rightarrow> ('e + ('r list kis_payload \<times> string)) \<times> 'w) \<Rightarrow> nat \<Rightarrow>
     string \<times> string \<Rightarrow> string \<Rightarrow> 'r list \<Rightarrow> 'w \<Rightarrow> ('e + 'r list) \<times> 'w" where
  "paginate_from ask 0 cursor cont_header rows w = (Inr rows, w)"
| "paginate_from ask (Suc pages) cursor cont_header rows w =
     (case ask cursor cont_header w of
        (Inl e, w') \<Rightarrow> (Inl e, w')
      | (Inr (body, tr_cont), w') \<Rightarrow>
          let rows' = rows @ kp_data body;
              next_fk = strip (kp_fk100 body);
              next_nk = strip (kp_nk100 body)
          in if tr_cont \<notin> set tr_cont_has_next then (Inr rows', w')
             else if next_fk = '''' \<and> next_nk = '''' then (Inr rows', w')
             else paginate_from ask pages (next_fk, next_nk) ''N'' rows' w')"

definition request_paginated ::
  "(string \<times> string \<Rightarrow> string \<Rightarrow> 'w \<Rightarrow> ('e + ('r list kis_payload \<times> string)) \<times> 'w) \<Rightarrow> 'w \<Rightarrow>
     ('e + 'r list) \<times> 'w" where
  "request_paginated ask w = paginate_from ask max_pagination_pages ('''', '''') '''' [] w"

subsection \<open>Order history\<close>

record ccld_row =
  cr_odno :: string
  cr_ord_dt :: string
  cr_pdno :: string
  cr_sll_buy_dvsn_cd :: string
  cr_ord_qty :: rat
  cr_tot_ccld_qty :: rat
  cr_tot_ccld_amt :: rat
  cr_avg_prvs :: rat
  cr_ord_unpr :: rat

record history_item =
  hi_order_id :: string
  hi_symbol :: string
  hi_side :: string
  hi_quantity :: rat
  hi_filled_quantity :: rat
  hi_price :: rat
  hi_status :: string
  hi_timestamp :: string

definition fill_price_of :: "ccld_row \<Rightarrow> rat" where
  "fill_price_of r =
     (if 0 < cr_tot_ccld_qty r \<and> 0 < cr_tot_ccld_amt r then cr_tot_ccld_amt r / cr_tot_ccld_qty r
      else if 0 < cr_avg_prvs r then cr_avg_prvs r
      else cr_ord_unpr r)"

definition history_item_of :: "ccld_row \<Rightarrow> history_item" where
  "history_item_of r =
     \<lparr>hi_order_id = cr_odno r, hi_symbol = cr_pdno r,
      hi_side = (if cr_sll_buy_dvsn_cd r = ''02'' then ''buy'' else ''sell''),
      hi_quantity = cr_ord_qty r, hi_filled_quantity = cr_tot_ccld_qty r, hi_price = fill_price_of r,
      hi_status = (if 0 < cr_tot_ccld_qty r then ''filled'' else ''pending''),
      hi_timestamp = cr_ord_dt r\<rparr>"

definition fold_row ::
  "ccld_row \<Rightarrow> (string \<times> string, history_item) dict \<Rightarrow> (string \<times> string, history_item) dict" where
  "fold_row r folded =
     (if cr_odno r = '''' then folded
      else
        let key = (cr_odno r, cr_ord_dt r)
        in case dict_get folded key of
             None \<Rightarrow> dict_set key (history_item_of r) folded
           | Some existing \<Rightarrow>
               if hi_filled_quantity existing \<le> cr_tot_ccld_qty r
               then dict_set key (history_item_of r) folded else folded)"

definition fold_order_history :: "ccld_row list \<Rightarrow> history_item list" where
  "fold_order_history rows = dict_values (fold fold_row rows [])"

text \<open>The three-month boundary: the same day three months earlier, or the last day of that month.\<close>

definition is_leap_year :: "int \<Rightarrow> bool" where
  "is_leap_year y \<longleftrightarrow> y mod 4 = 0 \<and> (y mod 100 \<noteq> 0 \<or> y mod 400 = 0)"

definition days_in_month :: "int \<Rightarrow> int \<Rightarrow> int" where
  "days_in_month y m =
     (if m = 2 then (if is_leap_year y then 29 else 28)
      else if m \<in> set [4, 6, 9, 11] then 30 else 31)"

definition ccld_three_month_cutoff :: "int \<times> int \<times> int \<Rightarrow> int \<times> int \<times> int" where
  "ccld_three_month_cutoff today =
     (let (year, month, day) = today;
          months = (year * 12 + (month - 1)) - 3;
          target_year = months div 12;
          target_month = months mod 12 + 1;
          last_day = days_in_month target_year target_month
      in (target_year, target_month, min day last_day))"

subsection \<open>Orders\<close>

text \<open>\<open>int(x)\<close> truncates towards zero.\<close>

definition py_int :: "rat \<Rightarrow> int" where
  "py_int x = (if 0 \<le> x then \<lfloor>x\<rfloor> else \<lceil>x\<rceil>)"

definition map_order_type :: "string \<Rightarrow> string" where
  "map_order_type order_type =
     dict_default ''01''
       [(''market'', ''01''), (''limit'', ''00''), (''conditional'', ''02''), (''best'', ''03''),
        (''priority'', ''04'')] order_type"

text \<open>\<open>zfill(6)\<close> for a symbol of decimal digits.\<close>

definition normalize_symbol :: "string \<Rightarrow> string" where
  "normalize_symbol symbol =
     (if symbol \<noteq> '''' \<and> list_all is_digit_char symbol
      then replicate (6 - length symbol) (CHR ''0'') @ symbol else symbol)"

record order_body =
  ob_pdno :: string
  ob_ord_dvsn :: string
  ob_ord_qty :: int
  ob_ord_unpr :: int

definition build_order_data :: "string \<Rightarrow> rat \<Rightarrow> string \<Rightarrow> rat option \<Rightarrow> order_body" where
  "build_order_data symbol quantity order_type price =
     \<lparr>ob_pdno = normalize_symbol symbol, ob_ord_dvsn = map_order_type order_type,
      ob_ord_qty = py_int quantity,
      ob_ord_unpr = (case price of Some p \<Rightarrow> if order_type = ''limit'' then py_int p else 0 | None \<Rightarrow> 0)\<rparr>"

text \<open>
  The routing numbers: order id to (number, business day), in insertion order.  \<open>move_to_end\<close> after
  an assignment and \<open>popitem(last=False)\<close> while the cache is too long.
\<close>

type_synonym orgno_cache = "(string, string \<times> string) dict"

definition orgno_cache_maxlen :: nat where
  "orgno_cache_maxlen = 1024"

definition cache_krx_fwdg_orgno :: "string \<Rightarrow> string option \<Rightarrow> string \<Rightarrow> orgno_cache \<Rightarrow> orgno_cache" where
  "cache_krx_fwdg_orgno broker_order_id orgno today cache =
     (case orgno of
        None \<Rightarrow> cache
      | Some n \<Rightarrow>
          if n = '''' then cache
          else
            let cache' = dict_pop broker_order_id cache @ [(broker_order_id, (n, today))]
            in drop (length cache' - orgno_cache_maxlen) cache')"

text \<open>The number that may be sent for an order today.\<close>

definition orgno_today :: "string \<Rightarrow> string \<Rightarrow> orgno_cache \<Rightarrow> string option" where
  "orgno_today order_id today cache =
     (case dict_get cache order_id of
        Some (n, date) \<Rightarrow> if date = today then Some n else None
      | None \<Rightarrow> None)"

datatype kis_call =
    Order_cash string order_body
  | Cancel_order string "string option"
  | Modify_order string string string int int

datatype place_error = Value_error | Broker_error broker_error

text \<open>The answer to an accepted submission: \<open>output\<close> with \<open>ODNO\<close> (\<^theory_text>\<open>None\<close>: a key is missing) and the number.\<close>

type_synonym placed = "(string \<times> string option) option"

text \<open>
  \<open>place_order\<close>: \<open>request call w\<close> is \<open>_request\<close>; the transaction id decides the side.  The world \<open>w\<close>
  is what the request layer and the server change.
\<close>

definition order_tr_id :: "bool \<Rightarrow> string \<Rightarrow> string" where
  "order_tr_id is_paper side =
     (if side = ''buy'' then (if is_paper then ''VTTC0012U'' else ''TTTC0012U'')
      else (if is_paper then ''VTTC0011U'' else ''TTTC0011U''))"

definition kis_place_order ::
  "(kis_call \<Rightarrow> 'w \<Rightarrow> (broker_error + placed) \<times> 'w) \<Rightarrow> bool \<Rightarrow> string \<Rightarrow> string \<Rightarrow> string \<Rightarrow> rat \<Rightarrow> string \<Rightarrow>
     rat option \<Rightarrow> orgno_cache \<times> 'w \<Rightarrow> (place_error + string) \<times> orgno_cache \<times> 'w" where
  "kis_place_order request is_paper today symbol side quantity order_type price s =
     (let (cache, w) = s
      in if order_type \<in> set [''stop'', ''stop_limit''] then (Inl Value_error, cache, w)
         else
           case request (Order_cash (order_tr_id is_paper side)
                           (build_order_data symbol quantity order_type price)) w of
             (Inl e, w') \<Rightarrow> (Inl (Broker_error e), cache, w')
           | (Inr None, w') \<Rightarrow> (Inl (Broker_error Unknown_error), cache, w')
           | (Inr (Some (odno, orgno)), w') \<Rightarrow> (Inr odno, cache_krx_fwdg_orgno odno orgno today cache, w'))"

definition kis_cancel_order ::
  "(kis_call \<Rightarrow> 'w \<Rightarrow> (broker_error + placed) \<times> 'w) \<Rightarrow> string \<Rightarrow> string \<Rightarrow> orgno_cache \<times> 'w \<Rightarrow>
     (broker_error + bool) \<times> orgno_cache \<times> 'w" where
  "kis_cancel_order request today order_id s =
     (case request (Cancel_order order_id (orgno_today order_id today (fst s))) (snd s) of
        (Inl e, w') \<Rightarrow> (Inl e, fst s, w')
      | (Inr _, w') \<Rightarrow> (Inr True, fst s, w'))"

definition kis_modify_order ::
  "(kis_call \<Rightarrow> 'w \<Rightarrow> (broker_error + placed) \<times> 'w) \<Rightarrow> string \<Rightarrow> string \<Rightarrow> rat option \<Rightarrow> rat option \<Rightarrow> string \<Rightarrow>
     orgno_cache \<times> 'w \<Rightarrow> (broker_error + bool) \<times> orgno_cache \<times> 'w" where
  "kis_modify_order request today order_id quantity price order_type s =
     (case orgno_today order_id today (fst s) of
        None \<Rightarrow> (Inl Modify_orgno_unavailable_error, s)
      | Some n \<Rightarrow>
          (case request (Modify_order order_id n (map_order_type order_type)
                           (py_int (case quantity of None \<Rightarrow> 0 | Some q \<Rightarrow> q))
                           (py_int (case price of None \<Rightarrow> 0 | Some p \<Rightarrow> p))) (snd s) of
             (Inl e, w') \<Rightarrow> (Inl e, fst s, w')
           | (Inr _, w') \<Rightarrow> (Inr True, fst s, w')))"

end
