(* ===== verification/Kis_Properties.thy ===== *)
theory Kis_Properties
  imports Kis_Adapter
begin

text \<open>
  What the broker's request layer promises its callers: bounded retries, a spaced token endpoint,
  complete pages, a history without duplicates and price changes with a captured routing number.
\<close>

subsection \<open>Retries\<close>

definition retried :: "'d http_outcome \<Rightarrow> bool" where
  "retried x = (case send_http x of Inl e \<Rightarrow> fst (classify e) | Inr _ \<Rightarrow> False)"

definition wrapped_error :: "'d http_outcome \<Rightarrow> broker_error" where
  "wrapped_error x = (case send_http x of Inl e \<Rightarrow> to_api_error e | Inr _ \<Rightarrow> Unknown_error)"

text \<open>The number of attempts that are retried before the first decisive one.\<close>

definition retries_before :: "(nat \<Rightarrow> 'd http_outcome) \<Rightarrow> nat list \<Rightarrow> nat" where
  "retries_before http ns = length (takeWhile (\<lambda>n. retried (http n)) ns)"

lemma retries_before_simps [simp]:
  "retries_before http [] = 0"
  "retries_before http (n # ns) = (if retried (http n) then Suc (retries_before http ns) else 0)"
  by (simp_all add: retries_before_def)

lemma retries_before_le: "retries_before http ns \<le> length ns"
  by (simp add: retries_before_def length_takeWhile_le)

definition last_failure_of :: "(nat \<Rightarrow> 'd http_outcome) \<Rightarrow> broker_error option \<Rightarrow> nat list \<Rightarrow> broker_error" where
  "last_failure_of http err ns =
     (if ns = [] then (case err of Some e \<Rightarrow> e | None \<Rightarrow> Unknown_error) else wrapped_error (http (last ns)))"

lemma request_attempts_spec:
  fixes q :: request_trace
  assumes "request_attempts cfg ex m http clock ns err q = (res, q')"
  shows "rq_sent q' = rq_sent q @ take (Suc (retries_before http ns)) ns \<and>
    rq_waits q' = rq_waits q @
      map (retry_delay cfg) (filter (\<lambda>n. should_retry n m) (take (retries_before http ns) ns)) \<and>
    res = (if retries_before http ns < length ns then send_http (http (ns ! retries_before http ns))
           else Inl (last_failure_of http err ns))"
  using assms
proof (induction ns arbitrary: err q)
  case Nil
  then show ?case by (simp add: last_failure_of_def)
next
  case (Cons n ns)
  show ?case
  proof (cases "send_http (http n)")
    case (Inr result)
    then have "\<not> retried (http n)" by (simp add: retried_def)
    then show ?thesis using Cons.prems Inr by (auto split: prod.splits)
  next
    case (Inl e)
    show ?thesis
    proof (cases "fst (classify e)")
      case False
      then have "\<not> retried (http n)" using Inl by (simp add: retried_def)
      then show ?thesis using Cons.prems Inl False by auto
    next
      case True
      define q0 where "q0 = q\<lparr>rq_sent := rq_sent q @ [n]\<rparr>"
      define q1 where "q1 = (if snd (classify e) \<and> \<not> (ex \<and> e = Timeout_error)
        then case record_failure (kc_breaker cfg) (clock n) (rq_breaker q0) of
               (events, b) \<Rightarrow> q0\<lparr>rq_breaker := b, rq_events := rq_events q0 @ events\<rparr> else q0)"
      have q1: "rq_sent q1 = rq_sent q @ [n]" "rq_waits q1 = rq_waits q"
        by (simp_all add: q1_def q0_def split: prod.splits)
      have last: "last_failure_of http (Some (to_api_error e)) ns = last_failure_of http err (n # ns)"
        using Inl by (simp add: last_failure_of_def wrapped_error_def)
      define q2 where
        "q2 = (if should_retry n m then q1\<lparr>rq_waits := rq_waits q1 @ [retry_delay cfg n]\<rparr> else q1)"
      have "request_attempts cfg ex m http clock ns (Some (to_api_error e)) q2 = (res, q')"
        using Cons.prems Inl True
        by (simp add: q2_def q1_def q0_def Let_def split del: if_split cong: if_cong)
      from Cons.IH [OF this] show ?thesis
        using Inl True unfolding last by (auto simp: q2_def q1 retried_def)
    qed
  qed
qed

lemma sum_retry_delays:
  "sum_list (map (retry_delay cfg) [0..<j]) = kc_backoff_base cfg * (2 ^ j - 1)"
  by (induction j) (simp_all add: retry_delay_def algebra_simps)

lemma should_retry: "should_retry n m \<longleftrightarrow> n < nat m"
  by (auto simp: should_retry_def)

lemma filter_should_retry:
  assumes "k \<le> nat (m + 1)"
  shows "filter (\<lambda>n. should_retry n m) (take k [0..<nat (m + 1)]) = [0..<min k (nat m)]"
proof -
  have "take k [0..<nat (m + 1)] = [0..<k]" using assms by (simp add: take_upt)
  moreover have "filter (\<lambda>n. should_retry n m) [0..<k] = [0..<min k (nat m)]"
    by (induction k) (auto simp: should_retry min_def not_less_eq_eq dest: le_antisym)
  ultimately show ?thesis by simp
qed

lemma request_with_cont_cases:
  assumes "request_with_cont cfg exempt tr_id env w = (res, rep, w')"
  obtains (refused) e where "res = Inl e" "rp_result_sent rep = []" "rp_waits rep = []"
  | (attempted) q q' where
      "request_attempts cfg exempt (get_max_retries cfg tr_id) (re_http env) (re_clock env)
         [0..<nat (get_max_retries cfg tr_id + 1)] None q = (res, q')"
      "rq_sent q = []" "rq_waits q = []" "rp_result_sent rep = rq_sent q'" "rp_waits rep = rq_waits q'"
  using assms
  by (fastforce simp: request_with_cont_def Let_def split: prod.splits if_splits option.splits)

text \<open>C24. A request is its first attempt that is not a retryable failure: the attempts before it are
  sent once each, in order and with doubling waits between them, nothing is sent after it, and when
  every attempt of the budget fails retryably the last failure is reported.  The waits never add up
  to more than \<open>base * (2 ^ max_retries - 1)\<close>.  A request that the breaker or the token refuses sends nothing.\<close>

theorem request_is_first_decisive_attempt:
  assumes r: "request_with_cont cfg exempt tr_id env w = (res, rep, w')"
    and m: "0 \<le> get_max_retries cfg tr_id" and b: "0 \<le> kc_backoff_base cfg"
  defines "m \<equiv> nat (get_max_retries cfg tr_id)"
  defines "k \<equiv> retries_before (re_http env) [0..<Suc m]"
  shows "(rp_result_sent rep = [] \<and> isl res \<or>
          rp_result_sent rep = [0..<min (Suc k) (Suc m)] \<and>
          res = (if k \<le> m then send_http (re_http env k) else Inl (wrapped_error (re_http env m)))) \<and>
         (rp_waits rep = [] \<or> rp_waits rep = map (retry_delay cfg) [0..<min k m]) \<and>
         sum_list (rp_waits rep) \<le> kc_backoff_base cfg * (2 ^ m - 1)"
proof -
  have N: "nat (get_max_retries cfg tr_id + 1) = Suc m" using m by (simp add: m_def nat_add_distrib)
  have k: "k \<le> Suc m" using retries_before_le [of "re_http env" "[0..<Suc m]"] by (simp add: k_def)
  have bound: "0 \<le> kc_backoff_base cfg * (2 ^ m - 1)"
    using b by (simp add: mult_nonneg_nonneg)
  from r show ?thesis
  proof (cases rule: request_with_cont_cases)
    case (refused e)
    with bound show ?thesis by simp
  next
    case (attempted q q')
    note spec = request_attempts_spec [OF attempted(1) [unfolded N], folded k_def]
    have sent: "rp_result_sent rep = [0..<min (Suc k) (Suc m)]"
      using spec attempted(2,4) by (simp add: take_upt min_def del: upt_Suc)
    have waits: "rp_waits rep = map (retry_delay cfg) [0..<min k m]"
      using spec attempted(3,5) filter_should_retry [of k "get_max_retries cfg tr_id", unfolded N] k
      by (simp add: m_def del: upt_Suc)
    have res: "res = (if k \<le> m then send_http (re_http env k) else Inl (wrapped_error (re_http env m)))"
      using spec k by (auto simp: last_failure_of_def nth_append le_Suc_eq)
    have "sum_list (rp_waits rep) \<le> kc_backoff_base cfg * (2 ^ m - 1)"
      unfolding waits sum_retry_delays using b
      by (intro mult_left_mono diff_right_mono power_increasing) auto
    with sent waits res show ?thesis by simp
  qed
qed

text \<open>A query whose first attempt times out.\<close>

definition sample_config :: kis_config where
  "sample_config =
     \<lparr>kc_retries_order = 3, kc_retries_query = 2, kc_backoff_base = 1,
      kc_breaker = \<lparr>cb_threshold = 5, cb_timeout = 60, cb_has_bus = True\<rparr>\<rparr>"

definition sample_adapter :: "string \<Rightarrow> kis_adapter" where
  "sample_adapter secret =
     \<lparr>ka_app_key = ''key'', ka_app_secret = secret, ka_is_paper = True, ka_access_token = Some ''t'',
      ka_token_expires_at = Some 90000, ka_request_times = [], ka_breaker = new_breaker\<rparr>"

definition sample_payload :: "'d \<Rightarrow> 'd kis_payload" where
  "sample_payload d = \<lparr>kp_rt_cd = ''0'', kp_msg_cd = '''', kp_fk100 = '''', kp_nk100 = '''', kp_data = d\<rparr>"

definition no_tokens :: token_store where
  "no_tokens = \<lparr>tk_cache = [], tk_cooldowns = []\<rparr>"

definition sample_env :: "(nat \<Rightarrow> 'd http_outcome) \<Rightarrow> 'd request_env" where
  "sample_env http =
     \<lparr>re_check_at = 0,
      re_auth = \<lparr>au_start = 0, au_locked = 0, au_answered = 0, au_others = (\<lambda>tk. tk), au_reply = Token_refused ''''\<rparr>,
      re_rate_now = 0, re_http = http, re_clock = (\<lambda>_. 0)\<rparr>"

theorem request_is_first_decisive_attempt_witness:
  "sum_list (rp_waits (fst (snd (request_with_cont sample_config False ''VTTC8434R''
      (sample_env (\<lambda>n. if n = 0 then Http_raises Timeout_error else Http_reply 200 (Payload (sample_payload ())) ''''))
      (no_tokens, sample_adapter ''s''))))) \<le> 1 * (2 ^ 2 - 1)"
proof -
  let ?r = "request_with_cont sample_config False ''VTTC8434R''
      (sample_env (\<lambda>n. if n = 0 then Http_raises Timeout_error else Http_reply 200 (Payload (sample_payload ())) ''''))
      (no_tokens, sample_adapter ''s'')"
  have r: "?r = (fst ?r, fst (snd ?r), snd (snd ?r))" by simp
  have "get_max_retries sample_config ''VTTC8434R'' = 2"
    by (simp add: sample_config_def get_max_retries_def order_tr_ids_def)
  with request_is_first_decisive_attempt [OF r] show ?thesis by (simp add: sample_config_def)
qed

subsection \<open>A submission that may reach the exchange twice\<close>

text \<open>
  A timeout is retried for order submissions too, although the first request may have been accepted:
  the attempts after a timed-out one send the same order again.
\<close>

theorem timed_out_submission_is_sent_again:
  assumes "tr_id \<in> set order_tr_ids" and "0 < kc_retries_order cfg"
    and "http 0 = Http_raises Timeout_error"
  shows "take 2 (rq_sent (snd (request_attempts cfg exempt (get_max_retries cfg tr_id) http clock
    [0..<nat (get_max_retries cfg tr_id + 1)] None \<lparr>rq_breaker = b, rq_sent = [], rq_waits = [], rq_events = []\<rparr>))) = [0, 1]"
proof -
  obtain k where k: "nat (get_max_retries cfg tr_id + 1) = Suc (Suc k)"
  proof (rule that)
    show "nat (get_max_retries cfg tr_id + 1) = Suc (Suc (nat (kc_retries_order cfg) - 1))"
      using assms by (simp add: get_max_retries_def)
  qed
  obtain res q' where r: "request_attempts cfg exempt (get_max_retries cfg tr_id) http clock
    [0..<Suc (Suc k)] None \<lparr>rq_breaker = b, rq_sent = [], rq_waits = [], rq_events = []\<rparr> = (res, q')" by fastforce
  have "[0..<Suc (Suc k)] = 0 # 1 # [Suc (Suc 0)..<Suc (Suc k)]" by (simp add: upt_conv_Cons del: upt_Suc)
  moreover have "retried (http 0)" using assms(3) by (simp add: retried_def)
  ultimately show ?thesis
    using request_attempts_spec [OF r] unfolding k r by (simp del: upt_Suc)
qed

subsection \<open>The token endpoint\<close>

text \<open>
  Locked sections of adapters sharing the process, in the order they run: the lock is per app key, and
  sections of different keys touch different entries.
\<close>

record token_section =
  ts_adapter :: kis_adapter
  ts_now :: rat
  ts_answered :: rat
  ts_reply :: token_reply

definition section_run :: "token_section \<Rightarrow> token_store \<Rightarrow> bool \<times> broker_error option \<times> token_store \<times> kis_adapter" where
  "section_run x tk = authenticate_locked (ts_now x) (ts_answered x) (ts_reply x) tk (ts_adapter x)"

definition section_step :: "token_store \<Rightarrow> token_section \<Rightarrow> token_store" where
  "section_step tk x = fst (snd (snd (section_run x tk)))"

definition section_calls :: "token_store \<Rightarrow> token_section \<Rightarrow> bool" where
  "section_calls tk x = fst (section_run x tk)"

lemmas section_defs = section_step_def section_calls_def section_run_def authenticate_locked_def
  authenticate_fast_def issue_token_def

lemma section_calls_iff:
  "section_calls tk x \<longleftrightarrow>
     hydrate_from_cache (ts_now x) tk (ts_adapter x) = None \<and>
     token_cooldown_until (ts_now x) (ka_app_key (ts_adapter x)) tk = None"
  by (auto simp: section_defs Let_def split: option.splits token_reply.splits)

lemma section_step_cooldowns:
  "tk_cooldowns (section_step tk x) =
     (if section_calls tk x \<and> ts_reply x = Token_refused token_rate_limit_msg_code
      then dict_set (ka_app_key (ts_adapter x)) (ts_answered x + 60) (tk_cooldowns tk) else tk_cooldowns tk)"
  unfolding section_calls_iff
  by (auto simp: section_defs Let_def token_rate_limit_cooldown_seconds_def split: option.splits token_reply.splits)

lemma section_step_cache:
  "tk_cache (section_step tk x) =
     (case ts_reply x of
        Token_issued token \<Rightarrow>
          if section_calls tk x
          then dict_set (token_cache_key (ts_adapter x)) (token, ts_answered x + 24 * 3600) (tk_cache tk)
          else tk_cache tk
      | _ \<Rightarrow> tk_cache tk)"
  unfolding section_calls_iff
  by (auto simp: section_defs Let_def split: option.splits token_reply.splits)

definition cooled_until :: "string \<Rightarrow> rat \<Rightarrow> token_store \<Rightarrow> bool" where
  "cooled_until key t tk \<longleftrightarrow> (\<exists>u\<ge>t. dict_get (tk_cooldowns tk) key = Some u)"

definition held_until :: "token_key \<Rightarrow> rat \<Rightarrow> token_store \<Rightarrow> bool" where
  "held_until key t tk \<longleftrightarrow> (\<exists>token e. t \<le> e \<and> dict_get (tk_cache tk) key = Some (token, e))"

lemma cooled_until_step:
  "cooled_until key t tk \<Longrightarrow> t \<le> ts_answered x + 60 \<Longrightarrow> cooled_until key t (section_step tk x)"
  by (auto simp: cooled_until_def section_step_cooldowns)

lemma held_until_step:
  "held_until key t tk \<Longrightarrow> t \<le> ts_answered x + 24 * 3600 \<Longrightarrow> held_until key t (section_step tk x)"
  by (auto simp: held_until_def section_step_cache split: token_reply.splits)

lemma cooled_until_run:
  "cooled_until key t tk \<Longrightarrow> \<forall>x\<in>set xs. t \<le> ts_answered x + 60 \<Longrightarrow> cooled_until key t (run section_step tk xs)"
  by (induction xs arbitrary: tk) (auto intro: cooled_until_step)

lemma held_until_run:
  "held_until key t tk \<Longrightarrow> \<forall>x\<in>set xs. t \<le> ts_answered x + 24 * 3600 \<Longrightarrow> held_until key t (run section_step tk xs)"
  by (induction xs arbitrary: tk) (simp_all add: held_until_step)

lemma cooled_until_calls:
  "cooled_until (ka_app_key (ts_adapter x)) t tk \<Longrightarrow> section_calls tk x \<Longrightarrow> t \<le> ts_now x"
  by (auto simp: cooled_until_def section_calls_iff token_cooldown_until_def split: if_splits)

lemma held_until_calls:
  "held_until (token_cache_key (ts_adapter x)) t tk \<Longrightarrow> section_calls tk x \<Longrightarrow> t - 300 \<le> ts_now x"
  by (auto simp: held_until_def section_calls_iff hydrate_from_cache_def is_cached_token_fresh_def
      token_expiry_margin_def split: if_splits)

text \<open>C25. Whatever adapters share the process, two calls of the token endpoint with the same app key
  are at least 60 seconds apart when the first was refused for its rate; and two with the same whole
  cache key (app key, secret and environment) at least 24 hours less five minutes when the first was
  granted.  After a grant a call with another secret or environment may follow at once.\<close>

theorem token_endpoint_spacing:
  assumes times: "sorted (concat (map (\<lambda>s. [ts_now s, ts_answered s]) (xs @ x # ys @ [y])))"
    and x: "section_calls (run section_step tk xs) x"
    and y: "section_calls (run section_step tk (xs @ x # ys)) y"
  shows "(ts_reply x = Token_refused token_rate_limit_msg_code \<and>
            ka_app_key (ts_adapter y) = ka_app_key (ts_adapter x) \<longrightarrow> ts_answered x + 60 \<le> ts_now y) \<and>
         (ts_reply x = Token_issued token \<and>
            token_cache_key (ts_adapter y) = token_cache_key (ts_adapter x) \<longrightarrow>
          ts_answered x + 24 * 3600 - 300 \<le> ts_now y)"
proof -
  let ?tk = "section_step (run section_step tk xs) x"
  have y': "section_calls (run section_step ?tk ys) y" using y by (simp add: run_append)
  have later: "ts_answered x \<le> ts_answered z" if "z \<in> set ys" for z
    using times that by (auto simp: sorted_append)
  have "ts_answered x + 60 \<le> ts_now y"
    if r: "ts_reply x = Token_refused token_rate_limit_msg_code"
      "ka_app_key (ts_adapter y) = ka_app_key (ts_adapter x)"
  proof -
    have "cooled_until (ka_app_key (ts_adapter x)) (ts_answered x + 60) ?tk"
      using x r by (auto simp: cooled_until_def section_step_cooldowns)
    from cooled_until_run [OF this] later
    have "cooled_until (ka_app_key (ts_adapter y)) (ts_answered x + 60) (run section_step ?tk ys)"
      using r(2) by simp
    from cooled_until_calls [OF this y'] show ?thesis .
  qed
  moreover have "ts_answered x + 24 * 3600 - 300 \<le> ts_now y"
    if r: "ts_reply x = Token_issued token" "token_cache_key (ts_adapter y) = token_cache_key (ts_adapter x)"
  proof -
    have "held_until (token_cache_key (ts_adapter x)) (ts_answered x + 24 * 3600) ?tk"
      using x r by (auto simp: held_until_def section_step_cache)
    from held_until_run [OF this] later
    have "held_until (token_cache_key (ts_adapter y)) (ts_answered x + 24 * 3600) (run section_step ?tk ys)"
      using r(2) by simp
    from held_until_calls [OF this y'] show ?thesis .
  qed
  ultimately show ?thesis by blast
qed

text \<open>Witness: a refusal at 10 bars the key until 70.\<close>

definition sample_section :: "rat \<Rightarrow> token_reply \<Rightarrow> token_section" where
  "sample_section t reply =
     \<lparr>ts_adapter = sample_adapter ''s'', ts_now = t, ts_answered = t, ts_reply = reply\<rparr>"

theorem token_endpoint_spacing_witness:
  "ts_answered (sample_section 10 (Token_refused ''EGW00133'')) + 60 \<le> ts_now (sample_section 70 (Token_issued ''t''))"
proof -
  let ?x = "sample_section 10 (Token_refused ''EGW00133'')" and ?y = "sample_section 70 (Token_issued ''t'')"
  have x: "section_calls (run section_step no_tokens []) ?x"
    by (simp add: section_calls_iff hydrate_from_cache_def token_cooldown_until_def no_tokens_def)
  have "tk_cache (section_step no_tokens ?x) = []"
    and "tk_cooldowns (section_step no_tokens ?x) = [(''key'', 70)]"
    using x by (simp_all add: section_step_cooldowns section_step_cache) (simp_all add: sample_section_def sample_adapter_def no_tokens_def token_rate_limit_msg_code_def)
  then have y: "section_calls (run section_step no_tokens ([] @ ?x # [])) ?y"
    by (simp add: section_calls_iff hydrate_from_cache_def token_cooldown_until_def sample_section_def sample_adapter_def)
  from token_endpoint_spacing [OF _ x y, of "''t''"] show ?thesis
    by (simp add: sample_section_def token_rate_limit_msg_code_def)
qed

subsection \<open>Pages\<close>

text \<open>
  A server that holds \<open>pages\<close> and continues page \<open>i\<close> with the cursor \<open>cur (i + 1)\<close>; \<open>good\<close> is what
  keeps its requests succeeding.
\<close>

definition serves ::
  "(string \<times> string \<Rightarrow> string \<Rightarrow> 'w \<Rightarrow> ('e + ('r list kis_payload \<times> string)) \<times> 'w) \<Rightarrow> 'r list list \<Rightarrow>
     (nat \<Rightarrow> string \<times> string) \<Rightarrow> ('w \<Rightarrow> bool) \<Rightarrow> bool" where
  "serves ask pages cur good \<longleftrightarrow>
     cur 0 = ('''', '''') \<and>
     (\<forall>i<length pages. \<forall>w. good w \<longrightarrow>
        (\<exists>body tr_cont w'. ask (cur i) (if i = 0 then '''' else ''N'') w = (Inr (body, tr_cont), w') \<and> good w' \<and>
           kp_data body = pages ! i \<and> (tr_cont \<in> set tr_cont_has_next \<longleftrightarrow> Suc i < length pages) \<and>
           (Suc i < length pages \<longrightarrow>
              cur (Suc i) \<noteq> ('''', '''') \<and> (strip (kp_fk100 body), strip (kp_nk100 body)) = cur (Suc i))))"

lemma paginate_serves:
  assumes "serves ask pages cur good" and "good w" and "i < length pages"
  shows "fst (paginate_from ask (Suc n) (cur i) (if i = 0 then '''' else ''N'') rows w) =
    Inr (rows @ concat (take (Suc n) (drop i pages)))"
  using assms(2,3)
proof (induction n arbitrary: i rows w)
  case 0
  with assms(1) obtain body tr_cont w'
    where a: "ask (cur i) (if i = 0 then '''' else ''N'') w = (Inr (body, tr_cont), w')" "kp_data body = pages ! i"
    unfolding serves_def by blast
  have "take (Suc 0) (drop i pages) = [pages ! i]" using 0 by (simp add: take_Suc hd_drop_conv_nth)
  with a show ?case by (simp add: Let_def split: if_splits)
next
  case (Suc n)
  with assms(1) obtain body tr_cont w'
    where a: "ask (cur i) (if i = 0 then '''' else ''N'') w = (Inr (body, tr_cont), w')" "good w'"
      "kp_data body = pages ! i" "tr_cont \<in> set tr_cont_has_next \<longleftrightarrow> Suc i < length pages"
      "Suc i < length pages \<longrightarrow>
         cur (Suc i) \<noteq> ('''', '''') \<and> (strip (kp_fk100 body), strip (kp_nk100 body)) = cur (Suc i)"
    unfolding serves_def by blast
  have d: "drop i pages = pages ! i # drop (Suc i) pages" using Suc.prems(2) by (simp add: Cons_nth_drop_Suc)
  show ?case
  proof (cases "Suc i < length pages")
    case True
    then have cur: "cur (Suc i) = (strip (kp_fk100 body), strip (kp_nk100 body))"
      "\<not> (strip (kp_fk100 body) = '''' \<and> strip (kp_nk100 body) = '''')" using a(5) by auto
    have "paginate_from ask (Suc (Suc n)) (cur i) (if i = 0 then [] else ''N'') rows w =
        paginate_from ask (Suc n) (cur (Suc i)) ''N'' (rows @ pages ! i) w'"
      using a True cur by (subst paginate_from.simps(2)) (auto simp: Let_def simp del: paginate_from.simps)
    moreover have "(if Suc i = 0 then [] else ''N'') = ''N''" by simp
    ultimately show ?thesis
      using Suc.IH [OF a(2) True, of "rows @ pages ! i"] d by (simp del: paginate_from.simps)
  next
    case False
    then have "drop (Suc i) pages = []" by simp
    with False a d show ?thesis by (subst paginate_from.simps(2)) (auto simp: Let_def simp del: paginate_from.simps)
  qed
qed

text \<open>A continued query returns the rows of the server's pages, complete and in order, up to the
  hundredth page; the rows of later pages are left out without an error.\<close>

theorem continued_query_collects_pages:
  assumes "serves ask pages cur good" and "good w" and "pages \<noteq> []"
  shows "fst (request_paginated ask w) = Inr (concat (take max_pagination_pages pages))"
proof -
  have "cur 0 = ('''', '''')" using assms(1) by (simp add: serves_def)
  with paginate_serves [OF assms(1,2), of 0 99 "[]"] assms(3) show ?thesis
    by (simp add: request_paginated_def max_pagination_pages_def del: paginate_from.simps)
qed

definition sample_pages :: "string \<times> string \<Rightarrow> string \<Rightarrow> unit \<Rightarrow> (broker_error + (nat list kis_payload \<times> string)) \<times> unit" where
  "sample_pages cursor header w =
     (if header = '''' then (Inr ((sample_payload [1, 2])\<lparr>kp_fk100 := ''a ''\<rparr>, ''M''), w)
      else (Inr (sample_payload [3], ''D''), w))"

theorem continued_query_collects_pages_witness:
  "fst (request_paginated sample_pages ()) = Inr [1, 2, 3]"
proof -
  have "strip ''a '' = ''a''" and "strip '''' = ''''" by code_simp+
  then have "serves sample_pages [[1, 2], [3]] (\<lambda>i. if i = 0 then ('''', '''') else (''a'', '''')) (\<lambda>_. True)"
    by (auto simp: serves_def sample_pages_def sample_payload_def tr_cont_has_next_def less_Suc_eq)
  from continued_query_collects_pages [OF this] show ?thesis by (simp add: max_pagination_pages_def)
qed

subsection \<open>Order history\<close>

definition row_key :: "ccld_row \<Rightarrow> string \<times> string" where
  "row_key r = (cr_odno r, cr_ord_dt r)"

definition item_key :: "history_item \<Rightarrow> string \<times> string" where
  "item_key h = (hi_order_id h, hi_timestamp h)"

lemma item_key_of [simp]: "item_key (history_item_of r) = row_key r"
  by (simp add: item_key_def row_key_def history_item_of_def)

text \<open>Every entry is the item of a row with its key, and no row with that key filled more.\<close>

definition folded_ok :: "ccld_row list \<Rightarrow> (string \<times> string, history_item) dict \<Rightarrow> bool" where
  "folded_ok rows d \<longleftrightarrow> dict_wf d \<and>
     (\<forall>k h. dict_get d k = Some h \<longrightarrow> (\<exists>r\<in>set rows. cr_odno r \<noteq> '''' \<and> row_key r = k \<and> h = history_item_of r)) \<and>
     (\<forall>r\<in>set rows. cr_odno r \<noteq> '''' \<longrightarrow>
        (\<exists>h. dict_get d (row_key r) = Some h \<and> cr_tot_ccld_qty r \<le> hi_filled_quantity h))"

lemma hi_filled_of [simp]: "hi_filled_quantity (history_item_of r) = cr_tot_ccld_qty r"
  by (simp add: history_item_of_def)

lemma fold_row_eq:
  "fold_row r d =
     (if cr_odno r = '''' then d
      else case dict_get d (row_key r) of
             None \<Rightarrow> dict_set (row_key r) (history_item_of r) d
           | Some h \<Rightarrow> if hi_filled_quantity h \<le> cr_tot_ccld_qty r
                       then dict_set (row_key r) (history_item_of r) d else d)"
  by (simp add: fold_row_def row_key_def Let_def split: option.splits)

lemma folded_ok_row: "folded_ok rows d \<Longrightarrow> folded_ok (rows @ [r]) (fold_row r d)"
proof -
  assume ok: "folded_ok rows d"
  consider (skip) "fold_row r d = d" "cr_odno r = ''''"
    | (kept) h where "fold_row r d = d" "cr_odno r \<noteq> ''''" "dict_get d (row_key r) = Some h"
        "cr_tot_ccld_qty r \<le> hi_filled_quantity h"
    | (set) "fold_row r d = dict_set (row_key r) (history_item_of r) d" "cr_odno r \<noteq> ''''"
        "\<forall>h. dict_get d (row_key r) = Some h \<longrightarrow> hi_filled_quantity h \<le> cr_tot_ccld_qty r"
  proof (cases "cr_odno r = []")
    case True
    then show thesis by (auto simp: fold_row_eq intro: skip)
  next
    case False
    show thesis
    proof (cases "\<exists>h. dict_get d (row_key r) = Some h \<and> cr_tot_ccld_qty r < hi_filled_quantity h")
      case True
      then obtain h where "dict_get d (row_key r) = Some h" "cr_tot_ccld_qty r < hi_filled_quantity h" by blast
      with False show thesis by (intro kept [of h]) (auto simp: fold_row_eq)
    next
      case False': False
      have "fold_row r d = dict_set (row_key r) (history_item_of r) d"
        using False False' by (auto simp: fold_row_eq not_less split: option.splits)
      moreover have "\<forall>h. dict_get d (row_key r) = Some h \<longrightarrow> hi_filled_quantity h \<le> cr_tot_ccld_qty r"
        using False' by (auto simp: not_less)
      ultimately show thesis using False set by blast
    qed
  qed
  then show ?thesis
  proof cases
    case skip
    with ok show ?thesis unfolding folded_ok_def by auto
  next
    case (kept h)
    with ok show ?thesis unfolding folded_ok_def by auto
  next
    case set
    have "\<exists>h. dict_get (fold_row r d) (row_key x) = Some h \<and> cr_tot_ccld_qty x \<le> hi_filled_quantity h"
      if "x \<in> set (rows @ [r])" "cr_odno x \<noteq> ''''" for x
    proof (cases "row_key x = row_key r")
      case True
      with that ok set show ?thesis unfolding folded_ok_def by fastforce
    next
      case False
      with that ok set show ?thesis unfolding folded_ok_def by auto
    qed
    moreover have "\<exists>x\<in>set (rows @ [r]). cr_odno x \<noteq> '''' \<and> row_key x = k \<and> h = history_item_of x"
      if "dict_get (fold_row r d) k = Some h" for k h
    proof (cases "k = row_key r")
      case True
      with that set show ?thesis by auto
    next
      case False
      with that set have "dict_get d k = Some h" by simp
      with ok show ?thesis unfolding folded_ok_def by fastforce
    qed
    ultimately show ?thesis using ok set unfolding folded_ok_def by auto
  qed
qed

lemma folded_ok_all: "folded_ok rows (fold fold_row rows [])"
proof (induction rows rule: rev_induct)
  case Nil
  then show ?case by (simp add: folded_ok_def)
next
  case (snoc r rows)
  from folded_ok_row [OF this] show ?case by simp
qed

text \<open>The order history has one item per order and business day; it is one of that day's rows of
  the order, and no such row reports a greater filled quantity.\<close>

theorem history_keeps_greatest_fill:
  "distinct (map item_key (fold_order_history rows)) \<and>
   (\<forall>h\<in>set (fold_order_history rows). \<exists>r\<in>set rows. h = history_item_of r \<and>
      (\<forall>r'\<in>set rows. row_key r' = row_key r \<longrightarrow> cr_tot_ccld_qty r' \<le> cr_tot_ccld_qty r))"
proof -
  define d where "d = fold fold_row rows []"
  have ok: "folded_ok rows d" using folded_ok_all by (simp add: d_def)
  have src: "\<exists>r\<in>set rows. cr_odno r \<noteq> '''' \<and> row_key r = k \<and> h = history_item_of r" if "(k, h) \<in> set d" for k h
    using ok that unfolding folded_ok_def by (metis dict_get_mem)
  have "map item_key (dict_values d) = map fst d" using src by (fastforce simp: comp_def intro!: map_cong)
  moreover have "distinct (map fst d)" using ok by (simp add: folded_ok_def dict_wf_def)
  ultimately have "distinct (map item_key (dict_values d))" by (simp only:)
  moreover have "\<exists>r\<in>set rows. h = history_item_of r \<and>
      (\<forall>r'\<in>set rows. row_key r' = row_key r \<longrightarrow> cr_tot_ccld_qty r' \<le> cr_tot_ccld_qty r)"
    if "h \<in> set (dict_values d)" for h
  proof -
    from that obtain k where k: "(k, h) \<in> set d" by auto
    from src [OF k] obtain r where r: "r \<in> set rows" "cr_odno r \<noteq> ''''" "row_key r = k" "h = history_item_of r" by blast
    have "cr_tot_ccld_qty r' \<le> cr_tot_ccld_qty r" if "r' \<in> set rows" "row_key r' = row_key r" for r'
    proof -
      have "cr_odno r' \<noteq> ''''" using that(2) r(2) by (simp add: row_key_def)
      moreover have "dict_get d k = Some h" using ok k by (simp add: folded_ok_def dict_get_mem [symmetric])
      ultimately show ?thesis using ok that r unfolding folded_ok_def by force
    qed
    with r show ?thesis by blast
  qed
  ultimately show ?thesis by (simp add: fold_order_history_def d_def [symmetric])
qed

text \<open>Witness: two partial fills of one order and day become one item with the later total.\<close>

definition sample_ccld :: "rat \<Rightarrow> ccld_row" where
  "sample_ccld q =
     \<lparr>cr_odno = ''1'', cr_ord_dt = ''20260105'', cr_pdno = ''005930'', cr_sll_buy_dvsn_cd = ''02'',
      cr_ord_qty = 10, cr_tot_ccld_qty = q, cr_tot_ccld_amt = 100 * q, cr_avg_prvs = 0, cr_ord_unpr = 0\<rparr>"

theorem history_keeps_greatest_fill_witness:
  "fold_order_history [sample_ccld 4, sample_ccld 10] = [history_item_of (sample_ccld 10)] \<and>
   distinct (map item_key (fold_order_history [sample_ccld 4, sample_ccld 10]))"
  using history_keeps_greatest_fill [of "[sample_ccld 4, sample_ccld 10]"]
  by (simp add: fold_order_history_def fold_row_def sample_ccld_def history_item_of_def)

subsection \<open>Routing numbers\<close>

text \<open>
  The server's answer to a call made on a day is \<open>oracle day call\<close>; the log records them in order.
\<close>

type_synonym kis_log = "(string \<times> kis_call \<times> (broker_error + placed)) list"

definition logged ::
  "(string \<Rightarrow> kis_call \<Rightarrow> nat \<Rightarrow> broker_error + placed) \<Rightarrow> string \<Rightarrow> kis_call \<Rightarrow> kis_log \<Rightarrow> (broker_error + placed) \<times> kis_log" where
  "logged oracle day call log' =
     (oracle day call (length log'), log' @ [(day, call, oracle day call (length log'))])"

datatype order_op =
    Place_op string string string rat string "rat option"
  | Cancel_op string string
  | Modify_op string string "rat option" "rat option" string

fun order_op_step ::
  "(string \<Rightarrow> kis_call \<Rightarrow> nat \<Rightarrow> broker_error + placed) \<Rightarrow> bool \<Rightarrow> orgno_cache \<times> kis_log \<Rightarrow> order_op \<Rightarrow> orgno_cache \<times> kis_log" where
  "order_op_step oracle paper s (Place_op day symbol side quantity order_type price) =
     snd (kis_place_order (logged oracle day) paper day symbol side quantity order_type price s)"
| "order_op_step oracle paper s (Cancel_op day order_id) = snd (kis_cancel_order (logged oracle day) day order_id s)"
| "order_op_step oracle paper s (Modify_op day order_id quantity price order_type) =
     snd (kis_modify_order (logged oracle day) day order_id quantity price order_type s)"

text \<open>The number was in the answer to a submission of that day.\<close>

definition captured :: "string \<Rightarrow> string \<Rightarrow> string \<Rightarrow> kis_log \<Rightarrow> bool" where
  "captured day order_id n log' \<longleftrightarrow>
     n \<noteq> '''' \<and> (\<exists>tr body. (day, Order_cash tr body, Inr (Some (order_id, Some n))) \<in> set log')"

fun call_captured :: "string \<times> kis_call \<times> (broker_error + placed) \<Rightarrow> kis_log \<Rightarrow> bool" where
  "call_captured (day, Modify_order order_id n _ _ _, _) before = captured day order_id n before"
| "call_captured (day, Cancel_order order_id (Some n), _) before = captured day order_id n before"
| "call_captured _ before = True"

definition orgno_ok :: "orgno_cache \<times> kis_log \<Rightarrow> bool" where
  "orgno_ok s \<longleftrightarrow>
     length (fst s) \<le> orgno_cache_maxlen \<and> dict_wf (fst s) \<and>
     (\<forall>(k, n, d) \<in> set (fst s). captured d k n (snd s)) \<and>
     (\<forall>i<length (snd s). call_captured (snd s ! i) (take i (snd s)))"

lemma captured_mono: "captured d k n l \<Longrightarrow> captured d k n (l @ l')"
  by (auto simp: captured_def)

lemma calls_snoc:
  "(\<forall>i<length (l @ [c]). call_captured ((l @ [c]) ! i) (take i (l @ [c]))) \<longleftrightarrow>
     (\<forall>i<length l. call_captured (l ! i) (take i l)) \<and> call_captured c l"
  by (auto simp: less_Suc_eq nth_append)

lemma orgno_today_mem: "orgno_today k d cache = Some n \<Longrightarrow> (k, n, d) \<in> set cache"
  by (auto simp: orgno_today_def split: option.splits if_splits dest: map_of_SomeD)

lemma orgno_ok_today: "orgno_ok (cache, l) \<Longrightarrow> orgno_today k d cache = Some n \<Longrightarrow> captured d k n l"
  by (auto simp: orgno_ok_def dest!: orgno_today_mem)

lemma orgno_ok_call:
  "orgno_ok (cache, l) \<Longrightarrow> call_captured (d, c, r) l \<Longrightarrow> orgno_ok (cache, l @ [(d, c, r)])"
  unfolding orgno_ok_def fst_conv snd_conv calls_snoc by (auto intro: captured_mono)

lemma orgno_ok_cache:
  assumes ok: "orgno_ok (cache, l)" and c: "\<And>n. orgno = Some n \<Longrightarrow> n \<noteq> '''' \<Longrightarrow> captured d k n l"
  shows "orgno_ok (cache_krx_fwdg_orgno k orgno d cache, l)"
proof (cases "\<exists>n. orgno = Some n \<and> n \<noteq> ''''")
  case True
  then obtain n where n: "orgno = Some n" "n \<noteq> ''''" by blast
  define c' where "c' = dict_pop k cache @ [(k, n, d)]"
  have eq: "cache_krx_fwdg_orgno k orgno d cache = drop (length c' - orgno_cache_maxlen) c'"
    using n by (simp add: cache_krx_fwdg_orgno_def c'_def Let_def)
  have "dict_wf c'"
    using ok by (auto simp: orgno_ok_def c'_def dict_wf_def distinct_delete dom_map_of_conv_image_fst [symmetric])
  then have "dict_wf (drop (length c' - orgno_cache_maxlen) c')" by (simp add: dict_wf_def drop_map [symmetric])
  moreover have "captured d' k' n' l" if "(k', n', d') \<in> set (drop (length c' - orgno_cache_maxlen) c')" for k' n' d'
    using in_set_dropD [OF that] ok c [OF n]
    by (fastforce simp: c'_def orgno_ok_def AList.delete_eq)
  ultimately show ?thesis using ok unfolding eq by (auto simp: orgno_ok_def)
next
  case False
  with ok show ?thesis by (auto simp: cache_krx_fwdg_orgno_def split: option.splits)
qed

lemma orgno_ok_step: "orgno_ok s \<Longrightarrow> orgno_ok (order_op_step oracle paper s op)"
proof -
  assume ok: "orgno_ok s"
  obtain cache l where s: "s = (cache, l)" by (cases s)
  show ?thesis
  proof (cases op)
    case (Place_op day symbol side quantity order_type price)
    define call where "call = Order_cash (order_tr_id paper side) (build_order_data symbol quantity order_type price)"
    define r where "r = oracle day call (length l)"
    have ok': "orgno_ok (cache, l @ [(day, call, r)])"
      using orgno_ok_call [of cache l day call r] ok s by (simp add: call_def)
    have "orgno_ok (cache_krx_fwdg_orgno k orgno day cache, l @ [(day, call, r)])" if "r = Inr (Some (k, orgno))" for k orgno
      by (rule orgno_ok_cache [OF ok']) (use that in \<open>auto simp: captured_def call_def\<close>)
    with ok ok' s Place_op show ?thesis
      by (auto simp: kis_place_order_def logged_def call_def r_def Let_def split: sum.splits option.splits prod.splits)
  next
    case (Cancel_op day k)
    have "call_captured (day, Cancel_order k (orgno_today k day cache), r) l" for r
      using ok s by (cases "orgno_today k day cache") (auto intro: orgno_ok_today)
    then have "orgno_ok (cache, l @ [(day, Cancel_order k (orgno_today k day cache), r)])" for r
      using ok s by (intro orgno_ok_call) auto
    with Cancel_op s show ?thesis
      by (auto simp: kis_cancel_order_def logged_def split: sum.splits)
  next
    case (Modify_op day k quantity price order_type)
    have "orgno_ok (cache, l @ [(day, Modify_order k n t a b, r)])" if "orgno_today k day cache = Some n" for n t a b r
      by (rule orgno_ok_call) (use ok s that in \<open>auto intro: orgno_ok_today\<close>)
    with Modify_op s ok show ?thesis
      by (auto simp: kis_modify_order_def logged_def split: sum.splits option.splits)
  qed
qed

interpretation orgno: guarded_machine "order_op_step oracle paper" "\<lambda>_ _. True" orgno_ok
  by unfold_locales (rule orgno_ok_step)

text \<open>C39. In any history of submissions, cancellations and price changes of an adapter, a price change
  or cancellation that names an exchange routing number names one that an earlier submission of the
  same order on the same business day was answered with, and the cache never exceeds 1024 entries.\<close>

theorem routing_number_was_captured:
  "list_all (\<lambda>i. call_captured (snd (run (order_op_step oracle paper) ([], []) ops) ! i)
       (take i (snd (run (order_op_step oracle paper) ([], []) ops))))
     [0..<length (snd (run (order_op_step oracle paper) ([], []) ops))] \<and>
   length (fst (run (order_op_step oracle paper) ([], []) ops)) \<le> orgno_cache_maxlen"
proof -
  have "orgno_ok ([], [])" by (simp add: orgno_ok_def)
  then have "orgno_ok (run (order_op_step oracle paper) ([], []) ops)" by (rule orgno.run_inv) simp
  then show ?thesis by (simp add: orgno_ok_def list_all_iff)
qed

subsection \<open>The rate limit\<close>

text \<open>
  \<open>_rate_limit_wait\<close> records the time before its sleep, so a delayed request counts as older than it
  is: after five requests at 0 and one at 1, which sleeps until 60, four more pass at 60 and the next
  at 61: six requests within two seconds on an account limited to five a minute.
\<close>

definition rate_limit_run :: "kis_adapter \<Rightarrow> rat list \<Rightarrow> rat list" where
  "rate_limit_run a nows =
     fst (fold (\<lambda>now (sent, a). case rate_limit_wait now a of
            (wait, a') \<Rightarrow> (sent @ [now + (case wait of None \<Rightarrow> 0 | Some s \<Rightarrow> s)], a')) nows ([], a))"

theorem rate_limit_lets_a_burst_through:
  "rate_limit_run (sample_adapter ''s'') [0, 0, 0, 0, 0, 1, 60, 60, 60, 60, 121 / 2] =
     [0, 0, 0, 0, 0, 60, 60, 60, 60, 60, 61]"
  by (simp add: rate_limit_run_def rate_limit_wait_def rate_limit_per_minute_def sample_adapter_def Let_def)

end
