(* ===== verification/Fill_Polling.thy ===== *)
theory Fill_Polling
  imports Fill_Pipeline
begin

text \<open>
  \<open>src/src/ante/broker/fill_scheduler.py\<close>: the poller that recovers executions of an account from the
  broker's order history and, on paper accounts, from its positions.  Everything it learns goes
  through \<open>apply_cumulative\<close> of \<open>Fill_Pipeline\<close>.

  One poll runs to its end or to its first exception; awaiting the broker lets nothing else run in
  the model.  The broker's answers, the fault of every application and the fresh trade ids are
  parameters of a poll.  An item of the history has its numbers parsed (\<open>float(x or 0.0)\<close>).
\<close>

subsection \<open>Business dates\<close>

fun decimal_digits :: "nat \<Rightarrow> nat \<Rightarrow> string" where
  "decimal_digits 0 n = ''''"
| "decimal_digits (Suc k) n = decimal_digits k (n div 10) @ [char_of (48 + n mod 10)]"

text \<open>The date of a day counted from 1970-01-01, by 400-year eras of 146097 days.\<close>

definition civil_date :: "int \<Rightarrow> int \<times> int \<times> int" where
  "civil_date days =
     (let z = days + 719468;
          era = z div 146097;
          doe = z mod 146097;
          yoe = (doe - doe div 1460 + doe div 36524 - doe div 146096) div 365;
          doy = doe - (365 * yoe + yoe div 4 - yoe div 100);
          mp = (5 * doy + 2) div 153;
          d = doy - (153 * mp + 2) div 5 + 1;
          m = (if mp < 10 then mp + 3 else mp - 9);
          y = yoe + era * 400 + (if m \<le> 2 then 1 else 0)
      in (y, m, d))"

text \<open>\<open>business_date_kst\<close> of a time in seconds since the epoch.\<close>

definition business_date_kst :: "int \<Rightarrow> string" where
  "business_date_kst seconds =
     (case civil_date ((seconds + 9 * 3600) div 86400) of
        (y, m, d) \<Rightarrow> decimal_digits 4 (nat y) @ decimal_digits 2 (nat m) @ decimal_digits 2 (nat d))"

text \<open>What \<open>_normalize_history_date\<close> distinguishes: eight digits, an ISO time, anything else.\<close>

datatype history_stamp = Day_text string | Iso_time int | Not_a_time

fun normalize_history_date :: "history_stamp \<Rightarrow> string" where
  "normalize_history_date (Day_text s) = s"
| "normalize_history_date (Iso_time seconds) = business_date_kst seconds"
| "normalize_history_date Not_a_time = ''''"

subsection \<open>State and environment\<close>

record verify_entry =
  ve_recorded :: rat
  ve_submitted_date :: string

record fill_poller =
  fp_fills :: fill_state
  fp_verify :: "(string, verify_entry) dict"

record poll_item =
  pi_order_id :: string
  pi_filled_quantity :: rat
  pi_price :: rat
  pi_timestamp :: history_stamp

record broker_position =
  bp_symbol :: string
  bp_quantity :: rat
  bp_avg_price :: rat

text \<open>An exception: \<open>Poll_broker True\<close> is one of \<open>_LOOP_BACKOFF_EXCEPTIONS\<close>.\<close>

datatype poll_error = Poll_account account_id_error | Poll_apply apply_error | Poll_broker bool

datatype poll_alert =
    Position_mismatch string string string rat rat string
  | Over_attribution string string rat rat

record poll_env =
  pe_account :: string
  pe_today :: string
  pe_history :: "string \<Rightarrow> string \<Rightarrow> poll_error + poll_item list"
  pe_positions :: "poll_error + broker_position list"
  pe_fault :: "nat \<Rightarrow> db_point option"
  pe_trade_id :: "nat \<Rightarrow> string"
  pe_fallback_enabled :: bool
  pe_is_paper :: bool
  pe_has_trade_service :: bool
  pe_has_bus :: bool

text \<open>A poll in progress: the state, what it did to the fills, its count and its alerts.\<close>

record poll_run =
  pr_poller :: fill_poller
  pr_steps :: "fill_event list"
  pr_applied :: nat
  pr_alerts :: "poll_alert list"

definition start_poll :: "fill_poller \<Rightarrow> poll_run" where
  "start_poll p = \<lparr>pr_poller = p, pr_steps = [], pr_applied = 0, pr_alerts = []\<rparr>"

text \<open>One call of \<open>apply_cumulative\<close>; \<open>applied\<close> counts the ones that advanced.\<close>

definition poll_apply ::
  "poll_env \<Rightarrow> string \<Rightarrow> rat \<Rightarrow> rat \<Rightarrow> string \<Rightarrow> poll_run \<Rightarrow> (poll_error + rat) \<times> poll_run" where
  "poll_apply env broker_order_id cumulative avg_price date r =
     (let n = length (pr_steps r);
          p = pr_poller r;
          (res, s) = apply_cumulative (pe_fault env n) (pe_trade_id env n) (pe_account env)
                       broker_order_id cumulative avg_price date (fp_fills p);
          r' = r\<lparr>pr_poller := p\<lparr>fp_fills := s\<rparr>,
                 pr_steps := pr_steps r @ [Fs_poll (pe_fault env n) (pe_trade_id env n) (pe_account env)
                                             broker_order_id cumulative avg_price date]\<rparr>
      in case res of
           Inl e \<Rightarrow> (Inl (Poll_apply e), r')
         | Inr delta \<Rightarrow> (Inr delta, if 0 < delta then r'\<lparr>pr_applied := pr_applied r + 1\<rparr> else r'))"

subsection \<open>Checking what the fallback did\<close>

definition emit_late_ccld_alert ::
  "poll_env \<Rightarrow> string \<Rightarrow> rat \<Rightarrow> rat \<Rightarrow> string \<Rightarrow> fill_state \<Rightarrow> poll_error + poll_alert list" where
  "emit_late_ccld_alert env broker_order_id recorded observed submitted_date s =
     (if \<not> pe_has_bus env then Inr []
      else case find_by_broker_order (pe_account env) broker_order_id submitted_date (tr_table (fs_tracker s)) of
             Inl e \<Rightarrow> Inl (Poll_account e)
           | Inr None \<Rightarrow> Inr []
           | Inr (Some row) \<Rightarrow>
               Inr [Position_mismatch (pe_account env) (ot_bot_id row) (ot_symbol row) recorded observed
                      (ot_order_id row),
                    Over_attribution (ot_symbol row) broker_order_id recorded observed])"

definition verify_fallback_against_ccld ::
  "poll_env \<Rightarrow> string \<Rightarrow> rat \<Rightarrow> string \<Rightarrow> poll_run \<Rightarrow> poll_error option \<times> poll_run" where
  "verify_fallback_against_ccld env broker_order_id observed item_date r =
     (let p = pr_poller r
      in case dict_get (fp_verify p) broker_order_id of
           None \<Rightarrow> (None, r)
         | Some entry \<Rightarrow>
             if ve_submitted_date entry \<noteq> item_date then (None, r)
             else
               let popped = r\<lparr>pr_poller := p\<lparr>fp_verify := dict_pop broker_order_id (fp_verify p)\<rparr>\<rparr>
               in if 0 < observed \<and> observed < ve_recorded entry
                  then case emit_late_ccld_alert env broker_order_id (ve_recorded entry) observed
                              (ve_submitted_date entry) (fp_fills p) of
                         Inl e \<Rightarrow> (Some e, r)
                       | Inr alerts \<Rightarrow> (None, popped\<lparr>pr_alerts := pr_alerts r @ alerts\<rparr>)
                  else (None, popped))"

definition expire_stale_fallback_verify :: "string \<Rightarrow> (string, verify_entry) dict \<Rightarrow> (string, verify_entry) dict" where
  "expire_stale_fallback_verify before_date verify =
     filter (\<lambda>(_, entry). \<not> ve_submitted_date entry < before_date) verify"

subsection \<open>The history\<close>

definition item_date_of :: "string \<Rightarrow> poll_item \<Rightarrow> string" where
  "item_date_of to_date item =
     (let date = normalize_history_date (pi_timestamp item) in if date = '''' then to_date else date)"

fun poll_items :: "poll_env \<Rightarrow> poll_item list \<Rightarrow> poll_run \<Rightarrow> poll_error option \<times> poll_run" where
  "poll_items env [] r = (None, r)"
| "poll_items env (item # items) r =
     (if pi_order_id item = '''' then poll_items env items r
      else if pi_filled_quantity item \<le> 0 then poll_items env items r
      else
        let date = item_date_of (pe_today env) item
        in case verify_fallback_against_ccld env (pi_order_id item) (pi_filled_quantity item) date r of
             (Some e, r1) \<Rightarrow> (Some e, r1)
           | (None, r1) \<Rightarrow>
               (case poll_apply env (pi_order_id item) (pi_filled_quantity item) (pi_price item) date r1 of
                  (Inl e, r2) \<Rightarrow> (Some e, r2)
                | (Inr _, r2) \<Rightarrow> poll_items env items r2))"

subsection \<open>The position fallback\<close>

definition broker_quantity :: "broker_position list \<Rightarrow> string \<Rightarrow> rat" where
  "broker_quantity positions symbol =
     (if symbol = '''' then 0
      else sum_list (map bp_quantity (filter (\<lambda>bp. bp_symbol bp = symbol) positions)))"

text \<open>The first row of a symbol decides its price; \<open>get\<close> falls back to the order's price.\<close>

definition broker_avg_price :: "broker_position list \<Rightarrow> order_row \<Rightarrow> rat" where
  "broker_avg_price positions order =
     (case find (\<lambda>bp. bp_symbol bp = ot_symbol order) (filter (\<lambda>bp. bp_symbol bp \<noteq> '''') positions) of
        Some bp \<Rightarrow> bp_avg_price bp
      | None \<Rightarrow> ot_avg_fill_price order)"

definition internal_quantity :: "(position_key \<times> position) list \<Rightarrow> string \<Rightarrow> rat" where
  "internal_quantity positions symbol =
     sum_list (map (\<lambda>(_, p). ps_quantity p)
       (filter (\<lambda>((_, _, sy), p). 0 < ps_quantity p \<and> sy = symbol) positions))"

definition open_buy_count :: "order_row list \<Rightarrow> string \<Rightarrow> nat" where
  "open_buy_count open_orders symbol =
     length (filter (\<lambda>o'. ot_side o' = ''buy'' \<and> ot_symbol o' = symbol) open_orders)"

definition unrecovered_buys :: "order_row list \<Rightarrow> order_row list" where
  "unrecovered_buys open_orders =
     filter (\<lambda>o'. ot_side o' = ''buy'' \<and> ot_recorded_filled_qty o' = 0 \<and> 0 < ot_ordered_qty o') open_orders"

text \<open>
  The orders the loop over \<open>buys_by_symbol\<close> applies: the first candidate of every symbol, in the order
  the symbols appear, that is the symbol's only open buy and exactly explains the excess.
\<close>

definition fallback_plan ::
  "order_row list \<Rightarrow> broker_position list \<Rightarrow> (position_key \<times> position) list \<Rightarrow> order_row list" where
  "fallback_plan open_orders positions internal =
     filter (\<lambda>order.
         let excess = broker_quantity positions (ot_symbol order) - internal_quantity internal (ot_symbol order)
         in open_buy_count open_orders (ot_symbol order) = 1 \<and> 0 < excess \<and> excess = ot_ordered_qty order)
       (firsts ot_symbol (\<lambda>_. False) (unrecovered_buys open_orders))"

fun fallback_apply :: "poll_env \<Rightarrow> broker_position list \<Rightarrow> order_row list \<Rightarrow> poll_run \<Rightarrow> poll_error option \<times> poll_run" where
  "fallback_apply env positions [] r = (None, r)"
| "fallback_apply env positions (order # orders) r =
     (case poll_apply env (ot_broker_order_id order) (ot_ordered_qty order) (broker_avg_price positions order)
             (ot_submitted_date order) r of
        (Inl e, r') \<Rightarrow> (Some e, r')
      | (Inr delta, r') \<Rightarrow>
          let p = pr_poller r';
              entry = \<lparr>ve_recorded = ot_ordered_qty order, ve_submitted_date = ot_submitted_date order\<rparr>;
              r'' = (if 0 < delta
                     then r'\<lparr>pr_poller := p\<lparr>fp_verify := dict_set (ot_broker_order_id order) entry (fp_verify p)\<rparr>\<rparr>
                     else r')
          in fallback_apply env positions orders r'')"

definition apply_position_fallback :: "poll_env \<Rightarrow> poll_run \<Rightarrow> poll_error option \<times> poll_run" where
  "apply_position_fallback env r =
     (let s = fp_fills (pr_poller r)
      in if \<not> (pe_fallback_enabled env \<and> pe_has_trade_service env) then (None, r)
         else if \<not> pe_is_paper env then (None, r)
         else case get_open_orders (pe_account env) (fs_tracker s) of
                Inl e \<Rightarrow> (Some (Poll_account e), r)
              | Inr open_orders \<Rightarrow>
                  if unrecovered_buys open_orders = [] then (None, r)
                  else case pe_positions env of
                         Inl e \<Rightarrow> (Some e, r)
                       | Inr positions \<Rightarrow>
                           (case get_all_positions (Some (pe_account env)) (fs_positions s) of
                              Inl e \<Rightarrow> (Some (Poll_account e), r)
                            | Inr internal \<Rightarrow>
                                fallback_apply env positions (fallback_plan open_orders positions internal) r))"

subsection \<open>A poll\<close>

definition poll_expire :: "poll_env \<Rightarrow> poll_run \<Rightarrow> poll_error option \<times> poll_run" where
  "poll_expire env r =
     (let p = pr_poller r; s = fp_fills p
      in case expire_stale (pe_account env) (pe_today env) (fs_tracker s) of
           Inl e \<Rightarrow> (Some (Poll_account e), r)
         | Inr (_, t) \<Rightarrow>
             (None, r\<lparr>pr_poller := p\<lparr>fp_fills := s\<lparr>fs_tracker := t\<rparr>,
                                     fp_verify := expire_stale_fallback_verify (pe_today env) (fp_verify p)\<rparr>,
                      pr_steps := pr_steps r @ [Fs_expire (pe_account env) (pe_today env)]\<rparr>))"

text \<open>\<open>_poll_and_apply\<close>: without open orders and entries to verify the broker is not asked.\<close>

definition poll_and_apply :: "poll_env \<Rightarrow> fill_poller \<Rightarrow> poll_error option \<times> poll_run" where
  "poll_and_apply env p =
     (let r = start_poll p
      in case get_open_orders (pe_account env) (fs_tracker (fp_fills p)) of
           Inl e \<Rightarrow> (Some (Poll_account e), r)
         | Inr open_orders \<Rightarrow>
             if open_orders = [] \<and> fp_verify p = [] then (None, r)
             else
               let dates = map ot_submitted_date open_orders @ map ve_submitted_date (dict_values (fp_verify p));
                   from_date = Min (set dates)
               in case pe_history env from_date (pe_today env) of
                    Inl e \<Rightarrow> (Some e, r)
                  | Inr history \<Rightarrow>
                      (case poll_items env history r of
                         (Some e, r1) \<Rightarrow> (Some e, r1)
                       | (None, r1) \<Rightarrow>
                           (case apply_position_fallback env r1 of
                              (Some e, r2) \<Rightarrow> (Some e, r2)
                            | (None, r2) \<Rightarrow> poll_expire env r2)))"

subsection \<open>Start-up and the loop\<close>

record catch_up_result =
  cu_succeeded :: bool
  cu_applied :: nat

definition catch_up_max_attempts :: nat where "catch_up_max_attempts = 3"

definition catch_up_backoff_base :: rat where "catch_up_backoff_base = 1"

text \<open>The attempts \<open>ns\<close> with their environments; the waits between them are collected.\<close>

fun catch_up_attempts ::
  "(nat \<Rightarrow> poll_env) \<Rightarrow> nat list \<Rightarrow> rat list \<Rightarrow> fill_poller \<Rightarrow> catch_up_result \<times> rat list \<times> fill_poller" where
  "catch_up_attempts envs [] waits p = (\<lparr>cu_succeeded = False, cu_applied = 0\<rparr>, waits, p)"
| "catch_up_attempts envs (n # ns) waits p =
     (case poll_and_apply (envs n) p of
        (None, r) \<Rightarrow> (\<lparr>cu_succeeded = True, cu_applied = pr_applied r\<rparr>, waits, pr_poller r)
      | (Some _, r) \<Rightarrow>
          catch_up_attempts envs ns
            (if n < catch_up_max_attempts then waits @ [catch_up_backoff_base * of_nat n] else waits)
            (pr_poller r))"

definition poller_catch_up ::
  "(nat \<Rightarrow> poll_env) \<Rightarrow> fill_poller \<Rightarrow> catch_up_result \<times> rat list \<times> fill_poller" where
  "poller_catch_up envs p = catch_up_attempts envs [1..<catch_up_max_attempts + 1] [] p"

definition min_poll_interval :: rat where "min_poll_interval = 60"

definition poll_interval_of :: "rat \<Rightarrow> rat" where
  "poll_interval_of poll_interval = max poll_interval min_poll_interval"

definition poll_loop_backoff_cap :: nat where "poll_loop_backoff_cap = 8"

definition poll_sleep :: "rat \<Rightarrow> nat \<Rightarrow> rat" where
  "poll_sleep poll_interval failures =
     (if 0 < failures then poll_interval_of poll_interval * of_nat (min (2 ^ failures) poll_loop_backoff_cap)
      else poll_interval_of poll_interval)"

text \<open>\<open>TimeoutError\<close>, \<open>CircuitOpenError\<close>, \<open>APIError\<close> and connection errors come from the broker.\<close>

fun is_transient :: "poll_error \<Rightarrow> bool" where
  "is_transient (Poll_broker transient) = transient"
| "is_transient _ = False"

definition poll_loop_turn :: "poll_env \<Rightarrow> nat \<times> fill_poller \<Rightarrow> nat \<times> fill_poller" where
  "poll_loop_turn env s =
     (let (failures, p) = s
      in case poll_and_apply env p of
           (None, r) \<Rightarrow> (0, pr_poller r)
         | (Some e, r) \<Rightarrow> (if is_transient e then failures + 1 else 0, pr_poller r))"

end
