(* ===== verification/Polling_Properties.thy ===== *)
theory Polling_Properties
  imports Fill_Polling Fill_Exactly_Once
begin

text \<open>
  What a poll does to the fills: it is a run of the fill pipeline, it recovers what the history reports
  before anything expires, and the position fallback explains exactly the broker's excess.
\<close>

subsection \<open>A poll is a run\<close>

text \<open>\<open>follows s r\<close>: the fills of \<open>r\<close> are those of \<open>s\<close> after its steps, with the ids of the poll.\<close>

fun poll_step_ok :: "poll_env \<Rightarrow> nat \<Rightarrow> fill_event \<Rightarrow> bool" where
  "poll_step_ok env n (Fs_poll fault tid acct _ _ _ _) =
     (fault = pe_fault env n \<and> tid = pe_trade_id env n \<and> acct = pe_account env)"
| "poll_step_ok env n (Fs_expire acct date) = (acct = pe_account env \<and> date = pe_today env)"
| "poll_step_ok env n _ = False"

definition follows :: "poll_env \<Rightarrow> fill_state \<Rightarrow> poll_run \<Rightarrow> bool" where
  "follows env s r \<longleftrightarrow>
     fp_fills (pr_poller r) = run fill_step s (pr_steps r) \<and>
     (\<forall>n<length (pr_steps r). poll_step_ok env n (pr_steps r ! n))"

lemma follows_step:
  assumes "follows env s r" and "poll_step_ok env (length (pr_steps r)) e"
    and "pr_steps r' = pr_steps r @ [e]" and "fp_fills (pr_poller r') = fill_step (fp_fills (pr_poller r)) e"
  shows "follows env s r'"
  using assms by (auto simp: follows_def run_append nth_append less_Suc_eq)

lemma follows_same:
  "follows env s r \<Longrightarrow> pr_steps r' = pr_steps r \<Longrightarrow> fp_fills (pr_poller r') = fp_fills (pr_poller r) \<Longrightarrow> follows env s r'"
  by (simp add: follows_def)

text \<open>The event of an application, and what it leaves besides the fills.\<close>

definition poll_event_of :: "poll_env \<Rightarrow> nat \<Rightarrow> string \<Rightarrow> rat \<Rightarrow> rat \<Rightarrow> string \<Rightarrow> fill_event" where
  "poll_event_of env n odno cum avg date =
     Fs_poll (pe_fault env n) (pe_trade_id env n) (pe_account env) odno cum avg date"

lemma poll_apply_cases:
  assumes "poll_apply env odno cum avg date r = (res, r')"
  shows "pr_steps r' = pr_steps r @ [poll_event_of env (length (pr_steps r)) odno cum avg date]"
    and "fp_fills (pr_poller r') =
      fill_step (fp_fills (pr_poller r)) (poll_event_of env (length (pr_steps r)) odno cum avg date)"
    and "fp_verify (pr_poller r') = fp_verify (pr_poller r)"
  using assms
  by (auto simp: poll_apply_def poll_event_of_def Let_def split: prod.splits sum.splits)

lemma poll_apply_follows:
  assumes "follows env s r" and "poll_apply env odno cum avg date r = (res, r')"
  shows "follows env s r'"
  by (rule follows_step [OF assms(1) _ poll_apply_cases(1,2) [OF assms(2)]]) (simp add: poll_event_of_def)

lemma verify_same:
  assumes "verify_fallback_against_ccld env odno obs date r = (e, r')"
  shows "pr_steps r' = pr_steps r" and "fp_fills (pr_poller r') = fp_fills (pr_poller r)"
  using assms
  by (auto simp: verify_fallback_against_ccld_def Let_def split: option.splits if_splits sum.splits)

lemma poll_items_follows:
  "follows env s r \<Longrightarrow> poll_items env items r = (e, r') \<Longrightarrow> follows env s r'"
proof (induction env items r rule: poll_items.induct)
  case (2 env item items r)
  show ?case
  proof (cases "pi_order_id item = '''' \<or> pi_filled_quantity item \<le> 0")
    case True
    then show ?thesis using 2 by (auto split: if_splits)
  next
    case False
    obtain e1 r1 where v: "verify_fallback_against_ccld env (pi_order_id item) (pi_filled_quantity item)
        (item_date_of (pe_today env) item) r = (e1, r1)" by fastforce
    obtain res r2 where a: "poll_apply env (pi_order_id item) (pi_filled_quantity item) (pi_price item)
        (item_date_of (pe_today env) item) r1 = (res, r2)" by fastforce
    have f1: "follows env s r1" using follows_same [OF 2(4) verify_same [OF v]] .
    from poll_apply_follows [OF this a] have f2: "follows env s r2" .
    show ?thesis using 2(3) [OF _ _ refl v [symmetric] _ a [symmetric]] 2(5) False v a f1 f2
      by (auto simp: Let_def split: option.splits sum.splits)
  qed
qed simp

lemma fallback_apply_follows:
  "follows env s r \<Longrightarrow> fallback_apply env positions orders r = (e, r') \<Longrightarrow> follows env s r'"
proof (induction env positions orders r rule: fallback_apply.induct)
  case (2 env positions order orders r)
  obtain res r1 where a: "poll_apply env (ot_broker_order_id order) (ot_ordered_qty order)
      (broker_avg_price positions order) (ot_submitted_date order) r = (res, r1)" by fastforce
  from poll_apply_follows [OF 2(2) a] have f1: "follows env s r1" .
  show ?case
  proof (cases res)
    case (Inl x)
    with 2(3) a f1 show ?thesis by simp
  next
    case (Inr delta)
    let ?r = "if 0 < delta then r1\<lparr>pr_poller := (pr_poller r1)\<lparr>fp_verify := dict_set (ot_broker_order_id order)
        \<lparr>ve_recorded = ot_ordered_qty order, ve_submitted_date = ot_submitted_date order\<rparr> (fp_verify (pr_poller r1))\<rparr>\<rparr>
      else r1"
    have "follows env s ?r" by (rule follows_same [OF f1]) simp_all
    from 2(1) [OF a [symmetric] Inr refl refl refl this] 2(3) a Inr show ?thesis by (simp add: Let_def)
  qed
qed simp

lemma position_fallback_follows:
  "follows env s r \<Longrightarrow> apply_position_fallback env r = (e, r') \<Longrightarrow> follows env s r'"
  by (auto simp: apply_position_fallback_def Let_def split: if_splits sum.splits intro: fallback_apply_follows)

lemma poll_expire_follows:
  assumes "follows env s r" and "poll_expire env r = (e, r')"
  shows "follows env s r'"
proof (cases "expire_stale (pe_account env) (pe_today env) (fs_tracker (fp_fills (pr_poller r)))")
  case (Inl x)
  with assms show ?thesis by (simp add: poll_expire_def Let_def)
next
  case (Inr nt)
  obtain n t where "nt = (n, t)" by (cases nt)
  with assms Inr show ?thesis
    by (intro follows_step [OF assms(1), of "Fs_expire (pe_account env) (pe_today env)"])
      (auto simp: poll_expire_def Let_def)
qed

lemma poll_cases:
  assumes "poll_and_apply env p = (e, r)"
  obtains (idle) "r = start_poll p" "e = None \<Longrightarrow> get_open_orders (pe_account env) (fs_tracker (fp_fills p)) = Inr []"
  | (items) d history where "pe_history env d (pe_today env) = Inr history"
      "poll_items env history (start_poll p) = (e, r)" "e \<noteq> None"
  | (fallback) d history r1 where "pe_history env d (pe_today env) = Inr history"
      "poll_items env history (start_poll p) = (None, r1)" "apply_position_fallback env r1 = (e, r)" "e \<noteq> None"
  | (complete) d history r1 r2 where "pe_history env d (pe_today env) = Inr history"
      "poll_items env history (start_poll p) = (None, r1)" "apply_position_fallback env r1 = (None, r2)"
      "poll_expire env r2 = (e, r)"
proof (cases "get_open_orders (pe_account env) (fs_tracker (fp_fills p))")
  case (Inl x)
  with assms show thesis by (intro idle) (auto simp: poll_and_apply_def Let_def)
next
  case (Inr orders)
  show thesis
  proof (cases "orders = [] \<and> fp_verify p = []")
    case True
    with assms Inr show thesis by (intro idle) (auto simp: poll_and_apply_def Let_def)
  next
    case False
    define d where "d = Min (set (map ot_submitted_date orders @ map ve_submitted_date (dict_values (fp_verify p))))"
    obtain e1 r1 where i: "\<And>h. pe_history env d (pe_today env) = Inr h \<Longrightarrow> poll_items env h (start_poll p) = (e1, r1)"
      by (cases "pe_history env d (pe_today env)"; cases "poll_items env (projr (pe_history env d (pe_today env))) (start_poll p)") auto
    obtain e2 r2 where f: "apply_position_fallback env r1 = (e2, r2)" by fastforce
    note eq = assms [unfolded poll_and_apply_def Let_def, simplified Inr sum.case if_not_P [OF False] d_def [symmetric]]
    show thesis
    proof (cases "pe_history env d (pe_today env)")
      case (Inl x)
      with eq show thesis by (intro idle) auto
    next
      case (Inr h)
      with eq i [OF Inr] f items [OF Inr] fallback [OF Inr] complete [OF Inr] show thesis
        by (cases e1; cases e2) auto
    qed
  qed
qed

lemma poll_and_apply_follows:
  assumes "poll_and_apply env p = (e, r)"
  shows "follows env (fp_fills p) r"
proof -
  have s: "follows env (fp_fills p) (start_poll p)" by (simp add: follows_def start_poll_def)
  from assms show ?thesis
    by (cases rule: poll_cases)
      (use s in \<open>metis poll_items_follows position_fallback_follows poll_expire_follows\<close>)+
qed

subsection \<open>Trade ids\<close>

lemma fill_trades_step:
  assumes "dict_get (fs_trades (fill_step s (Fs_poll fault tid acct odno cum avg date))) k = Some td"
  shows "k = tid \<or> dict_get (fs_trades s) k = Some td"
proof -
  consider "fill_step s (Fs_poll fault tid acct odno cum avg date) = s"
    | oid row where "tracked acct odno date (tr_table (fs_tracker s)) = Inr (Some (oid, row))"
        "\<not> is_invalid_account_id (Some acct)"
        "fill_step s (Fs_poll fault tid acct odno cum avg date) = snd (apply_locked fault tid row oid cum avg acct s)"
  proof (cases "is_invalid_account_id (Some acct)")
    case True
    then obtain x where "require_account_id ''fill_applier.apply_cumulative'' (Some acct) = Inl x"
      using require_account_id_Inl by blast
    with that(1) show thesis by (simp add: apply_cumulative_def)
  next
    case False
    show thesis
    proof (cases "\<exists>oid row. tracked acct odno date (tr_table (fs_tracker s)) = Inr (Some (oid, row))")
      case True
      then obtain oid row where "tracked acct odno date (tr_table (fs_tracker s)) = Inr (Some (oid, row))" by blast
      with False that(2) show thesis by (simp add: apply_cumulative_def)
    next
      case None: False
      with False that(1) show thesis
        by (auto simp: apply_cumulative_def split: sum.splits option.splits)
    qed
  qed
  then show ?thesis
  proof cases
    case 2
    obtain res s' where al: "apply_locked fault tid row oid cum avg acct s = (res, s')" by fastforce
    from al tracked_Some(1) [OF 2(1)] 2(2) show ?thesis
      by (cases rule: apply_locked_cases)
        (use assms 2(3) al in \<open>auto simp: advanced_def Let_def publish_filled_def save_trade_def fill_trade_def split: if_splits\<close>)
  qed (use assms in simp)
qed

lemma poll_steps_admissible:
  assumes "\<forall>n<length es. poll_step_ok env (k + n) (es ! n)"
    and "inj (pe_trade_id env)" and "\<forall>n. k \<le> n \<longrightarrow> dict_get (fs_trades s) (pe_trade_id env n) = None"
  shows "admissible fill_step fresh_trade_id s es"
  using assms(1,3)
proof (induction es arbitrary: s k)
  case (Cons e es)
  have e: "poll_step_ok env k e" using Cons.prems(1) by force
  have es: "\<forall>n<length es. poll_step_ok env (Suc k + n) (es ! n)" using Cons.prems(1) by force
  have "fresh_trade_id s e" using e Cons.prems(2) by (cases e) auto
  moreover have "dict_get (fs_trades (fill_step s e)) (pe_trade_id env n) = None" if "Suc k \<le> n" for n
  proof (rule ccontr)
    assume "dict_get (fs_trades (fill_step s e)) (pe_trade_id env n) \<noteq> None"
    then obtain td where td: "dict_get (fs_trades (fill_step s e)) (pe_trade_id env n) = Some td" by blast
    show False
    proof (cases e)
      case (Fs_poll fault tid acct odno cum avg date)
      with fill_trades_step td e have "pe_trade_id env n = pe_trade_id env k \<or> dict_get (fs_trades s) (pe_trade_id env n) = Some td"
        by fastforce
      with assms(2) that Cons.prems(2) show False by (auto dest: injD)
    next
      case (Fs_expire acct date)
      with td that Cons.prems(2) show False by simp
    qed (use e in auto)
  qed
  ultimately show ?case using Cons.IH [OF es] by simp
qed simp

subsection \<open>The steps of a poll\<close>

text \<open>
  Stated without the poller's loops: what the broker's history reports, what the broker's positions
  explain beyond it, and the observations they become, numbered in the order they are applied.
\<close>

type_synonym observation = "string \<times> rat \<times> rat \<times> string"

definition reported_rows :: "string \<Rightarrow> poll_item list \<Rightarrow> observation list" where
  "reported_rows today history =
     map (\<lambda>i. (pi_order_id i, pi_filled_quantity i, pi_price i,
               if normalize_history_date (pi_timestamp i) = '''' then today
               else normalize_history_date (pi_timestamp i)))
       (filter (\<lambda>i. pi_order_id i \<noteq> '''' \<and> 0 < pi_filled_quantity i) history)"

definition explained :: "poll_env \<Rightarrow> fill_state \<Rightarrow> observation list" where
  "explained env s =
     (case (get_open_orders (pe_account env) (fs_tracker s), pe_positions env,
            get_all_positions (Some (pe_account env)) (fs_positions s)) of
        (Inr open_orders, Inr positions, Inr internal) \<Rightarrow>
          if pe_fallback_enabled env \<and> pe_has_trade_service env \<and> pe_is_paper env
          then map (\<lambda>o'. (ot_broker_order_id o', ot_ordered_qty o', broker_avg_price positions o', ot_submitted_date o'))
                 (fallback_plan open_orders positions internal)
          else []
      | _ \<Rightarrow> [])"

definition observations :: "poll_env \<Rightarrow> observation list \<Rightarrow> fill_event list" where
  "observations env obs =
     map (\<lambda>(n, odno, cum, avg, date). Fs_poll (pe_fault env n) (pe_trade_id env n) (pe_account env) odno cum avg date)
       (enumerate 0 obs)"

lemma observations_Nil [simp]: "observations env [] = []"
  by (simp add: observations_def)

lemma observations_snoc:
  "observations env (obs @ [(odno, cum, avg, date)]) =
     observations env obs @ [poll_event_of env (length obs) odno cum avg date]"
  by (simp add: observations_def enumerate_append_eq poll_event_of_def)

lemma length_observations [simp]: "length (observations env obs) = length obs"
  by (simp add: observations_def)

text \<open>The dates the poller asks the history from: those of open orders and of fills to be verified.\<close>

definition awaited_dates :: "order_row list \<Rightarrow> fill_poller \<Rightarrow> string set" where
  "awaited_dates open_orders p =
     ot_submitted_date ` set open_orders \<union> ve_submitted_date ` set (dict_values (fp_verify p))"

definition poll_steps_ok :: "poll_env \<Rightarrow> fill_poller \<Rightarrow> poll_error option \<Rightarrow> fill_event list \<Rightarrow> bool" where
  "poll_steps_ok env p e steps \<longleftrightarrow>
     steps = [] \<and> (e = None \<longrightarrow> get_open_orders (pe_account env) (fs_tracker (fp_fills p)) = Inr [] \<and> fp_verify p = []) \<or>
     (\<exists>open_orders d history.
        get_open_orders (pe_account env) (fs_tracker (fp_fills p)) = Inr open_orders \<and>
        d \<in> awaited_dates open_orders p \<and> (\<forall>d'\<in>awaited_dates open_orders p. d \<le> d') \<and>
        pe_history env d (pe_today env) = Inr history \<and>
        (let seen = reported_rows (pe_today env) history;
             obs = seen @ explained env (run fill_step (fp_fills p) (observations env seen))
         in if e = None then steps = observations env obs @ [Fs_expire (pe_account env) (pe_today env)]
            else \<exists>k\<le>length obs. steps = observations env (take k obs)))"

definition applied_some :: "poll_env \<Rightarrow> poll_error option \<Rightarrow> observation list \<Rightarrow> observation list \<Rightarrow> poll_run \<Rightarrow> bool" where
  "applied_some env e before obs r \<longleftrightarrow>
     (\<exists>k\<le>length obs. pr_steps r = observations env (before @ take k obs) \<and> (e = None \<longrightarrow> k = length obs))"

lemma applied_some_Cons:
  assumes "applied_some env e (before @ [x]) obs r"
  shows "applied_some env e before (x # obs) r"
proof -
  obtain k where "k \<le> length obs" "pr_steps r = observations env ((before @ [x]) @ take k obs)"
    "e = None \<longrightarrow> k = length obs" using assms unfolding applied_some_def by blast
  then show ?thesis unfolding applied_some_def by (intro exI [of _ "Suc k"]) simp
qed

lemma applied_some_first:
  "pr_steps r = observations env (before @ [x]) \<Longrightarrow> applied_some env (Some e) before (x # obs) r"
  unfolding applied_some_def by (intro exI [of _ 1]) simp

lemma applied_some_none:
  "pr_steps r = observations env before \<Longrightarrow> applied_some env (Some e) before obs r"
  unfolding applied_some_def by (intro exI [of _ 0]) simp

lemma applied_some_nothing: "applied_some env e before [] r \<longleftrightarrow> pr_steps r = observations env before"
  by (simp add: applied_some_def)

lemma poll_items_observations:
  "poll_items env items r = (e, r') \<Longrightarrow> pr_steps r = observations env before \<Longrightarrow>
     applied_some env e before (reported_rows (pe_today env) items) r'"
proof (induction env items r arbitrary: before rule: poll_items.induct)
  case (1 env r)
  then show ?case by (simp add: reported_rows_def applied_some_nothing)
next
  case (2 env item items r)
  show ?case
  proof (cases "pi_order_id item = '''' \<or> pi_filled_quantity item \<le> 0")
    case True
    then have "poll_items env items r = (e, r')" using 2(4) by (auto split: if_splits)
    moreover have "reported_rows (pe_today env) (item # items) = reported_rows (pe_today env) items"
      using True by (auto simp: reported_rows_def)
    ultimately show ?thesis using 2(1,2,5) True by (cases "pi_order_id item = ''''") auto
  next
    case False
    let ?date = "item_date_of (pe_today env) item"
    obtain e1 r1 where v: "verify_fallback_against_ccld env (pi_order_id item) (pi_filled_quantity item)
        ?date r = (e1, r1)" by fastforce
    obtain res r2 where a: "poll_apply env (pi_order_id item) (pi_filled_quantity item) (pi_price item)
        ?date r1 = (res, r2)" by fastforce
    let ?x = "(pi_order_id item, pi_filled_quantity item, pi_price item, ?date)"
    have rep: "reported_rows (pe_today env) (item # items) = ?x # reported_rows (pe_today env) items"
      using False by (simp add: reported_rows_def item_date_of_def Let_def)
    have s1: "pr_steps r1 = observations env before" using verify_same(1) [OF v] 2(5) by simp
    have s2: "pr_steps r2 = observations env (before @ [?x])"
      using poll_apply_cases(1) [OF a] by (simp add: s1 observations_snoc)
    show ?thesis
    proof (cases e1)
      case (Some x)
      with 2(4) False v have "e = Some x" "r' = r1" by (auto simp: Let_def)
      with s1 show ?thesis by (simp add: applied_some_none)
    next
      case None
      show ?thesis
      proof (cases res)
        case (Inl x)
        with 2(4) False v a None have "e = Some x" "r' = r2" by (auto simp: Let_def)
        with s2 show ?thesis unfolding rep by (simp add: applied_some_first)
      next
        case (Inr d)
        with 2(4) False v a None have "poll_items env items r2 = (e, r')" by (auto simp: Let_def)
        with 2(3) [OF _ _ refl v [symmetric] _ a [symmetric]] s2 False None Inr
        have "applied_some env e (before @ [?x]) (reported_rows (pe_today env) items) r'" by auto
        then show ?thesis unfolding rep by (rule applied_some_Cons)
      qed
    qed
  qed
qed

lemma fallback_apply_observations:
  "fallback_apply env positions orders r = (e, r') \<Longrightarrow> pr_steps r = observations env before \<Longrightarrow>
     applied_some env e before
       (map (\<lambda>o'. (ot_broker_order_id o', ot_ordered_qty o', broker_avg_price positions o', ot_submitted_date o')) orders) r'"
proof (induction env positions orders r arbitrary: before rule: fallback_apply.induct)
  case (1 env positions r)
  then show ?case by (simp add: applied_some_nothing)
next
  case (2 env positions order orders r)
  obtain res r1 where a: "poll_apply env (ot_broker_order_id order) (ot_ordered_qty order)
      (broker_avg_price positions order) (ot_submitted_date order) r = (res, r1)" by fastforce
  let ?x = "(ot_broker_order_id order, ot_ordered_qty order, broker_avg_price positions order, ot_submitted_date order)"
  have s1: "pr_steps r1 = observations env (before @ [?x])"
    using poll_apply_cases(1) [OF a] 2(3) by (simp add: observations_snoc)
  show ?case
  proof (cases res)
    case (Inl x)
    with 2(2) a have "e = Some x" "r' = r1" by auto
    with s1 show ?thesis by (simp add: applied_some_first)
  next
    case (Inr delta)
    let ?r = "if 0 < delta then r1\<lparr>pr_poller := (pr_poller r1)\<lparr>fp_verify := dict_set (ot_broker_order_id order)
        \<lparr>ve_recorded = ot_ordered_qty order, ve_submitted_date = ot_submitted_date order\<rparr> (fp_verify (pr_poller r1))\<rparr>\<rparr>
      else r1"
    have "fallback_apply env positions orders ?r = (e, r')" using 2(2) a Inr by (simp add: Let_def)
    moreover have "pr_steps ?r = observations env (before @ [?x])" using s1 by simp
    ultimately have "applied_some env e (before @ [?x]) (map (\<lambda>o'. (ot_broker_order_id o', ot_ordered_qty o',
        broker_avg_price positions o', ot_submitted_date o')) orders) r'"
      by (rule 2(1) [OF a [symmetric] Inr refl refl refl])
    then show ?thesis unfolding list.map by (rule applied_some_Cons)
  qed
qed

lemma fallback_plan_none: "unrecovered_buys open_orders = [] \<Longrightarrow> fallback_plan open_orders positions internal = []"
  by (simp add: fallback_plan_def)

lemma position_fallback_observations:
  assumes "apply_position_fallback env r = (e, r')" and "pr_steps r = observations env before"
  shows "applied_some env e before (explained env (fp_fills (pr_poller r))) r'"
proof -
  let ?s = "fp_fills (pr_poller r)"
  show ?thesis
  proof (cases "pe_fallback_enabled env \<and> pe_has_trade_service env \<and> pe_is_paper env")
    case False
    then have "e = None" "r' = r" "explained env ?s = []"
      using assms(1) by (auto simp: apply_position_fallback_def explained_def Let_def split: if_splits sum.splits)
    with assms(2) show ?thesis by (simp add: applied_some_nothing)
  next
    case True
    show ?thesis
    proof (cases "get_open_orders (pe_account env) (fs_tracker ?s)")
      case (Inl x)
      with True assms show ?thesis
        by (auto simp: apply_position_fallback_def Let_def intro: applied_some_none)
    next
      case (Inr open_orders)
      show ?thesis
      proof (cases "unrecovered_buys open_orders = []")
        case unrecovered: True
        then have "e = None" "r' = r" "explained env ?s = []"
          using assms(1) True Inr
          by (auto simp: apply_position_fallback_def explained_def Let_def fallback_plan_none split: sum.splits)
        with assms(2) show ?thesis by (simp add: applied_some_nothing)
      next
        case unrecovered: False
        show ?thesis
        proof (cases "\<exists>positions internal. pe_positions env = Inr positions
            \<and> get_all_positions (Some (pe_account env)) (fs_positions ?s) = Inr internal")
          case False
          with True Inr unrecovered assms show ?thesis
            by (auto simp: apply_position_fallback_def Let_def intro: applied_some_none split: sum.splits)
        next
          case reads: True
          then obtain positions internal where r: "pe_positions env = Inr positions"
            "get_all_positions (Some (pe_account env)) (fs_positions ?s) = Inr internal" by blast
          have "fallback_apply env positions (fallback_plan open_orders positions internal) r = (e, r')"
            using assms(1) True Inr unrecovered r by (simp add: apply_position_fallback_def Let_def)
          from fallback_apply_observations [OF this assms(2)] show ?thesis
            using True by (simp add: explained_def Inr r)
        qed
      qed
    qed
  qed
qed

lemma poll_expire_observations:
  assumes "poll_expire env r = (e, r')"
  shows "pr_steps r' = pr_steps r @ (if e = None then [Fs_expire (pe_account env) (pe_today env)] else [])"
  using assms by (auto simp: poll_expire_def Let_def split: sum.splits)

lemma poll_and_apply_steps:
  assumes "poll_and_apply env p = (e, r)"
  shows "poll_steps_ok env p e (pr_steps r)"
proof (cases "get_open_orders (pe_account env) (fs_tracker (fp_fills p))")
  case (Inl x)
  with assms show ?thesis by (auto simp: poll_and_apply_def poll_steps_ok_def Let_def start_poll_def)
next
  case (Inr orders)
  show ?thesis
  proof (cases "orders = [] \<and> fp_verify p = []")
    case True
    with assms Inr show ?thesis by (auto simp: poll_and_apply_def poll_steps_ok_def Let_def start_poll_def)
  next
    case False
    define dates where "dates = map ot_submitted_date orders @ map ve_submitted_date (dict_values (fp_verify p))"
    define d where "d = Min (set dates)"
    have dates: "set dates = awaited_dates orders p" by (simp add: dates_def awaited_dates_def image_image)
    have "set dates \<noteq> {}" using False by (auto simp: dates_def)
    then have from_date: "d \<in> awaited_dates orders p" "\<forall>d'\<in>awaited_dates orders p. d \<le> d'"
      unfolding dates [symmetric] d_def by (auto intro: Min_in)
    note eq = assms [unfolded poll_and_apply_def Let_def, simplified Inr sum.case if_not_P [OF False],
        folded dates_def, folded d_def]
    show ?thesis
    proof (cases "pe_history env d (pe_today env)")
      case (Inl x)
      with eq show ?thesis by (auto simp: poll_steps_ok_def start_poll_def)
    next
      case hist: (Inr history)
      let ?seen = "reported_rows (pe_today env) history"
      let ?obs = "?seen @ explained env (run fill_step (fp_fills p) (observations env ?seen))"
      have ok: "poll_steps_ok env p e (pr_steps r)"
        if "if e = None then pr_steps r = observations env ?obs @ [Fs_expire (pe_account env) (pe_today env)]
            else \<exists>k\<le>length ?obs. pr_steps r = observations env (take k ?obs)"
        unfolding poll_steps_ok_def Let_def using Inr from_date hist that by blast
      obtain e1 r1 where items: "poll_items env history (start_poll p) = (e1, r1)" by fastforce
      have s0: "pr_steps (start_poll p) = observations env []" by (simp add: start_poll_def)
      from poll_items_observations [OF items s0] have i: "applied_some env e1 [] ?seen r1" .
      have f1: "follows env (fp_fills p) r1"
        by (rule poll_items_follows [OF _ items]) (simp add: follows_def start_poll_def)
      show ?thesis
      proof (cases e1)
        case (Some x)
        with eq hist items have er: "e = Some x" "r = r1" by auto
        from i obtain k where k: "k \<le> length ?seen" "pr_steps r1 = observations env (take k ?seen)"
          unfolding applied_some_def by auto
        show ?thesis
          by (rule ok) (use k er in \<open>auto intro!: exI [of _ k]\<close>)
      next
        case None
        with i have s1: "pr_steps r1 = observations env ?seen" by (auto simp: applied_some_def)
        with f1 have fills: "fp_fills (pr_poller r1) = run fill_step (fp_fills p) (observations env ?seen)"
          by (simp add: follows_def)
        obtain e2 r2 where fb: "apply_position_fallback env r1 = (e2, r2)" by fastforce
        from position_fallback_observations [OF fb s1] obtain k where
          k: "k \<le> length (explained env (run fill_step (fp_fills p) (observations env ?seen)))"
            "pr_steps r2 = observations env (?seen @ take k (explained env (run fill_step (fp_fills p) (observations env ?seen))))"
            "e2 = None \<Longrightarrow> k = length (explained env (run fill_step (fp_fills p) (observations env ?seen)))"
          unfolding applied_some_def fills by blast
        show ?thesis
        proof (cases e2)
          case (Some x)
          with eq hist items None fb have er: "e = Some x" "r = r2" by auto
          show ?thesis
            by (rule ok) (use k er in \<open>auto intro!: exI [of _ "length ?seen + k"]\<close>)
        next
          case e2: None
          with k have s2: "pr_steps r2 = observations env ?obs" by simp
          have "poll_expire env r2 = (e, r)" using eq hist items None fb e2 by simp
          from poll_expire_observations [OF this] s2 show ?thesis
            by (intro ok) (auto intro!: exI [of _ "length ?obs"])
        qed
      qed
    qed
  qed
qed

text \<open>
  C11. A poll, whatever the broker answers and wherever it is interrupted, does to the fills exactly
  what a run of the pipeline does, with fresh trade ids, and keeps the books consistent.  The steps
  of that run are fixed: nothing when no order is open and no fallback fill awaits its check;
  otherwise one observation for each row of the history, asked from the earliest date an open order
  or such a fill was submitted, that names an order and a filled quantity, with the row's quantity,
  price and date; then, on a paper account, one for each order the broker's positions explain, with
  its whole quantity; and last, only when everything before has succeeded, the expiry of the older
  orders.  A poll that fails has applied a prefix of these observations and expires nothing.
\<close>

theorem poll_is_run_of_pipeline:
  assumes "poll_and_apply env p = (e, r)"
    and "inj (pe_trade_id env)" and "\<forall>n. dict_get (fs_trades (fp_fills p)) (pe_trade_id env n) = None"
  shows "fp_fills (pr_poller r) = run fill_step (fp_fills p) (pr_steps r) \<and>
    poll_steps_ok env p e (pr_steps r) \<and>
    admissible fill_step fresh_trade_id (fp_fills p) (pr_steps r) \<and>
    (pipeline_inv (fp_fills p) \<longrightarrow> pipeline_inv (fp_fills (pr_poller r)))"
proof -
  have f: "follows env (fp_fills p) r" using assms(1) by (rule poll_and_apply_follows)
  then have adm: "admissible fill_step fresh_trade_id (fp_fills p) (pr_steps r)"
    using poll_steps_admissible [of "pr_steps r" env 0 "fp_fills p"] assms(2,3) by (simp add: follows_def)
  with f poll_and_apply_steps [OF assms(1)] show ?thesis
    by (auto simp: follows_def intro: pipeline.run_inv)
qed

subsection \<open>Recovery before expiry\<close>

lemma lookup_row:
  assumes "lookup_order_id acct odno date (tr_table t) = Inr (Some oid)" and "tracker_inv t"
  shows "\<exists>row. dict_get (tr_table t) oid = Some row \<and> is_open_row row \<and> ot_account_id row = acct \<and>
    ot_broker_order_id row = odno \<and> ot_submitted_date row \<le> date"
  using lookup_order_id_spec [OF assms] by auto

text \<open>An observation leaves the tracker as it was or fills an open order with that broker number.\<close>

lemma poll_tracker:
  assumes "tracker_inv (fs_tracker s)" and s'_def: "s' = fill_step s (Fs_poll fault tid acct odno obs avg date)"
  shows "fs_tracker s' = fs_tracker s \<or>
    (\<exists>oid row. dict_get (tr_table (fs_tracker s)) oid = Some row \<and> is_open_row row \<and> ot_account_id row = acct \<and>
       ot_broker_order_id row = odno \<and> ot_recorded_filled_qty row < obs \<and>
       fs_tracker s' = tracker_step (fs_tracker s) (Fill oid obs avg))"
proof (cases "\<exists>oid row. \<not> is_invalid_account_id (Some acct) \<and>
    tracked acct odno date (tr_table (fs_tracker s)) = Inr (Some (oid, row))")
  case True
  then obtain oid row where acct: "\<not> is_invalid_account_id (Some acct)"
    and t: "tracked acct odno date (tr_table (fs_tracker s)) = Inr (Some (oid, row))" by blast
  note row = tracked_Some [OF t]
  from lookup_row [OF row(2) assms(1)] row(1) have r: "is_open_row row" "ot_account_id row = acct" "ot_broker_order_id row = odno"
    by auto
  obtain res s2 where al: "apply_locked fault tid row oid obs avg acct s = (res, s2)" by fastforce
  have s': "s' = s2" using acct t al by (simp add: s'_def apply_cumulative_def)
  from al row(1) acct show ?thesis
    by (cases rule: apply_locked_cases)
      (use row(1) r s' in \<open>auto simp: advanced_def Let_def publish_filled_def simp del: tracker_step.simps\<close>)
next
  case False
  then have "s' = s" unfolding s'_def
    by (cases "is_invalid_account_id (Some acct)")
      (auto simp: apply_cumulative_def require_account_id_def split: sum.splits option.splits)
  then show ?thesis by simp
qed

text \<open>The order is tracked under its number alone, has filled at least \<open>c\<close>, and is open until then.\<close>

definition recovering :: "string \<Rightarrow> string \<Rightarrow> string \<Rightarrow> rat \<Rightarrow> string \<Rightarrow> rat \<Rightarrow> fill_state \<Rightarrow> bool" where
  "recovering acct odno oid q d0 c s \<longleftrightarrow>
     tracker_inv (fs_tracker s) \<and> sole_order acct odno oid q d0 (tr_table (fs_tracker s)) \<and>
     c \<le> recorded_of oid (fs_tracker s) \<and>
     (\<exists>row. dict_get (tr_table (fs_tracker s)) oid = Some row \<and>
        ot_status row \<in> set [OPEN, PARTIALLY_FILLED, FILLED] \<and>
        (0 < ot_recorded_filled_qty row \<longrightarrow> ot_status row \<noteq> OPEN))"

lemma recovering_step:
  assumes rec: "recovering acct odno oid q d0 c s" and q: "0 < q"
    and own: "odno' = odno \<Longrightarrow> d0 \<le> date \<and> obs \<le> q"
  shows "recovering acct odno oid q d0 (if odno' = odno then max c obs else c)
    (fill_step s (Fs_poll None tid acct odno' obs avg date))"
proof -
  define s' where "s' = fill_step s (Fs_poll None tid acct odno' obs avg date)"
  from rec have inv: "tracker_inv (fs_tracker s)"
    and sole: "sole_order acct odno oid q d0 (tr_table (fs_tracker s))" by (auto simp: recovering_def)
  from rec obtain row where row: "dict_get (tr_table (fs_tracker s)) oid = Some row"
    "ot_status row \<in> set [OPEN, PARTIALLY_FILLED, FILLED]" "0 < ot_recorded_filled_qty row \<longrightarrow> ot_status row \<noteq> OPEN"
    by (auto simp: recovering_def)
  have inv': "tracker_inv (fs_tracker s')"
    using poll_tracker [OF inv s'_def] inv tracker_step_inv by (auto simp del: tracker_step.simps)
  from poll_tracker [OF inv s'_def] have "recovering acct odno oid q d0
      (if odno' = odno then max c obs else c) s'"
  proof (elim disjE exE conjE)
    assume same: "fs_tracker s' = fs_tracker s"
    show ?thesis
    proof (cases "odno' = odno")
      case True
      have "recorded_of oid (fs_tracker s') = max (recorded_of oid (fs_tracker s)) obs"
        using poll_sole_order(3) [OF sole inv _ q] own [OF True] by (simp only: s'_def True)
      with True rec same show ?thesis by (simp add: recovering_def)
    next
      case False
      with rec same show ?thesis by (simp add: recovering_def)
    qed
  next
    fix k r
    assume k: "dict_get (tr_table (fs_tracker s)) k = Some r" "is_open_row r" "ot_account_id r = acct"
      "ot_broker_order_id r = odno'" "ot_recorded_filled_qty r < obs"
      and t: "fs_tracker s' = tracker_step (fs_tracker s) (Fill k obs avg)"
    have tab: "tr_table (fs_tracker s') = dict_set k (r\<lparr>ot_recorded_filled_qty := obs, ot_avg_fill_price := avg,
        ot_status := (if 0 < ot_ordered_qty r \<and> ot_ordered_qty r \<le> obs then FILLED else PARTIALLY_FILLED)\<rparr>)
        (tr_table (fs_tracker s))"
      using k(1,5) by (simp add: t record_fill_def Let_def)
    show ?thesis
    proof (cases "odno' = odno")
      case True
      with k sole have "k = oid" unfolding sole_order_def by blast
      have "recorded_of oid (fs_tracker s') = max (recorded_of oid (fs_tracker s)) obs"
        and "sole_order acct odno oid q d0 (tr_table (fs_tracker s'))"
        using poll_sole_order [OF sole inv _ q] own [OF True] by (simp_all only: s'_def True)
      with True \<open>k = oid\<close> rec inv' show ?thesis by (auto simp: recovering_def tab)
    next
      case False
      obtain row0 where "dict_get (tr_table (fs_tracker s)) oid = Some row0" "ot_broker_order_id row0 = odno"
        using sole unfolding sole_order_def by blast
      with False k(1,4) have ne: "k \<noteq> oid" by auto
      then have same: "dict_get (tr_table (fs_tracker s')) oid = dict_get (tr_table (fs_tracker s)) oid" by (simp add: tab)
      have "x = oid" if "dict_get (tr_table (fs_tracker s')) x = Some y" "ot_account_id y = acct" "ot_broker_order_id y = odno" for x y
      proof (cases "x = k")
        case True
        with that(1,3) k(4) False show ?thesis by (auto simp: tab)
      next
        case x: False
        then have "dict_get (tr_table (fs_tracker s)) x = Some y" using that(1) by (simp add: tab)
        with sole that(2,3) show ?thesis unfolding sole_order_def by blast
      qed
      then have "sole_order acct odno oid q d0 (tr_table (fs_tracker s'))"
        using sole unfolding sole_order_def same by blast
      with False rec inv' show ?thesis by (simp add: recovering_def recorded_of_def same)
    qed
  qed
  then show ?thesis by (simp add: s'_def)
qed

definition polls_within :: "string \<Rightarrow> string \<Rightarrow> string \<Rightarrow> rat \<Rightarrow> fill_event \<Rightarrow> bool" where
  "polls_within acct odno d0 q e \<longleftrightarrow>
     (\<exists>tid odno' obs avg date. e = Fs_poll None tid acct odno' obs avg date \<and>
        (odno' = odno \<longrightarrow> d0 \<le> date \<and> obs \<le> q))"

lemma recovering_run:
  assumes "recovering acct odno oid q d0 c s" and "0 < q" and "\<forall>e\<in>set es. polls_within acct odno d0 q e"
  shows "recovering acct odno oid q d0 c (run fill_step s es)"
    and "Fs_poll None tid acct odno obs avg date \<in> set es \<Longrightarrow> recovering acct odno oid q d0 obs (run fill_step s es)"
proof -
  have weaker: "recovering acct odno oid q d0 c' t" if "recovering acct odno oid q d0 c'' t" "c' \<le> c''" for c' c'' t
    using that by (auto simp: recovering_def)
  have keep: "recovering acct odno oid q d0 c (run fill_step s es)"
    if "recovering acct odno oid q d0 c s" "\<forall>e\<in>set es. polls_within acct odno d0 q e" for c s es
    using that
  proof (induction es arbitrary: s)
    case (Cons e es)
    then obtain tid odno' obs avg date where e: "e = Fs_poll None tid acct odno' obs avg date"
      "odno' = odno \<longrightarrow> d0 \<le> date \<and> obs \<le> q" by (auto simp: polls_within_def)
    have "recovering acct odno oid q d0 c (fill_step s e)"
      using weaker [OF recovering_step [OF Cons.prems(1) assms(2), of odno' date obs tid avg]] e by simp
    with Cons show ?case by simp
  qed simp
  show "recovering acct odno oid q d0 c (run fill_step s es)" using keep [OF assms(1,3)] .
  assume "Fs_poll None tid acct odno obs avg date \<in> set es"
  then obtain xs ys where es: "es = xs @ Fs_poll None tid acct odno obs avg date # ys" by (auto dest: split_list)
  have "recovering acct odno oid q d0 c (run fill_step s xs)" using keep [OF assms(1)] assms(3) es by simp
  from recovering_step [OF this assms(2), of odno date obs tid avg] assms(3) es
  have "recovering acct odno oid q d0 (max c obs) (run fill_step s (xs @ [Fs_poll None tid acct odno obs avg date]))"
    by (simp add: run_append polls_within_def del: fill_step.simps)
  then have "recovering acct odno oid q d0 obs (run fill_step s (xs @ [Fs_poll None tid acct odno obs avg date]))"
    by (rule weaker) simp
  from keep [OF this, of ys] assms(3) es show "recovering acct odno oid q d0 obs (run fill_step s es)"
    by (simp add: run_append del: fill_step.simps)
qed

text \<open>The events of the items and of the fallback.\<close>

definition item_event :: "poll_env \<Rightarrow> poll_item \<Rightarrow> fill_event \<Rightarrow> bool" where
  "item_event env item e \<longleftrightarrow>
     (\<exists>n. e = poll_event_of env n (pi_order_id item) (pi_filled_quantity item) (pi_price item)
                (item_date_of (pe_today env) item))"

lemma poll_items_steps:
  "poll_items env items r = (None, r') \<Longrightarrow>
     \<exists>es. pr_steps r' = pr_steps r @ es \<and> (\<forall>e\<in>set es. \<exists>item\<in>set items. item_event env item e) \<and>
          (\<forall>item\<in>set items. pi_order_id item \<noteq> '''' \<longrightarrow> 0 < pi_filled_quantity item \<longrightarrow> (\<exists>e\<in>set es. item_event env item e))"
proof (induction env items r rule: poll_items.induct)
  case (2 env item items r)
  show ?case
  proof (cases "pi_order_id item = '''' \<or> pi_filled_quantity item \<le> 0")
    case True
    then have "poll_items env items r = (None, r')" using 2(4) by (auto split: if_splits)
    then obtain es where "pr_steps r' = pr_steps r @ es" "\<forall>e\<in>set es. \<exists>item\<in>set items. item_event env item e"
      "\<forall>item\<in>set items. pi_order_id item \<noteq> '''' \<longrightarrow> 0 < pi_filled_quantity item \<longrightarrow> (\<exists>e\<in>set es. item_event env item e)"
      using True 2(1,2) by fastforce
    with True show ?thesis by (intro exI [of _ es]) auto
  next
    case False
    obtain e1 r1 where v: "verify_fallback_against_ccld env (pi_order_id item) (pi_filled_quantity item)
        (item_date_of (pe_today env) item) r = (e1, r1)" by fastforce
    obtain res r2 where a: "poll_apply env (pi_order_id item) (pi_filled_quantity item) (pi_price item)
        (item_date_of (pe_today env) item) r1 = (res, r2)" by fastforce
    from 2(4) False v a have e1: "e1 = None" and res: "\<exists>d. res = Inr d" and rest: "poll_items env items r2 = (None, r')"
      by (auto simp: Let_def split: option.splits sum.splits)
    from 2(3) [OF _ _ refl v [symmetric] e1 a [symmetric]] False res rest obtain es where es:
      "pr_steps r' = pr_steps r2 @ es" "\<forall>e\<in>set es. \<exists>item\<in>set items. item_event env item e"
      "\<forall>item\<in>set items. pi_order_id item \<noteq> '''' \<longrightarrow> 0 < pi_filled_quantity item \<longrightarrow> (\<exists>e\<in>set es. item_event env item e)"
      by blast
    let ?e = "poll_event_of env (length (pr_steps r1)) (pi_order_id item) (pi_filled_quantity item) (pi_price item)
        (item_date_of (pe_today env) item)"
    have "item_event env item ?e" unfolding item_event_def by blast
    moreover have "pr_steps r' = pr_steps r @ ?e # es"
      using es(1) poll_apply_cases(1) [OF a] verify_same(1) [OF v] by simp
    ultimately show ?thesis using es(2,3) by (intro exI [of _ "?e # es"]) auto
  qed
qed simp

lemma fallback_apply_steps:
  "fallback_apply env positions orders r = (None, r') \<Longrightarrow>
     \<exists>es. pr_steps r' = pr_steps r @ es \<and>
          (\<forall>e\<in>set es. \<exists>o'\<in>set orders. \<exists>n. e = poll_event_of env n (ot_broker_order_id o') (ot_ordered_qty o')
             (broker_avg_price positions o') (ot_submitted_date o'))"
proof (induction env positions orders r rule: fallback_apply.induct)
  case (2 env positions order orders r)
  obtain res r1 where a: "poll_apply env (ot_broker_order_id order) (ot_ordered_qty order)
      (broker_avg_price positions order) (ot_submitted_date order) r = (res, r1)" by fastforce
  with 2(2) obtain delta where res: "res = Inr delta" by (auto split: sum.splits)
  let ?r = "if 0 < delta then r1\<lparr>pr_poller := (pr_poller r1)\<lparr>fp_verify := dict_set (ot_broker_order_id order)
        \<lparr>ve_recorded = ot_ordered_qty order, ve_submitted_date = ot_submitted_date order\<rparr> (fp_verify (pr_poller r1))\<rparr>\<rparr>
      else r1"
  from 2(1) [OF a [symmetric] res refl refl refl] 2(2) a res obtain es where es: "pr_steps r' = pr_steps ?r @ es"
    "\<forall>e\<in>set es. \<exists>o'\<in>set orders. \<exists>n. e = poll_event_of env n (ot_broker_order_id o') (ot_ordered_qty o')
       (broker_avg_price positions o') (ot_submitted_date o')" by (auto simp: Let_def)
  with poll_apply_cases(1) [OF a] show ?case
    by (intro exI [of _ "poll_event_of env (length (pr_steps r)) (ot_broker_order_id order) (ot_ordered_qty order)
       (broker_avg_price positions order) (ot_submitted_date order) # es"]) (auto split: if_splits)
qed simp

lemma set_fallback_plan: "set (fallback_plan open_orders positions internal) \<subseteq> set open_orders"
  using set_firsts [of ot_symbol "\<lambda>_. False" "unrecovered_buys open_orders"]
  by (auto simp: fallback_plan_def unrecovered_buys_def)

lemma position_fallback_steps:
  assumes "apply_position_fallback env r = (None, r')"
  shows "\<exists>es orders positions. pr_steps r' = pr_steps r @ es \<and>
    (get_open_orders (pe_account env) (fs_tracker (fp_fills (pr_poller r))) = Inr orders \<or> es = []) \<and>
    (\<forall>e\<in>set es. \<exists>o'\<in>set orders. \<exists>n. e = poll_event_of env n (ot_broker_order_id o') (ot_ordered_qty o')
       (broker_avg_price positions o') (ot_submitted_date o'))"
proof (cases "r' = r")
  case True
  then show ?thesis by (intro exI [of _ "[]"]) simp
next
  case False
  with assms obtain orders positions internal where
    o: "get_open_orders (pe_account env) (fs_tracker (fp_fills (pr_poller r))) = Inr orders"
    and f: "fallback_apply env positions (fallback_plan orders positions internal) r = (None, r')"
    by (auto simp: apply_position_fallback_def Let_def split: if_splits sum.splits)
  from fallback_apply_steps [OF f] obtain es where es: "pr_steps r' = pr_steps r @ es"
    "\<forall>e\<in>set es. \<exists>o'\<in>set (fallback_plan orders positions internal). \<exists>n. e = poll_event_of env n (ot_broker_order_id o')
       (ot_ordered_qty o') (broker_avg_price positions o') (ot_submitted_date o')" by blast
  with o set_fallback_plan [of orders positions internal] show ?thesis by blast
qed

lemma sole_row:
  assumes "sole_order acct odno oid q d table" and "dict_get table oid = Some row"
  shows "ot_account_id row = acct" and "ot_broker_order_id row = odno" and "ot_ordered_qty row = q"
    and "ot_submitted_date row = d"
proof -
  from assms(1) obtain r where "dict_get table oid = Some r" "ot_account_id r = acct" "ot_broker_order_id r = odno"
    "ot_ordered_qty r = q" "ot_submitted_date r = d" unfolding sole_order_def by blast
  with assms(2) show "ot_account_id row = acct" "ot_broker_order_id row = odno" "ot_ordered_qty row = q"
    "ot_submitted_date row = d" by simp_all
qed

lemma open_orders_row:
  assumes "get_open_orders acct t = Inr orders" and "tracker_inv t" and "o' \<in> set orders"
  shows "dict_get (tr_table t) (ot_order_id o') = Some o'" and "is_open_row o'" and "ot_account_id o' = acct"
proof -
  have o: "o' \<in> set (dict_values (tr_table t))" "is_open_row o'" "ot_account_id o' = acct"
    using assms(1,3) by (auto simp: get_open_orders_def split: sum.splits)
  then obtain k where k: "dict_get (tr_table t) k = Some o'"
    using tracker_invD(1) [OF assms(2)] by (metis dict_values_ex)
  then have "ot_order_id o' = k" using tracker_invD(3) [OF assms(2)] by (auto simp: row_ok_def)
  with k o show "dict_get (tr_table t) (ot_order_id o') = Some o'" "is_open_row o'" "ot_account_id o' = acct" by auto
qed

lemma item_event_within:
  assumes "item_event env item e" and "pe_fault env = (\<lambda>_. None)"
    and "pi_order_id item = odno \<Longrightarrow> pi_filled_quantity item \<le> q \<and> d0 \<le> item_date_of (pe_today env) item"
  shows "polls_within (pe_account env) odno d0 q e"
  using assms by (auto simp: item_event_def poll_event_of_def polls_within_def)

lemma fallback_within:
  assumes sole: "sole_order acct odno oid q d0 (tr_table t)" and inv: "tracker_inv t"
    and orders: "get_open_orders acct t = Inr orders" "o' \<in> set orders" and own: "ot_broker_order_id o' = odno"
  shows "ot_ordered_qty o' = q \<and> ot_submitted_date o' = d0"
proof -
  note r = open_orders_row [OF orders(1) inv orders(2)]
  from sole r own have "ot_order_id o' = oid" unfolding sole_order_def by blast
  with sole_row [OF sole] r(1) show ?thesis by simp
qed

lemma recovering_expire:
  assumes "recovering acct odno oid q d0 c s" and "0 < c"
    and t_def: "t = fs_tracker (fill_step s (Fs_expire a d))"
  shows "c \<le> recorded_of oid t \<and> (\<exists>row. dict_get (tr_table t) oid = Some row \<and> ot_status row \<in> set [PARTIALLY_FILLED, FILLED])"
proof -
  from assms(1) obtain row where row: "dict_get (tr_table (fs_tracker s)) oid = Some row"
    "ot_status row \<in> set [OPEN, PARTIALLY_FILLED, FILLED]" "0 < ot_recorded_filled_qty row \<longrightarrow> ot_status row \<noteq> OPEN"
    and c: "c \<le> recorded_of oid (fs_tracker s)" by (auto simp: recovering_def)
  from row(1) c have "0 < ot_recorded_filled_qty row" using assms(2) by (simp add: recorded_of_def)
  with row have st: "ot_status row \<in> set [PARTIALLY_FILLED, FILLED]" by auto
  have "dict_get (tr_table t) oid = Some row"
    using row(1) st by (auto simp: t_def expire_stale_def Let_def dict_get_map_values is_stale_def split: sum.splits)
  with st c row(1) show ?thesis by (auto simp: recorded_of_def)
qed

text \<open>C12. An execution that happened while the poller was not looking is recovered before anything
  expires: when the history reports \<open>c > 0\<close> filled for an open order tracked under that number, a poll
  that completes leaves at least \<open>c\<close> recorded and the order partially or completely filled, never
  expired, however old it is.\<close>

theorem reported_fill_is_recovered:
  assumes poll: "poll_and_apply env p = (None, r)"
    and history: "\<And>d. pe_history env d (pe_today env) = Inr items" and no_fault: "pe_fault env = (\<lambda>_. None)"
    and sole: "sole_order (pe_account env) odno oid q d0 (tr_table (fs_tracker (fp_fills p)))"
    and inv: "tracker_inv (fs_tracker (fp_fills p))" and q: "0 < q"
    and row: "dict_get (tr_table (fs_tracker (fp_fills p))) oid = Some row" "ot_status row = OPEN" "ot_recorded_filled_qty row = 0"
    and item: "item \<in> set items" "pi_order_id item = odno" "odno \<noteq> ''''" "0 < pi_filled_quantity item"
    and items: "\<forall>i\<in>set items. pi_order_id i = odno \<longrightarrow> pi_filled_quantity i \<le> q \<and> d0 \<le> item_date_of (pe_today env) i"
  defines "t \<equiv> fs_tracker (fp_fills (pr_poller r))"
  shows "pi_filled_quantity item \<le> recorded_of oid t \<and>
    (\<exists>row'. dict_get (tr_table t) oid = Some row' \<and> ot_status row' \<in> set [PARTIALLY_FILLED, FILLED])"
proof -
  let ?s = "fp_fills p" and ?a = "pe_account env"
  have rec0: "recovering ?a odno oid q d0 0 ?s"
    using sole inv row by (simp add: recovering_def recorded_of_def)
  from poll show ?thesis
  proof (cases rule: poll_cases)
    case idle
    then have "get_open_orders ?a (fs_tracker ?s) = Inr []" by simp
    moreover have "ot_account_id row = ?a" using sole_row [OF sole row(1)] by simp
    moreover have "row \<in> set (dict_values (tr_table (fs_tracker ?s)))" using row(1) by (rule dict_get_in_values)
    moreover have "set (sort_key submitted_order (filter (\<lambda>r. ot_account_id r = ?a \<and> is_open_row r)
        (dict_values (tr_table (fs_tracker ?s))))) = {}"
      using calculation(1) by (simp only: get_open_orders_def split: sum.splits) (auto dest: arg_cong [of _ _ set])
    ultimately show ?thesis using row(2) by (auto simp: is_open_row_iff)
  next
    case (complete d h r1 r2)
    have h: "h = items" using history complete(1) by simp
    from poll_items_steps [OF complete(2)] obtain es where es: "pr_steps r1 = es"
      "\<forall>e\<in>set es. \<exists>i\<in>set items. item_event env i e"
      "\<forall>i\<in>set items. pi_order_id i \<noteq> '''' \<longrightarrow> 0 < pi_filled_quantity i \<longrightarrow> (\<exists>e\<in>set es. item_event env i e)"
      by (auto simp: start_poll_def h)
    have "follows env ?s (start_poll p)" by (simp add: follows_def start_poll_def)
    then have f1: "follows env ?s r1" by (rule poll_items_follows [OF _ complete(2)])
    then have s1: "fp_fills (pr_poller r1) = run fill_step ?s es" by (simp add: follows_def es(1))
    have within: "\<forall>e\<in>set es. polls_within ?a odno d0 q e"
      using es(2) items item_event_within [OF _ no_fault] by blast
    from es(3) item obtain e where "e \<in> set es" "item_event env item e" by auto
    with no_fault item(2) obtain tid price date where
      "Fs_poll None tid ?a odno (pi_filled_quantity item) price date \<in> set es"
      by (auto simp: item_event_def poll_event_of_def)
    from recovering_run(2) [OF rec0 q within this] s1
    have rec1: "recovering ?a odno oid q d0 (pi_filled_quantity item) (fp_fills (pr_poller r1))" by simp
    from position_fallback_steps [OF complete(3)] obtain fs orders positions where fs: "pr_steps r2 = pr_steps r1 @ fs"
      "get_open_orders ?a (fs_tracker (fp_fills (pr_poller r1))) = Inr orders \<or> fs = []"
      "\<forall>e\<in>set fs. \<exists>o'\<in>set orders. \<exists>n. e = poll_event_of env n (ot_broker_order_id o') (ot_ordered_qty o')
         (broker_avg_price positions o') (ot_submitted_date o')" by blast
    have "polls_within ?a odno d0 q e" if e: "e \<in> set fs" for e
    proof -
      from e fs(2) have o: "get_open_orders ?a (fs_tracker (fp_fills (pr_poller r1))) = Inr orders" by auto
      from e fs(3) obtain o' n where o': "o' \<in> set orders" "e = poll_event_of env n (ot_broker_order_id o') (ot_ordered_qty o')
         (broker_avg_price positions o') (ot_submitted_date o')" by blast
      with fallback_within [OF _ _ o o'(1), of odno oid q d0] rec1 no_fault show ?thesis
        by (auto simp: polls_within_def poll_event_of_def recovering_def)
    qed
    moreover have "fp_fills (pr_poller r2) = run fill_step (fp_fills (pr_poller r1)) fs"
      using position_fallback_follows [OF f1 complete(3)] s1 fs(1) es(1) by (simp add: follows_def run_append)
    ultimately have rec2: "recovering ?a odno oid q d0 (pi_filled_quantity item) (fp_fills (pr_poller r2))"
      using recovering_run(1) [OF rec1 q] by simp
    have "fp_fills (pr_poller r) = fill_step (fp_fills (pr_poller r2)) (Fs_expire ?a (pe_today env))"
      using complete(4) by (auto simp: poll_expire_def Let_def split: sum.splits)
    with recovering_expire [OF rec2 item(4) refl, of ?a "pe_today env"] show ?thesis by (simp add: t_def del: fill_step.simps)
  qed simp_all
qed

subsection \<open>The fallback\<close>

text \<open>What an account holds of a symbol, over all bots.\<close>

fun held_weight :: "string \<Rightarrow> string \<Rightarrow> position_key \<times> position \<Rightarrow> rat" where
  "held_weight acct symbol ((a, b, sy), p) =
     (if a = acct \<and> sy = symbol \<and> 0 < ps_quantity p then ps_quantity p else 0)"

definition held :: "string \<Rightarrow> string \<Rightarrow> position_state \<Rightarrow> rat" where
  "held acct symbol ps = sum_list (map (held_weight acct symbol) (pt_rows ps))"

definition positions_ok :: "position_state \<Rightarrow> bool" where
  "positions_ok ps \<longleftrightarrow> dict_wf (pt_rows ps) \<and> (\<forall>k p. dict_get (pt_rows ps) k = Some p \<longrightarrow> 0 \<le> ps_quantity p)"

lemma pair_sum_set:
  fixes f :: "'k \<times> 'v \<Rightarrow> 'n::ab_group_add"
  assumes "dict_wf d"
  shows "sum_list (map f (dict_set k v d)) =
    sum_list (map f d) + f (k, v) - (case dict_get d k of None \<Rightarrow> 0 | Some w \<Rightarrow> f (k, w))"
  using assms
proof (induction d)
  case (Cons x d)
  obtain k' v' where x: "x = (k', v')" by (cases x)
  with Cons show ?case by (auto simp: algebra_simps split: option.splits)
qed simp

lemma internal_quantity_held:
  assumes "get_all_positions (Some acct) ps = Inr internal"
  shows "internal_quantity internal symbol = held acct symbol ps"
proof -
  have v: "\<not> is_invalid_account_id (Some acct)"
    and i: "internal = rows_to_snapshots (filter (\<lambda>((a', _, _), p). ps_quantity p > 0 \<and> a' = acct) (pt_rows ps))"
    using assms by (auto simp: get_all_positions_def split: sum.splits)
  have "internal_quantity (rows_to_snapshots (filter (\<lambda>((a', _, _), p). ps_quantity p > 0 \<and> a' = acct) rows)) symbol =
      sum_list (map (held_weight acct symbol) rows)" for rows
    using v by (induction rows) (auto simp: internal_quantity_def rows_to_snapshots_def split: if_splits)
  then show ?thesis by (simp add: i held_def)
qed

lemma buy_trade_rows:
  assumes "on_trade td ps = Inr ps'" and "td_status td = T_FILLED" and "td_side td = ''buy''"
  shows "pt_rows ps' = upsert_position (td_account_id td, td_bot_id td, td_symbol td)
      (ps_quantity (dict_default empty_position (pt_rows ps) (td_account_id td, td_bot_id td, td_symbol td)) + td_quantity td)
      (let pos = dict_default empty_position (pt_rows ps) (td_account_id td, td_bot_id td, td_symbol td);
           n = ps_quantity pos + td_quantity td
       in if n > 0 then (ps_avg_entry_price pos * ps_quantity pos + td_price td * td_quantity td) / n else 0) 0 (pt_rows ps)"
  using assms
  by (auto simp: on_trade_def on_trade_buy_def get_current_def update_position_def save_history_def Let_def
      split: sum.splits)

lemma held_upsert:
  assumes "positions_ok ps" and "pt_rows ps' = upsert_position (a, b, sy)
      (ps_quantity (dict_default empty_position (pt_rows ps) (a, b, sy)) + qty) avg pnl (pt_rows ps)" and "0 < qty"
  shows "held acct symbol ps' = held acct symbol ps + (if a = acct \<and> sy = symbol then qty else 0)"
proof (cases "dict_get (pt_rows ps) (a, b, sy)")
  case None
  with assms show ?thesis
    by (simp add: held_def upsert_position_def pair_sum_set positions_ok_def dict_default_def empty_position_def)
next
  case (Some p)
  have "dict_wf (pt_rows ps)" and "0 \<le> ps_quantity p" using assms(1) Some unfolding positions_ok_def by blast+
  with Some assms(2,3) show ?thesis
    by (auto simp: held_def upsert_position_def pair_sum_set dict_default_def)
qed

lemma positions_ok_upsert:
  "positions_ok ps \<Longrightarrow> pt_rows ps' = upsert_position k q avg pnl (pt_rows ps) \<Longrightarrow> 0 \<le> q \<Longrightarrow> positions_ok ps'"
  by (auto simp: positions_ok_def upsert_position_def split: option.splits if_splits)

lemma positions_ok_default: "positions_ok ps \<Longrightarrow> 0 \<le> ps_quantity (dict_default empty_position (pt_rows ps) k)"
proof (cases "dict_get (pt_rows ps) k")
  case (Some p)
  assume "positions_ok ps"
  with Some have "0 \<le> ps_quantity p" unfolding positions_ok_def by blast
  with Some show ?thesis by (simp add: dict_default_def)
qed (simp add: dict_default_def empty_position_def)

lemma on_trade_positions_ok:
  assumes "on_trade td ps = Inr ps'" and "positions_ok ps" and "0 \<le> td_quantity td"
  shows "positions_ok ps'"
proof -
  consider "ps' = ps" | q avg pnl k where "pt_rows ps' = upsert_position k q avg pnl (pt_rows ps)" "0 \<le> q"
    using assms positions_ok_default [OF assms(2)]
    by (fastforce simp: on_trade_def on_trade_buy_def on_trade_sell_def get_current_def update_position_def
        save_history_def Let_def split: sum.splits if_splits)
  then show ?thesis by cases (use assms(2) positions_ok_upsert in auto)
qed

lemma apply_locked_positions_ok:
  assumes "positions_ok (fs_positions s)" and "dict_get (tr_table (fs_tracker s)) oid = Some row"
    and "\<not> is_invalid_account_id (Some acct)"
  shows "positions_ok (fs_positions (snd (apply_locked fault tid row oid obs avg acct s)))"
proof -
  obtain res s' where al: "apply_locked fault tid row oid obs avg acct s = (res, s')" by fastforce
  from al assms(2,3) show ?thesis
  proof (cases rule: apply_locked_cases)
    case (applied ps)
    then have "positions_ok ps" using on_trade_positions_ok [OF applied(3) assms(1)] by (simp add: fill_trade_def)
    with al applied show ?thesis by (simp add: advanced_def Let_def publish_filled_def)
  qed (use assms(1) al in \<open>auto simp: positions_ok_def\<close>)
qed

lemma fill_step_positions_ok:
  assumes "positions_ok (fs_positions s)"
  shows "positions_ok (fs_positions (fill_step s e))"
proof (cases e)
  case (Fs_poll fault tid acct odno obs avg date)
  with assms apply_locked_positions_ok [OF assms] show ?thesis
    by (auto simp: apply_cumulative_def split: sum.splits option.splits dest: tracked_Some)
next
  case (Fs_stream fault tid acct odno obs avg date)
  with assms apply_locked_positions_ok [OF assms] show ?thesis
    by (auto simp: apply_stream_increment_def split: sum.splits option.splits dest: tracked_Some)
next
  case (Fs_drain oc)
  with assms show ?thesis by (auto simp: catch_up_once_def split: prod.splits)
qed (use assms in \<open>auto simp: positions_ok_def\<close>)

lemma positions_ok_run: "positions_ok (fs_positions s) \<Longrightarrow> positions_ok (fs_positions (run fill_step s es))"
  by (induction es arbitrary: s) (auto intro: fill_step_positions_ok simp del: fill_step.simps)

text \<open>An open order is found under its own number and date.\<close>

lemma lookup_own:
  assumes inv: "tracker_inv t" and row: "dict_get (tr_table t) oid = Some row" "is_open_row row"
  shows "tracked (ot_account_id row) (ot_broker_order_id row) (ot_submitted_date row) (tr_table t) = Inr (Some (oid, row))"
proof -
  have "\<not> is_invalid_account_id (Some (ot_account_id row))"
    using tracker_invD(3) [OF inv row(1)] by (simp add: row_ok_def)
  then obtain res where res: "lookup_order_id (ot_account_id row) (ot_broker_order_id row) (ot_submitted_date row) (tr_table t) = Inr res"
    by (auto simp: lookup_order_id_def)
  note spec = lookup_order_id_spec [OF res inv]
  show ?thesis
  proof (cases res)
    case None
    with spec row show ?thesis by auto
  next
    case (Some k)
    with spec obtain r where r: "dict_get (tr_table t) k = Some r" "ot_submitted_date r \<le> ot_submitted_date row"
      "\<And>x r'. dict_get (tr_table t) x = Some r' \<Longrightarrow> ot_account_id r' = ot_account_id row \<Longrightarrow>
         ot_broker_order_id r' = ot_broker_order_id row \<Longrightarrow> ot_submitted_date r' \<le> ot_submitted_date row \<Longrightarrow>
         is_open_row r' \<Longrightarrow> x \<noteq> k \<Longrightarrow> ot_submitted_date r' < ot_submitted_date r" by auto
    have "k = oid"
    proof (rule ccontr)
      assume "k \<noteq> oid"
      then have "ot_submitted_date row < ot_submitted_date r" using r(3) [OF row(1)] row(2) by simp
      with r(2) show False by simp
    qed
    with Some res row(1) show ?thesis by (simp add: tracked_def get_order_def)
  qed
qed

text \<open>A buy the fallback may apply, as the table holds it.\<close>

definition recoverable :: "string \<Rightarrow> order_tracker \<Rightarrow> order_row \<Rightarrow> bool" where
  "recoverable acct t o' \<longleftrightarrow>
     dict_get (tr_table t) (ot_order_id o') = Some o' \<and> is_open_row o' \<and> ot_account_id o' = acct \<and>
     ot_side o' = ''buy'' \<and> ot_recorded_filled_qty o' = 0 \<and> 0 < ot_ordered_qty o'"

lemma apply_recoverable:
  assumes inv: "tracker_inv (fs_tracker s)" and pos: "positions_ok (fs_positions s)"
    and o': "recoverable acct (fs_tracker s) o'"
    and ap: "apply_cumulative fault tid acct (ot_broker_order_id o') (ot_ordered_qty o') avg (ot_submitted_date o') s = (Inr delta, s')"
  shows "delta = ot_ordered_qty o'" and "tracker_inv (fs_tracker s')" and "positions_ok (fs_positions s')"
    and "held acct sy (fs_positions s') = held acct sy (fs_positions s) + (if ot_symbol o' = sy then ot_ordered_qty o' else 0)"
    and "recoverable acct (fs_tracker s) x \<Longrightarrow> ot_order_id x \<noteq> ot_order_id o' \<Longrightarrow> recoverable acct (fs_tracker s') x"
proof -
  from o' have row: "dict_get (tr_table (fs_tracker s)) (ot_order_id o') = Some o'" "is_open_row o'" "ot_account_id o' = acct"
    "ot_side o' = ''buy''" "ot_recorded_filled_qty o' = 0" "0 < ot_ordered_qty o'" by (auto simp: recoverable_def)
  have acct: "\<not> is_invalid_account_id (Some acct)"
    using tracker_invD(3) [OF inv row(1)] row(3) by (simp add: row_ok_def)
  have al: "apply_locked fault tid o' (ot_order_id o') (ot_ordered_qty o') avg acct s = (Inr delta, s')"
    using ap acct lookup_own [OF inv row(1,2)] row(3) by (simp add: apply_cumulative_def)
  from al row(1) acct obtain ps where d: "delta = ot_ordered_qty o' - ot_recorded_filled_qty o'"
    and ps: "on_trade (fill_trade tid o' (ot_order_id o') (ot_ordered_qty o' - ot_recorded_filled_qty o') avg acct) (fs_positions s) = Inr ps"
    and s': "s' = advanced tid o' (ot_order_id o') (ot_ordered_qty o') avg acct ps s"
    by (cases rule: apply_locked_cases) (use row(5,6) in auto)
  have t: "fs_tracker s' = tracker_step (fs_tracker s) (Fill (ot_order_id o') (ot_ordered_qty o') avg)" and p: "fs_positions s' = ps"
    by (auto simp: s' advanced_def Let_def publish_filled_def simp del: tracker_step.simps)
  show "delta = ot_ordered_qty o'" using d row(5) by simp
  show "tracker_inv (fs_tracker s')" unfolding t using inv by (rule tracker_step_inv)
  show "positions_ok (fs_positions s')" unfolding p
    by (rule on_trade_positions_ok [OF ps pos]) (use row(5,6) in \<open>simp add: fill_trade_def\<close>)
  from buy_trade_rows [OF ps] row(4,5) held_upsert [OF pos _ row(6), of ps acct "ot_bot_id o'" "ot_symbol o'" _ 0 acct sy]
  show "held acct sy (fs_positions s') = held acct sy (fs_positions s) + (if ot_symbol o' = sy then ot_ordered_qty o' else 0)"
    unfolding p by (simp add: fill_trade_def)
  show "recoverable acct (fs_tracker s') x" if "recoverable acct (fs_tracker s) x" "ot_order_id x \<noteq> ot_order_id o'"
    using that row by (auto simp: recoverable_def t record_fill_def Let_def)
qed

lemma fallback_apply_held:
  "fallback_apply env positions orders r = (None, r') \<Longrightarrow>
     tracker_inv (fs_tracker (fp_fills (pr_poller r))) \<Longrightarrow> positions_ok (fs_positions (fp_fills (pr_poller r))) \<Longrightarrow>
     \<forall>o'\<in>set orders. recoverable (pe_account env) (fs_tracker (fp_fills (pr_poller r))) o' \<Longrightarrow>
     distinct (map ot_order_id orders) \<Longrightarrow>
     held (pe_account env) sy (fs_positions (fp_fills (pr_poller r'))) =
       held (pe_account env) sy (fs_positions (fp_fills (pr_poller r))) +
       sum_list (map (\<lambda>o'. if ot_symbol o' = sy then ot_ordered_qty o' else 0) orders)"
proof (induction env positions orders r rule: fallback_apply.induct)
  case (2 env positions o' orders r)
  let ?s = "fp_fills (pr_poller r)" and ?a = "pe_account env" and ?n = "length (pr_steps r)"
  obtain res r1 where a: "poll_apply env (ot_broker_order_id o') (ot_ordered_qty o')
      (broker_avg_price positions o') (ot_submitted_date o') r = (res, r1)" by fastforce
  with 2(2) obtain delta where res: "res = Inr delta" by (auto split: sum.splits)
  obtain s1 where ap: "apply_cumulative (pe_fault env ?n) (pe_trade_id env ?n) ?a (ot_broker_order_id o') (ot_ordered_qty o')
      (broker_avg_price positions o') (ot_submitted_date o') ?s = (Inr delta, s1)" and s1: "fp_fills (pr_poller r1) = s1"
    using a res by (auto simp: poll_apply_def Let_def split: prod.splits sum.splits if_splits)
  have o: "recoverable ?a (fs_tracker ?s) o'" using 2(5) by simp
  note step = apply_recoverable [OF 2(3,4) o ap]
  let ?r = "if 0 < delta then r1\<lparr>pr_poller := (pr_poller r1)\<lparr>fp_verify := dict_set (ot_broker_order_id o')
        \<lparr>ve_recorded = ot_ordered_qty o', ve_submitted_date = ot_submitted_date o'\<rparr> (fp_verify (pr_poller r1))\<rparr>\<rparr>
      else r1"
  have r: "fp_fills (pr_poller ?r) = s1" by (simp add: s1)
  have rest: "\<forall>x\<in>set orders. recoverable ?a (fs_tracker s1) x"
  proof
    fix x assume x: "x \<in> set orders"
    then have "ot_order_id x \<noteq> ot_order_id o'" using 2(6) by (auto simp: image_iff)
    with step(5) 2(5) x show "recoverable ?a (fs_tracker s1) x" by simp
  qed
  have "fallback_apply env positions orders ?r = (None, r')" using 2(2) a res by (simp add: Let_def)
  from 2(1) [OF a [symmetric] res refl refl refl this] step(2,3) rest 2(6) r
  have "held ?a sy (fs_positions (fp_fills (pr_poller r'))) = held ?a sy (fs_positions s1) +
       sum_list (map (\<lambda>o'. if ot_symbol o' = sy then ot_ordered_qty o' else 0) orders)" by simp
  with step(4) [of sy] show ?case by simp
qed simp

lemma sum_list_only:
  "distinct (map g xs) \<Longrightarrow> x \<in> set xs \<Longrightarrow> sum_list (map (\<lambda>y. if g y = g x then f y else 0) xs) = (f x :: rat)"
proof (induction xs)
  case (Cons y xs)
  show ?case
  proof (cases "x = y")
    case True
    with Cons.prems(1) have "\<forall>z\<in>set xs. g z \<noteq> g x" by (auto simp: image_iff)
    then have "sum_list (map (\<lambda>z. if g z = g x then f z else 0) xs) = 0" by (induction xs) auto
    with True show ?thesis by simp
  next
    case False
    with Cons show ?thesis by (auto simp: image_iff)
  qed
qed simp

lemma fallback_plan_spec:
  assumes "o' \<in> set (fallback_plan orders positions internal)"
  shows "o' \<in> set orders" and "ot_side o' = ''buy''" and "ot_recorded_filled_qty o' = 0" and "0 < ot_ordered_qty o'"
    and "broker_quantity positions (ot_symbol o') - internal_quantity internal (ot_symbol o') = ot_ordered_qty o'"
  using assms set_firsts [of ot_symbol "\<lambda>_. False" "unrecovered_buys orders"]
  by (auto simp: fallback_plan_def unrecovered_buys_def Let_def)

lemma fallback_plan_symbols: "distinct (map ot_symbol (fallback_plan orders positions internal))"
  using firsts_keys [of ot_symbol "\<lambda>_. False" "unrecovered_buys orders"]
  by (simp add: fallback_plan_def distinct_map_filter)

text \<open>C13. The position fallback of a paper account books exactly the excess it saw: when it completes in
  a reachable state, then for every order it planned the account's internal quantity of the symbol
  equals the broker's, and planning again from the same broker positions applies nothing for it.\<close>

theorem fallback_closes_gap:
  assumes adm: "admissible fill_step fresh_trade_id (fill_init outbox) es"
    and state: "fp_fills (pr_poller r) = run fill_step (fill_init outbox) es"
    and enabled: "pe_fallback_enabled env" "pe_has_trade_service env" "pe_is_paper env"
    and orders: "get_open_orders (pe_account env) (fs_tracker (fp_fills (pr_poller r))) = Inr orders"
    and positions: "pe_positions env = Inr positions"
    and internal: "get_all_positions (Some (pe_account env)) (fs_positions (fp_fills (pr_poller r))) = Inr internal"
    and fallback: "apply_position_fallback env r = (None, r')"
    and internal': "get_all_positions (Some (pe_account env)) (fs_positions (fp_fills (pr_poller r'))) = Inr internal'"
    and o': "o' \<in> set (fallback_plan orders positions internal)"
  shows "internal_quantity internal' (ot_symbol o') = broker_quantity positions (ot_symbol o') \<and>
    ot_symbol o' \<notin> set (map ot_symbol (fallback_plan orders' positions internal'))"
proof -
  let ?plan = "fallback_plan orders positions internal" and ?a = "pe_account env"
  let ?t = "fs_tracker (fp_fills (pr_poller r))"
  have "pipeline_inv (fp_fills (pr_poller r))" unfolding state using fill_init_inv adm by (rule pipeline.run_inv)
  then have inv: "tracker_inv ?t" by (rule pipeline_invD)
  have pos: "positions_ok (fs_positions (fp_fills (pr_poller r)))" unfolding state
    by (rule positions_ok_run) (simp add: fill_init_def no_positions_def positions_ok_def)
  have rec: "\<forall>x\<in>set ?plan. recoverable ?a ?t x"
  proof
    fix x assume x: "x \<in> set ?plan"
    from fallback_plan_spec [OF x] open_orders_row [OF orders inv fallback_plan_spec(1) [OF x]]
    show "recoverable ?a ?t x" by (simp add: recoverable_def)
  qed
  have ids: "distinct (map ot_order_id ?plan)"
  proof -
    have "inj_on ot_order_id (set ?plan)"
      using rec unfolding recoverable_def inj_on_def by (metis option.inject)
    moreover have "distinct ?plan" using fallback_plan_symbols distinct_map by blast
    ultimately show ?thesis by (simp add: distinct_map)
  qed
  have "unrecovered_buys orders \<noteq> []" using o' by (auto simp: fallback_plan_def)
  then have f: "fallback_apply env positions ?plan r = (None, r')"
    using fallback enabled orders positions internal by (simp add: apply_position_fallback_def Let_def)
  have "held ?a (ot_symbol o') (fs_positions (fp_fills (pr_poller r'))) =
      held ?a (ot_symbol o') (fs_positions (fp_fills (pr_poller r))) + ot_ordered_qty o'"
    using fallback_apply_held [OF f inv pos rec ids, of "ot_symbol o'"]
      sum_list_only [OF fallback_plan_symbols o', of ot_ordered_qty] by simp
  then have "internal_quantity internal' (ot_symbol o') = broker_quantity positions (ot_symbol o')"
    using fallback_plan_spec(5) [OF o'] by (simp add: internal_quantity_held [OF internal] internal_quantity_held [OF internal'])
  moreover have "ot_symbol o' \<notin> set (map ot_symbol (fallback_plan orders' positions internal'))"
  proof
    assume "ot_symbol o' \<in> set (map ot_symbol (fallback_plan orders' positions internal'))"
    then obtain x where x: "x \<in> set (fallback_plan orders' positions internal')" "ot_symbol x = ot_symbol o'" by auto
    from fallback_plan_spec(4,5) [OF x(1)] calculation x(2) show False by simp
  qed
  ultimately show ?thesis by blast
qed

subsection \<open>A sample day\<close>

text \<open>
  A buy of 10 shares submitted the day before; the history is empty or reports 4, the broker's
  positions show all 10.
\<close>

definition sample_buy :: order_row where
  "sample_buy = (sample_order ''o1'' 10)"

definition sample_poller :: fill_poller where
  "sample_poller = \<lparr>fp_fills = run fill_step (fill_init True) [Fs_submit sample_buy], fp_verify = []\<rparr>"

definition sample_poll_env :: "poll_item list \<Rightarrow> poll_env" where
  "sample_poll_env items =
     \<lparr>pe_account = ot_account_id sample_buy, pe_today = ''20991231'', pe_history = (\<lambda>_ _. Inr items),
      pe_positions = Inr [\<lparr>bp_symbol = ot_symbol sample_buy, bp_quantity = 10, bp_avg_price = 100\<rparr>],
      pe_fault = (\<lambda>_. None), pe_trade_id = (\<lambda>n. replicate n (CHR ''t'')), pe_fallback_enabled = True,
      pe_is_paper = True, pe_has_trade_service = True, pe_has_bus = True\<rparr>"

definition sample_item :: poll_item where
  "sample_item = \<lparr>pi_order_id = ot_broker_order_id sample_buy, pi_filled_quantity = 4, pi_price = 100,
     pi_timestamp = Day_text ''20991230''\<rparr>"

lemma sample_poll_completes: "fst (poll_and_apply (sample_poll_env [sample_item]) sample_poller) = None"
  by code_simp

lemma sample_trade_ids: "inj (pe_trade_id (sample_poll_env items))"
  by (rule injI) (simp add: sample_poll_env_def)

lemma sample_poller_state:
  "fs_trades (fp_fills sample_poller) = []"
  "tr_table (fs_tracker (fp_fills sample_poller)) = [(''o1'', sample_buy)]"
  "fp_fills sample_poller = run fill_step (fill_init True) [Fs_submit sample_buy]"
  by (code_simp, code_simp, simp add: sample_poller_def)

lemma sample_submit_admissible: "admissible fill_step fresh_trade_id (fill_init True) [Fs_submit sample_buy]"
  by simp

lemma sample_poller_inv: "pipeline_inv (fp_fills sample_poller)"
  unfolding sample_poller_state(3) using fill_init_inv sample_submit_admissible by (rule pipeline.run_inv)

theorem poll_is_run_of_pipeline_witness:
  "pipeline_inv (fp_fills (pr_poller (snd (poll_and_apply (sample_poll_env [sample_item]) sample_poller))))
    \<and> poll_steps_ok (sample_poll_env [sample_item]) sample_poller None
        (pr_steps (snd (poll_and_apply (sample_poll_env [sample_item]) sample_poller)))"
proof -
  let ?env = "sample_poll_env [sample_item]"
  have "poll_and_apply ?env sample_poller = (None, snd (poll_and_apply ?env sample_poller))"
    using sample_poll_completes by (metis prod.collapse)
  moreover have "\<forall>n. dict_get (fs_trades (fp_fills sample_poller)) (pe_trade_id ?env n) = None"
    by (simp add: sample_poller_state(1))
  ultimately show ?thesis using poll_is_run_of_pipeline [OF _ sample_trade_ids] sample_poller_inv by blast
qed

theorem reported_fill_is_recovered_witness:
  "4 \<le> recorded_of ''o1'' (fs_tracker (fp_fills (pr_poller (snd (poll_and_apply (sample_poll_env [sample_item]) sample_poller)))))"
proof -
  let ?env = "sample_poll_env [sample_item]"
  have p: "poll_and_apply ?env sample_poller = (None, snd (poll_and_apply ?env sample_poller))"
    using sample_poll_completes by (metis prod.collapse)
  have sole: "sole_order (pe_account ?env) ''Bo1'' ''o1'' 10 ''2026-01-05'' (tr_table (fs_tracker (fp_fills sample_poller)))"
    unfolding sole_order_def sample_poller_state(2)
    by (auto simp: sample_poll_env_def sample_buy_def sample_order_def is_open_row_iff)
  have inv: "tracker_inv (fs_tracker (fp_fills sample_poller))" using sample_poller_inv by (rule pipeline_invD)
  have date: "''2026-01-05'' \<le> item_date_of (pe_today ?env) sample_item" by code_simp
  have row: "dict_get (tr_table (fs_tracker (fp_fills sample_poller))) ''o1'' = Some sample_buy"
    by (simp only: sample_poller_state(2)) simp
  from reported_fill_is_recovered [OF p _ _ sole inv _ row, where items = "[sample_item]" and item = sample_item] date
  show ?thesis
    by (simp add: sample_poll_env_def sample_item_def sample_buy_def sample_order_def)
qed

theorem fallback_closes_gap_witness:
  "map_sum (\<lambda>_. ()) (\<lambda>internal. internal_quantity internal ''005930'')
     (get_all_positions (Some ''acct-1'') (fs_positions (fp_fills (pr_poller
        (snd (apply_position_fallback (sample_poll_env []) (start_poll sample_poller))))))) = Inr 10"
proof -
  let ?env = "sample_poll_env []" and ?r = "start_poll sample_poller"
  let ?r' = "snd (apply_position_fallback ?env ?r)"
  have f: "apply_position_fallback ?env ?r = (None, ?r')"
  proof -
    have "fst (apply_position_fallback ?env ?r) = None" by code_simp
    then show ?thesis by (metis prod.collapse)
  qed
  have st: "fp_fills (pr_poller ?r) = run fill_step (fill_init True) [Fs_submit sample_buy]"
    by (simp add: start_poll_def sample_poller_state(3) del: run.simps)
  have e: "pe_fallback_enabled ?env" "pe_has_trade_service ?env" "pe_is_paper ?env"
    "pe_positions ?env = Inr [\<lparr>bp_symbol = ''005930'', bp_quantity = 10, bp_avg_price = 100\<rparr>]" "pe_account ?env = ''acct-1''"
    by (simp_all add: sample_poll_env_def sample_buy_def sample_order_def)
  have o: "get_open_orders (pe_account ?env) (fs_tracker (fp_fills (pr_poller ?r))) = Inr [sample_buy]" by code_simp
  have i: "get_all_positions (Some (pe_account ?env)) (fs_positions (fp_fills (pr_poller ?r))) = Inr []" by code_simp
  obtain internal' where i': "get_all_positions (Some (pe_account ?env)) (fs_positions (fp_fills (pr_poller ?r'))) = Inr internal'"
    using e(5) by (cases "get_all_positions (Some (pe_account ?env)) (fs_positions (fp_fills (pr_poller ?r')))")
      (use i in \<open>auto simp: get_all_positions_def split: sum.splits\<close>)
  have plan: "sample_buy \<in> set (fallback_plan [sample_buy] [\<lparr>bp_symbol = ''005930'', bp_quantity = 10, bp_avg_price = 100\<rparr>] [])"
    by code_simp
  from fallback_closes_gap [OF sample_submit_admissible st e(1-3) o e(4) i f i' plan]
  have "internal_quantity internal' ''005930'' = 10"
    by (simp add: sample_buy_def sample_order_def broker_quantity_def)
  with i' e(5) show ?thesis by simp
qed

text \<open>
  The price of a position row of 0 is taken as it is: the comment in the code says the first positive
  price is kept, the code keeps the first one.
\<close>

theorem fallback_price_may_be_zero:
  "broker_avg_price [\<lparr>bp_symbol = ''A'', bp_quantity = 1, bp_avg_price = 0\<rparr>, \<lparr>bp_symbol = ''A'', bp_quantity = 1, bp_avg_price = p\<rparr>]
     (sample_buy\<lparr>ot_symbol := ''A''\<rparr>) = 0"
  by (simp add: broker_avg_price_def)

end
