(* ===== verification/Approvals.thy ===== *)
theory Approvals
  imports Account_Gate Python_Values "HOL-Library.List_Lexorder" "HOL-Library.Char_ord"
begin

text \<open>
  \<open>src/src/ante/approval/\<close>: requests that need a decision before they are executed.

  The table is a dictionary by id.  An operation gets an environment: the clock, the fresh id, what
  the executor of the request's type answers and which of the operation's writes, in order, fail.
  Executor runs and published events are recorded in the state.  \<open>approvals\<close> rows hold texts; their
  JSON columns are the values they encode.
\<close>

subsection \<open>Requests (models.py)\<close>

datatype approval_status =
  PENDING | APPROVED | EXECUTION_FAILED | REJECTED | ON_HOLD | EXPIRED | CANCELLED

definition valid_approval_types :: "string list" where
  "valid_approval_types =
     [''strategy_adopt'', ''strategy_retire'', ''bot_create'', ''bot_assign_strategy'',
      ''bot_change_strategy'', ''bot_stop'', ''bot_resume'', ''bot_delete'', ''budget_change'',
      ''rule_change'']"

definition account_scoped_approval_types :: "string list" where
  "account_scoped_approval_types = [''budget_change'', ''rule_change'', ''bot_create'']"

text \<open>A parameter is a plain value or an object.\<close>

datatype param = Pv pyval | Pd "(string, pyval) dict"

type_synonym approval_params = "(string, param) dict"

record review =
  rv_reviewer :: string
  rv_result :: string
  rv_detail :: string
  rv_reviewed_at :: string

datatype entry_detail =
    Detail string
  | Auto_rule
  | Reopened bool bool
  | Review_of string string
  | No_executor_for string
  | Write_failed

record history_entry =
  he_action :: string
  he_actor :: string
  he_at :: string
  he_detail :: entry_detail

record approval =
  aq_id :: string
  aq_type :: string
  aq_status :: approval_status
  aq_requester :: string
  aq_title :: string
  aq_body :: string
  aq_params :: approval_params
  aq_reviews :: "review list"
  aq_history :: "history_entry list"
  aq_reference_id :: string
  aq_expires_at :: string
  aq_created_at :: string
  aq_resolved_at :: string
  aq_resolved_by :: string
  aq_reject_reason :: string

record validation_result =
  vr_grade :: string
  vr_detail :: string
  vr_reviewer :: string

datatype approval_error =
    Approval_not_found string
  | Approval_missing string
  | Invalid_approval_type string
  | Status_conflict string approval_status string
  | Wrong_status approval_status
  | Not_the_requester string
  | Not_an_invalid_type string
  | Approval_account account_id_error
  | Approval_invalid string
  | Approval_raises

datatype approval_event =
    Approval_created string string string string bool
  | Approval_resolved string string approval_status string
  | Request_notice string bool
  | Resolved_notice string string approval_status string

subsection \<open>Parameters\<close>

text \<open>\<open>_extract_account_id\<close>: the nested configuration first, then the flat key.\<close>

definition extract_account_id :: "approval_params \<Rightarrow> param option" where
  "extract_account_id params =
     (case dict_get params ''config'' of
        Some (Pd config) \<Rightarrow>
          (case dict_get config ''account_id'' of
             Some v \<Rightarrow> if v \<noteq> Py_none then Some (Pv v) else dict_get params ''account_id''
           | None \<Rightarrow> dict_get params ''account_id'')
      | _ \<Rightarrow> dict_get params ''account_id'')"

text \<open>\<open>require_account_id\<close> of such a value: anything but a text or nothing raises \<open>TypeError\<close>.\<close>

definition check_account_id :: "string \<Rightarrow> approval_params \<Rightarrow> approval_error option" where
  "check_account_id ctxt params =
     (let check = (\<lambda>a. case require_account_id ctxt a of Inl e \<Rightarrow> Some (Approval_account e) | Inr _ \<Rightarrow> None)
      in case extract_account_id params of
           None \<Rightarrow> check None
         | Some (Pv Py_none) \<Rightarrow> check None
         | Some (Pv (Py_str s)) \<Rightarrow> check (Some s)
         | Some _ \<Rightarrow> Some Approval_raises)"

subsection \<open>Automatic approval (auto_approve.py)\<close>

record auto_approve_config =
  aa_enabled :: bool
  aa_bot_stop :: bool
  aa_bot_create_virtual :: bool
  aa_budget_change_max :: pyfloat

datatype resolved_account = Resolver_raises | No_account | Account_with trading_mode

text \<open>
  The service: the types with an executor, the validators (\<^theory_text>\<open>None\<close>: raises), the rules of automatic
  approval.  \<open>ac_float\<close> is \<open>float\<close> of a text, \<open>ac_str\<close> is \<open>str\<close> of a value that is no text.
\<close>

record approval_config =
  ac_executors :: "string list"
  ac_validators :: "string \<Rightarrow> (approval_params \<Rightarrow> validation_result list option) option"
  ac_auto :: auto_approve_config
  ac_resolver :: "(string \<Rightarrow> resolved_account) option"
  ac_float :: "string \<Rightarrow> pyfloat option"
  ac_str :: "param \<Rightarrow> string"

definition excluded_types :: "string list" where
  "excluded_types = [''strategy_adopt'', ''strategy_retire'']"

fun param_float :: "approval_config \<Rightarrow> param \<Rightarrow> pyfloat option" where
  "param_float cfg (Pv (Py_str s)) = ac_float cfg s"
| "param_float cfg (Pv v) = as_float v"
| "param_float cfg (Pd _) = None"

fun param_str :: "approval_config \<Rightarrow> param \<Rightarrow> string" where
  "param_str cfg (Pv (Py_str s)) = s"
| "param_str cfg p = ac_str cfg p"

definition extract_bot_create_account_id :: "approval_config \<Rightarrow> approval_params \<Rightarrow> string option" where
  "extract_bot_create_account_id cfg params =
     (case extract_account_id params of
        None \<Rightarrow> None
      | Some (Pv Py_none) \<Rightarrow> None
      | Some p \<Rightarrow> Some (param_str cfg p))"

fun fminus :: "pyfloat \<Rightarrow> pyfloat \<Rightarrow> pyfloat" where
  "fminus (Fin x) (Fin y) = Fin (x - y)"
| "fminus NaN _ = NaN"
| "fminus _ NaN = NaN"
| "fminus PInf PInf = NaN"
| "fminus NInf NInf = NaN"
| "fminus PInf _ = PInf"
| "fminus NInf _ = NInf"
| "fminus (Fin _) PInf = NInf"
| "fminus (Fin _) NInf = PInf"

fun fabs :: "pyfloat \<Rightarrow> pyfloat" where
  "fabs (Fin x) = Fin (abs x)"
| "fabs NInf = PInf"
| "fabs x = x"

definition auto_approve_bot_create :: "approval_config \<Rightarrow> approval_params \<Rightarrow> bool option" where
  "auto_approve_bot_create cfg params =
     (case ac_resolver cfg of
        None \<Rightarrow> Some False
      | Some resolve \<Rightarrow>
          (case extract_bot_create_account_id cfg params of
             None \<Rightarrow> Some False
           | Some account_id \<Rightarrow>
               if account_id = '''' then Some False
               else case resolve account_id of
                      Resolver_raises \<Rightarrow> None
                    | No_account \<Rightarrow> Some False
                    | Account_with mode \<Rightarrow> Some (mode = VIRTUAL)))"

definition auto_approve_budget_change :: "approval_config \<Rightarrow> approval_params \<Rightarrow> bool option" where
  "auto_approve_budget_change cfg params =
     (let value = (\<lambda>key. case dict_get params key of None \<Rightarrow> Some (Fin 0) | Some p \<Rightarrow> param_float cfg p)
      in case (value ''amount'', value ''current'') of
           (Some amount, Some current) \<Rightarrow>
             Some (fle (fabs (fminus amount current)) (aa_budget_change_max (ac_auto cfg)))
         | _ \<Rightarrow> None)"

text \<open>\<open>should_auto_approve\<close>: \<^theory_text>\<open>None\<close> if it raises.\<close>

definition should_auto_approve :: "approval_config \<Rightarrow> string \<Rightarrow> approval_params \<Rightarrow> bool option" where
  "should_auto_approve cfg type params =
     (if \<not> aa_enabled (ac_auto cfg) then Some False
      else if type \<in> set excluded_types then Some False
      else if type = ''bot_stop'' \<and> aa_bot_stop (ac_auto cfg) then Some True
      else if type = ''bot_create'' \<and> aa_bot_create_virtual (ac_auto cfg)
      then auto_approve_bot_create cfg params
      else if type = ''budget_change'' \<and> flt (Fin 0) (aa_budget_change_max (ac_auto cfg))
      then auto_approve_budget_change cfg params
      else Some False)"

subsection \<open>State and environment\<close>

record approval_env =
  ae_now :: string
  ae_exec_now :: string
  ae_new_id :: string
  ae_execute :: "approval_params \<Rightarrow> string option"
  ae_fails :: "nat \<Rightarrow> bool"

text \<open>A run: the request, the parameters and what the executor raised.\<close>

type_synonym approval_run = "string \<times> approval_params \<times> string option"

record approval_state =
  av_rows :: "(string, approval) dict"
  av_runs :: "approval_run list"
  av_events :: "approval_event list"

definition no_approvals :: approval_state where
  "no_approvals = \<lparr>av_rows = [], av_runs = [], av_events = []\<rparr>"

definition entry :: "string \<Rightarrow> string \<Rightarrow> string \<Rightarrow> entry_detail \<Rightarrow> history_entry" where
  "entry action actor now detail = \<lparr>he_action = action, he_actor = actor, he_at = now, he_detail = detail\<rparr>"

definition add_entry :: "history_entry \<Rightarrow> approval \<Rightarrow> approval" where
  "add_entry e r = r\<lparr>aq_history := aq_history r @ [e]\<rparr>"

text \<open>\<open>UPDATE approvals SET .. WHERE id = ?\<close>.\<close>

definition update_row :: "string \<Rightarrow> (approval \<Rightarrow> approval) \<Rightarrow> approval_state \<Rightarrow> approval_state" where
  "update_row rid f s =
     (case dict_get (av_rows s) rid of
        None \<Rightarrow> s
      | Some row \<Rightarrow> s\<lparr>av_rows := dict_set rid (f row) (av_rows s)\<rparr>)"

definition publish_approval :: "approval_event list \<Rightarrow> approval_state \<Rightarrow> approval_state" where
  "publish_approval es s = s\<lparr>av_events := av_events s @ es\<rparr>"

definition resolved_events :: "approval \<Rightarrow> string \<Rightarrow> bool \<Rightarrow> approval_event list" where
  "resolved_events r actor suppress =
     Approval_resolved (aq_id r) (aq_type r) (aq_status r) actor #
     (if suppress then [] else [Resolved_notice (aq_id r) (aq_type r) (aq_status r) actor])"

subsection \<open>Validation\<close>

fun collect_reviews :: "string \<Rightarrow> validation_result list \<Rightarrow> approval_error + review list" where
  "collect_reviews now [] = Inr []"
| "collect_reviews now (r # rs) =
     (if vr_grade r = ''fail'' then Inl (Approval_invalid (vr_detail r))
      else case collect_reviews now rs of
             Inl e \<Rightarrow> Inl e
           | Inr reviews \<Rightarrow>
               Inr (if vr_grade r = ''warn''
                    then \<lparr>rv_reviewer = vr_reviewer r, rv_result = ''warn'', rv_detail = vr_detail r,
                          rv_reviewed_at = now\<rparr> # reviews
                    else reviews))"

definition validate_params ::
  "approval_config \<Rightarrow> string \<Rightarrow> approval_params \<Rightarrow> string \<Rightarrow> approval_error + review list" where
  "validate_params cfg type params now =
     (case ac_validators cfg type of
        None \<Rightarrow> Inr []
      | Some validator \<Rightarrow>
          (case validator params of
             None \<Rightarrow> Inl Approval_raises
           | Some results \<Rightarrow> collect_reviews now results))"

subsection \<open>Execution\<close>

text \<open>The status and history written when a request could not be executed.\<close>

definition mark_execution_failed ::
  "approval_env \<Rightarrow> nat \<Rightarrow> string \<Rightarrow> string \<Rightarrow> entry_detail \<Rightarrow> approval \<Rightarrow> approval_state \<Rightarrow>
     (approval_error + approval) \<times> approval_state" where
  "mark_execution_failed env n action actor detail r s =
     (let r' = (add_entry (entry action actor (ae_exec_now env) detail) r)\<lparr>aq_status := EXECUTION_FAILED\<rparr>
      in if ae_fails env n then (Inl Approval_raises, s)
         else (Inr r', update_row (aq_id r)
                 (\<lambda>row. row\<lparr>aq_status := EXECUTION_FAILED, aq_history := aq_history r'\<rparr>) s))"

text \<open>
  The executor and what is written after it, the writes counted from \<open>n\<close>: the write of the success
  is inside the same \<open>try\<close>, so when it fails the execution is recorded as failed.
\<close>

definition run_executor ::
  "approval_config \<Rightarrow> approval_env \<Rightarrow> nat \<Rightarrow> string \<Rightarrow> approval \<Rightarrow> approval_state \<Rightarrow>
     (approval_error + approval) \<times> approval_state" where
  "run_executor cfg env n actor r s =
     (if aq_type r \<in> set (ac_executors cfg) then
        let outcome = ae_execute env (aq_params r);
            s1 = s\<lparr>av_runs := av_runs s @ [(aq_id r, aq_params r, outcome)]\<rparr>
        in case outcome of
             Some text \<Rightarrow> mark_execution_failed env n ''execution_failed'' actor (Detail text) r s1
           | None \<Rightarrow>
               let r1 = add_entry (entry ''executed'' actor (ae_exec_now env) (Detail '''')) r
               in if ae_fails env n
                  then mark_execution_failed env (n + 1) ''execution_failed'' actor Write_failed r1 s1
                  else (Inr r1, update_row (aq_id r) (\<lambda>row. row\<lparr>aq_history := aq_history r1\<rparr>) s1)
      else mark_execution_failed env n ''no_executor'' actor (No_executor_for (aq_type r)) r s)"

definition execute_approved ::
  "approval_config \<Rightarrow> approval_env \<Rightarrow> nat \<Rightarrow> string \<Rightarrow> bool \<Rightarrow> approval \<Rightarrow> approval_state \<Rightarrow>
     (approval_error + approval) \<times> approval_state" where
  "execute_approved cfg env n actor suppress r s =
     (if aq_type r \<notin> set valid_approval_types then (Inl (Invalid_approval_type (aq_type r)), s)
      else case run_executor cfg env n actor r s of
             (Inl e, s') \<Rightarrow> (Inl e, s')
           | (Inr r', s') \<Rightarrow> (Inr r', publish_approval (resolved_events r' actor suppress) s'))"

subsection \<open>Creation\<close>

record approval_draft =
  ad_type :: string
  ad_requester :: string
  ad_title :: string
  ad_body :: string
  ad_params :: approval_params
  ad_reference_id :: string
  ad_expires_at :: string

definition new_approval :: "approval_env \<Rightarrow> approval_draft \<Rightarrow> review list \<Rightarrow> bool \<Rightarrow> approval" where
  "new_approval env d reviews auto_approved =
     (let now = ae_now env;
          r = \<lparr>aq_id = ae_new_id env, aq_type = ad_type d, aq_status = PENDING,
               aq_requester = ad_requester d, aq_title = ad_title d, aq_body = ad_body d,
               aq_params = ad_params d, aq_reviews = reviews,
               aq_history = [entry ''created'' (ad_requester d) now (Detail '''')],
               aq_reference_id = ad_reference_id d, aq_expires_at = ad_expires_at d,
               aq_created_at = now, aq_resolved_at = '''', aq_resolved_by = '''', aq_reject_reason = ''''\<rparr>
      in if auto_approved
         then (add_entry (entry ''approved'' ''system:auto_approve'' now Auto_rule) r)
                \<lparr>aq_status := APPROVED, aq_resolved_at := now, aq_resolved_by := ''system:auto_approve''\<rparr>
         else r)"

text \<open>\<open>_persist_request\<close>: the primary key is new, or the insertion fails.\<close>

definition persist_request :: "approval_env \<Rightarrow> approval \<Rightarrow> approval_state \<Rightarrow> approval_state option" where
  "persist_request env r s =
     (if ae_fails env 0 \<or> dict_get (av_rows s) (aq_id r) \<noteq> None then None
      else Some (s\<lparr>av_rows := dict_set (aq_id r) r (av_rows s)\<rparr>))"

definition create_approval ::
  "approval_config \<Rightarrow> approval_env \<Rightarrow> approval_draft \<Rightarrow> approval_state \<Rightarrow>
     (approval_error + approval) \<times> approval_state" where
  "create_approval cfg env d s =
     (let type = ad_type d; params = ad_params d
      in if type \<notin> set valid_approval_types then (Inl (Invalid_approval_type type), s)
         else case (if type \<in> set account_scoped_approval_types
                    then check_account_id (''approval.'' @ type @ ''.create'') params else None) of
           Some e \<Rightarrow> (Inl e, s)
         | None \<Rightarrow>
             (case validate_params cfg type params (ae_now env) of
                Inl e \<Rightarrow> (Inl e, s)
              | Inr reviews \<Rightarrow>
                  (case should_auto_approve cfg type params of
                     None \<Rightarrow> (Inl Approval_raises, s)
                   | Some auto \<Rightarrow>
                       let r = new_approval env d reviews auto
                       in case persist_request env r s of
                            None \<Rightarrow> (Inl Approval_raises, s)
                          | Some s1 \<Rightarrow>
                              let s2 = publish_approval
                                         [Approval_created (aq_id r) type (aq_requester r) (aq_title r) auto,
                                          Request_notice (aq_id r) auto] s1
                              in if auto then execute_approved cfg env 1 ''system:auto_approve'' False r s2
                                 else (Inr r, s2))))"

subsection \<open>Decisions\<close>

text \<open>
  An operation reads the row and goes on with what it read: \<open>with_request missing rid f s\<close> passes it on.
  The continuations are separate definitions, since another operation may run at an \<open>await\<close> between.
\<close>

definition with_request ::
  "approval_error \<Rightarrow> string \<Rightarrow> (approval \<Rightarrow> approval_state \<Rightarrow> (approval_error + 'a) \<times> approval_state) \<Rightarrow>
     approval_state \<Rightarrow> (approval_error + 'a) \<times> approval_state" where
  "with_request missing rid f s =
     (case dict_get (av_rows s) rid of None \<Rightarrow> (Inl missing, s) | Some r \<Rightarrow> f r s)"

definition approve_loaded ::
  "approval_config \<Rightarrow> approval_env \<Rightarrow> string \<Rightarrow> bool \<Rightarrow> approval \<Rightarrow> approval_state \<Rightarrow>
     (approval_error + approval) \<times> approval_state" where
  "approve_loaded cfg env resolved_by suppress r s =
     (if aq_type r \<notin> set valid_approval_types then (Inl (Invalid_approval_type (aq_type r)), s)
      else if aq_status r \<notin> set [PENDING, EXECUTION_FAILED]
      then (Inl (Status_conflict (aq_id r) (aq_status r) ''approve''), s)
      else
        let r1 = (add_entry (entry ''approved'' resolved_by (ae_now env) (Detail '''')) r)
                   \<lparr>aq_status := APPROVED, aq_resolved_at := ae_now env, aq_resolved_by := resolved_by\<rparr>
        in if ae_fails env 0 then (Inl Approval_raises, s)
           else execute_approved cfg env 1 resolved_by suppress r1
                  (update_row (aq_id r)
                     (\<lambda>row. row\<lparr>aq_status := APPROVED, aq_resolved_at := ae_now env,
                               aq_resolved_by := resolved_by, aq_history := aq_history r1\<rparr>) s))"

definition approve ::
  "approval_config \<Rightarrow> approval_env \<Rightarrow> string \<Rightarrow> string \<Rightarrow> bool \<Rightarrow> approval_state \<Rightarrow>
     (approval_error + approval) \<times> approval_state" where
  "approve cfg env rid resolved_by suppress =
     with_request (Approval_missing rid) rid (approve_loaded cfg env resolved_by suppress)"

text \<open>A decision that ends or suspends a request: one write of status, resolution and history.\<close>

definition reject ::
  "approval_env \<Rightarrow> string \<Rightarrow> string \<Rightarrow> string \<Rightarrow> bool \<Rightarrow> approval_state \<Rightarrow>
     (approval_error + approval) \<times> approval_state" where
  "reject env rid resolved_by reason suppress =
     with_request (Approval_missing rid) rid (\<lambda>r s.
       if aq_status r \<notin> set [PENDING, EXECUTION_FAILED]
       then (Inl (Status_conflict rid (aq_status r) ''reject''), s)
       else
         let r1 = (add_entry (entry ''rejected'' resolved_by (ae_now env) (Detail reason)) r)
                    \<lparr>aq_status := REJECTED, aq_resolved_at := ae_now env, aq_resolved_by := resolved_by,
                     aq_reject_reason := reason\<rparr>
         in if ae_fails env 0 then (Inl Approval_raises, s)
            else (Inr r1, publish_approval (resolved_events r1 resolved_by suppress)
                   (update_row rid
                      (\<lambda>row. row\<lparr>aq_status := REJECTED, aq_resolved_at := ae_now env,
                                aq_resolved_by := resolved_by, aq_reject_reason := reason,
                                aq_history := aq_history r1\<rparr>) s)))"

definition reopen ::
  "approval_config \<Rightarrow> approval_env \<Rightarrow> string \<Rightarrow> string \<Rightarrow> string option \<Rightarrow> approval_params option \<Rightarrow>
     approval_state \<Rightarrow> (approval_error + approval) \<times> approval_state" where
  "reopen cfg env rid requester body params =
     with_request (Approval_missing rid) rid (\<lambda>r s.
       if aq_status r \<noteq> REJECTED then (Inl (Wrong_status (aq_status r)), s)
       else if aq_requester r \<noteq> requester then (Inl (Not_the_requester (aq_requester r)), s)
       else
         let body' = (case body of None \<Rightarrow> aq_body r | Some b \<Rightarrow> b);
             params' = (case params of None \<Rightarrow> aq_params r | Some p \<Rightarrow> p)
         in case (case params of
                    None \<Rightarrow> None
                  | Some p \<Rightarrow> if aq_type r \<in> set account_scoped_approval_types
                              then check_account_id (''approval.'' @ aq_type r @ ''.reopen'') p else None) of
              Some e \<Rightarrow> (Inl e, s)
            | None \<Rightarrow>
                (case validate_params cfg (aq_type r) params' (ae_now env) of
                   Inl e \<Rightarrow> (Inl e, s)
                 | Inr reviews \<Rightarrow>
                     let r1 = (add_entry (entry ''reopened'' requester (ae_now env)
                                 (Reopened (body \<noteq> None) (params \<noteq> None))) r)
                                \<lparr>aq_status := PENDING, aq_body := body', aq_params := params',
                                 aq_reviews := aq_reviews r @ reviews, aq_reject_reason := '''',
                                 aq_resolved_at := '''', aq_resolved_by := ''''\<rparr>
                     in if ae_fails env 0 then (Inl Approval_raises, s)
                        else (Inr r1, publish_approval
                               [Approval_created rid (aq_type r) (aq_requester r) (aq_title r) False]
                               (update_row rid
                                  (\<lambda>row. row\<lparr>aq_status := PENDING, aq_body := body', aq_params := params',
                                            aq_reviews := aq_reviews r1, aq_history := aq_history r1,
                                            aq_reject_reason := '''', aq_resolved_at := '''',
                                            aq_resolved_by := ''''\<rparr>) s))))"

definition cancellable_statuses :: "approval_status list" where
  "cancellable_statuses = [PENDING, ON_HOLD, EXECUTION_FAILED]"

definition cancel_approval ::
  "approval_env \<Rightarrow> string \<Rightarrow> string \<Rightarrow> approval_state \<Rightarrow> (approval_error + approval) \<times> approval_state" where
  "cancel_approval env rid requester =
     with_request (Approval_missing rid) rid (\<lambda>r s.
       if aq_requester r \<noteq> requester then (Inl (Not_the_requester (aq_requester r)), s)
       else if aq_status r \<notin> set cancellable_statuses then (Inl (Wrong_status (aq_status r)), s)
       else
         let r1 = (add_entry (entry ''cancelled'' requester (ae_now env) (Detail '''')) r)
                    \<lparr>aq_status := CANCELLED, aq_resolved_at := ae_now env, aq_resolved_by := requester\<rparr>
         in if ae_fails env 0 then (Inl Approval_raises, s)
            else (Inr r1, publish_approval (resolved_events r1 requester False)
                   (update_row rid
                      (\<lambda>row. row\<lparr>aq_status := CANCELLED, aq_resolved_at := ae_now env,
                                aq_resolved_by := requester, aq_history := aq_history r1\<rparr>) s)))"

text \<open>\<open>hold\<close> and \<open>resume\<close> share their shape: the statuses they accept, the action, the new status.\<close>

definition set_hold_status ::
  "approval_status list \<Rightarrow> string \<Rightarrow> approval_status \<Rightarrow> approval_env \<Rightarrow> string \<Rightarrow> approval_state \<Rightarrow>
     (approval_error + approval) \<times> approval_state" where
  "set_hold_status allowed action new env rid =
     with_request (Approval_missing rid) rid (\<lambda>r s.
       if aq_status r \<notin> set allowed then (Inl (Wrong_status (aq_status r)), s)
       else
         let r1 = (add_entry (entry action ''user'' (ae_now env) (Detail '''')) r)\<lparr>aq_status := new\<rparr>
         in if ae_fails env 0 then (Inl Approval_raises, s)
            else (Inr r1, update_row rid (\<lambda>row. row\<lparr>aq_status := new, aq_history := aq_history r1\<rparr>) s))"

definition hold :: "approval_env \<Rightarrow> string \<Rightarrow> approval_state \<Rightarrow> (approval_error + approval) \<times> approval_state" where
  "hold = set_hold_status [PENDING, EXECUTION_FAILED] ''held'' ON_HOLD"

definition resume :: "approval_env \<Rightarrow> string \<Rightarrow> approval_state \<Rightarrow> (approval_error + approval) \<times> approval_state" where
  "resume = set_hold_status [ON_HOLD] ''resumed'' PENDING"

definition add_review ::
  "approval_env \<Rightarrow> string \<Rightarrow> string \<Rightarrow> string \<Rightarrow> string \<Rightarrow> approval_state \<Rightarrow>
     (approval_error + approval) \<times> approval_state" where
  "add_review env rid reviewer result detail =
     with_request (Approval_not_found rid) rid (\<lambda>r s.
       let review = \<lparr>rv_reviewer = reviewer, rv_result = result, rv_detail = detail,
                     rv_reviewed_at = ae_now env\<rparr>;
           r1 = (add_entry (entry ''review_added'' reviewer (ae_now env) (Review_of result detail)) r)
                  \<lparr>aq_reviews := aq_reviews r @ [review]\<rparr>
       in if ae_fails env 0 then (Inl Approval_raises, s)
          else (Inr r1, update_row rid
                  (\<lambda>row. row\<lparr>aq_reviews := aq_reviews r1, aq_history := aq_history r1\<rparr>) s))"

definition cancel_invalid_type_request ::
  "approval_env \<Rightarrow> string \<Rightarrow> string \<Rightarrow> bool \<Rightarrow> string \<Rightarrow> approval_state \<Rightarrow>
     (approval_error + approval) \<times> approval_state" where
  "cancel_invalid_type_request env rid resolved_by suppress detail =
     with_request (Approval_not_found rid) rid (\<lambda>r s.
       if aq_type r \<in> set valid_approval_types then (Inl (Not_an_invalid_type (aq_type r)), s)
       else if aq_status r \<notin> set cancellable_statuses then (Inl (Wrong_status (aq_status r)), s)
       else
         let r1 = (add_entry (entry ''cancelled_invalid_type'' resolved_by (ae_now env) (Detail detail)) r)
                    \<lparr>aq_status := CANCELLED, aq_resolved_at := ae_now env, aq_resolved_by := resolved_by\<rparr>
         in if ae_fails env 0 then (Inl Approval_raises, s)
            else (Inr r1, publish_approval (if suppress then [] else resolved_events r1 resolved_by False)
                   (update_row rid
                      (\<lambda>row. row\<lparr>aq_status := CANCELLED, aq_resolved_at := ae_now env,
                                aq_resolved_by := resolved_by, aq_history := aq_history r1\<rparr>) s)))"

subsection \<open>Expiry\<close>

definition is_expired :: "string \<Rightarrow> approval \<Rightarrow> bool" where
  "is_expired now r \<longleftrightarrow> aq_status r = PENDING \<and> aq_expires_at r \<noteq> '''' \<and> aq_expires_at r < now"

fun expire_rows ::
  "approval_env \<Rightarrow> nat \<Rightarrow> approval list \<Rightarrow> approval_state \<Rightarrow> (approval_error + nat) \<times> approval_state" where
  "expire_rows env n [] s = (Inr n, s)"
| "expire_rows env n (r # rs) s =
     (let r1 = (add_entry (entry ''expired'' ''system'' (ae_now env) (Detail '''')) r)\<lparr>aq_status := EXPIRED\<rparr>
      in if ae_fails env n then (Inl Approval_raises, s)
         else expire_rows env (n + 1) rs
                (publish_approval (resolved_events r1 ''system'' False)
                   (update_row (aq_id r)
                      (\<lambda>row. row\<lparr>aq_status := EXPIRED, aq_resolved_at := ae_now env,
                                aq_resolved_by := ''system'', aq_history := aq_history r1\<rparr>) s)))"

definition expire_stale_approvals ::
  "approval_env \<Rightarrow> approval_state \<Rightarrow> (approval_error + nat) \<times> approval_state" where
  "expire_stale_approvals env s =
     expire_rows env 0 (filter (is_expired (ae_now env)) (dict_values (av_rows s))) s"

subsection \<open>Queries\<close>

definition get_approval :: "string \<Rightarrow> approval_state \<Rightarrow> approval option" where
  "get_approval rid s = dict_get (av_rows s) rid"

text \<open>Rows of types outside the enumeration, newest first.\<close>

definition list_invalid_type_requests :: "approval_status option \<Rightarrow> approval_state \<Rightarrow> approval list" where
  "list_invalid_type_requests status s =
     rev (sort_key aq_created_at (rev (filter
       (\<lambda>r. aq_type r \<notin> set valid_approval_types \<and> (case status of None \<Rightarrow> True | Some st \<Rightarrow> aq_status r = st))
       (dict_values (av_rows s)))))"

end
