(* ===== verification/Approval_Properties.thy ===== *)
theory Approval_Properties
  imports Approvals
begin

text \<open>
  What holds of the approvals over any sequence of operations.  The history of a request determines
  its status by the state machine below, whatever write fails; an executor never runs without an
  approval of its own in the stored history; as long as no write fails it succeeds at most once.
\<close>

subsection \<open>Operations as steps\<close>

datatype approval_op =
    Create approval_draft
  | Approve string string bool
  | Reject string string string bool
  | Reopen string string "string option" "approval_params option"
  | Cancel string string
  | Hold string
  | Resume string
  | Review string string string string
  | Expire
  | Cancel_invalid string string bool string

fun approval_step :: "approval_config \<Rightarrow> approval_state \<Rightarrow> approval_env \<times> approval_op \<Rightarrow> approval_state" where
  "approval_step cfg s (env, Create d) = snd (create_approval cfg env d s)"
| "approval_step cfg s (env, Approve k by quiet) = snd (approve cfg env k by quiet s)"
| "approval_step cfg s (env, Reject k by reason quiet) = snd (reject env k by reason quiet s)"
| "approval_step cfg s (env, Reopen k by body params) = snd (reopen cfg env k by body params s)"
| "approval_step cfg s (env, Cancel k by) = snd (cancel_approval env k by s)"
| "approval_step cfg s (env, Hold k) = snd (hold env k s)"
| "approval_step cfg s (env, Resume k) = snd (resume env k s)"
| "approval_step cfg s (env, Review k by result detail) = snd (add_review env k by result detail s)"
| "approval_step cfg s (env, Expire) = snd (expire_stale_approvals env s)"
| "approval_step cfg s (env, Cancel_invalid k by quiet detail) =
     snd (cancel_invalid_type_request env k by quiet detail s)"

subsection \<open>The state machine of a request\<close>

definition all_statuses :: "approval_status list" where
  "all_statuses = [PENDING, APPROVED, EXECUTION_FAILED, REJECTED, ON_HOLD, EXPIRED, CANCELLED]"

text \<open>For every action the statuses it starts from and the one it leads to (\<^theory_text>\<open>None\<close>: the same).\<close>

definition status_changes :: "(string, approval_status list \<times> approval_status option) dict" where
  "status_changes =
     [(''approved'', [PENDING, EXECUTION_FAILED], Some APPROVED),
      (''executed'', [APPROVED], Some APPROVED),
      (''execution_failed'', [APPROVED], Some EXECUTION_FAILED),
      (''no_executor'', [APPROVED], Some EXECUTION_FAILED),
      (''rejected'', [PENDING, EXECUTION_FAILED], Some REJECTED),
      (''reopened'', [REJECTED], Some PENDING),
      (''cancelled'', [PENDING, ON_HOLD, EXECUTION_FAILED], Some CANCELLED),
      (''cancelled_invalid_type'', [PENDING, ON_HOLD, EXECUTION_FAILED], Some CANCELLED),
      (''held'', [PENDING, EXECUTION_FAILED], Some ON_HOLD),
      (''resumed'', [ON_HOLD], Some PENDING),
      (''expired'', [PENDING], Some EXPIRED),
      (''review_added'', all_statuses, None)]"

definition change_status :: "history_entry \<Rightarrow> approval_status option \<Rightarrow> approval_status option" where
  "change_status e st =
     (case st of
        None \<Rightarrow> if he_action e = ''created'' then Some PENDING else None
      | Some x \<Rightarrow>
          (case dict_get status_changes (he_action e) of
             Some (from, new) \<Rightarrow> if x \<in> set from then Some (case new of None \<Rightarrow> x | Some y \<Rightarrow> y) else None
           | None \<Rightarrow> None))"

definition replay :: "history_entry list \<Rightarrow> approval_status option" where
  "replay h = fold change_status h None"

lemma replay_append: "replay (h @ es) = fold change_status es (replay h)"
  by (simp add: replay_def)

lemma entry_simps [simp]:
  "he_action (entry a b c d) = a" "he_actor (entry a b c d) = b"
  by (simp_all add: entry_def)

lemma in_all_statuses [simp]: "x \<in> set all_statuses"
  by (cases x) (simp_all add: all_statuses_def)

lemmas status_defs = change_status_def status_changes_def

subsection \<open>Rows\<close>

definition has_valid_account :: "approval_params \<Rightarrow> bool" where
  "has_valid_account params \<longleftrightarrow>
     (case extract_account_id params of
        Some (Pv (Py_str a)) \<Rightarrow> \<not> is_invalid_account_id (Some a)
      | _ \<Rightarrow> False)"

lemma check_account_id_None [simp]: "check_account_id ctxt params = None \<longleftrightarrow> has_valid_account params"
  by (auto simp: check_account_id_def has_valid_account_def Let_def require_account_id_def
      is_invalid_account_id_def split: option.splits param.splits pyval.splits sum.splits)

definition by_requester :: "string \<Rightarrow> history_entry list \<Rightarrow> bool" where
  "by_requester requester h \<longleftrightarrow>
     list_all (\<lambda>e. he_action e \<in> set [''cancelled'', ''reopened''] \<longrightarrow> he_actor e = requester) h"

definition scoped_params_ok :: "string \<Rightarrow> approval_params \<Rightarrow> bool" where
  "scoped_params_ok type params \<longleftrightarrow>
     type \<in> set account_scoped_approval_types \<longrightarrow> has_valid_account params"

definition row_ok :: "string \<Rightarrow> approval \<Rightarrow> bool" where
  "row_ok k r \<longleftrightarrow>
     aq_id r = k \<and> replay (aq_history r) = Some (aq_status r) \<and>
     by_requester (aq_requester r) (aq_history r) \<and> scoped_params_ok (aq_type r) (aq_params r)"

text \<open>How an operation may change a row: it appends entries that lead to the new status.\<close>

definition row_change :: "approval \<Rightarrow> approval \<Rightarrow> bool" where
  "row_change r r' \<longleftrightarrow>
     aq_id r' = aq_id r \<and> aq_type r' = aq_type r \<and> aq_requester r' = aq_requester r \<and>
     (aq_params r' = aq_params r \<or> scoped_params_ok (aq_type r) (aq_params r')) \<and>
     (\<exists>es. aq_history r' = aq_history r @ es \<and> by_requester (aq_requester r) es \<and>
        fold change_status es (Some (aq_status r)) = Some (aq_status r'))"

lemma row_change_ok: "row_ok k r \<Longrightarrow> row_change r r' \<Longrightarrow> row_ok k r'"
  by (auto simp: row_ok_def row_change_def replay_append by_requester_def)

lemma row_change_trans: "row_change r r' \<Longrightarrow> row_change r' r'' \<Longrightarrow> row_change r r''"
  unfolding row_change_def by (auto simp: by_requester_def)

lemma row_change_entry:
  assumes "change_status e (Some (aq_status r)) = Some (aq_status r')"
    and "aq_history r' = aq_history r @ [e]" and "by_requester (aq_requester r) [e]"
    and "aq_id r' = aq_id r" "aq_type r' = aq_type r" "aq_requester r' = aq_requester r"
    and "aq_params r' = aq_params r \<or> scoped_params_ok (aq_type r) (aq_params r')"
  shows "row_change r r'"
  using assms by (auto simp: row_change_def)

definition approvals_of :: "approval \<Rightarrow> nat" where
  "approvals_of r = length (filter (\<lambda>e. he_action e = ''approved'') (aq_history r))"

subsection \<open>What an operation does to the table and the runs\<close>

type_synonym approval_core = "(string, approval) dict \<times> approval_run list"

definition core :: "approval_state \<Rightarrow> approval_core" where
  "core s = (av_rows s, av_runs s)"

text \<open>The runs \<open>o'\<close> of request \<open>k\<close>, left as \<open>r\<close>; only a failed write hides a success.\<close>

definition ran :: "bool \<Rightarrow> string \<Rightarrow> approval \<Rightarrow> approval_run list \<Rightarrow> bool" where
  "ran faulty k r o' \<longleftrightarrow>
     o' = [] \<or> (\<exists>x. o' = [(k, aq_params r, x)] \<and> aq_type r \<in> set valid_approval_types \<and>
                   (x = None \<longrightarrow> faulty \<or> aq_status r = APPROVED))"

inductive core_step :: "bool \<Rightarrow> approval_core \<Rightarrow> approval_core \<Rightarrow> bool" for faulty :: bool where
  decided: "dict_get rows k = Some r \<Longrightarrow> row_change r r' \<Longrightarrow>
      (aq_status r = APPROVED \<longrightarrow> aq_status r' = APPROVED) \<Longrightarrow> approvals_of r \<le> approvals_of r' \<Longrightarrow>
      core_step faulty (rows, runs) (dict_set k r' rows, runs)"
| executed: "dict_get rows k = Some r \<Longrightarrow> aq_status r \<in> set [PENDING, EXECUTION_FAILED] \<Longrightarrow>
      row_change r r' \<Longrightarrow> approvals_of r' = approvals_of r + 1 \<Longrightarrow> ran faulty k r' o' \<Longrightarrow>
      core_step faulty (rows, runs) (dict_set k r' rows, runs @ o')"
| created: "dict_get rows k = None \<Longrightarrow> row_ok k r \<Longrightarrow> length o' \<le> approvals_of r \<Longrightarrow> ran faulty k r o' \<Longrightarrow>
      core_step faulty (rows, runs) (dict_set k r rows, runs @ o')"

text \<open>A write to the row that was read makes it the row in memory.\<close>

lemma core_update:
  "dict_get (av_rows s) k = Some r \<Longrightarrow> core (update_row k f s) = (dict_set k (f r) (av_rows s), av_runs s)"
  by (simp add: update_row_def core_def)

lemma core_publish [simp]: "core (publish_approval es s) = core s"
  by (simp add: publish_approval_def core_def)

lemma decided_by_entry:
  assumes "dict_get (av_rows s) k = Some r"
    and "aq_history r' = aq_history r @ [e]"
    and "change_status e (Some (aq_status r)) = Some (aq_status r')" and "by_requester (aq_requester r) [e]"
    and "aq_id r' = aq_id r" "aq_type r' = aq_type r" "aq_requester r' = aq_requester r"
    and "aq_params r' = aq_params r \<or> scoped_params_ok (aq_type r) (aq_params r')"
    and "aq_status r = APPROVED \<longrightarrow> aq_status r' = APPROVED"
  shows "core_step faulty (core s) (dict_set k r' (av_rows s), av_runs s)"
proof -
  have "row_change r r'" using assms(3,2,4-8) by (rule row_change_entry)
  moreover have "approvals_of r \<le> approvals_of r'" using assms(2) by (simp add: approvals_of_def)
  ultimately show ?thesis using assms(1,9) unfolding core_def by (auto intro: core_step.decided)
qed

lemma with_request_cases:
  assumes "snd (with_request missing k f s) = s'"
  obtains (missing) "s' = s" | (found) r where "dict_get (av_rows s) k = Some r" "snd (f r s) = s'"
  using assms by (auto simp: with_request_def split: option.splits)

lemmas decision_simps = Let_def core_update add_entry_def status_defs by_requester_def if_distrib [of snd]

lemma reject_core: "s' = snd (reject env k by reason quiet s) \<Longrightarrow> core s' = core s \<or> core_step faulty (core s) (core s')"
  unfolding reject_def
  by (erule with_request_cases [OF sym])
    (auto simp: decision_simps split: if_splits intro!: decided_by_entry [where e = "entry ''rejected'' by (ae_now env) (Detail reason)"])

lemma cancel_core: "s' = snd (cancel_approval env k by s) \<Longrightarrow> core s' = core s \<or> core_step faulty (core s) (core s')"
  unfolding cancel_approval_def
  by (erule with_request_cases [OF sym])
    (auto simp: decision_simps cancellable_statuses_def split: if_splits
      intro!: decided_by_entry [where e = "entry ''cancelled'' by (ae_now env) (Detail '''')"])

lemma cancel_invalid_core:
  "s' = snd (cancel_invalid_type_request env k by quiet detail s) \<Longrightarrow>
   core s' = core s \<or> core_step faulty (core s) (core s')"
  unfolding cancel_invalid_type_request_def
  by (erule with_request_cases [OF sym])
    (auto simp: decision_simps cancellable_statuses_def split: if_splits
      intro!: decided_by_entry [where e = "entry ''cancelled_invalid_type'' by (ae_now env) (Detail detail)"])

lemma hold_core: "s' = snd (hold env k s) \<Longrightarrow> core s' = core s \<or> core_step faulty (core s) (core s')"
  unfolding hold_def set_hold_status_def
  by (erule with_request_cases [OF sym])
    (auto simp: decision_simps split: if_splits
      intro!: decided_by_entry [where e = "entry ''held'' ''user'' (ae_now env) (Detail '''')"])

lemma resume_core: "s' = snd (resume env k s) \<Longrightarrow> core s' = core s \<or> core_step faulty (core s) (core s')"
  unfolding resume_def set_hold_status_def
  by (erule with_request_cases [OF sym])
    (auto simp: decision_simps split: if_splits
      intro!: decided_by_entry [where e = "entry ''resumed'' ''user'' (ae_now env) (Detail '''')"])

lemma review_core:
  "s' = snd (add_review env k by result detail s) \<Longrightarrow> core s' = core s \<or> core_step faulty (core s) (core s')"
  unfolding add_review_def
  by (erule with_request_cases [OF sym])
    (auto simp: decision_simps split: if_splits
      intro!: decided_by_entry [where e = "entry ''review_added'' by (ae_now env) (Review_of result detail)"])

lemma reopen_core:
  "s' = snd (reopen cfg env k by body params s) \<Longrightarrow> core s' = core s \<or> core_step faulty (core s) (core s')"
  unfolding reopen_def
  by (erule with_request_cases [OF sym])
    (auto simp: decision_simps scoped_params_ok_def split: if_splits option.splits sum.splits
      intro!: decided_by_entry [where e = "entry ''reopened'' by (ae_now env) (Reopened (body \<noteq> None) (params \<noteq> None))"])

text \<open>The executor: from an approved row, with at most one run.\<close>

definition failed_row :: "approval_env \<Rightarrow> string \<Rightarrow> string \<Rightarrow> entry_detail \<Rightarrow> approval \<Rightarrow> approval" where
  "failed_row env action actor detail r =
     (add_entry (entry action actor (ae_exec_now env) detail) r)\<lparr>aq_status := EXECUTION_FAILED\<rparr>"

definition executed_row :: "approval_env \<Rightarrow> string \<Rightarrow> approval \<Rightarrow> approval" where
  "executed_row env actor r = add_entry (entry ''executed'' actor (ae_exec_now env) (Detail '''')) r"

lemma mark_failed_core:
  assumes "dict_get (av_rows s) (aq_id r) = Some row" and "row\<lparr>aq_history := aq_history r\<rparr> = r"
  shows "core (snd (mark_execution_failed env n action actor detail r s)) =
    (dict_set (aq_id r) (if ae_fails env n then row else failed_row env action actor detail r) (av_rows s), av_runs s)"
proof -
  have "r = row\<lparr>aq_history := aq_history r\<rparr>" using assms(2) by simp
  then obtain h where r: "r = row\<lparr>aq_history := h\<rparr>" by blast
  show ?thesis using assms(1)
    by (simp add: r mark_execution_failed_def Let_def failed_row_def add_entry_def core_update)
      (cases row, simp add: core_def dict_set_same)
qed

lemma executor_rows:
  assumes "aq_status r = APPROVED"
  shows "row_change r r"
    and "action \<in> {''execution_failed'', ''no_executor''} \<Longrightarrow> row_change r (failed_row env action actor detail r)"
    and "row_change r (executed_row env actor r)"
    and "row_change r (failed_row env ''execution_failed'' actor detail (executed_row env actor r))"
proof -
  show "row_change r r" by (simp add: row_change_def by_requester_def)
  have failed: "row_change r' (failed_row env action actor detail r')"
    if "aq_status r' = APPROVED" "action \<in> {''execution_failed'', ''no_executor''}" for r' action
  proof -
    have "change_status (entry action actor now detail) (Some APPROVED) = Some EXECUTION_FAILED" for now
      using that(2) by (elim insertE emptyE) (simp_all add: status_defs)
    moreover have "by_requester q [entry action actor now detail]" for q now
      using that(2) by (elim insertE emptyE) (simp_all add: by_requester_def)
    ultimately show ?thesis using that(1)
      by (intro row_change_entry [where e = "entry action actor (ae_exec_now env) detail"])
        (simp_all add: failed_row_def add_entry_def)
  qed
  have executed: "row_change r (executed_row env actor r)"
    using assms by (intro row_change_entry [where e = "entry ''executed'' actor (ae_exec_now env) (Detail '''')"])
      (auto simp: executed_row_def add_entry_def by_requester_def status_defs)
  show "action \<in> {''execution_failed'', ''no_executor''} \<Longrightarrow> row_change r (failed_row env action actor detail r)"
    using failed assms by blast
  show "row_change r (executed_row env actor r)" by (rule executed)
  show "row_change r (failed_row env ''execution_failed'' actor detail (executed_row env actor r))"
    using row_change_trans [OF executed failed] assms by (simp add: executed_row_def add_entry_def)
qed

lemma executor_row_simps [simp]:
  "aq_id (failed_row env action actor detail r) = aq_id r" "aq_id (executed_row env actor r) = aq_id r"
  "aq_params (failed_row env action actor detail r) = aq_params r" "aq_params (executed_row env actor r) = aq_params r"
  "aq_type (failed_row env action actor detail r) = aq_type r" "aq_type (executed_row env actor r) = aq_type r"
  "aq_status (executed_row env actor r) = aq_status r"
  "approvals_of (executed_row env actor r) = approvals_of r"
  "action \<in> {''execution_failed'', ''no_executor''} \<Longrightarrow> approvals_of (failed_row env action actor detail r) = approvals_of r"
  by (auto simp: failed_row_def executed_row_def add_entry_def approvals_of_def)

lemma run_executor_core:
  assumes get: "dict_get (av_rows s) (aq_id r) = Some r" and st: "aq_status r = APPROVED"
    and type: "aq_type r \<in> set valid_approval_types"
    and faulty: "\<not> faulty \<Longrightarrow> \<not> ae_fails env n"
  shows "\<exists>r' o'. core (snd (run_executor cfg env n actor r s)) = (dict_set (aq_id r) r' (av_rows s), av_runs s @ o') \<and>
    row_change r r' \<and> approvals_of r' = approvals_of r \<and> ran faulty (aq_id r) r' o'"
proof (cases "aq_type r \<in> set (ac_executors cfg)")
  case False
  let ?r' = "if ae_fails env n then r else failed_row env ''no_executor'' actor (No_executor_for (aq_type r)) r"
  from False have "core (snd (run_executor cfg env n actor r s)) = (dict_set (aq_id r) ?r' (av_rows s), av_runs s @ [])"
    using mark_failed_core [OF get] by (simp add: run_executor_def)
  moreover have "row_change r ?r'" "approvals_of ?r' = approvals_of r" "ran faulty (aq_id r) ?r' []"
    using executor_rows [OF st] by (auto simp: ran_def)
  ultimately show ?thesis by blast
next
  case True
  define s1 where "s1 = s\<lparr>av_runs := av_runs s @ [(aq_id r, aq_params r, ae_execute env (aq_params r))]\<rparr>"
  let ?o = "[(aq_id r, aq_params r, ae_execute env (aq_params r))]"
  have s1: "dict_get (av_rows s1) (aq_id r) = Some r" "av_rows s1 = av_rows s" "av_runs s1 = av_runs s @ ?o"
    using get by (simp_all add: s1_def)
  show ?thesis
  proof (cases "ae_execute env (aq_params r)")
    case (Some msg)
    let ?r' = "if ae_fails env n then r else failed_row env ''execution_failed'' actor (Detail msg) r"
    have "run_executor cfg env n actor r s = mark_execution_failed env n ''execution_failed'' actor (Detail msg) r s1"
      using True Some by (simp add: run_executor_def s1_def)
    then have "core (snd (run_executor cfg env n actor r s)) = (dict_set (aq_id r) ?r' (av_rows s), av_runs s @ ?o)"
      using mark_failed_core [OF s1(1)] s1(2,3) by simp
    moreover have "row_change r ?r'" "approvals_of ?r' = approvals_of r" "ran faulty (aq_id r) ?r' ?o"
      using executor_rows [OF st] type Some by (auto simp: ran_def)
    ultimately show ?thesis by blast
  next
    case None
    let ?r1 = "executed_row env actor r"
    let ?r' = "if \<not> ae_fails env n then ?r1 else if ae_fails env (n + 1) then r
       else failed_row env ''execution_failed'' actor Write_failed ?r1"
    have "core (snd (run_executor cfg env n actor r s)) = (dict_set (aq_id r) ?r' (av_rows s), av_runs s @ ?o)"
    proof (cases "ae_fails env n")
      case f: True
      have "dict_get (av_rows s1) (aq_id ?r1) = Some r" "r\<lparr>aq_history := aq_history ?r1\<rparr> = ?r1"
        using s1(1) by (simp_all add: executed_row_def add_entry_def)
      note m = mark_failed_core [OF this, of env "n + 1" "''execution_failed''" actor Write_failed]
      have "run_executor cfg env n actor r s = mark_execution_failed env (n + 1) ''execution_failed'' actor Write_failed ?r1 s1"
        using f True None by (simp add: run_executor_def executed_row_def s1_def Let_def)
      then show ?thesis using m f s1(2,3) by simp
    next
      case f: False
      then have "snd (run_executor cfg env n actor r s) =
          update_row (aq_id r) (\<lambda>row. row\<lparr>aq_history := aq_history ?r1\<rparr>) s1"
        using True None by (simp add: run_executor_def executed_row_def s1_def Let_def)
      then show ?thesis using f s1 by (simp add: core_update executed_row_def add_entry_def)
    qed
    moreover have "row_change r ?r'" "approvals_of ?r' = approvals_of r" "ran faulty (aq_id r) ?r' ?o"
      using executor_rows [OF st] type faulty st by (auto simp: ran_def)
    ultimately show ?thesis by blast
  qed
qed

lemma execute_approved_core:
  assumes "dict_get (av_rows s) (aq_id r) = Some r" and "aq_status r = APPROVED"
    and type: "aq_type r \<in> set valid_approval_types" and "\<not> faulty \<Longrightarrow> \<not> ae_fails env n"
  shows "\<exists>r' o'. core (snd (execute_approved cfg env n actor quiet r s)) =
      (dict_set (aq_id r) r' (av_rows s), av_runs s @ o') \<and>
    row_change r r' \<and> approvals_of r' = approvals_of r \<and> ran faulty (aq_id r) r' o'"
proof -
  have "core (snd (execute_approved cfg env n actor quiet r s)) = core (snd (run_executor cfg env n actor r s))"
    using type by (auto simp: execute_approved_def split: sum.splits prod.splits)
  with run_executor_core [OF assms] show ?thesis by simp
qed

definition writes_succeed :: "approval_env \<Rightarrow> bool" where
  "writes_succeed env \<longleftrightarrow> (\<forall>n. \<not> ae_fails env n)"

definition approved_row :: "approval_env \<Rightarrow> string \<Rightarrow> approval \<Rightarrow> approval" where
  "approved_row env by r =
     (add_entry (entry ''approved'' by (ae_now env) (Detail '''')) r)
       \<lparr>aq_status := APPROVED, aq_resolved_at := ae_now env, aq_resolved_by := by\<rparr>"

lemma approve_core:
  assumes inv: "\<And>r. dict_get (av_rows s) k = Some r \<Longrightarrow> aq_id r = k"
    and faulty: "\<not> faulty \<Longrightarrow> writes_succeed env"
  shows "core (snd (approve cfg env k by quiet s)) = core s \<or>
    core_step faulty (core s) (core (snd (approve cfg env k by quiet s)))"
proof (cases "dict_get (av_rows s) k")
  case None
  then show ?thesis by (simp add: approve_def with_request_def)
next
  case (Some r)
  have k: "aq_id r = k" using inv [OF Some] .
  show ?thesis
  proof (cases "aq_type r \<in> set valid_approval_types \<and> aq_status r \<in> set [PENDING, EXECUTION_FAILED] \<and> \<not> ae_fails env 0")
    case False
    then show ?thesis using Some by (auto simp: approve_def with_request_def approve_loaded_def Let_def)
  next
    case True
    let ?r1 = "approved_row env by r"
    define s1 where "s1 = update_row k (\<lambda>row. row\<lparr>aq_status := APPROVED, aq_resolved_at := ae_now env,
                               aq_resolved_by := by, aq_history := aq_history ?r1\<rparr>) s"
    have "core s1 = (dict_set k ?r1 (av_rows s), av_runs s)"
      using Some by (cases r) (simp add: s1_def core_update approved_row_def add_entry_def)
    then have s1: "av_rows s1 = dict_set k ?r1 (av_rows s)" "av_runs s1 = av_runs s" by (simp_all add: core_def)
    have r1: "aq_id ?r1 = k" "aq_status ?r1 = APPROVED" "aq_type ?r1 = aq_type r" "approvals_of ?r1 = approvals_of r + 1"
      using k by (simp_all add: approved_row_def add_entry_def approvals_of_def)
    have "approve cfg env k by quiet s = execute_approved cfg env 1 by quiet ?r1 s1"
      using Some True k by (auto simp: approve_def with_request_def approve_loaded_def Let_def approved_row_def s1_def)
    moreover have "dict_get (av_rows s1) (aq_id ?r1) = Some ?r1" using s1 r1 by simp
    moreover have "\<not> faulty \<Longrightarrow> \<not> ae_fails env 1" using faulty by (simp add: writes_succeed_def)
    ultimately obtain r' o' where e: "core (snd (approve cfg env k by quiet s)) = (dict_set k r' (av_rows s1), av_runs s @ o')"
      "row_change ?r1 r'" "approvals_of r' = approvals_of r + 1" "ran faulty k r' o'"
      using execute_approved_core [of s1 ?r1 faulty env 1 cfg "by" quiet] True r1 s1(2) by auto
    have "row_change r ?r1"
      using True by (intro row_change_entry [where e = "entry ''approved'' by (ae_now env) (Detail '''')"])
        (auto simp: approved_row_def add_entry_def status_defs by_requester_def)
    then have "row_change r r'" using e(2) by (rule row_change_trans)
    moreover have "core (snd (approve cfg env k by quiet s)) = (dict_set k r' (av_rows s), av_runs s @ o')"
      using e(1) s1(1) by simp
    moreover have "core_step faulty (av_rows s, av_runs s) (dict_set k r' (av_rows s), av_runs s @ o')"
      using Some _ calculation(1) e(3,4) by (rule core_step.executed) (use True in blast)
    ultimately show ?thesis by (simp add: core_def [of s])
  qed
qed

lemma new_approval_ok:
  assumes "scoped_params_ok (ad_type d) (ad_params d)"
  shows "row_ok (ae_new_id env) (new_approval env d reviews auto)"
  using assms by (simp add: row_ok_def new_approval_def Let_def add_entry_def replay_def status_defs by_requester_def)

lemma new_approval_simps [simp]:
  "aq_id (new_approval env d reviews auto) = ae_new_id env" "aq_type (new_approval env d reviews auto) = ad_type d"
  "aq_status (new_approval env d reviews True) = APPROVED" "approvals_of (new_approval env d reviews True) = 1"
  by (simp_all add: new_approval_def Let_def add_entry_def approvals_of_def)

text \<open>The state after the insertion and its events.\<close>

definition inserted :: "approval_env \<Rightarrow> approval_draft \<Rightarrow> review list \<Rightarrow> bool \<Rightarrow> approval_state \<Rightarrow> approval_state" where
  "inserted env d reviews auto s =
     (let r = new_approval env d reviews auto
      in publish_approval [Approval_created (aq_id r) (ad_type d) (aq_requester r) (aq_title r) auto,
           Request_notice (aq_id r) auto] (s\<lparr>av_rows := dict_set (aq_id r) r (av_rows s)\<rparr>))"

lemma create_cases:
  obtains (refused) "snd (create_approval cfg env d s) = s"
  | (accepted) reviews auto where
      "ad_type d \<in> set valid_approval_types" "scoped_params_ok (ad_type d) (ad_params d)"
      "dict_get (av_rows s) (ae_new_id env) = None"
      "create_approval cfg env d s =
         (if auto then execute_approved cfg env 1 ''system:auto_approve'' False (new_approval env d reviews auto)
            (inserted env d reviews auto s)
          else (Inr (new_approval env d reviews auto), inserted env d reviews auto s))"
proof (cases "ad_type d \<in> set valid_approval_types \<and> scoped_params_ok (ad_type d) (ad_params d)")
  case False
  then have "snd (create_approval cfg env d s) = s"
    by (auto simp: create_approval_def Let_def scoped_params_ok_def split: option.splits)
  then show ?thesis by (rule refused)
next
  case c: True
  then have chk: "(if ad_type d \<in> set account_scoped_approval_types
       then check_account_id (''approval.'' @ ad_type d @ ''.create'') (ad_params d) else None) = None"
    by (simp add: scoped_params_ok_def)
  have d: "create_approval cfg env d s =
      (case validate_params cfg (ad_type d) (ad_params d) (ae_now env) of
         Inl e \<Rightarrow> (Inl e, s)
       | Inr reviews \<Rightarrow>
           (case should_auto_approve cfg (ad_type d) (ad_params d) of
              None \<Rightarrow> (Inl Approval_raises, s)
            | Some auto \<Rightarrow>
                if ae_fails env 0 \<or> dict_get (av_rows s) (ae_new_id env) \<noteq> None then (Inl Approval_raises, s)
                else if auto
                then execute_approved cfg env 1 ''system:auto_approve'' False (new_approval env d reviews auto)
                       (inserted env d reviews auto s)
                else (Inr (new_approval env d reviews auto), inserted env d reviews auto s)))"
    unfolding create_approval_def Let_def chk using c
    by (auto simp: persist_request_def inserted_def Let_def split: sum.splits option.splits)
  show ?thesis
  proof (cases "validate_params cfg (ad_type d) (ad_params d) (ae_now env)")
    case (Inr reviews)
    show ?thesis
    proof (cases "should_auto_approve cfg (ad_type d) (ad_params d)")
      case (Some auto)
      show ?thesis
        using d Inr Some c refused accepted [of auto reviews] by (auto split: if_splits)
    qed (use d Inr in \<open>auto intro: refused\<close>)
  qed (use d in \<open>auto intro: refused\<close>)
qed

lemma create_core:
  assumes faulty: "\<not> faulty \<Longrightarrow> writes_succeed env"
  shows "core (snd (create_approval cfg env d s)) = core s \<or>
    core_step faulty (core s) (core (snd (create_approval cfg env d s)))"
proof (cases rule: create_cases [of cfg env d s])
  case (accepted reviews auto)
  let ?k = "ae_new_id env" and ?r = "new_approval env d reviews auto" and ?s2 = "inserted env d reviews auto s"
  have s2: "av_rows ?s2 = dict_set ?k ?r (av_rows s)" "av_runs ?s2 = av_runs s"
    by (simp_all add: inserted_def publish_approval_def Let_def)
  have ok: "row_ok ?k ?r" using accepted(2) by (rule new_approval_ok)
  show ?thesis
  proof (cases auto)
    case False
    have "core_step faulty (av_rows s, av_runs s) (dict_set ?k ?r (av_rows s), av_runs s @ [])"
      using accepted(3) ok by (rule core_step.created) (simp_all add: ran_def)
    with accepted(4) False s2 show ?thesis by (simp add: core_def)
  next
    case True
    obtain r' o' where e: "core (snd (create_approval cfg env d s)) = (dict_set ?k r' (av_rows ?s2), av_runs s @ o')"
      "row_change ?r r'" "approvals_of r' = 1" "ran faulty ?k r' o'"
      using execute_approved_core [of ?s2 ?r faulty env 1 cfg "''system:auto_approve''" False] accepted s2 True faulty
      by (auto simp: writes_succeed_def)
    have "row_ok ?k r'" using ok e(2) by (rule row_change_ok)
    moreover have "length o' \<le> approvals_of r'" using e(3,4) by (auto simp: ran_def)
    ultimately have "core_step faulty (av_rows s, av_runs s) (dict_set ?k r' (av_rows s), av_runs s @ o')"
      using accepted(3) e(4) by (intro core_step.created)
    with e(1) s2 show ?thesis by (simp add: core_def [of s])
  qed
qed simp

lemma core_steps_refl: "core s' = core s \<or> core_step faulty (core s) (core s') \<Longrightarrow> (core_step faulty)\<^sup>*\<^sup>* (core s) (core s')"
  by auto

lemma expire_rows_core:
  assumes "\<forall>r\<in>set rs. dict_get (av_rows s) (aq_id r) = Some r \<and> aq_status r = PENDING"
    and "distinct (map aq_id rs)"
  shows "(core_step faulty)\<^sup>*\<^sup>* (core s) (core (snd (expire_rows env n rs s)))"
  using assms
proof (induction rs arbitrary: n s)
  case (Cons r rs)
  let ?e = "entry ''expired'' ''system'' (ae_now env) (Detail '''')"
  let ?r = "r\<lparr>aq_status := EXPIRED, aq_resolved_at := ae_now env, aq_resolved_by := ''system'',
              aq_history := aq_history r @ [?e]\<rparr>"
  define s1 where "s1 = publish_approval (resolved_events ((add_entry ?e r)\<lparr>aq_status := EXPIRED\<rparr>) ''system'' False)
    (update_row (aq_id r) (\<lambda>row. row\<lparr>aq_status := EXPIRED, aq_resolved_at := ae_now env,
        aq_resolved_by := ''system'', aq_history := aq_history r @ [?e]\<rparr>) s)"
  show ?case
  proof (cases "ae_fails env n")
    case False
    have r: "dict_get (av_rows s) (aq_id r) = Some r" "aq_status r = PENDING" using Cons.prems(1) by auto
    have c: "core s1 = (dict_set (aq_id r) ?r (av_rows s), av_runs s)"
      using r(1) by (simp add: s1_def core_update)
    have "core_step faulty (core s) (core s1)" unfolding c
      using r by (intro decided_by_entry [where e = ?e]) (auto simp: status_defs by_requester_def)
    moreover have "(core_step faulty)\<^sup>*\<^sup>* (core s1) (core (snd (expire_rows env (n + 1) rs s1)))"
    proof (rule Cons.IH)
      have "av_rows s1 = dict_set (aq_id r) ?r (av_rows s)" using c by (simp add: core_def)
      moreover have "aq_id r' \<noteq> aq_id r" if "r' \<in> set rs" for r' using Cons.prems(2) that by (metis distinct.simps(2) image_eqI list.set_map list.simps(9))
      ultimately show "\<forall>r\<in>set rs. dict_get (av_rows s1) (aq_id r) = Some r \<and> aq_status r = PENDING"
        using Cons.prems(1) by simp
    qed (use Cons.prems(2) in simp)
    ultimately show ?thesis using False
      by (simp add: Let_def add_entry_def s1_def converse_rtranclp_into_rtranclp)
  qed (simp add: Let_def)
qed simp

lemma distinct_ids:
  assumes "dict_wf d" and "\<And>k r. dict_get d k = Some r \<Longrightarrow> aq_id r = k"
  shows "distinct (map aq_id (filter P (dict_values d)))"
proof -
  have "map aq_id (dict_values d) = map fst d"
  proof -
    have "aq_id (snd x) = fst x" if "x \<in> set d" for x
      using that assms dict_get_mem [OF assms(1), of "fst x" "snd x"] by simp
    then show ?thesis by simp
  qed
  with assms(1) have "distinct (map aq_id (dict_values d))" by (simp only: dict_wf_def)
  then show ?thesis by (rule distinct_map_filter)
qed

lemmas other_core = reject_core reopen_core cancel_core cancel_invalid_core hold_core resume_core review_core

lemma approval_step_core:
  assumes wf: "dict_wf (av_rows s)" and ids: "\<And>k r. dict_get (av_rows s) k = Some r \<Longrightarrow> aq_id r = k"
    and faulty: "\<not> faulty \<Longrightarrow> writes_succeed (fst e)"
  shows "(core_step faulty)\<^sup>*\<^sup>* (core s) (core (approval_step cfg s e))"
proof -
  obtain env op where e: "e = (env, op)" by (cases e)
  show ?thesis
  proof (cases op)
    case (Create d)
    with create_core [of faulty env cfg d s] faulty e show ?thesis by (auto simp: e intro!: core_steps_refl)
  next
    case (Approve k who quiet)
    have "\<not> faulty \<Longrightarrow> writes_succeed env" using faulty by (simp add: e)
    from approve_core [of s k faulty env cfg who quiet, OF ids this]
    have "core (approval_step cfg s e) = core s \<or> core_step faulty (core s) (core (approval_step cfg s e))"
      by (simp add: e Approve)
    then show ?thesis by (rule core_steps_refl)
  next
    case Expire
    have "r \<in> set (dict_values (av_rows s)) \<Longrightarrow> dict_get (av_rows s) (aq_id r) = Some r" for r
      using wf ids dict_values_ex [of "av_rows s" r] by auto
    then have "(core_step faulty)\<^sup>*\<^sup>* (core s) (core (snd (expire_stale_approvals env s)))"
      unfolding expire_stale_approvals_def
      using distinct_ids [OF wf ids] by (intro expire_rows_core) (auto simp: is_expired_def)
    then show ?thesis by (simp add: e Expire)
  qed (simp_all only: e approval_step.simps, (rule core_steps_refl, rule other_core, rule refl)+)
qed

subsection \<open>Invariants\<close>

definition runs_of :: "string \<Rightarrow> approval_run list \<Rightarrow> nat" where
  "runs_of k runs = length (filter (\<lambda>(k', p, x). k' = k) runs)"

definition successes_of :: "string \<Rightarrow> approval_run list \<Rightarrow> nat" where
  "successes_of k runs = length (filter (\<lambda>(k', p, x). k' = k \<and> x = None) runs)"

definition table_inv :: "approval_core \<Rightarrow> bool" where
  "table_inv c \<longleftrightarrow> dict_wf (fst c) \<and>
     (\<forall>k r. dict_get (fst c) k = Some r \<longrightarrow> row_ok k r \<and> runs_of k (snd c) \<le> approvals_of r)"

definition run_ok :: "(string, approval) dict \<Rightarrow> approval_run \<Rightarrow> bool" where
  "run_ok rows x \<longleftrightarrow> (\<exists>r. dict_get rows (fst x) = Some r \<and> aq_type r \<in> set valid_approval_types \<and>
     scoped_params_ok (aq_type r) (fst (snd x)))"

definition once_inv :: "approval_core \<Rightarrow> bool" where
  "once_inv c \<longleftrightarrow> (\<forall>k. successes_of k (snd c) \<le> 1 \<and>
     (0 < successes_of k (snd c) \<longrightarrow> map_option aq_status (dict_get (fst c) k) = Some APPROVED))"

lemma runs_of_simps [simp]:
  "runs_of k [] = 0" "runs_of k (runs @ o') = runs_of k runs + runs_of k o'"
  "successes_of k [] = 0" "successes_of k (runs @ o') = successes_of k runs + successes_of k o'"
  "runs_of k [(k', p, x)] = (if k' = k then 1 else 0)"
  "successes_of k [(k', p, x)] = (if k' = k \<and> x = None then 1 else 0)"
  by (simp_all add: runs_of_def successes_of_def)

lemma runs_of_zero: "\<forall>(k', p, x)\<in>set runs. k' \<noteq> k \<Longrightarrow> runs_of k runs = 0 \<and> successes_of k runs = 0"
  by (auto simp: runs_of_def successes_of_def filter_empty_conv)

lemma ran_runs: "ran faulty k r o' \<Longrightarrow> runs_of j o' \<le> (if j = k then 1 else 0)"
  by (auto simp: ran_def)

lemma all_runs_ok_mono:
  assumes "list_all (run_ok rows) runs"
    and "\<And>j r. dict_get rows j = Some r \<Longrightarrow> \<exists>r'. dict_get rows' j = Some r' \<and> aq_type r' = aq_type r"
  shows "list_all (run_ok rows') runs"
  using assms unfolding list_all_iff run_ok_def by metis

lemma runs_ok_set:
  assumes "list_all (run_ok rows) runs" and "dict_get rows k = Some r \<Longrightarrow> aq_type r' = aq_type r"
    and "dict_get rows k = None \<or> dict_get rows k = Some r"
  shows "list_all (run_ok (dict_set k r' rows)) runs"
  using assms(1) by (rule all_runs_ok_mono) (use assms(2,3) in \<open>auto split: if_splits\<close>)

lemma row_change_type: "row_change r r' \<Longrightarrow> aq_type r' = aq_type r"
  by (simp add: row_change_def)

lemma runs_ok_step:
  assumes "core_step faulty c c'" and "table_inv c" and "list_all (run_ok (fst c)) (snd c)"
  shows "list_all (run_ok (fst c')) (snd c')"
  using assms(1)
proof cases
  case (decided rows k r r' runs)
  have "list_all (run_ok (dict_set k r' rows)) runs"
    using decided(1,3) assms(3) row_change_type [OF decided(4)] by (intro runs_ok_set [of rows runs k r]) simp_all
  then show ?thesis using decided(2) by simp
next
  case (executed rows k r r' o' runs)
  have "row_ok k r" using executed(1,3) assms(2) by (simp add: table_inv_def)
  then have "row_ok k r'" using executed(5) by (rule row_change_ok)
  then have "list_all (run_ok (dict_set k r' rows)) o'"
    using executed(7) by (auto simp: ran_def run_ok_def row_ok_def)
  moreover have "list_all (run_ok (dict_set k r' rows)) runs"
    using executed(1,3) assms(3) row_change_type [OF executed(5)] by (intro runs_ok_set [of rows runs k r]) simp_all
  ultimately show ?thesis using executed(2) by simp
next
  case (created rows k r o' runs)
  have "list_all (run_ok (dict_set k r rows)) o'"
    using created(4,6) by (auto simp: ran_def run_ok_def row_ok_def)
  moreover have "list_all (run_ok (dict_set k r rows)) runs"
    using created(1,3) assms(3) by (intro runs_ok_set [of rows runs k r]) simp_all
  ultimately show ?thesis using created(2) by simp
qed

lemma table_inv_set:
  assumes "table_inv (rows, runs)" and "row_ok k r'" and "runs_of k (runs @ o') \<le> approvals_of r'"
    and "\<And>j. j \<noteq> k \<Longrightarrow> runs_of j o' = 0"
  shows "table_inv (dict_set k r' rows, runs @ o')"
  using assms by (auto simp: table_inv_def)

lemma table_inv_step:
  assumes "core_step faulty c c'" and "table_inv c" and runs: "list_all (run_ok (fst c)) (snd c)"
  shows "table_inv c'"
  using assms(1)
proof cases
  case (decided rows k r r' runs)
  have "row_ok k r" "runs_of k runs \<le> approvals_of r" using decided assms(2) by (simp_all add: table_inv_def)
  then have "row_ok k r'" "runs_of k runs \<le> approvals_of r'"
    using decided(4) row_change_ok order_trans [OF _ decided(6)] by blast+
  then show ?thesis using table_inv_set [of rows runs k r' "[]"] decided assms(2) by simp
next
  case (executed rows k r r' o' runs)
  have "row_ok k r" "runs_of k runs \<le> approvals_of r" using executed(1,3) assms(2) by (simp_all add: table_inv_def)
  moreover have "row_ok k r'" using calculation(1) executed(5) by (rule row_change_ok)
  moreover have o': "runs_of j o' \<le> (if j = k then 1 else 0)" for j using executed(7) by (rule ran_runs)
  have "runs_of k o' \<le> 1" using o' [of k] by simp
  moreover have "runs_of j o' = 0" if "j \<noteq> k" for j using o' [of j] that by simp
  ultimately show ?thesis
    using table_inv_set [of rows runs k r' o'] executed(1,2,6) assms(2) by simp
next
  case (created rows k r o' runs)
  have "runs_of k runs = 0"
    using runs_of_zero [of runs k] runs created by (force simp: list_all_iff run_ok_def)
  moreover have "runs_of j o' = 0" if "j \<noteq> k" for j using ran_runs [OF created(6), of j] that by simp
  moreover have "runs_of k o' \<le> length o'" by (simp add: runs_of_def)
  ultimately show ?thesis
    using table_inv_set [of rows runs k r o'] created assms(2) by simp
qed

lemma once_inv_step:
  assumes "core_step False c c'" and "once_inv c" and runs: "list_all (run_ok (fst c)) (snd c)"
  shows "once_inv c'"
  using assms(1)
proof cases
  case (decided rows k r r' runs)
  have "successes_of j runs \<le> 1 \<and> (0 < successes_of j runs \<longrightarrow> map_option aq_status (dict_get (dict_set k r' rows) j) = Some APPROVED)" for j
    using assms(2) [unfolded once_inv_def, THEN spec, of j] decided(1,3,5) by (cases "j = k") auto
  then show ?thesis using decided(2) by (simp add: once_inv_def)
next
  case (executed rows k r r' o' runs)
  have "successes_of k runs = 0" using executed assms(2) by (force simp: once_inv_def)
  then show ?thesis using executed(1,2,7) assms(2) by (auto simp: once_inv_def ran_def)
next
  case (created rows k r o' runs)
  have "successes_of k runs = 0"
    using runs_of_zero [of runs k] runs created by (force simp: list_all_iff run_ok_def)
  then show ?thesis using created(1,2,6) assms(2) by (auto simp: once_inv_def ran_def)
qed

definition approvals_ok :: "bool \<Rightarrow> approval_state \<Rightarrow> bool" where
  "approvals_ok faulty s \<longleftrightarrow>
     table_inv (core s) \<and> list_all (run_ok (av_rows s)) (av_runs s) \<and> (faulty \<or> once_inv (core s))"

lemma approvals_ok_steps:
  assumes "(core_step faulty)\<^sup>*\<^sup>* c c'"
    and "table_inv c \<and> list_all (run_ok (fst c)) (snd c) \<and> (faulty \<or> once_inv c)"
  shows "table_inv c' \<and> list_all (run_ok (fst c')) (snd c') \<and> (faulty \<or> once_inv c')"
  using assms
proof (induction rule: rtranclp_induct)
  case (step c' c'')
  then have i: "table_inv c'" "list_all (run_ok (fst c')) (snd c')" "faulty \<or> once_inv c'" by blast+
  have "once_inv c''" if "\<not> faulty" using once_inv_step [OF _ _ i(2)] step.hyps(2) i(3) that by simp
  with table_inv_step [OF step.hyps(2) i(1,2)] runs_ok_step [OF step.hyps(2) i(1,2)] show ?case by blast
qed

lemma approvals_ok_step:
  assumes "approvals_ok faulty s" and "\<not> faulty \<Longrightarrow> writes_succeed (fst e)"
  shows "approvals_ok faulty (approval_step cfg s e)"
proof -
  have t: "table_inv (core s)" using assms(1) by (simp add: approvals_ok_def)
  then have "dict_wf (av_rows s)" "\<And>k r. dict_get (av_rows s) k = Some r \<Longrightarrow> aq_id r = k"
    by (auto simp: table_inv_def core_def row_ok_def)
  from approval_step_core [OF this assms(2), of faulty cfg] approvals_ok_steps assms(1)
  show ?thesis by (fastforce simp: approvals_ok_def core_def)
qed

interpretation approvals: guarded_machine "approval_step cfg" "\<lambda>_ e. faulty \<or> writes_succeed (fst e)" "approvals_ok faulty"
  by unfold_locales (rule approvals_ok_step, auto)

lemma no_approvals_ok: "approvals_ok faulty no_approvals"
  by (simp add: approvals_ok_def no_approvals_def core_def table_inv_def once_inv_def)

lemma approvals_run:
  "approvals_ok True (run (approval_step cfg) no_approvals es)"
  by (rule approvals.run_inv [OF no_approvals_ok]) simp

lemma admissible_all: "list_all P es \<Longrightarrow> admissible step (\<lambda>_. P) s es"
  by (induction es arbitrary: s) simp_all

lemma approvals_run_without_faults:
  assumes "list_all (\<lambda>e. writes_succeed (fst e)) es"
  shows "approvals_ok False (run (approval_step cfg) no_approvals es)"
  by (rule approvals.run_inv [OF no_approvals_ok]) (simp add: admissible_all [OF assms])

subsection \<open>Properties\<close>

text \<open>C20. Over any sequence of operations, whatever write fails, the stored history of a request replays
  through the state machine to its stored status, only its requester cancelled or reopened it, and the
  executor ran at most once per approval in that history.\<close>

theorem approval_history_determines_status:
  assumes "dict_get (av_rows (run (approval_step cfg) no_approvals es)) k = Some r"
  shows "replay (aq_history r) = Some (aq_status r) \<and> by_requester (aq_requester r) (aq_history r) \<and>
    runs_of k (av_runs (run (approval_step cfg) no_approvals es)) \<le> approvals_of r"
  using approvals_run [of cfg es] assms by (simp add: approvals_ok_def table_inv_def core_def row_ok_def)

text \<open>C21. When the operations on requests run one after another and no write fails, the executor of a
  request succeeds at most once, and the request stays approved from then on: it cannot be approved,
  rejected, cancelled or held again.  (Two approvals that overlap can both execute it, see
  \<open>concurrent_approvals_repeat_execution\<close>.)\<close>

theorem executor_succeeds_once:
  assumes "list_all (\<lambda>e. writes_succeed (fst e)) es"
  shows "successes_of k (av_runs (run (approval_step cfg) no_approvals es)) \<le> 1 \<and>
    (0 < successes_of k (av_runs (run (approval_step cfg) no_approvals es)) \<longrightarrow>
     map_option aq_status (dict_get (av_rows (run (approval_step cfg) no_approvals es)) k) = Some APPROVED)"
  using approvals_run_without_faults [OF assms, of cfg] by (simp add: approvals_ok_def once_inv_def core_def)

text \<open>C22. Whatever the executor runs belongs to a stored request of a known type, and if that type concerns
  an account, its parameters name a valid one, also after the request was reopened with others.\<close>

theorem executed_params_are_typed:
  assumes "(k, p, x) \<in> set (av_runs (run (approval_step cfg) no_approvals es))"
  shows "\<exists>r. dict_get (av_rows (run (approval_step cfg) no_approvals es)) k = Some r \<and>
    aq_type r \<in> set valid_approval_types \<and>
    (aq_type r \<in> set account_scoped_approval_types \<longrightarrow> has_valid_account p)"
  using approvals_run [of cfg es] assms
  by (force simp: approvals_ok_def list_all_iff run_ok_def scoped_params_ok_def)

subsection \<open>A sample request\<close>

text \<open>A budget change whose first execution fails and whose second succeeds.\<close>

definition sample_approvals :: approval_config where
  "sample_approvals =
     \<lparr>ac_executors = [''budget_change''], ac_validators = (\<lambda>_. None),
      ac_auto = \<lparr>aa_enabled = False, aa_bot_stop = True, aa_bot_create_virtual = True,
                 aa_budget_change_max = Fin 5000000\<rparr>,
      ac_resolver = None, ac_float = (\<lambda>_. None), ac_str = (\<lambda>_. '''')\<rparr>"

definition sample_approval_env :: "string option \<Rightarrow> (nat \<Rightarrow> bool) \<Rightarrow> approval_env" where
  "sample_approval_env outcome fails =
     \<lparr>ae_now = ''t1'', ae_exec_now = ''t2'', ae_new_id = ''a1'', ae_execute = (\<lambda>_. outcome), ae_fails = fails\<rparr>"

definition sample_draft :: approval_draft where
  "sample_draft =
     \<lparr>ad_type = ''budget_change'', ad_requester = ''bot'', ad_title = ''more'', ad_body = '''',
      ad_params = [(''account_id'', Pv (Py_str ''acct-1'')), (''amount'', Pv (Py_int 100))],
      ad_reference_id = '''', ad_expires_at = ''''\<rparr>"

definition sample_approval_ops :: "(approval_env \<times> approval_op) list" where
  "sample_approval_ops =
     [(sample_approval_env None (\<lambda>_. False), Create sample_draft),
      (sample_approval_env (Some ''no funds'') (\<lambda>_. False), Approve ''a1'' ''user'' False),
      (sample_approval_env None (\<lambda>_. False), Approve ''a1'' ''user'' False)]"

definition sample_approval_end :: approval_state where
  "sample_approval_end = run (approval_step sample_approvals) no_approvals sample_approval_ops"

lemma sample_approval_results:
  "map_option (\<lambda>r. (aq_status r, map he_action (aq_history r), aq_requester r, aq_type r))
     (dict_get (av_rows sample_approval_end) ''a1'') =
   Some (APPROVED, [''created'', ''approved'', ''execution_failed'', ''approved'', ''executed''], ''bot'', ''budget_change'')"
  "av_runs sample_approval_end =
     [(''a1'', ad_params sample_draft, Some ''no funds''), (''a1'', ad_params sample_draft, None)]"
  by code_simp+

theorem approval_history_determines_status_witness:
  "map_option (\<lambda>r. replay (aq_history r)) (dict_get (av_rows sample_approval_end) ''a1'') = Some (Some APPROVED)"
proof -
  obtain r where r: "dict_get (av_rows sample_approval_end) ''a1'' = Some r" "aq_status r = APPROVED"
    using sample_approval_results(1) by auto
  from approval_history_determines_status [OF r(1) [unfolded sample_approval_end_def]] r show ?thesis by simp
qed

theorem executor_succeeds_once_witness:
  "successes_of ''a1'' (av_runs sample_approval_end) = 1 \<and>
   map_option aq_status (dict_get (av_rows sample_approval_end) ''a1'') = Some APPROVED"
proof -
  have "list_all (\<lambda>e. writes_succeed (fst e)) sample_approval_ops"
    by (simp add: sample_approval_ops_def sample_approval_env_def writes_succeed_def)
  from executor_succeeds_once [OF this, of "''a1''" sample_approvals] sample_approval_results(2)
  show ?thesis by (simp add: sample_approval_end_def [symmetric] successes_of_def)
qed

theorem executed_params_are_typed_witness:
  "has_valid_account (ad_params sample_draft)"
proof -
  have "(''a1'', ad_params sample_draft, None) \<in> set (av_runs sample_approval_end)"
    by (simp add: sample_approval_results(2))
  from executed_params_are_typed [OF this [unfolded sample_approval_end_def]]
  obtain r where "dict_get (av_rows sample_approval_end) ''a1'' = Some r"
    "aq_type r \<in> set account_scoped_approval_types \<longrightarrow> has_valid_account (ad_params sample_draft)"
    by (auto simp: sample_approval_end_def)
  with sample_approval_results(1) show ?thesis by (auto simp: account_scoped_approval_types_def)
qed

subsection \<open>Where an execution may repeat\<close>

text \<open>
  When the write after a successful execution fails, the request is recorded as failed and may be
  approved, and executed, again.
\<close>

theorem failed_history_write_repeats_execution:
  "successes_of ''a1'' (av_runs (run (approval_step sample_approvals) no_approvals
     [(sample_approval_env None (\<lambda>_. False), Create sample_draft),
      (sample_approval_env None (\<lambda>n. n = 1), Approve ''a1'' ''user'' False),
      (sample_approval_env None (\<lambda>_. False), Approve ''a1'' ''user'' False)])) = 2"
  by code_simp

text \<open>Two approvals that both read the request before either writes both execute it.\<close>

theorem concurrent_approvals_repeat_execution:
  "(let s = run (approval_step sample_approvals) no_approvals
              [(sample_approval_env None (\<lambda>_. False), Create sample_draft)];
        env = sample_approval_env None (\<lambda>_. False)
    in case dict_get (av_rows s) ''a1'' of
         None \<Rightarrow> False
       | Some r \<Rightarrow>
           successes_of ''a1'' (av_runs (snd (approve_loaded sample_approvals env ''u2'' False r
             (snd (approve_loaded sample_approvals env ''u1'' False r s))))) = 2)"
  by code_simp

text \<open>The expiry date is not looked at when a request is approved: only \<open>expire_stale\<close> ends it.\<close>

theorem expired_request_is_executed:
  "(let d = sample_draft\<lparr>ad_expires_at := ''t0''\<rparr>; env = sample_approval_env None (\<lambda>_. False);
        s = run (approval_step sample_approvals) no_approvals [(env, Create d)]
    in list_all (is_expired (ae_now env)) (dict_values (av_rows s)) \<and>
       successes_of ''a1'' (av_runs (snd (approve sample_approvals env ''a1'' ''user'' False s))) = 1)"
  by code_simp

text \<open>
  The rule for budget changes compares the new amount with the current one as the requester states
  it: a requester who states the amount he asks for is always approved.
\<close>

theorem budget_rule_trusts_requester:
  assumes "aa_enabled (ac_auto cfg)" and "flt (Fin 0) (aa_budget_change_max (ac_auto cfg))"
    and "dict_get params ''amount'' = Some (Pv (Py_int n))" "dict_get params ''current'' = Some (Pv (Py_int n))"
    and "int_fits_float n"
  shows "should_auto_approve cfg ''budget_change'' params = Some True"
proof -
  have "fle (Fin 0) m" if "flt (Fin 0) m" for m using that by (cases m) auto
  with assms show ?thesis
    by (simp add: should_auto_approve_def auto_approve_budget_change_def excluded_types_def Let_def)
qed

theorem budget_rule_trusts_requester_witness:
  "should_auto_approve (sample_approvals\<lparr>ac_auto := (ac_auto sample_approvals)\<lparr>aa_enabled := True\<rparr>\<rparr>) ''budget_change''
     [(''amount'', Pv (Py_int 900000000)), (''current'', Pv (Py_int 900000000))] = Some True"
  by (rule budget_rule_trusts_requester [where n = 900000000])
    (simp_all add: sample_approvals_def int_fits_float_def)

end
