(* ===== verification/Account_Service.thy ===== *)
theory Account_Service
  imports Account_Gate Python_Values
begin

text \<open>
  \<open>src/src/ante/account/service.py\<close>, \<open>models.py\<close>, \<open>presets.py\<close>: the accounts in memory and in their
  table, their status, and the broker adapter kept for each.

  An account in memory is one mutable object: a method that changes it before its write leaves the
  change behind when the write fails.  Credentials are stored encrypted; reading them back gives what
  was written (a key that is missing makes the write fail).  Commission rates are rationals.  A broker
  adapter is represented by the settings it was built from.  Which timezone names exist, which writes
  fail, how many bots an account has and whether an adapter connects are parameters.
\<close>

subsection \<open>Accounts (models.py, presets.py)\<close>

record account =
  acc_id :: string
  acc_name :: string
  acc_exchange :: string
  acc_currency :: string
  acc_timezone :: "string option"
  acc_timezone_invalid :: bool
  acc_hours_start :: string
  acc_hours_end :: string
  acc_mode :: trading_mode
  acc_broker_type :: string
  acc_credentials :: "(string, string) dict"
  acc_broker_config :: "(string, pyval) dict"
  acc_buy_rate :: rat
  acc_sell_rate :: rat
  acc_buffer_rate :: rat
  acc_status :: account_status
  acc_created_at :: int
  acc_updated_at :: int

record broker_preset =
  bp_exchange :: string
  bp_currency :: string
  bp_timezone :: string
  bp_hours_start :: string
  bp_hours_end :: string
  bp_buy_rate :: rat
  bp_sell_rate :: rat
  bp_buffer_rate :: rat
  bp_default_id :: string
  bp_required_credentials :: "string list"

definition broker_presets :: "(string, broker_preset) dict" where
  "broker_presets =
     [(''test'', \<lparr>bp_exchange = ''TEST'', bp_currency = ''KRW'', bp_timezone = ''Asia/Seoul'',
        bp_hours_start = ''00:00'', bp_hours_end = ''23:59'', bp_buy_rate = 0, bp_sell_rate = 0,
        bp_buffer_rate = 0, bp_default_id = ''test'',
        bp_required_credentials = [''app_key'', ''app_secret'']\<rparr>),
      (''kis-domestic'', \<lparr>bp_exchange = ''KRX'', bp_currency = ''KRW'', bp_timezone = ''Asia/Seoul'',
        bp_hours_start = ''09:00'', bp_hours_end = ''15:30'', bp_buy_rate = 15 / 100000,
        bp_sell_rate = 195 / 100000, bp_buffer_rate = 5 / 1000, bp_default_id = ''domestic'',
        bp_required_credentials = [''app_key'', ''app_secret'', ''account_no'']\<rparr>)]"

definition canonical_exchanges :: "string list" where
  "canonical_exchanges = [''KRX'', ''NYSE'', ''NASDAQ'', ''AMEX'', ''TEST'']"

definition structural_fields :: "string list" where
  "structural_fields =
     [''credentials'', ''broker_config'', ''buy_commission_rate'', ''sell_commission_rate'',
      ''market_order_reserve_buffer_rate'', ''broker_type'', ''exchange'', ''currency'', ''trading_mode'']"

definition immutable_fields :: "string list" where
  "immutable_fields = [''exchange'', ''currency'', ''trading_mode'', ''broker_type'']"

text \<open>A keyword argument of \<open>update\<close>; the value of a field that is never stored is left out.\<close>

datatype account_field =
    F_name string
  | F_timezone "string option"
  | F_hours_start string
  | F_hours_end string
  | F_credentials "(string, string) dict"
  | F_broker_config "(string, pyval) dict"
  | F_buy_rate rat
  | F_sell_rate rat
  | F_buffer_rate rat
  | F_other string

fun field_key :: "account_field \<Rightarrow> string" where
  "field_key (F_name _) = ''name''"
| "field_key (F_timezone _) = ''timezone''"
| "field_key (F_hours_start _) = ''trading_hours_start''"
| "field_key (F_hours_end _) = ''trading_hours_end''"
| "field_key (F_credentials _) = ''credentials''"
| "field_key (F_broker_config _) = ''broker_config''"
| "field_key (F_buy_rate _) = ''buy_commission_rate''"
| "field_key (F_sell_rate _) = ''sell_commission_rate''"
| "field_key (F_buffer_rate _) = ''market_order_reserve_buffer_rate''"
| "field_key (F_other k) = k"

fun set_field :: "account_field \<Rightarrow> account \<Rightarrow> account" where
  "set_field (F_name v) a = a\<lparr>acc_name := v\<rparr>"
| "set_field (F_timezone v) a = a\<lparr>acc_timezone := v\<rparr>"
| "set_field (F_hours_start v) a = a\<lparr>acc_hours_start := v\<rparr>"
| "set_field (F_hours_end v) a = a\<lparr>acc_hours_end := v\<rparr>"
| "set_field (F_credentials v) a = a\<lparr>acc_credentials := v\<rparr>"
| "set_field (F_broker_config v) a = a\<lparr>acc_broker_config := v\<rparr>"
| "set_field (F_buy_rate v) a = a\<lparr>acc_buy_rate := v\<rparr>"
| "set_field (F_sell_rate v) a = a\<lparr>acc_sell_rate := v\<rparr>"
| "set_field (F_buffer_rate v) a = a\<lparr>acc_buffer_rate := v\<rparr>"
| "set_field (F_other _) a = a"

subsection \<open>The service\<close>

datatype account_error =
    Cold_path_only
  | Account_exists string
  | Account_id_rejected account_id_error
  | Not_a_seed_pair string string
  | Invalid_timezone string
  | Invalid_exchange string
  | Invalid_broker_type string
  | Missing_credentials "string list"
  | No_such_account string
  | Account_is_deleted string
  | Immutable_fields "string list"
  | Unrecognized_fields "string list"
  | Already_suspended string
  | Has_active_bots string nat
  | Broker_reconnect_failed string
  | Broker_connect_fails
  | Write_fails

datatype account_event =
    Account_suspended string string string
  | Account_activated string string
  | Trading_state_notice string string account_status

datatype broker_setting = Bs_text string | Bs_rate rat | Bs_value pyval

record adapter =
  ba_type :: string
  ba_settings :: "(string, broker_setting) dict"

record account_store =
  sv_memory :: "(string, account) dict"
  sv_table :: "(string, account) dict"
  sv_brokers :: "(string, adapter) dict"
  sv_runtime :: bool
  sv_events :: "account_event list"

record account_env =
  va_now :: int
  va_fails :: "nat \<Rightarrow> bool"
  va_iana :: "string \<Rightarrow> bool"
  va_active_bots :: "string \<Rightarrow> nat"
  va_constructs :: "adapter \<Rightarrow> bool"
  va_connects :: "adapter \<Rightarrow> bool"

definition mark_runtime_started :: "account_store \<Rightarrow> account_store" where
  "mark_runtime_started s = s\<lparr>sv_runtime := True\<rparr>"

text \<open>\<open>_row_to_account\<close>: a stored timezone that does not exist is kept and marked.\<close>

definition row_to_account :: "account_env \<Rightarrow> account \<Rightarrow> account" where
  "row_to_account env row =
     row\<lparr>acc_timezone_invalid := (case acc_timezone row of None \<Rightarrow> True | Some tz \<Rightarrow> \<not> va_iana env tz)\<rparr>"

definition initialize_accounts :: "account_env \<Rightarrow> account_store \<Rightarrow> account_store" where
  "initialize_accounts env s =
     s\<lparr>sv_memory := fold (\<lambda>(_, row) m. dict_set (acc_id row) (row_to_account env row) m)
         (filter (\<lambda>(_, row). acc_status row \<noteq> DELETED) (sv_table s)) (sv_memory s)\<rparr>"

definition get_account :: "account_env \<Rightarrow> string \<Rightarrow> account_store \<Rightarrow> account_error + account" where
  "get_account env account_id s =
     (case dict_get (sv_memory s) account_id of
        Some a \<Rightarrow> Inr a
      | None \<Rightarrow>
          (case dict_get (sv_table s) account_id of
             None \<Rightarrow> Inl (No_such_account account_id)
           | Some row \<Rightarrow> Inr (row_to_account env row)))"

definition get_account_sync :: "string \<Rightarrow> account_store \<Rightarrow> account option" where
  "get_account_sync account_id s = dict_get (sv_memory s) account_id"

definition list_accounts :: "account_env \<Rightarrow> account_status option \<Rightarrow> account_store \<Rightarrow> account list" where
  "list_accounts env status s =
     (case status of
        None \<Rightarrow> dict_values (sv_memory s)
      | Some DELETED \<Rightarrow>
          map (row_to_account env) (filter (\<lambda>row. acc_status row = DELETED) (dict_values (sv_table s)))
      | Some st \<Rightarrow> filter (\<lambda>a. acc_status a = st) (dict_values (sv_memory s)))"

text \<open>The object that \<open>get\<close> returned is changed: the one in memory, if the account is there.\<close>

definition mutate :: "account \<Rightarrow> account_store \<Rightarrow> account_store" where
  "mutate a s =
     (if dict_get (sv_memory s) (acc_id a) = None then s
      else s\<lparr>sv_memory := dict_set (acc_id a) a (sv_memory s)\<rparr>)"

definition update_table :: "string \<Rightarrow> (account \<Rightarrow> account) \<Rightarrow> account_store \<Rightarrow> account_store" where
  "update_table account_id f s =
     (case dict_get (sv_table s) account_id of
        None \<Rightarrow> s
      | Some row \<Rightarrow> s\<lparr>sv_table := dict_set account_id (f row) (sv_table s)\<rparr>)"

definition publish_account :: "account_event list \<Rightarrow> account_store \<Rightarrow> account_store" where
  "publish_account es s = s\<lparr>sv_events := sv_events s @ es\<rparr>"

subsection \<open>Creation\<close>

definition persist_account ::
  "account_env \<Rightarrow> account \<Rightarrow> account_store \<Rightarrow> (account_error + account) \<times> account_store" where
  "persist_account env a s =
     (if dict_get (sv_memory s) (acc_id a) \<noteq> None then (Inl (Account_exists (acc_id a)), s)
      else if map_option acc_status (dict_get (sv_table s) (acc_id a)) = Some DELETED
      then (Inl (Account_exists (acc_id a)), s)
      else if acc_exchange a \<notin> set canonical_exchanges then (Inl (Invalid_exchange (acc_exchange a)), s)
      else case dict_get broker_presets (acc_broker_type a) of
             None \<Rightarrow> (Inl (Invalid_broker_type (acc_broker_type a)), s)
           | Some preset \<Rightarrow>
               let missing = filter (\<lambda>k. dict_get (acc_credentials a) k = None) (bp_required_credentials preset);
                   a' = a\<lparr>acc_created_at := va_now env, acc_updated_at := va_now env\<rparr>
               in if missing \<noteq> [] then (Inl (Missing_credentials missing), s)
                  else if va_fails env 0 \<or> acc_timezone a = None \<or> dict_get (sv_table s) (acc_id a) \<noteq> None
                  then (Inl Write_fails, s)
                  else (Inr a', s\<lparr>sv_table := dict_set (acc_id a) a' (sv_table s),
                                   sv_memory := dict_set (acc_id a) a' (sv_memory s)\<rparr>))"

text \<open>\<open>if account.timezone: validate_iana_timezone(..)\<close>.\<close>

definition timezone_rejected :: "account_env \<Rightarrow> account \<Rightarrow> bool" where
  "timezone_rejected env a \<longleftrightarrow>
     (case acc_timezone a of None \<Rightarrow> False | Some tz \<Rightarrow> tz \<noteq> '''' \<and> \<not> va_iana env tz)"

definition create_account ::
  "account_env \<Rightarrow> account \<Rightarrow> account_store \<Rightarrow> (account_error + account) \<times> account_store" where
  "create_account env a s =
     (if sv_runtime s then (Inl Cold_path_only, s)
      else case validate_new_account_id '''' (Some (acc_id a)) of
             Inl e \<Rightarrow> (Inl (Account_id_rejected e), s)
           | Inr _ \<Rightarrow>
               if timezone_rejected env a
               then (Inl (Invalid_timezone (case acc_timezone a of None \<Rightarrow> '''' | Some tz \<Rightarrow> tz)), s)
               else persist_account env a s)"

definition create_seed_account ::
  "account_env \<Rightarrow> account \<Rightarrow> account_store \<Rightarrow> (account_error + account) \<times> account_store" where
  "create_seed_account env a s =
     (if sv_runtime s then (Inl Cold_path_only, s)
      else if map_option bp_default_id (dict_get broker_presets (acc_broker_type a)) \<noteq> Some (acc_id a)
      then (Inl (Not_a_seed_pair (acc_broker_type a) (acc_id a)), s)
      else case require_account_id ''bootstrap_seed'' (Some (acc_id a)) of
             Inl e \<Rightarrow> (Inl (Account_id_rejected e), s)
           | Inr _ \<Rightarrow>
               if timezone_rejected env a
               then (Inl (Invalid_timezone (case acc_timezone a of None \<Rightarrow> '''' | Some tz \<Rightarrow> tz)), s)
               else persist_account env a s)"

text \<open>The seed account; its display name, a Korean text, is left empty.\<close>

definition default_test_account :: "broker_preset \<Rightarrow> account" where
  "default_test_account p =
     \<lparr>acc_id = bp_default_id p, acc_name = '''', acc_exchange = bp_exchange p, acc_currency = bp_currency p,
      acc_timezone = Some (bp_timezone p), acc_timezone_invalid = False, acc_hours_start = bp_hours_start p,
      acc_hours_end = bp_hours_end p, acc_mode = VIRTUAL, acc_broker_type = ''test'',
      acc_credentials = map (\<lambda>k. (k, ''test'')) (bp_required_credentials p), acc_broker_config = [],
      acc_buy_rate = bp_buy_rate p, acc_sell_rate = bp_sell_rate p, acc_buffer_rate = bp_buffer_rate p,
      acc_status = ACTIVE, acc_created_at = 0, acc_updated_at = 0\<rparr>"

definition create_default_test_account ::
  "account_env \<Rightarrow> account_store \<Rightarrow> (account_error + account) \<times> account_store" where
  "create_default_test_account env s =
     (case dict_get (sv_memory s) ''test'' of
        Some a \<Rightarrow> (Inr a, s)
      | None \<Rightarrow>
          (case dict_get broker_presets ''test'' of
             None \<Rightarrow> (Inl (Invalid_broker_type ''test''), s)
           | Some preset \<Rightarrow> create_seed_account env (default_test_account preset) s))"

subsection \<open>Broker adapters\<close>

definition broker_registry :: "string list" where
  "broker_registry = [''test'', ''kis-domestic'']"

text \<open>\<open>_build_broker_adapter\<close>: later keys win, the broker configuration last.\<close>

definition adapter_of :: "account \<Rightarrow> adapter" where
  "adapter_of a =
     \<lparr>ba_type = acc_broker_type a,
      ba_settings = fold (\<lambda>(k, v). dict_set k v)
        ([(''exchange'', Bs_text (acc_exchange a)),
          (''trading_mode'', Bs_text (case acc_mode a of VIRTUAL \<Rightarrow> ''virtual'' | LIVE \<Rightarrow> ''live'')),
          (''buy_commission_rate'', Bs_rate (acc_buy_rate a)),
          (''sell_commission_rate'', Bs_rate (acc_sell_rate a))] @
         map (\<lambda>(k, v). (k, Bs_text v)) (acc_credentials a) @
         map (\<lambda>(k, v). (k, Bs_value v)) (acc_broker_config a)) []\<rparr>"

definition build_broker_adapter ::
  "account_env \<Rightarrow> string \<Rightarrow> account_store \<Rightarrow> account_error + adapter" where
  "build_broker_adapter env account_id s =
     (case get_account env account_id s of
        Inl e \<Rightarrow> Inl e
      | Inr a \<Rightarrow>
          if acc_broker_type a \<notin> set broker_registry then Inl (Invalid_broker_type (acc_broker_type a))
          else if va_constructs env (adapter_of a) then Inr (adapter_of a) else Inl Broker_connect_fails)"

definition cache_broker :: "string \<Rightarrow> adapter \<Rightarrow> account_store \<Rightarrow> account_store" where
  "cache_broker account_id b s = s\<lparr>sv_brokers := dict_set account_id b (sv_brokers s)\<rparr>"

text \<open>
  With the account's lock held: what \<open>get_broker\<close> and \<open>_reconnect_broker\<close> find and build before they
  wait for \<open>connect\<close>.  \<^theory_text>\<open>Inl\<close> is the end of the call, \<^theory_text>\<open>Inr\<close> the adapter to connect.
\<close>

definition get_broker_locked ::
  "account_env \<Rightarrow> string \<Rightarrow> account_store \<Rightarrow> (account_error + adapter) + adapter" where
  "get_broker_locked env account_id s =
     (case dict_get (sv_brokers s) account_id of
        Some b \<Rightarrow> Inl (Inr b)
      | None \<Rightarrow>
          (case build_broker_adapter env account_id s of
             Inl e \<Rightarrow> Inl (Inl e)
           | Inr b \<Rightarrow> Inr b))"

definition reconnect_locked ::
  "account_env \<Rightarrow> string \<Rightarrow> account_store \<Rightarrow> account_error option + adapter" where
  "reconnect_locked env account_id s =
     (if dict_get (sv_brokers s) account_id = None then Inl None
      else case build_broker_adapter env account_id s of
             Inl _ \<Rightarrow> Inl (Some (Broker_reconnect_failed account_id))
           | Inr b \<Rightarrow> Inr b)"

definition get_broker ::
  "account_env \<Rightarrow> string \<Rightarrow> account_store \<Rightarrow> (account_error + adapter) \<times> account_store" where
  "get_broker env account_id s =
     (case get_broker_locked env account_id s of
        Inl result \<Rightarrow> (result, s)
      | Inr b \<Rightarrow>
          if va_connects env b then (Inr b, cache_broker account_id b s) else (Inl Broker_connect_fails, s))"

definition get_cached_broker :: "string \<Rightarrow> account_store \<Rightarrow> adapter option" where
  "get_cached_broker account_id s = dict_get (sv_brokers s) account_id"

definition reconnect_broker ::
  "account_env \<Rightarrow> string \<Rightarrow> account_store \<Rightarrow> account_error option \<times> account_store" where
  "reconnect_broker env account_id s =
     (case reconnect_locked env account_id s of
        Inl result \<Rightarrow> (result, s)
      | Inr b \<Rightarrow>
          if va_connects env b then (None, cache_broker account_id b s)
          else (Some (Broker_reconnect_failed account_id), s))"

subsection \<open>Updates\<close>

definition updatable_fields :: "string list" where
  "updatable_fields =
     [''name'', ''timezone'', ''trading_hours_start'', ''trading_hours_end'', ''credentials'',
      ''broker_config'', ''buy_commission_rate'', ''sell_commission_rate'',
      ''market_order_reserve_buffer_rate'']"

definition broker_invalidating_fields :: "string list" where
  "broker_invalidating_fields =
     [''credentials'', ''broker_config'', ''buy_commission_rate'', ''sell_commission_rate'']"

definition timezone_update :: "account_field list \<Rightarrow> string option" where
  "timezone_update kws =
     (case filter (\<lambda>f. field_key f = ''timezone'') kws of
        F_timezone v # _ \<Rightarrow> v
      | _ \<Rightarrow> None)"

text \<open>The refusals of \<open>update\<close>, in its order.\<close>

definition update_objection ::
  "account_env \<Rightarrow> string \<Rightarrow> account_field list \<Rightarrow> account_store \<Rightarrow> account_error + account" where
  "update_objection env account_id kws s =
     (let keys = map field_key kws
      in if sv_runtime s \<and> list_ex (\<lambda>k. k \<in> set structural_fields) keys then Inl Cold_path_only
         else case get_account env account_id s of
                Inl e \<Rightarrow> Inl e
              | Inr a \<Rightarrow>
                  if acc_status a = DELETED then Inl (Account_is_deleted account_id)
                  else if list_ex (\<lambda>k. k \<in> set immutable_fields) keys
                  then Inl (Immutable_fields (filter (\<lambda>k. k \<in> set immutable_fields) keys))
                  else if list_ex (\<lambda>k. k \<notin> set updatable_fields) keys
                  then Inl (Unrecognized_fields (filter (\<lambda>k. k \<notin> set updatable_fields) keys))
                  else case timezone_update kws of
                         Some tz \<Rightarrow> if va_iana env tz then Inr a else Inl (Invalid_timezone tz)
                       | None \<Rightarrow> Inr a)"

text \<open>The object after the loop over the fields.\<close>

definition updated_account :: "account_env \<Rightarrow> account_field list \<Rightarrow> account \<Rightarrow> account" where
  "updated_account env kws a =
     (let a1 = fold set_field kws a;
          a2 = (if timezone_update kws \<noteq> None then a1\<lparr>acc_timezone_invalid := False\<rparr> else a1)
      in a2\<lparr>acc_updated_at := va_now env\<rparr>)"

text \<open>The columns that \<open>update\<close> writes: all but status and creation time.\<close>

definition write_columns :: "account \<Rightarrow> account \<Rightarrow> account" where
  "write_columns a row = a\<lparr>acc_id := acc_id row, acc_status := acc_status row, acc_created_at := acc_created_at row\<rparr>"

text \<open>\<open>update\<close> up to the reconnection; \<^theory_text>\<open>Inr (a, True)\<close> goes on with it.\<close>

definition update_fields ::
  "account_env \<Rightarrow> string \<Rightarrow> account_field list \<Rightarrow> account_store \<Rightarrow>
     (account_error + (account \<times> bool)) \<times> account_store" where
  "update_fields env account_id kws s =
     (case update_objection env account_id kws s of
        Inl e \<Rightarrow> (Inl e, s)
      | Inr a \<Rightarrow>
          let a' = updated_account env kws a;
              s1 = mutate a' s
          in if va_fails env 0 \<or> acc_timezone a' = None then (Inl Write_fails, s1)
             else
               let s2 = update_table account_id (write_columns a') s1
               in (Inr (a', list_ex (\<lambda>k. k \<in> set broker_invalidating_fields) (map field_key kws)),
                   s2\<lparr>sv_memory := dict_set account_id a' (sv_memory s2)\<rparr>))"

definition update_account ::
  "account_env \<Rightarrow> string \<Rightarrow> account_field list \<Rightarrow> account_store \<Rightarrow> (account_error + account) \<times> account_store" where
  "update_account env account_id kws s =
     (case update_fields env account_id kws s of
        (Inl e, s') \<Rightarrow> (Inl e, s')
      | (Inr (a, reconnect), s') \<Rightarrow>
          if \<not> reconnect then (Inr a, s')
          else case reconnect_broker env account_id s' of
                 (Some e, s'') \<Rightarrow> (Inl e, s'')
               | (None, s'') \<Rightarrow> (Inr a, s''))"

definition repair_timezone ::
  "account_env \<Rightarrow> string \<Rightarrow> string \<Rightarrow> account_store \<Rightarrow> (account_error + account) \<times> account_store" where
  "repair_timezone env account_id new_timezone s =
     (if sv_runtime s then (Inl Cold_path_only, s)
      else update_account env account_id [F_timezone (Some new_timezone)] s)"

subsection \<open>Status\<close>

text \<open>The write of a status; \<open>n\<close> is its number among the writes of the call.\<close>

definition set_status ::
  "account_env \<Rightarrow> nat \<Rightarrow> account_status \<Rightarrow> account \<Rightarrow> account_store \<Rightarrow> account_error option \<times> account_store" where
  "set_status env n status a s =
     (let a' = a\<lparr>acc_status := status, acc_updated_at := va_now env\<rparr>;
          s1 = mutate a' s
      in if va_fails env n then (Some Write_fails, s1)
         else (None, update_table (acc_id a)
                (\<lambda>row. row\<lparr>acc_status := status, acc_updated_at := va_now env\<rparr>) s1))"

definition suspend ::
  "account_env \<Rightarrow> nat \<Rightarrow> string \<Rightarrow> string \<Rightarrow> string \<Rightarrow> account_store \<Rightarrow> account_error option \<times> account_store" where
  "suspend env n account_id reason who s =
     (case get_account env account_id s of
        Inl e \<Rightarrow> (Some e, s)
      | Inr a \<Rightarrow>
          if acc_status a = DELETED then (Some (Account_is_deleted account_id), s)
          else if acc_status a = SUSPENDED then (Some (Already_suspended account_id), s)
          else case set_status env n SUSPENDED a s of
                 (Some e, s') \<Rightarrow> (Some e, s')
               | (None, s') \<Rightarrow>
                   (None, publish_account [Account_suspended account_id reason who,
                                           Trading_state_notice ''critical'' account_id SUSPENDED] s'))"

definition activate ::
  "account_env \<Rightarrow> nat \<Rightarrow> string \<Rightarrow> string \<Rightarrow> account_store \<Rightarrow> account_error option \<times> account_store" where
  "activate env n account_id who s =
     (case get_account env account_id s of
        Inl e \<Rightarrow> (Some e, s)
      | Inr a \<Rightarrow>
          if acc_status a = DELETED then (Some (Account_is_deleted account_id), s)
          else if acc_status a = ACTIVE then (None, s)
          else case set_status env n ACTIVE a s of
                 (Some e, s') \<Rightarrow> (Some e, s')
               | (None, s') \<Rightarrow>
                   (None, publish_account [Account_activated account_id who,
                                           Trading_state_notice ''info'' account_id ACTIVE] s'))"

definition delete_account ::
  "account_env \<Rightarrow> string \<Rightarrow> string \<Rightarrow> account_store \<Rightarrow> account_error option \<times> account_store" where
  "delete_account env account_id who s =
     (if sv_runtime s then (Some Cold_path_only, s)
      else case get_account env account_id s of
             Inl e \<Rightarrow> (Some e, s)
           | Inr a \<Rightarrow>
               if acc_status a = DELETED then (Some (Account_is_deleted account_id), s)
               else if 0 < va_active_bots env account_id
               then (Some (Has_active_bots account_id (va_active_bots env account_id)), s)
               else
                 let s0 = (if acc_status a = SUSPENDED then s
                           else publish_account [Account_suspended account_id ''Account deletion'' who] s)
                 in case set_status env 0 DELETED a s0 of
                      (Some e, s') \<Rightarrow> (Some e, s')
                    | (None, s') \<Rightarrow>
                        (None, s'\<lparr>sv_memory := dict_pop account_id (sv_memory s'),
                                  sv_brokers := dict_pop account_id (sv_brokers s')\<rparr>))"

text \<open>\<open>suspend_all\<close> and \<open>activate_all\<close>: the report has id, status before and whether it was changed.\<close>

type_synonym status_report = "(string \<times> account_status \<times> bool) list"

fun suspend_each ::
  "account_env \<Rightarrow> string \<Rightarrow> string \<Rightarrow> nat \<Rightarrow> string list \<Rightarrow> account_store \<Rightarrow>
     (account_error + status_report) \<times> account_store" where
  "suspend_each env reason who n [] s = (Inr [], s)"
| "suspend_each env reason who n (k # ks) s =
     (case dict_get (sv_memory s) k of
        None \<Rightarrow> (Inl (No_such_account k), s)
      | Some a \<Rightarrow>
          if acc_status a = DELETED then suspend_each env reason who n ks s
          else if acc_status a = ACTIVE then
            (case suspend env n k reason who s of
               (Some e, s') \<Rightarrow> (Inl e, s')
             | (None, s') \<Rightarrow>
                 (case suspend_each env reason who (n + 1) ks s' of
                    (Inl e, s'') \<Rightarrow> (Inl e, s'')
                  | (Inr report, s'') \<Rightarrow> (Inr ((k, ACTIVE, True) # report), s'')))
          else (case suspend_each env reason who n ks s of
                  (Inl e, s'') \<Rightarrow> (Inl e, s'')
                | (Inr report, s'') \<Rightarrow> (Inr ((k, acc_status a, False) # report), s'')))"

definition suspend_all ::
  "account_env \<Rightarrow> string \<Rightarrow> string \<Rightarrow> account_store \<Rightarrow> (account_error + status_report) \<times> account_store" where
  "suspend_all env reason who s = suspend_each env reason who 0 (map fst (sv_memory s)) s"

fun activate_each ::
  "account_env \<Rightarrow> string \<Rightarrow> nat \<Rightarrow> string list \<Rightarrow> account_store \<Rightarrow>
     (account_error + status_report) \<times> account_store" where
  "activate_each env who n [] s = (Inr [], s)"
| "activate_each env who n (k # ks) s =
     (case dict_get (sv_memory s) k of
        None \<Rightarrow> (Inl (No_such_account k), s)
      | Some a \<Rightarrow>
          if acc_status a = DELETED then activate_each env who n ks s
          else if acc_status a = SUSPENDED then
            (case activate env n k who s of
               (Some e, s') \<Rightarrow> (Inl e, s')
             | (None, s') \<Rightarrow>
                 (case activate_each env who (n + 1) ks s' of
                    (Inl e, s'') \<Rightarrow> (Inl e, s'')
                  | (Inr report, s'') \<Rightarrow> (Inr ((k, SUSPENDED, True) # report), s'')))
          else (case activate_each env who n ks s of
                  (Inl e, s'') \<Rightarrow> (Inl e, s'')
                | (Inr report, s'') \<Rightarrow> (Inr ((k, acc_status a, False) # report), s'')))"

definition activate_all ::
  "account_env \<Rightarrow> string \<Rightarrow> account_store \<Rightarrow> (account_error + status_report) \<times> account_store" where
  "activate_all env who s = activate_each env who 0 (map fst (sv_memory s)) s"

end
