(* ===== verification/Account_Properties.thy ===== *)
theory Account_Properties
  imports Account_Service Execution_Properties
begin

text \<open>
  Memory and table of the accounts over any sequence of operations: without failed writes a restart
  gives back what was in memory; a running server never changes what a broker adapter or the
  treasury depends on; \<open>suspend_all\<close> leaves no account the gateway would still trade for; the cached
  adapter of an account is the one its current settings describe.
\<close>

subsection \<open>Operations as steps\<close>

datatype account_op =
    Create_account account
  | Create_default
  | Update_account string "account_field list"
  | Repair_timezone string string
  | Suspend_account string string string
  | Activate_account string string
  | Delete_account string string
  | Suspend_all string string
  | Activate_all string
  | Get_broker string

fun account_step :: "account_store \<Rightarrow> account_env \<times> account_op \<Rightarrow> account_store" where
  "account_step s (env, Create_account a) = snd (create_account env a s)"
| "account_step s (env, Create_default) = snd (create_default_test_account env s)"
| "account_step s (env, Update_account k kws) = snd (update_account env k kws s)"
| "account_step s (env, Repair_timezone k tz) = snd (repair_timezone env k tz s)"
| "account_step s (env, Suspend_account k reason who) = snd (suspend env 0 k reason who s)"
| "account_step s (env, Activate_account k who) = snd (activate env 0 k who s)"
| "account_step s (env, Delete_account k who) = snd (delete_account env k who s)"
| "account_step s (env, Suspend_all reason who) = snd (suspend_all env reason who s)"
| "account_step s (env, Activate_all who) = snd (activate_all env who s)"
| "account_step s (env, Get_broker k) = snd (get_broker env k s)"

text \<open>Accounts are not created as deleted ones.\<close>

fun account_op_ok :: "account_op \<Rightarrow> bool" where
  "account_op_ok (Create_account a) = (acc_status a \<noteq> DELETED)"
| "account_op_ok _ = True"

definition account_writes_succeed :: "account_env \<Rightarrow> bool" where
  "account_writes_succeed env \<longleftrightarrow> (\<forall>n. \<not> va_fails env n)"

definition no_accounts :: account_store where
  "no_accounts = \<lparr>sv_memory = [], sv_table = [], sv_brokers = [], sv_runtime = False, sv_events = []\<rparr>"

definition restart :: "account_env \<Rightarrow> account_store \<Rightarrow> account_store" where
  "restart env s = initialize_accounts env (s\<lparr>sv_memory := [], sv_brokers := [], sv_runtime := False\<rparr>)"

subsection \<open>What an operation does to memory and table\<close>

text \<open>What the table holds of an account: all but the mark of its timezone.\<close>

definition stored :: "account \<Rightarrow> account" where
  "stored a = a\<lparr>acc_timezone_invalid := False\<rparr>"

text \<open>What is fixed while the server runs.\<close>

definition fixed_part ::
  "account \<Rightarrow> string \<times> string \<times> trading_mode \<times> string \<times> (string, string) dict \<times> (string, pyval) dict \<times> rat \<times> rat \<times> rat"
where
  "fixed_part a = (acc_exchange a, acc_currency a, acc_mode a, acc_broker_type a, acc_credentials a,
     acc_broker_config a, acc_buy_rate a, acc_sell_rate a, acc_buffer_rate a)"

type_synonym account_core = "(string, account) dict \<times> (string, account) dict"

definition account_core :: "account_store \<Rightarrow> account_core" where
  "account_core s = (sv_memory s, sv_table s)"

inductive acct_step :: "bool \<Rightarrow> bool \<Rightarrow> account_core \<Rightarrow> account_core \<Rightarrow> bool" for faulty runtime where
  dirty: "faulty \<Longrightarrow> dict_get m k = Some a \<Longrightarrow> acc_id a' = k \<Longrightarrow> (runtime \<Longrightarrow> fixed_part a' = fixed_part a) \<Longrightarrow>
      acct_step faulty runtime (m, t) (dict_set k a' m, t)"
| changed: "dict_get m k = Some a \<Longrightarrow> dict_get t k = Some row \<Longrightarrow> acc_id a' = k \<Longrightarrow> acc_id row' = k \<Longrightarrow>
      acc_timezone row' \<noteq> None \<Longrightarrow>
      (\<not> faulty \<Longrightarrow> stored row' = stored a' \<and> acc_status a' \<noteq> DELETED) \<Longrightarrow>
      (runtime \<Longrightarrow> fixed_part a' = fixed_part a) \<Longrightarrow>
      acct_step faulty runtime (m, t) (dict_set k a' m, dict_set k row' t)"
| created: "\<not> runtime \<Longrightarrow> dict_get m k = None \<Longrightarrow> dict_get t k = None \<Longrightarrow> acc_id a = k \<Longrightarrow>
      \<not> is_invalid_account_id (Some k) \<Longrightarrow> acc_timezone a \<noteq> None \<Longrightarrow> acc_status a \<noteq> DELETED \<Longrightarrow>
      acct_step faulty runtime (m, t) (dict_set k a m, dict_set k a t)"
| removed: "\<not> runtime \<Longrightarrow> dict_get t k = Some row \<Longrightarrow> acc_id row' = k \<Longrightarrow> acc_timezone row' \<noteq> None \<Longrightarrow>
      acc_status row' = DELETED \<Longrightarrow>
      acct_step faulty runtime (m, t) (dict_pop k m, dict_set k row' t)"

text \<open>Holds whatever fails.\<close>

definition accounts_wf :: "account_core \<Rightarrow> bool" where
  "accounts_wf c \<longleftrightarrow> dict_wf (fst c) \<and> dict_wf (snd c) \<and>
     (\<forall>k a. dict_get (fst c) k = Some a \<longrightarrow> acc_id a = k \<and> dict_get (snd c) k \<noteq> None) \<and>
     (\<forall>k row. dict_get (snd c) k = Some row \<longrightarrow> acc_id row = k \<and> acc_timezone row \<noteq> None \<and>
        \<not> is_invalid_account_id (Some k) \<and> (acc_status row \<noteq> DELETED \<longrightarrow> dict_get (fst c) k \<noteq> None))"

text \<open>Holds as long as no write fails.\<close>

definition accounts_agree :: "account_core \<Rightarrow> bool" where
  "accounts_agree c \<longleftrightarrow> (\<forall>k a. dict_get (fst c) k = Some a \<longrightarrow>
     acc_status a \<noteq> DELETED \<and> map_option stored (dict_get (snd c) k) = Some (stored a))"

lemma acct_step_wf: "acct_step faulty runtime c c' \<Longrightarrow> accounts_wf c \<Longrightarrow> accounts_wf c'"
  by (erule acct_step.cases) (auto simp: accounts_wf_def split: if_splits)

lemma acct_step_agree: "acct_step False runtime c c' \<Longrightarrow> accounts_agree c \<Longrightarrow> accounts_agree c'"
  by (erule acct_step.cases) (auto simp: accounts_agree_def split: if_splits)

lemma acct_step_fixed:
  "acct_step faulty True c c' \<Longrightarrow>
   map_option fixed_part (dict_get (fst c') k) = map_option fixed_part (dict_get (fst c) k)"
  by (erule acct_step.cases) auto

definition accounts_ok :: "bool \<Rightarrow> account_core \<Rightarrow> bool" where
  "accounts_ok faulty c \<longleftrightarrow> accounts_wf c \<and> (faulty \<or> accounts_agree c)"

lemma acct_step_ok: "acct_step faulty runtime c c' \<Longrightarrow> accounts_ok faulty c \<Longrightarrow> accounts_ok faulty c'"
  using acct_step_wf acct_step_agree by (cases faulty) (auto simp: accounts_ok_def)

lemma acct_steps_ok: "(acct_step faulty runtime)\<^sup>*\<^sup>* c c' \<Longrightarrow> accounts_ok faulty c \<Longrightarrow> accounts_ok faulty c'"
  by (induction rule: rtranclp_induct) (auto intro: acct_step_ok)

lemma acct_steps_fixed:
  "(acct_step faulty True)\<^sup>*\<^sup>* c c' \<Longrightarrow>
   map_option fixed_part (dict_get (fst c') k) = map_option fixed_part (dict_get (fst c) k)"
  by (induction rule: rtranclp_induct) (auto simp: acct_step_fixed)

lemma got_account:
  assumes "accounts_ok faulty (account_core s)" and "Account_Service.get_account env k s = Inr a"
    and "acc_status a \<noteq> DELETED"
  obtains row where "dict_get (sv_memory s) k = Some a" "acc_id a = k" "dict_get (sv_table s) k = Some row"
    "acc_id row = k" "acc_timezone row \<noteq> None" "\<not> faulty \<Longrightarrow> stored row = stored a"
proof -
  have wf: "accounts_wf (account_core s)" using assms(1) by (simp add: accounts_ok_def)
  have "dict_get (sv_memory s) k \<noteq> None" if "dict_get (sv_table s) k = Some row" "acc_status row \<noteq> DELETED" for row
    using wf that by (simp add: accounts_wf_def account_core_def)
  then have m: "dict_get (sv_memory s) k = Some a"
    using assms(2,3)
    by (fastforce simp: Account_Service.get_account_def row_to_account_def split: option.splits)
  then obtain row where row: "dict_get (sv_table s) k = Some row" "acc_id a = k"
    using wf by (auto simp: accounts_wf_def account_core_def)
  moreover have "acc_id row = k" "acc_timezone row \<noteq> None"
    using wf row(1) by (auto simp: accounts_wf_def account_core_def)
  moreover have "stored row = stored a" if "\<not> faulty"
  proof -
    have "accounts_agree (account_core s)" using assms(1) that by (simp add: accounts_ok_def)
    then have "map_option stored (dict_get (sv_table s) k) = Some (stored a)"
      using m unfolding accounts_agree_def account_core_def by simp
    then show ?thesis using row(1) by simp
  qed
  ultimately show ?thesis using m that by blast
qed

lemma core_publish_account [simp]: "account_core (publish_account es s) = account_core s"
  by (simp add: publish_account_def account_core_def)

lemma core_cache_broker [simp]: "account_core (cache_broker k b s) = account_core s"
  by (simp add: cache_broker_def account_core_def)

lemma core_mutate:
  "dict_get (sv_memory s) (acc_id a) = Some x \<Longrightarrow> account_core (mutate a s) = (dict_set (acc_id a) a (sv_memory s), sv_table s)"
  by (simp add: mutate_def account_core_def)

lemma core_update_table:
  "dict_get (sv_table s) k = Some row \<Longrightarrow> account_core (update_table k f s) = (sv_memory s, dict_set k (f row) (sv_table s))"
  by (simp add: update_table_def account_core_def)

lemma account_coreD: "account_core s = (m, t) \<Longrightarrow> sv_memory s = m \<and> sv_table s = t"
  by (simp add: account_core_def)

lemma set_status_core:
  assumes ok: "accounts_ok faulty (account_core s)" and get: "Account_Service.get_account env k s = Inr a"
    and st: "acc_status a \<noteq> DELETED" "status \<noteq> DELETED" and writes: "\<not> faulty \<Longrightarrow> \<not> va_fails env n"
  shows "acct_step faulty runtime (account_core s) (account_core (snd (set_status env n status a s)))"
proof -
  from got_account [OF ok get st(1)] obtain row where g: "dict_get (sv_memory s) k = Some a" "acc_id a = k"
    "dict_get (sv_table s) k = Some row" "acc_id row = k" "acc_timezone row \<noteq> None" "\<not> faulty \<Longrightarrow> stored row = stored a"
    by metis
  let ?a = "a\<lparr>acc_status := status, acc_updated_at := va_now env\<rparr>"
  let ?row = "row\<lparr>acc_status := status, acc_updated_at := va_now env\<rparr>"
  have m: "account_core (mutate ?a s) = (dict_set k ?a (sv_memory s), sv_table s)"
    using core_mutate [of s ?a a] g(1,2) by simp
  show ?thesis
  proof (cases "va_fails env n")
    case True
    then show ?thesis using writes m g(1,2)
      by (auto simp: set_status_def Let_def account_core_def [of s] fixed_part_def intro!: acct_step.dirty)
  next
    case False
    have "account_core (update_table k (\<lambda>row. row\<lparr>acc_status := status, acc_updated_at := va_now env\<rparr>) (mutate ?a s)) =
        (dict_set k ?a (sv_memory s), dict_set k ?row (sv_table s))"
      using core_update_table [of "mutate ?a s" k row] account_coreD [OF m] g(3) by simp
    moreover have "stored ?row = stored ?a" if "\<not> faulty"
      using g(6) [OF that] by (cases a; cases row) (simp add: stored_def)
    ultimately show ?thesis using False g st(2)
      by (auto simp: set_status_def Let_def account_core_def [of s] fixed_part_def intro!: acct_step.changed)
  qed
qed

lemma suspend_core:
  assumes "accounts_ok faulty (account_core s)" and "\<not> faulty \<Longrightarrow> \<not> va_fails env n"
  shows "(acct_step faulty runtime)\<^sup>*\<^sup>* (account_core s) (account_core (snd (suspend env n k reason who s)))"
proof (cases "Account_Service.get_account env k s")
  case (Inr a)
  show ?thesis
  proof (cases "acc_status a \<in> {DELETED, SUSPENDED}")
    case False
    then have "account_core (snd (suspend env n k reason who s)) = account_core (snd (set_status env n SUSPENDED a s))"
      using Inr by (auto simp: suspend_def split: prod.splits option.splits)
    moreover have "acct_step faulty runtime (account_core s) (account_core (snd (set_status env n SUSPENDED a s)))"
      using set_status_core [OF assms(1) Inr] False assms(2) by simp
    ultimately show ?thesis by simp
  qed (use Inr in \<open>auto simp: suspend_def\<close>)
qed (simp add: suspend_def)

lemma activate_core:
  assumes "accounts_ok faulty (account_core s)" and "\<not> faulty \<Longrightarrow> \<not> va_fails env n"
  shows "(acct_step faulty runtime)\<^sup>*\<^sup>* (account_core s) (account_core (snd (activate env n k who s)))"
proof (cases "Account_Service.get_account env k s")
  case (Inr a)
  show ?thesis
  proof (cases "acc_status a \<in> {DELETED, ACTIVE}")
    case False
    then have "account_core (snd (activate env n k who s)) = account_core (snd (set_status env n ACTIVE a s))"
      using Inr by (auto simp: activate_def split: prod.splits option.splits)
    moreover have "acct_step faulty runtime (account_core s) (account_core (snd (set_status env n ACTIVE a s)))"
      using set_status_core [OF assms(1) Inr] False assms(2) by simp
    ultimately show ?thesis by simp
  qed (use Inr in \<open>auto simp: activate_def\<close>)
qed (simp add: activate_def)

lemma suspend_each_core:
  assumes "accounts_ok faulty (account_core s)" and "\<not> faulty \<Longrightarrow> account_writes_succeed env"
  shows "(acct_step faulty runtime)\<^sup>*\<^sup>* (account_core s) (account_core (snd (suspend_each env reason who n ks s)))"
  using assms(1)
proof (induction ks arbitrary: n s)
  case (Cons k ks)
  define s1 where "s1 = snd (suspend env n k reason who s)"
  have st: "(acct_step faulty runtime)\<^sup>*\<^sup>* (account_core s) (account_core s1)"
    unfolding s1_def using Cons.prems assms(2) by (intro suspend_core) (auto simp: account_writes_succeed_def)
  then have "accounts_ok faulty (account_core s1)" using Cons.prems by (rule acct_steps_ok)
  from Cons.IH [OF this] have "(acct_step faulty runtime)\<^sup>*\<^sup>* (account_core s) (account_core (snd (suspend_each env reason who (n + 1) ks s1)))"
    using st by (rule rtranclp_trans [rotated])
  moreover have "snd (suspend_each env reason who n (k # ks) s) \<in>
      {s, s1, snd (suspend_each env reason who n ks s), snd (suspend_each env reason who (n + 1) ks s1)}"
    by (auto simp: s1_def split: option.splits prod.splits sum.splits)
  ultimately show ?case using st Cons.IH [OF Cons.prems, of n] by auto
qed simp

lemma activate_each_core:
  assumes "accounts_ok faulty (account_core s)" and "\<not> faulty \<Longrightarrow> account_writes_succeed env"
  shows "(acct_step faulty runtime)\<^sup>*\<^sup>* (account_core s) (account_core (snd (activate_each env who n ks s)))"
  using assms(1)
proof (induction ks arbitrary: n s)
  case (Cons k ks)
  define s1 where "s1 = snd (activate env n k who s)"
  have st: "(acct_step faulty runtime)\<^sup>*\<^sup>* (account_core s) (account_core s1)"
    unfolding s1_def using Cons.prems assms(2) by (intro activate_core) (auto simp: account_writes_succeed_def)
  then have "accounts_ok faulty (account_core s1)" using Cons.prems by (rule acct_steps_ok)
  from Cons.IH [OF this] have "(acct_step faulty runtime)\<^sup>*\<^sup>* (account_core s) (account_core (snd (activate_each env who (n + 1) ks s1)))"
    using st by (rule rtranclp_trans [rotated])
  moreover have "snd (activate_each env who n (k # ks) s) \<in>
      {s, s1, snd (activate_each env who n ks s), snd (activate_each env who (n + 1) ks s1)}"
    by (auto simp: s1_def split: option.splits prod.splits sum.splits)
  ultimately show ?case using st Cons.IH [OF Cons.prems, of n] by auto
qed simp

lemma set_field_simps [simp]:
  "acc_id (set_field f a) = acc_id a" "acc_status (set_field f a) = acc_status a"
  "acc_created_at (set_field f a) = acc_created_at a"
  by (cases f; simp)+

lemma set_field_fixed: "field_key f \<notin> set structural_fields \<Longrightarrow> fixed_part (set_field f a) = fixed_part a"
  by (cases f) (simp_all add: fixed_part_def structural_fields_def)

lemma updated_account_simps [simp]:
  "acc_id (updated_account env kws a) = acc_id a" "acc_status (updated_account env kws a) = acc_status a"
  "acc_created_at (updated_account env kws a) = acc_created_at a"
proof -
  have "acc_id (fold set_field kws a) = acc_id a \<and> acc_status (fold set_field kws a) = acc_status a \<and>
      acc_created_at (fold set_field kws a) = acc_created_at a"
    by (induction kws arbitrary: a) simp_all
  then show "acc_id (updated_account env kws a) = acc_id a" "acc_status (updated_account env kws a) = acc_status a"
    "acc_created_at (updated_account env kws a) = acc_created_at a"
    by (simp_all add: updated_account_def Let_def)
qed

lemma updated_account_fixed:
  assumes "list_all (\<lambda>f. field_key f \<notin> set structural_fields) kws"
  shows "fixed_part (updated_account env kws a) = fixed_part a"
proof -
  have "fixed_part (fold set_field kws a) = fixed_part a"
    using assms by (induction kws arbitrary: a) (simp_all add: set_field_fixed)
  then show ?thesis by (simp add: updated_account_def Let_def fixed_part_def)
qed

lemma update_objection_Inr:
  assumes "update_objection env k kws s = Inr a"
  shows "Account_Service.get_account env k s = Inr a" "acc_status a \<noteq> DELETED"
    "sv_runtime s \<Longrightarrow> list_all (\<lambda>f. field_key f \<notin> set structural_fields) kws"
  using assms by (auto simp: update_objection_def Let_def list_ex_iff list_all_iff split: if_splits sum.splits option.splits)

lemma stored_write_columns:
  assumes "stored row = stored a" and "acc_id a' = acc_id a" "acc_status a' = acc_status a" "acc_created_at a' = acc_created_at a"
  shows "stored (write_columns a' row) = stored a'"
proof -
  have "acc_id row = acc_id a \<and> acc_status row = acc_status a \<and> acc_created_at row = acc_created_at a"
    using assms(1) by (cases row; cases a) (simp add: stored_def)
  then have "write_columns a' row = a'" using assms(2-) by (cases a') (simp add: write_columns_def)
  then show ?thesis by simp
qed

lemma timezone_kept:
  assumes "F_timezone None \<notin> set kws" and "acc_timezone a \<noteq> None"
  shows "acc_timezone (updated_account env kws a) \<noteq> None"
proof -
  have "acc_timezone (fold set_field kws a) \<noteq> None"
    using assms
  proof (induction kws arbitrary: a)
    case (Cons f kws)
    have "acc_timezone (set_field f a) \<noteq> None" using Cons.prems
      by (cases f) (auto simp: not_None_eq [symmetric] simp del: not_None_eq)
    then show ?case using Cons.IH [of "set_field f a"] Cons.prems(1) by simp
  qed simp
  then show ?thesis by (simp add: updated_account_def Let_def)
qed

lemma stored_timezone: "stored a = stored b \<Longrightarrow> acc_timezone a = acc_timezone b"
  by (cases a; cases b) (simp add: stored_def)

lemma update_fields_core:
  assumes ok: "accounts_ok faulty (account_core s)" and writes: "\<not> faulty \<Longrightarrow> account_writes_succeed env"
    and runtime: "runtime \<Longrightarrow> sv_runtime s"
    and tz: "\<not> faulty \<Longrightarrow> F_timezone None \<notin> set kws"
  shows "(acct_step faulty runtime)\<^sup>*\<^sup>* (account_core s) (account_core (snd (update_fields env k kws s)))"
proof (cases "update_objection env k kws s")
  case (Inr a)
  note u = update_objection_Inr [OF Inr]
  from got_account [OF ok u(1,2)] obtain row where g: "dict_get (sv_memory s) k = Some a" "acc_id a = k"
    "dict_get (sv_table s) k = Some row" "acc_id row = k" "acc_timezone row \<noteq> None" "\<not> faulty \<Longrightarrow> stored row = stored a"
    by metis
  let ?a = "updated_account env kws a"
  have fixed: "fixed_part ?a = fixed_part a" if runtime
    using updated_account_fixed u(3) runtime that by blast
  have m: "account_core (mutate ?a s) = (dict_set k ?a (sv_memory s), sv_table s)"
    using core_mutate [of s ?a a] g(1,2) by simp
  show ?thesis
  proof (cases "va_fails env 0 \<or> acc_timezone ?a = None")
    case True
    have faulty
    proof (rule ccontr)
      assume f: "\<not> faulty"
      have "acc_timezone a \<noteq> None" using g(5) stored_timezone [OF g(6) [OF f]] by simp
      then have "acc_timezone ?a \<noteq> None" by (rule timezone_kept [OF tz [OF f]])
      with True writes [OF f] show False by (simp add: account_writes_succeed_def)
    qed
    then have "acct_step faulty runtime (account_core s) (account_core (mutate ?a s))"
      using m g(1,2) fixed by (auto simp: account_core_def [of s] intro!: acct_step.dirty)
    then show ?thesis using Inr True by (simp add: update_fields_def Let_def)
  next
    case False
    let ?s2 = "update_table k (write_columns ?a) (mutate ?a s)"
    have s2: "account_core ?s2 = (dict_set k ?a (sv_memory s), dict_set k (write_columns ?a row) (sv_table s))"
      using core_update_table [of "mutate ?a s" k row] account_coreD [OF m] g(3) by simp
    have "account_core (snd (update_fields env k kws s)) =
        (dict_set k ?a (sv_memory s), dict_set k (write_columns ?a row) (sv_table s))"
      using Inr False account_coreD [OF s2]
      by (auto simp: update_fields_def Let_def account_core_def dict_set_same)
    moreover have "acct_step faulty runtime (sv_memory s, sv_table s)
        (dict_set k ?a (sv_memory s), dict_set k (write_columns ?a row) (sv_table s))"
      using g(1,3)
    proof (rule acct_step.changed)
      show "\<not> faulty \<Longrightarrow> stored (write_columns ?a row) = stored ?a \<and> acc_status ?a \<noteq> DELETED"
        using stored_write_columns [OF g(6)] u(2) by simp
    qed (use g False fixed in \<open>auto simp: write_columns_def\<close>)
    ultimately show ?thesis by (simp add: account_core_def [of s])
  qed
qed (simp add: update_fields_def)

lemma broker_core [simp]:
  "account_core (snd (get_broker env k s)) = account_core s"
  "account_core (snd (reconnect_broker env k s)) = account_core s"
  by (simp_all add: get_broker_def reconnect_broker_def split: sum.splits)

lemma update_account_core:
  assumes "accounts_ok faulty (account_core s)" and "\<not> faulty \<Longrightarrow> account_writes_succeed env"
    and "runtime \<Longrightarrow> sv_runtime s" and "\<not> faulty \<Longrightarrow> F_timezone None \<notin> set kws"
  shows "(acct_step faulty runtime)\<^sup>*\<^sup>* (account_core s) (account_core (snd (update_account env k kws s)))"
proof -
  obtain x s1 where u: "update_fields env k kws s = (x, s1)" by fastforce
  have "account_core (snd (update_account env k kws s)) = account_core s1"
    using broker_core(2) [of env k s1]
    by (auto simp: update_account_def u simp del: broker_core split: sum.splits prod.splits option.splits)
  with update_fields_core [OF assms, where k = k] u show ?thesis by simp
qed

lemma delete_core:
  assumes ok: "accounts_ok faulty (account_core s)" and writes: "\<not> faulty \<Longrightarrow> account_writes_succeed env"
    and runtime: "runtime \<Longrightarrow> sv_runtime s"
  shows "(acct_step faulty runtime)\<^sup>*\<^sup>* (account_core s) (account_core (snd (delete_account env k who s)))"
proof (cases "Account_Service.get_account env k s")
  case (Inr a)
  show ?thesis
  proof (cases "sv_runtime s \<or> acc_status a = DELETED \<or> 0 < va_active_bots env k")
    case False
    then have nr: "\<not> runtime" "acc_status a \<noteq> DELETED" using runtime by auto
    from got_account [OF ok Inr nr(2)] obtain row where g: "dict_get (sv_memory s) k = Some a" "acc_id a = k"
      "dict_get (sv_table s) k = Some row" "acc_id row = k" "acc_timezone row \<noteq> None" by metis
    let ?a = "a\<lparr>acc_status := DELETED, acc_updated_at := va_now env\<rparr>"
    let ?row = "row\<lparr>acc_status := DELETED, acc_updated_at := va_now env\<rparr>"
    define s0 where "s0 = (if acc_status a = SUSPENDED then s
      else publish_account [Account_suspended k ''Account deletion'' who] s)"
    have s0: "account_core s0 = account_core s" "sv_memory s0 = sv_memory s" "sv_table s0 = sv_table s"
      by (simp_all add: s0_def publish_account_def account_core_def)
    have m: "account_core (mutate ?a s0) = (dict_set k ?a (sv_memory s), sv_table s)"
      using core_mutate [of s0 ?a a] g(1,2) s0 by simp
    show ?thesis
    proof (cases "va_fails env 0")
      case True
      have "account_core (snd (delete_account env k who s)) = (dict_set k ?a (sv_memory s), sv_table s)"
        using False True Inr m by (simp add: delete_account_def set_status_def Let_def s0_def [symmetric])
      moreover have faulty using True writes by (auto simp: account_writes_succeed_def)
      ultimately have "acct_step faulty runtime (account_core s) (account_core (snd (delete_account env k who s)))"
        using g(1,2) nr(1) by (auto simp: account_core_def [of s] intro!: acct_step.dirty)
      then show ?thesis by simp
    next
      case w: False
      have "account_core (update_table k (\<lambda>row. row\<lparr>acc_status := DELETED, acc_updated_at := va_now env\<rparr>) (mutate ?a s0)) =
          (dict_set k ?a (sv_memory s), dict_set k ?row (sv_table s))"
        using core_update_table [of "mutate ?a s0" k row] account_coreD [OF m] g(3) by simp
      from account_coreD [OF this]
      have "account_core (snd (delete_account env k who s)) = (dict_pop k (dict_set k ?a (sv_memory s)), dict_set k ?row (sv_table s))"
        using False w Inr g(2) by (simp add: delete_account_def set_status_def Let_def s0_def [symmetric] account_core_def)
      moreover have "dict_pop k (dict_set k ?a m) = dict_pop k m" for m
        by (induction m) auto
      ultimately have "acct_step faulty runtime (account_core s) (account_core (snd (delete_account env k who s)))"
        using g nr(1) by (auto simp: account_core_def [of s] intro!: acct_step.removed)
      then show ?thesis by simp
    qed
  qed (use Inr in \<open>auto simp: delete_account_def\<close>)
qed (simp add: delete_account_def)

lemma persist_core:
  assumes ok: "accounts_wf (account_core s)" and "\<not> runtime" and "\<not> is_invalid_account_id (Some (acc_id a))"
    and "acc_status a \<noteq> DELETED"
  shows "(acct_step faulty runtime)\<^sup>*\<^sup>* (account_core s) (account_core (snd (persist_account env a s)))"
proof -
  let ?a = "a\<lparr>acc_created_at := va_now env, acc_updated_at := va_now env\<rparr>" and ?k = "acc_id a"
  show ?thesis
  proof (cases "\<exists>e. persist_account env a s = (Inl e, s)")
    case False
    have "dict_get (sv_memory s) ?k = None"
    proof (rule ccontr)
      assume "dict_get (sv_memory s) ?k \<noteq> None"
      then have "persist_account env a s = (Inl (Account_exists ?k), s)" by (simp add: persist_account_def)
      with False show False by blast
    qed
    moreover have "dict_get (sv_table s) ?k = None" "acc_timezone a \<noteq> None"
      "account_core (snd (persist_account env a s)) = (dict_set ?k ?a (sv_memory s), dict_set ?k ?a (sv_table s))"
      using False by (auto simp: persist_account_def Let_def account_core_def split: option.splits if_splits)
    ultimately have "acct_step faulty runtime (account_core s) (account_core (snd (persist_account env a s)))"
      using assms by (auto simp: account_core_def [of s] intro!: acct_step.created)
    then show ?thesis by simp
  qed auto
qed

lemma create_account_core:
  assumes "accounts_wf (account_core s)" and "runtime \<Longrightarrow> sv_runtime s" and "acc_status a \<noteq> DELETED"
  shows "(acct_step faulty runtime)\<^sup>*\<^sup>* (account_core s) (account_core (snd (create_account env a s)))"
    and "(acct_step faulty runtime)\<^sup>*\<^sup>* (account_core s) (account_core (snd (create_seed_account env a s)))"
proof -
  have p: "(acct_step faulty runtime)\<^sup>*\<^sup>* (account_core s) (account_core (snd (persist_account env a s)))"
    if "\<not> sv_runtime s" "\<not> is_invalid_account_id (Some (acc_id a))"
    using persist_core [OF assms(1) _ that(2) assms(3)] that(1) assms(2) by blast
  have "validate_new_account_id c (Some x) = Inr y \<Longrightarrow> \<not> is_invalid_account_id (Some x)" for c x y
    by (auto simp: validate_new_account_id_Inr)
  then show "(acct_step faulty runtime)\<^sup>*\<^sup>* (account_core s) (account_core (snd (create_account env a s)))"
    using p by (auto simp: create_account_def split: sum.splits)
  show "(acct_step faulty runtime)\<^sup>*\<^sup>* (account_core s) (account_core (snd (create_seed_account env a s)))"
    using p by (auto simp: create_seed_account_def split: sum.splits)
qed

lemma default_test_account_core:
  assumes "accounts_wf (account_core s)" and "runtime \<Longrightarrow> sv_runtime s"
  shows "(acct_step faulty runtime)\<^sup>*\<^sup>* (account_core s) (account_core (snd (create_default_test_account env s)))"
  using create_account_core(2) [OF assms, where faulty = faulty and env = env]
  by (auto simp: create_default_test_account_def default_test_account_def split: option.splits)

text \<open>Events with a typed timezone only, unless writes may fail anyway.\<close>

fun timezone_given :: "account_op \<Rightarrow> bool" where
  "timezone_given (Update_account k kws) = (F_timezone None \<notin> set kws)"
| "timezone_given _ = True"

lemma account_step_core:
  assumes ok: "accounts_ok faulty (account_core s)" and runtime: "runtime \<Longrightarrow> sv_runtime s"
    and op: "account_op_ok (snd e)"
    and writes: "\<not> faulty \<Longrightarrow> account_writes_succeed (fst e) \<and> timezone_given (snd e)"
  shows "(acct_step faulty runtime)\<^sup>*\<^sup>* (account_core s) (account_core (account_step s e))"
proof -
  obtain env o' where e: "e = (env, o')" by (cases e)
  have wf: "accounts_wf (account_core s)" using ok by (simp add: accounts_ok_def)
  have w: "\<not> faulty \<Longrightarrow> account_writes_succeed env" "\<not> faulty \<Longrightarrow> \<not> va_fails env 0"
    using writes by (simp_all add: e account_writes_succeed_def)
  show ?thesis
  proof (cases o')
    case (Create_account a)
    then show ?thesis using create_account_core(1) [OF wf runtime] op by (simp add: e)
  next
    case Create_default
    then show ?thesis using default_test_account_core [OF wf runtime] by (simp add: e)
  next
    case (Update_account k kws)
    then show ?thesis using update_account_core [OF ok w(1) runtime] writes by (simp add: e)
  next
    case (Repair_timezone k tz)
    then show ?thesis using update_account_core [OF ok w(1) runtime] by (simp add: e repair_timezone_def)
  next
    case (Suspend_account k reason who)
    then show ?thesis using suspend_core [OF ok w(2)] by (simp add: e)
  next
    case (Activate_account k who)
    then show ?thesis using activate_core [OF ok w(2)] by (simp add: e)
  next
    case (Delete_account k who)
    then show ?thesis using delete_core [OF ok w(1) runtime] by (simp add: e)
  next
    case (Suspend_all reason who)
    then show ?thesis using suspend_each_core [OF ok w(1)] by (simp add: e suspend_all_def)
  next
    case (Activate_all who)
    then show ?thesis using activate_each_core [OF ok w(1)] by (simp add: e activate_all_def)
  next
    case (Get_broker k)
    then show ?thesis by (simp add: e)
  qed
qed

subsection \<open>Runs\<close>

lemma admissible_every: "list_all P es \<Longrightarrow> admissible step (\<lambda>_. P) s es"
  by (induction es arbitrary: s) simp_all

definition account_guard :: "bool \<Rightarrow> account_store \<Rightarrow> account_env \<times> account_op \<Rightarrow> bool" where
  "account_guard faulty s e \<longleftrightarrow> account_op_ok (snd e) \<and>
     (faulty \<or> account_writes_succeed (fst e) \<and> timezone_given (snd e))"

lemma accounts_step_ok:
  assumes "accounts_ok faulty (account_core s)" and "account_guard faulty s e"
  shows "accounts_ok faulty (account_core (account_step s e))"
  using account_step_core [OF assms(1), of False e] assms(2)
  by (auto simp: account_guard_def intro: acct_steps_ok [OF _ assms(1)])

interpretation accounts: guarded_machine account_step "account_guard faulty" "\<lambda>s. accounts_ok faulty (account_core s)"
  by unfold_locales (rule accounts_step_ok)

lemma no_accounts_ok: "accounts_ok faulty (account_core no_accounts)"
  by (simp add: accounts_ok_def accounts_wf_def accounts_agree_def account_core_def no_accounts_def)

text \<open>Nothing but the start of the server sets the mark of a running server.\<close>

lemma runtime_simps [simp]:
  "sv_runtime (mutate a s) = sv_runtime s" "sv_runtime (update_table k f s) = sv_runtime s"
  "sv_runtime (publish_account es s) = sv_runtime s" "sv_runtime (cache_broker k b s) = sv_runtime s"
  by (simp_all add: mutate_def update_table_def publish_account_def cache_broker_def split: option.splits)

lemma status_runtime [simp]:
  "sv_runtime (snd (set_status env n st a s)) = sv_runtime s"
  "sv_runtime (snd (suspend env n k reason who s)) = sv_runtime s"
  "sv_runtime (snd (activate env n k who s)) = sv_runtime s"
proof -
  show st: "sv_runtime (snd (set_status env n st a s)) = sv_runtime s" for st a
    by (simp add: set_status_def Let_def)
  show "sv_runtime (snd (suspend env n k reason who s)) = sv_runtime s"
    using st [of SUSPENDED] by (auto simp: suspend_def split: sum.splits prod.splits option.splits) (metis snd_conv)+
  show "sv_runtime (snd (activate env n k who s)) = sv_runtime s"
    using st [of ACTIVE] by (auto simp: activate_def split: sum.splits prod.splits option.splits) (metis snd_conv)+
qed

lemma each_runtime [simp]:
  "sv_runtime (snd (suspend_each env reason who n ks s)) = sv_runtime s"
  "sv_runtime (snd (activate_each env who n ks s)) = sv_runtime s"
proof -
  show "sv_runtime (snd (suspend_each env reason who n ks s)) = sv_runtime s"
  proof (induction ks arbitrary: n s)
    case (Cons k ks)
    have "snd (suspend_each env reason who n (k # ks) s) \<in>
        {s, snd (suspend env n k reason who s), snd (suspend_each env reason who n ks s),
         snd (suspend_each env reason who (n + 1) ks (snd (suspend env n k reason who s)))}"
      by (auto split: option.splits prod.splits sum.splits)
    with Cons.IH show ?case by auto
  qed simp
  show "sv_runtime (snd (activate_each env who n ks s)) = sv_runtime s"
  proof (induction ks arbitrary: n s)
    case (Cons k ks)
    have "snd (activate_each env who n (k # ks) s) \<in>
        {s, snd (activate env n k who s), snd (activate_each env who n ks s),
         snd (activate_each env who (n + 1) ks (snd (activate env n k who s)))}"
      by (auto split: option.splits prod.splits sum.splits)
    with Cons.IH show ?case by auto
  qed simp
qed

lemma broker_runtime [simp]:
  "sv_runtime (snd (get_broker env k s)) = sv_runtime s" "sv_runtime (snd (reconnect_broker env k s)) = sv_runtime s"
  by (simp_all add: get_broker_def reconnect_broker_def split: sum.splits)

lemma update_runtime [simp]: "sv_runtime (snd (update_account env k kws s)) = sv_runtime s"
proof -
  have u: "sv_runtime (snd (update_fields env k kws s)) = sv_runtime s"
    by (simp add: update_fields_def Let_def split: sum.splits)
  obtain x s1 where x: "update_fields env k kws s = (x, s1)" by fastforce
  have "sv_runtime (snd (update_account env k kws s)) = sv_runtime s1"
    using broker_runtime(2) [of env k s1]
    by (auto simp: update_account_def x simp del: broker_runtime split: sum.splits prod.splits option.splits)
  with u x show ?thesis by simp
qed

lemma account_step_runtime: "sv_runtime s \<Longrightarrow> sv_runtime (account_step s e)"
proof -
  assume r: "sv_runtime s"
  obtain env o' where "e = (env, o')" by (cases e)
  with r show ?thesis
    by (cases o') (auto simp: create_account_def create_default_test_account_def create_seed_account_def
        repair_timezone_def delete_account_def suspend_all_def activate_all_def split: option.splits)
qed

lemma runtime_run:
  assumes "sv_runtime s" and "accounts_ok True (account_core s)" and "list_all (\<lambda>e. account_op_ok (snd e)) es"
  shows "map_option fixed_part (dict_get (sv_memory (run account_step s es)) k) =
    map_option fixed_part (dict_get (sv_memory s) k)"
  using assms
proof (induction es arbitrary: s)
  case (Cons e es)
  have "(acct_step True True)\<^sup>*\<^sup>* (account_core s) (account_core (account_step s e))"
    using Cons.prems by (intro account_step_core) auto
  from acct_steps_fixed [OF this] acct_steps_ok [OF this Cons.prems(2)] Cons.IH Cons.prems account_step_runtime
  show ?case by (simp add: account_core_def)
qed simp

subsection \<open>Loading\<close>

lemma load_rows:
  assumes "dict_wf rows" and "\<And>k row. dict_get rows k = Some row \<Longrightarrow> acc_id row = k"
  shows "dict_get (fold (\<lambda>(_, row) m. dict_set (acc_id row) (f row) m) rows m) k =
    (case dict_get rows k of None \<Rightarrow> dict_get m k | Some row \<Rightarrow> Some (f row))"
  using assms
proof (induction rows arbitrary: m)
  case (Cons x rows)
  obtain k' row where x: "x = (k', row)" by (cases x)
  have id: "acc_id row = k'" using Cons.prems(2) [of k' row] by (simp add: x)
  have tl: "acc_id r = j" if "dict_get rows j = Some r" for j r
    using Cons.prems(2) [of j r] Cons.prems(1) that by (cases "j = k'") (auto simp: x)
  show ?case using Cons.IH [OF _ tl] Cons.prems(1) id
    by (auto simp: x split: option.splits)
qed simp

lemma restart_memory:
  assumes "accounts_wf (account_core s)"
  shows "dict_get (sv_memory (restart env s)) k =
    (case dict_get (sv_table s) k of
       None \<Rightarrow> None
     | Some row \<Rightarrow> if acc_status row \<noteq> DELETED then Some (row_to_account env row) else None)"
proof -
  let ?rows = "filter (\<lambda>(_, row). acc_status row \<noteq> DELETED) (sv_table s)"
  have wf: "dict_wf (sv_table s)" and ids: "\<And>j row. dict_get (sv_table s) j = Some row \<Longrightarrow> acc_id row = j"
    using assms by (auto simp: accounts_wf_def account_core_def)
  have get: "dict_get ?rows j = (case dict_get (sv_table s) j of None \<Rightarrow> None
      | Some row \<Rightarrow> if acc_status row \<noteq> DELETED then Some row else None)" for j
    by (simp add: dict_get_filter [OF wf] split: option.splits)
  have rows: "dict_get ?rows j = Some row \<Longrightarrow> acc_id row = j" for j row
    using ids by (auto simp: get split: option.splits if_splits)
  have "dict_wf ?rows" using wf by simp
  from load_rows [where rows = ?rows, OF this rows, where f = "row_to_account env" and m = "[]" and k = k]
  show ?thesis by (simp add: restart_def initialize_accounts_def get split: option.splits)
qed

subsection \<open>The kill switch\<close>

lemma suspend_memory:
  assumes "suspend env n k reason who s = (None, s')" and "dict_get (sv_memory s) k = Some a" and "acc_id a = k"
  shows "dict_get (sv_memory s') j =
    (if j = k then Some (a\<lparr>acc_status := SUSPENDED, acc_updated_at := va_now env\<rparr>) else dict_get (sv_memory s) j)"
  using assms
  by (auto simp: suspend_def Account_Service.get_account_def set_status_def Let_def mutate_def update_table_def
      publish_account_def split: if_splits option.splits)

text \<open>Every account is stopped, or was deleted; the report lists them with their status before.\<close>

lemma suspend_each_spec:
  assumes "suspend_each env reason who n ks s = (Inr report, s')"
    and "\<And>k a. dict_get (sv_memory s) k = Some a \<Longrightarrow> acc_id a = k" and "distinct ks"
  shows "(\<forall>k\<in>set ks. \<exists>a. dict_get (sv_memory s') k = Some a \<and> acc_status a \<noteq> ACTIVE) \<and>
    (\<forall>k. k \<notin> set ks \<longrightarrow> dict_get (sv_memory s') k = dict_get (sv_memory s) k) \<and>
    (\<forall>k. (dict_get (sv_memory s') k = None) = (dict_get (sv_memory s) k = None))"
  using assms
proof (induction ks arbitrary: n s report)
  case (Cons k ks)
  from Cons.prems(1) obtain a where a: "dict_get (sv_memory s) k = Some a" by (auto split: option.splits)
  have id: "acc_id a = k" using Cons.prems(2) [OF a] .
  show ?case
  proof (cases "acc_status a = ACTIVE")
    case True
    obtain s1 report1 where s1: "suspend env n k reason who s = (None, s1)"
      and rest: "suspend_each env reason who (n + 1) ks s1 = (Inr report1, s')"
      using Cons.prems(1) a True by (auto split: prod.splits option.splits sum.splits)
    have m: "dict_get (sv_memory s1) j =
        (if j = k then Some (a\<lparr>acc_status := SUSPENDED, acc_updated_at := va_now env\<rparr>) else dict_get (sv_memory s) j)" for j
      using suspend_memory [OF s1 a id] .
    have "acc_id b = j" if "dict_get (sv_memory s1) j = Some b" for j b
      using that Cons.prems(2) id by (auto simp: m split: if_splits)
    from Cons.IH [OF rest this] Cons.prems(3) a show ?thesis by (auto simp: m)
  next
    case False
    then obtain report1 where rest: "suspend_each env reason who n ks s = (Inr report1, s')"
      using Cons.prems(1) a by (auto split: prod.splits sum.splits if_splits)
    from Cons.IH [OF rest Cons.prems(2)] Cons.prems(3) a False show ?thesis by auto
  qed
qed simp

text \<open>What the gateway gets when it looks an account up in the service.\<close>

definition fetch_from :: "account_env \<Rightarrow> string \<Rightarrow> account_store \<Rightarrow> account_fetch" where
  "fetch_from env k s =
     (case Account_Service.get_account env k s of
        Inl _ \<Rightarrow> Get_raises
      | Inr a \<Rightarrow> Got (Some \<lparr>ga_broker_type = Some (acc_broker_type a), ga_trading_mode = Some (acc_mode a),
                         ga_status = Some (acc_status a)\<rparr>))"

lemma suspend_all_stops:
  assumes wf: "accounts_wf (account_core s)" and all: "suspend_all env reason who s = (Inr report, s')"
    and found: "Account_Service.get_account env' k s' = Inr a" "acc_status a \<noteq> DELETED"
    and wf': "accounts_wf (account_core s')"
  shows "acc_status a = SUSPENDED"
proof -
  have "dict_wf (sv_memory s)" and ids: "\<And>k a. dict_get (sv_memory s) k = Some a \<Longrightarrow> acc_id a = k"
    using wf by (auto simp: accounts_wf_def account_core_def)
  then have dist: "distinct (map fst (sv_memory s))" by (simp add: dict_wf_def)
  note spec = suspend_each_spec [OF all [unfolded suspend_all_def] ids dist]
  have "accounts_ok True (account_core s')" using wf' by (simp add: accounts_ok_def)
  from got_account [OF this found] have m: "dict_get (sv_memory s') k = Some a" by metis
  with spec have "dict_get (sv_memory s) k \<noteq> None" by (metis option.distinct(1))
  then have "k \<in> set (map fst (sv_memory s))" by (metis map_of_eq_None_iff list.set_map)
  with spec m have "acc_status a \<noteq> ACTIVE" by (metis option.inject)
  with found(2) show ?thesis by (cases "acc_status a") simp_all
qed

subsection \<open>Properties\<close>

text \<open>C33. After any history of accounts, with any writes failing, a kill switch that reports success stops
  every submission for an account that is not deleted: whatever order the gateway is given afterwards,
  if it looks the account up in the service and the status found there is not \<open>DELETED\<close>, the broker is
  not asked to place it.  (A deletion whose write failed also counts as deleted, see
  \<open>failed_deletion_escapes_kill_switch\<close>.)\<close>

theorem kill_switch_stops_submissions:
  assumes "list_all (\<lambda>e. account_op_ok (snd e)) es"
    and "suspend_all env reason who (run account_step no_accounts es) = (Inr report, s')"
    and "ge_fetch_gate genv = fetch_from env' (oo_account_id (ap_order ev)) s'"
    and "\<And>a. Account_Service.get_account env' (oo_account_id (ap_order ev)) s' = Inr a \<Longrightarrow> acc_status a \<noteq> DELETED"
  shows "Call_place_order acct sym' side quantity type price \<notin> set (fst (on_order_approved genv ev gw))"
proof
  assume "Call_place_order acct sym' side quantity type price \<in> set (fst (on_order_approved genv ev gw))"
  from submit_call(3) [OF approved_call [OF this]]
  obtain g where g: "ge_fetch_gate genv = Got (Some g)" "ga_status g \<noteq> Some SUSPENDED"
    by (auto simp: may_trade_def)
  then obtain a where a: "Account_Service.get_account env' (oo_account_id (ap_order ev)) s' = Inr a"
    "acc_status a \<noteq> SUSPENDED"
    using assms(3) by (auto simp: fetch_from_def split: sum.splits)
  have adm: "admissible account_step (account_guard True) no_accounts es"
    using admissible_every [OF assms(1)] by (simp add: account_guard_def [abs_def])
  have ok: "accounts_ok True (account_core (run account_step no_accounts es))"
    by (rule accounts.run_inv [OF no_accounts_ok adm])
  have "(acct_step True False)\<^sup>*\<^sup>* (account_core (run account_step no_accounts es)) (account_core s')"
    using suspend_each_core [OF ok, of env False reason who 0] assms(2) by (simp add: suspend_all_def) (metis snd_conv)
  from acct_steps_ok [OF this ok] ok suspend_all_stops [OF _ assms(2) a(1) assms(4) [OF a(1)]] a(2)
  show False by (simp add: accounts_ok_def)
qed

text \<open>C28. As long as no write fails, a restart loads exactly the accounts that were in memory, with every
  field but the timezone mark, which is computed anew.\<close>

theorem restart_restores_accounts:
  assumes "list_all (\<lambda>e. account_op_ok (snd e) \<and> account_writes_succeed (fst e) \<and> timezone_given (snd e)) es"
  shows "map_option stored (dict_get (sv_memory (restart env (run account_step no_accounts es))) k) =
    map_option stored (dict_get (sv_memory (run account_step no_accounts es)) k)"
proof -
  let ?s = "run account_step no_accounts es"
  have adm: "admissible account_step (account_guard False) no_accounts es"
    using admissible_every [OF assms] by (simp add: account_guard_def [abs_def])
  have ok: "accounts_ok False (account_core ?s)"
    by (rule accounts.run_inv [OF no_accounts_ok adm])
  then have wf: "accounts_wf (account_core ?s)" and ag: "accounts_agree (account_core ?s)"
    by (simp_all add: accounts_ok_def)
  have loaded: "stored (row_to_account env row) = stored row" for row
    by (cases row) (simp add: stored_def row_to_account_def)
  show ?thesis
  proof (cases "dict_get (sv_memory ?s) k")
    case None
    have "acc_status row \<noteq> DELETED \<Longrightarrow> dict_get (sv_memory ?s) k \<noteq> None"
      if "dict_get (sv_table ?s) k = Some row" for row
      using wf that by (simp add: accounts_wf_def account_core_def)
    with None show ?thesis by (auto simp: restart_memory [OF wf] split: option.splits)
  next
    case (Some a)
    then have "acc_status a \<noteq> DELETED" "map_option stored (dict_get (sv_table ?s) k) = Some (stored a)"
      using ag unfolding accounts_agree_def account_core_def by simp_all
    then obtain row where row: "dict_get (sv_table ?s) k = Some row" "stored row = stored a" by auto
    then have "acc_status row \<noteq> DELETED" using \<open>acc_status a \<noteq> DELETED\<close>
      by (cases row; cases a) (simp add: stored_def)
    with row Some show ?thesis by (simp add: restart_memory [OF wf] loaded)
  qed
qed

text \<open>C40. From the start of the server on, no operation, whatever fails, adds or removes an account in
  memory or changes its exchange, currency, trading mode, broker, credentials or rates.\<close>

theorem running_server_keeps_structure:
  assumes "list_all (\<lambda>e. account_op_ok (snd e)) es" and "list_all (\<lambda>e. account_op_ok (snd e)) fs"
  defines "s \<equiv> mark_runtime_started (run account_step no_accounts es)"
  shows "map_option fixed_part (dict_get (sv_memory (run account_step s fs)) k) =
    map_option fixed_part (dict_get (sv_memory s) k)"
proof -
  have "admissible account_step (account_guard True) no_accounts es"
    using admissible_every [OF assms(1)] by (simp add: account_guard_def [abs_def])
  from accounts.run_inv [OF no_accounts_ok this]
  have "accounts_ok True (account_core s)" by (simp add: s_def mark_runtime_started_def account_core_def)
  with assms(2) show ?thesis by (intro runtime_run) (simp add: s_def mark_runtime_started_def)
qed

subsection \<open>Cached adapters\<close>

text \<open>
  \<open>get_broker\<close>, updates and reconnections interleaved: an account's lock is held from the moment an
  adapter is built until its \<open>connect\<close> ends (\<open>bm_inflight\<close>, marked if it is a reconnection); a
  reconnection that finds the lock taken waits (\<open>bm_waiting\<close>), while the update that asked for it has
  long been stored.
\<close>

record broker_machine =
  bm_store :: account_store
  bm_inflight :: "(string, bool \<times> adapter) dict"
  bm_waiting :: "string list"

datatype broker_op =
    Get_enters account_env string
  | Update_runs account_env string "account_field list"
  | Reconnect_enters account_env string
  | Connect_ends account_env string

fun broker_step :: "broker_machine \<Rightarrow> broker_op \<Rightarrow> broker_machine" where
  "broker_step m (Get_enters env k) =
     (if dict_get (bm_inflight m) k \<noteq> None then m
      else case get_broker_locked env k (bm_store m) of
             Inl _ \<Rightarrow> m
           | Inr b \<Rightarrow> m\<lparr>bm_inflight := dict_set k (False, b) (bm_inflight m)\<rparr>)"
| "broker_step m (Update_runs env k kws) =
     (case update_fields env k kws (bm_store m) of
        (Inl _, s) \<Rightarrow> m\<lparr>bm_store := s\<rparr>
      | (Inr (_, reconnect), s) \<Rightarrow>
          m\<lparr>bm_store := s, bm_waiting := (if reconnect then bm_waiting m @ [k] else bm_waiting m)\<rparr>)"
| "broker_step m (Reconnect_enters env k) =
     (if k \<notin> set (bm_waiting m) \<or> dict_get (bm_inflight m) k \<noteq> None then m
      else let m' = m\<lparr>bm_waiting := remove1 k (bm_waiting m)\<rparr>
           in case reconnect_locked env k (bm_store m) of
                Inl _ \<Rightarrow> m'
              | Inr b \<Rightarrow> m'\<lparr>bm_inflight := dict_set k (True, b) (bm_inflight m)\<rparr>)"
| "broker_step m (Connect_ends env k) =
     (case dict_get (bm_inflight m) k of
        None \<Rightarrow> m
      | Some (_, b) \<Rightarrow>
          let m' = m\<lparr>bm_inflight := dict_pop k (bm_inflight m)\<rparr>
          in if va_connects env b then m'\<lparr>bm_store := cache_broker k b (bm_store m)\<rparr> else m')"

text \<open>Writes succeed, and reconnections can be built and connect; first connections may fail.\<close>

fun broker_guard :: "broker_machine \<Rightarrow> broker_op \<Rightarrow> bool" where
  "broker_guard m (Get_enters env k) = True"
| "broker_guard m (Update_runs env k kws) = (account_writes_succeed env \<and> F_timezone None \<notin> set kws)"
| "broker_guard m (Reconnect_enters env k) =
     (case reconnect_locked env k (bm_store m) of Inl (Some _) \<Rightarrow> False | _ \<Rightarrow> True)"
| "broker_guard m (Connect_ends env k) =
     (case dict_get (bm_inflight m) k of Some (True, b) \<Rightarrow> va_connects env b | _ \<Rightarrow> True)"

text \<open>The adapter the account's settings describe.\<close>

definition current_adapter :: "string \<Rightarrow> account_store \<Rightarrow> adapter option" where
  "current_adapter k s =
     (case dict_get (sv_memory s) k of
        Some a \<Rightarrow> Some (adapter_of a)
      | None \<Rightarrow> map_option adapter_of (dict_get (sv_table s) k))"

definition broker_ok :: "string \<Rightarrow> broker_machine \<Rightarrow> bool" where
  "broker_ok k m \<longleftrightarrow>
     k \<in> set (bm_waiting m) \<or>
     (\<exists>b. dict_get (bm_inflight m) k = Some (True, b) \<and> current_adapter k (bm_store m) = Some b) \<or>
     (dict_get (sv_brokers (bm_store m)) k \<noteq> None \<longrightarrow>
        dict_get (sv_brokers (bm_store m)) k = current_adapter k (bm_store m)) \<and>
     (\<forall>r b. dict_get (bm_inflight m) k = Some (r, b) \<longrightarrow> current_adapter k (bm_store m) = Some b)"

definition brokers_ok :: "broker_machine \<Rightarrow> bool" where
  "brokers_ok m \<longleftrightarrow> accounts_ok False (account_core (bm_store m)) \<and> (\<forall>k. broker_ok k m)"

lemma adapter_of_row [simp]: "adapter_of (row_to_account env row) = adapter_of row"
  by (simp add: adapter_of_def row_to_account_def)

lemma build_current: "build_broker_adapter env k s = Inr b \<Longrightarrow> current_adapter k s = Some b"
  by (auto simp: build_broker_adapter_def Account_Service.get_account_def current_adapter_def
      split: option.splits sum.splits if_splits)

lemma current_cache_broker [simp]: "current_adapter j (cache_broker k b s) = current_adapter j s"
  by (simp add: current_adapter_def cache_broker_def split: option.splits)

lemma set_field_adapter:
  assumes "field_key f \<in> set updatable_fields" and "field_key f \<notin> set broker_invalidating_fields"
  shows "adapter_of (set_field f a) = adapter_of a"
  using assms by (cases f) (simp_all add: adapter_of_def broker_invalidating_fields_def)

lemma updated_account_adapter:
  assumes "list_all (\<lambda>f. field_key f \<in> set updatable_fields \<and> field_key f \<notin> set broker_invalidating_fields) kws"
  shows "adapter_of (updated_account env kws a) = adapter_of a"
proof -
  have "adapter_of (fold set_field kws a) = adapter_of a"
    using assms by (induction kws arbitrary: a) (simp_all add: set_field_adapter)
  then show ?thesis by (simp add: updated_account_def Let_def adapter_of_def)
qed

lemma update_fields_current:
  assumes ok: "accounts_ok False (account_core s)" and "update_fields env k kws s = (res, s')"
    and "account_writes_succeed env" "F_timezone None \<notin> set kws"
  shows "sv_brokers s' = sv_brokers s"
    and "(\<exists>a. res = Inr (a, True)) \<and> j = k \<or> current_adapter j s' = current_adapter j s"
proof -
  show "sv_brokers s' = sv_brokers s"
    using assms(2) by (auto simp: update_fields_def Let_def mutate_def update_table_def split: sum.splits if_splits option.splits)
  show "(\<exists>a. res = Inr (a, True)) \<and> j = k \<or> current_adapter j s' = current_adapter j s"
  proof (cases "update_objection env k kws s")
    case (Inr a)
    note u = update_objection_Inr [OF Inr]
    from got_account [OF ok u(1,2)] obtain row where g: "dict_get (sv_memory s) k = Some a" "acc_id a = k"
      "dict_get (sv_table s) k = Some row" "acc_timezone row \<noteq> None" "stored row = stored a" by metis
    let ?a = "updated_account env kws a"
    have keys: "list_all (\<lambda>f. field_key f \<in> set updatable_fields) kws"
      using Inr by (auto simp: update_objection_def Let_def list_ex_iff list_all_iff split: if_splits sum.splits)
    have "acc_timezone ?a \<noteq> None"
      using timezone_kept [OF assms(4)] g(4) stored_timezone [OF g(5)] by simp
    then have res: "res = Inr (?a, list_ex (\<lambda>k. k \<in> set broker_invalidating_fields) (map field_key kws))"
      and s': "sv_memory s' = dict_set k ?a (sv_memory s)" "sv_table s' = dict_set k (write_columns ?a row) (sv_table s)"
      using assms(2,3) Inr g
      by (auto simp: update_fields_def Let_def mutate_def update_table_def account_writes_succeed_def dict_set_same split: if_splits)
    have others: "current_adapter j s' = current_adapter j s" if "j \<noteq> k"
      using s' that by (simp add: current_adapter_def split: option.split)
    show ?thesis
    proof (cases "list_ex (\<lambda>k. k \<in> set broker_invalidating_fields) (map field_key kws)")
      case False
      then have "adapter_of ?a = adapter_of a"
        using updated_account_adapter keys by (auto simp: list_ex_iff list_all_iff)
      with s' g others show ?thesis by (cases "j = k") (simp_all add: current_adapter_def split: option.split)
    qed (use res others in auto)
  qed (use assms(2) in \<open>simp add: update_fields_def\<close>)
qed

lemma locked_simps:
  "reconnect_locked env k s = Inr b \<Longrightarrow> current_adapter k s = Some b"
  "reconnect_locked env k s = Inl None \<Longrightarrow> dict_get (sv_brokers s) k = None"
  "get_broker_locked env k s = Inr b \<Longrightarrow> dict_get (sv_brokers s) k = None \<and> current_adapter k s = Some b"
  by (auto simp: reconnect_locked_def get_broker_locked_def build_current split: if_splits sum.splits option.splits)

lemma broker_step_other:
  assumes "j \<noteq> k"
  shows "broker_ok j (broker_step m (Get_enters env k)) = broker_ok j m"
    and "broker_ok j (broker_step m (Reconnect_enters env k)) = broker_ok j m"
    and "broker_ok j (broker_step m (Connect_ends env k)) = broker_ok j m"
  using assms
  by (auto simp: broker_ok_def Let_def cache_broker_def current_adapter_def
      split: sum.splits option.splits prod.splits)

lemma get_enters_ok:
  assumes "broker_ok k m"
  shows "broker_ok k (broker_step m (Get_enters env k))"
  using assms locked_simps(3) by (fastforce simp: broker_ok_def split: sum.splits)

lemma reconnect_enters_ok:
  assumes "broker_ok k m" and "broker_guard m (Reconnect_enters env k)"
  shows "broker_ok k (broker_step m (Reconnect_enters env k))"
proof (cases "k \<in> set (bm_waiting m) \<and> dict_get (bm_inflight m) k = None")
  case True
  show ?thesis
  proof (cases "reconnect_locked env k (bm_store m)")
    case (Inl x)
    then have "dict_get (sv_brokers (bm_store m)) k = None"
      using assms(2) locked_simps(2) by (cases x) auto
    with Inl True show ?thesis by (simp add: broker_ok_def)
  next
    case (Inr b)
    with True locked_simps(1) [OF Inr] show ?thesis by (simp add: broker_ok_def)
  qed
qed (use assms(1) in auto)

lemma connect_ends_ok:
  assumes "broker_ok k m" and "broker_guard m (Connect_ends env k)"
  shows "broker_ok k (broker_step m (Connect_ends env k))"
proof (cases "dict_get (bm_inflight m) k")
  case (Some rb)
  obtain r b where rb: "rb = (r, b)" by (cases rb)
  show ?thesis
  proof (cases "k \<in> set (bm_waiting m)")
    case False
    then have cur: "current_adapter k (bm_store m) = Some b"
      using assms(1) Some rb by (auto simp: broker_ok_def)
    show ?thesis
    proof (cases "va_connects env b")
      case True
      moreover have "dict_get (sv_brokers (cache_broker k b (bm_store m))) k = Some b" by (simp add: cache_broker_def)
      ultimately show ?thesis using Some rb cur by (simp add: broker_ok_def Let_def)
    next
      case f: False
      then have "\<not> r" using assms(2) Some rb by (cases r) simp_all
      with f Some rb assms(1) False show ?thesis by (simp add: broker_ok_def Let_def)
    qed
  qed (simp add: broker_ok_def Let_def Some rb)
qed (use assms(1) in simp)

lemma update_runs_ok:
  assumes ok: "accounts_ok False (account_core (bm_store m))" and b: "broker_ok j m"
    and guard: "broker_guard m (Update_runs env k kws)"
  shows "broker_ok j (broker_step m (Update_runs env k kws))"
proof -
  obtain res s where u: "update_fields env k kws (bm_store m) = (res, s)" by fastforce
  from guard have "account_writes_succeed env" "F_timezone None \<notin> set kws" by simp_all
  from update_fields_current [OF ok u this]
  have "sv_brokers s = sv_brokers (bm_store m)"
    "(\<exists>a. res = Inr (a, True)) \<and> j = k \<or> current_adapter j s = current_adapter j (bm_store m)" by blast+
  then show ?thesis using b u by (cases res) (auto simp: broker_ok_def split: prod.splits)
qed

lemma broker_step_core:
  assumes ok: "accounts_ok False (account_core (bm_store m))" and guard: "broker_guard m e"
  shows "accounts_ok False (account_core (bm_store (broker_step m e)))"
proof (cases e)
  case (Update_runs env k kws)
  obtain res s where u: "update_fields env k kws (bm_store m) = (res, s)" by fastforce
  have "accounts_ok False (account_core (snd (update_fields env k kws (bm_store m))))"
    using guard Update_runs by (intro acct_steps_ok [OF update_fields_core [where runtime = False] ok] ok) auto
  then show ?thesis using Update_runs u by (cases res) (simp_all split: prod.splits)
qed (use ok in \<open>simp_all add: Let_def split: sum.splits option.splits prod.splits\<close>)

lemma broker_step_ok:
  assumes "brokers_ok m" and "broker_guard m e"
  shows "brokers_ok (broker_step m e)"
proof -
  have ok: "accounts_ok False (account_core (bm_store m))" and b: "broker_ok j m" for j
    using assms(1) by (simp_all add: brokers_ok_def)
  have "broker_ok j (broker_step m e)" for j
  proof (cases e)
    case (Get_enters env k)
    then show ?thesis using b broker_step_other(1) [of j k] get_enters_ok by metis
  next
    case (Update_runs env k kws)
    then show ?thesis using update_runs_ok [OF ok b] assms(2) by metis
  next
    case (Reconnect_enters env k)
    then show ?thesis using b broker_step_other(2) [of j k] reconnect_enters_ok assms(2) by metis
  next
    case (Connect_ends env k)
    then show ?thesis using b broker_step_other(3) [of j k] connect_ends_ok assms(2) by metis
  qed
  then show ?thesis using broker_step_core [OF ok assms(2)] by (simp add: brokers_ok_def)
qed

interpretation brokers: guarded_machine broker_step broker_guard brokers_ok
  by unfold_locales (rule broker_step_ok)

definition broker_start :: "account_store \<Rightarrow> broker_machine" where
  "broker_start s = \<lparr>bm_store = s\<lparr>sv_brokers := []\<rparr>, bm_inflight = [], bm_waiting = []\<rparr>"

lemma broker_start_ok: "accounts_ok False (account_core s) \<Longrightarrow> brokers_ok (broker_start s)"
  by (simp add: brokers_ok_def broker_ok_def broker_start_def account_core_def)

text \<open>C35. When writes succeed and no reconnection fails to build or to connect its adapter, connections,
  updates and reconnections may interleave in any way: once no reconnection of an account waits and no
  connection of it is under way, the adapter in the cache is the one that the account's current settings
  describe.  (A reconnection that fails keeps the old adapter on purpose.)\<close>

theorem cached_broker_is_current:
  assumes "list_all (\<lambda>e. account_op_ok (snd e) \<and> account_writes_succeed (fst e) \<and> timezone_given (snd e)) es"
    and "admissible broker_step broker_guard (broker_start (run account_step no_accounts es)) ops"
  defines "m \<equiv> run broker_step (broker_start (run account_step no_accounts es)) ops"
  assumes "k \<notin> set (bm_waiting m)" and "dict_get (bm_inflight m) k = None"
    and "get_cached_broker k (bm_store m) = Some b"
  shows "current_adapter k (bm_store m) = Some b"
proof -
  have adm: "admissible account_step (account_guard False) no_accounts es"
    using admissible_every [OF assms(1)] by (simp add: account_guard_def [abs_def])
  have "accounts_ok False (account_core (run account_step no_accounts es))"
    by (rule accounts.run_inv [OF no_accounts_ok adm])
  from brokers.run_inv [OF broker_start_ok [OF this] assms(2)]
  have "broker_ok k m" by (simp add: brokers_ok_def m_def)
  then show ?thesis using assms(4-6) by (simp add: broker_ok_def get_cached_broker_def)
qed

subsection \<open>Concrete runs\<close>

definition sample_account_env :: account_env where
  "sample_account_env = \<lparr>va_now = 1, va_fails = (\<lambda>_. False), va_iana = (\<lambda>tz. tz = ''Asia/Seoul''),
     va_active_bots = (\<lambda>_. 0), va_constructs = (\<lambda>_. True), va_connects = (\<lambda>_. True)\<rparr>"

definition sample_new_account :: "string \<Rightarrow> account" where
  "sample_new_account k =
     \<lparr>acc_id = k, acc_name = ''A'', acc_exchange = ''KRX'', acc_currency = ''KRW'', acc_timezone = Some ''Asia/Seoul'',
      acc_timezone_invalid = False, acc_hours_start = ''09:00'', acc_hours_end = ''15:30'', acc_mode = LIVE,
      acc_broker_type = ''test'', acc_credentials = [(''app_key'', ''k''), (''app_secret'', ''s'')],
      acc_broker_config = [], acc_buy_rate = 0, acc_sell_rate = 0, acc_buffer_rate = 0, acc_status = ACTIVE,
      acc_created_at = 0, acc_updated_at = 0\<rparr>"

definition sample_history :: "(account_env \<times> account_op) list" where
  "sample_history =
     [(sample_account_env, Create_account (sample_new_account ''acct-1'')),
      (sample_account_env, Create_account (sample_new_account ''acct-2'')),
      (sample_account_env, Update_account ''acct-1'' [F_name ''B'', F_credentials [(''app_key'', ''x''), (''app_secret'', ''y'')]]),
      (sample_account_env, Suspend_account ''acct-2'' ''r'' ''w''),
      (sample_account_env, Activate_account ''acct-2'' ''w'')]"

lemma sample_history_ok:
  "list_all (\<lambda>e. account_op_ok (snd e)) sample_history"
  "list_all (\<lambda>e. account_op_ok (snd e) \<and> account_writes_succeed (fst e) \<and> timezone_given (snd e)) sample_history"
  by (simp_all add: sample_history_def sample_account_env_def sample_new_account_def account_writes_succeed_def)

definition sample_accounts :: account_store where
  "sample_accounts = run account_step no_accounts sample_history"

definition sample_killed :: account_store where
  "sample_killed = snd (suspend_all sample_account_env ''r'' ''w'' sample_accounts)"

lemma sample_killed:
  "suspend_all sample_account_env ''r'' ''w'' (run account_step no_accounts sample_history) =
     (Inr [(''acct-1'', ACTIVE, True), (''acct-2'', ACTIVE, True)], sample_killed)"
proof -
  have "fst (suspend_all sample_account_env ''r'' ''w'' sample_accounts) =
      Inr [(''acct-1'', ACTIVE, True), (''acct-2'', ACTIVE, True)]" by code_simp
  then show ?thesis by (simp add: sample_killed_def sample_accounts_def prod_eq_iff)
qed

theorem kill_switch_stops_submissions_witness:
  "Call_place_order ''acct-1'' ''005930'' ''buy'' 5 ''limit'' (Some 10) \<notin>
     set (fst (on_order_approved (sample_genv\<lparr>ge_fetch_gate := fetch_from sample_account_env ''acct-1'' sample_killed\<rparr>)
       sample_approved sample_gateway))"
proof (rule kill_switch_stops_submissions [OF sample_history_ok(1) sample_killed, where env' = sample_account_env])
  have id: "oo_account_id (ap_order sample_approved) = ''acct-1''" by code_simp
  show "ge_fetch_gate (sample_genv\<lparr>ge_fetch_gate := fetch_from sample_account_env ''acct-1'' sample_killed\<rparr>) =
      fetch_from sample_account_env (oo_account_id (ap_order sample_approved)) sample_killed" by (simp add: id)
  have st: "map_option acc_status (dict_get (sv_memory sample_killed) ''acct-1'') = Some SUSPENDED" by code_simp
  fix a assume "Account_Service.get_account sample_account_env (oo_account_id (ap_order sample_approved)) sample_killed = Inr a"
  with st show "acc_status a \<noteq> DELETED" by (auto simp: id Account_Service.get_account_def)
qed

text \<open>Before the kill switch the same order is submitted.\<close>

lemma sample_not_killed:
  "Call_place_order ''acct-1'' ''005930'' ''buy'' 5 ''limit'' (Some 10) \<in>
     set (fst (on_order_approved (sample_genv\<lparr>ge_fetch_gate := fetch_from sample_account_env ''acct-1'' sample_accounts\<rparr>)
       sample_approved sample_gateway))"
  by code_simp

theorem restart_restores_accounts_witness:
  "map_option acc_name (dict_get (sv_memory (restart sample_account_env (run account_step no_accounts sample_history))) ''acct-1'') =
     Some ''B''"
proof -
  have mem: "map_option acc_name (map_option stored (dict_get (sv_memory (run account_step no_accounts sample_history)) ''acct-1'')) =
      Some ''B''" by code_simp
  show ?thesis
    using mem unfolding restart_restores_accounts [OF sample_history_ok(2), of sample_account_env "''acct-1''", symmetric]
    by (simp add: option.map_comp comp_def stored_def)
qed

definition sample_attempts :: "(account_env \<times> account_op) list" where
  "sample_attempts =
     [(sample_account_env, Update_account ''acct-1'' [F_buy_rate 1]),
      (sample_account_env, Delete_account ''acct-1'' ''w''),
      (sample_account_env, Update_account ''acct-1'' [F_name ''C'']),
      (sample_account_env, Create_account (sample_new_account ''acct-3''))]"

theorem running_server_keeps_structure_witness:
  "map_option fixed_part (dict_get (sv_memory (run account_step
       (mark_runtime_started (run account_step no_accounts sample_history)) sample_attempts)) ''acct-1'') =
     map_option fixed_part (dict_get (sv_memory sample_accounts) ''acct-1'')"
proof -
  have "list_all (\<lambda>e. account_op_ok (snd e)) sample_attempts"
    by (simp add: sample_attempts_def sample_new_account_def)
  from running_server_keeps_structure [OF sample_history_ok(1) this, of "''acct-1''"]
  show ?thesis by (simp add: mark_runtime_started_def sample_accounts_def)
qed

text \<open>A connection is overtaken by an update: its adapter is replaced by the reconnection that waited.\<close>

definition sample_broker_ops :: "broker_op list" where
  "sample_broker_ops =
     [Get_enters sample_account_env ''acct-1'',
      Update_runs sample_account_env ''acct-1'' [F_credentials [(''app_key'', ''new''), (''app_secret'', ''new'')]],
      Reconnect_enters sample_account_env ''acct-1'',
      Connect_ends sample_account_env ''acct-1'',
      Reconnect_enters sample_account_env ''acct-1'',
      Connect_ends sample_account_env ''acct-1'']"

definition sample_broker_machine :: broker_machine where
  "sample_broker_machine = run broker_step (broker_start (run account_step no_accounts sample_history)) sample_broker_ops"

lemma sample_guards:
  "broker_guard m (Get_enters sample_account_env k)"
  "broker_guard m (Connect_ends sample_account_env k)"
  "F_timezone None \<notin> set kws \<Longrightarrow> broker_guard m (Update_runs sample_account_env k kws)"
  by (auto simp: sample_account_env_def account_writes_succeed_def split: option.split bool.split)

lemma sample_broker_admissible:
  "admissible broker_step broker_guard (broker_start (run account_step no_accounts sample_history)) sample_broker_ops"
proof -
  let ?s = "broker_start (run account_step no_accounts sample_history)"
  have "reconnect_locked sample_account_env ''acct-1'' (bm_store (run broker_step ?s (take 2 sample_broker_ops))) = Inl None"
    "isl (reconnect_locked sample_account_env ''acct-1'' (bm_store (run broker_step ?s (take 4 sample_broker_ops)))) = False"
    by code_simp+
  then have "broker_guard (run broker_step ?s (take 2 sample_broker_ops)) (Reconnect_enters sample_account_env ''acct-1'')"
    "broker_guard (run broker_step ?s (take 4 sample_broker_ops)) (Reconnect_enters sample_account_env ''acct-1'')"
    by (auto simp del: broker_step.simps split: sum.split)
  then show ?thesis
    by (simp add: sample_broker_ops_def sample_guards del: broker_step.simps broker_guard.simps)
qed

theorem cached_broker_is_current_witness:
  "get_cached_broker ''acct-1'' (bm_store sample_broker_machine) = current_adapter ''acct-1'' (bm_store sample_broker_machine)"
proof -
  have "get_cached_broker ''acct-1'' (bm_store sample_broker_machine) \<noteq> None" by code_simp
  then obtain b where b: "get_cached_broker ''acct-1'' (bm_store sample_broker_machine) = Some b" by auto
  have q: "''acct-1'' \<notin> set (bm_waiting sample_broker_machine)" "dict_get (bm_inflight sample_broker_machine) ''acct-1'' = None"
    by code_simp+
  from cached_broker_is_current [OF sample_history_ok(2) sample_broker_admissible, folded sample_broker_machine_def, OF q b] b
  show ?thesis by simp
qed

subsection \<open>Failed writes\<close>

definition failing_account_env :: "nat \<Rightarrow> account_env" where
  "failing_account_env n = sample_account_env\<lparr>va_fails := (\<lambda>m. m = n)\<rparr>"

text \<open>A suspension whose write fails is left in memory: repeating it is refused, so it never gets to the
  table, and after a restart the account trades again.\<close>

theorem failed_suspension_is_lost:
  "let (r1, s1) = suspend (failing_account_env 0) 0 ''acct-1'' ''r'' ''w'' sample_accounts;
       (r2, s2) = suspend sample_account_env 0 ''acct-1'' ''r'' ''w'' s1
   in r1 = Some Write_fails \<and> r2 = Some (Already_suspended ''acct-1'')
     \<and> map_option acc_status (dict_get (sv_memory s2) ''acct-1'') = Some SUSPENDED
     \<and> map_option acc_status (dict_get (sv_memory (restart sample_account_env s2)) ''acct-1'') = Some ACTIVE"
  by code_simp

text \<open>The kill switch stops at the first failing write: the accounts after it go on trading.\<close>

theorem kill_switch_stops_at_failure:
  "let (r, s) = suspend_all (failing_account_env 0) ''r'' ''w'' sample_accounts
   in r = Inl Write_fails \<and> map_option acc_status (dict_get (sv_memory s) ''acct-2'') = Some ACTIVE"
  by code_simp

text \<open>An update whose write fails is in memory all the same, while the cached adapter keeps the old rate.\<close>

theorem failed_update_splits_account:
  "let s0 = snd (get_broker sample_account_env ''acct-1'' sample_accounts);
       (r, s) = update_account (failing_account_env 0) ''acct-1'' [F_buy_rate (1/2)] s0
   in r = Inl Write_fails \<and> map_option acc_buy_rate (dict_get (sv_memory s) ''acct-1'') = Some (1/2)
     \<and> map_option acc_buy_rate (dict_get (sv_table s) ''acct-1'') = Some 0
     \<and> get_cached_broker ''acct-1'' s \<noteq> current_adapter ''acct-1'' s"
  by code_simp

text \<open>A deletion whose write fails leaves the account deleted in memory and active in the table: the kill
  switch, which reports success, skips it, and the gateway, which blocks only suspended accounts, goes
  on submitting its orders.\<close>

definition sample_half_deleted :: account_store where
  "sample_half_deleted = snd (delete_account (failing_account_env 0) ''acct-1'' ''w'' sample_accounts)"

theorem failed_deletion_escapes_kill_switch:
  "let (r, s) = suspend_all sample_account_env ''r'' ''w'' sample_half_deleted
   in (case r of Inr _ \<Rightarrow> True | Inl _ \<Rightarrow> False)
     \<and> map_option acc_status (dict_get (sv_memory s) ''acct-1'') = Some DELETED
     \<and> map_option acc_status (dict_get (sv_table s) ''acct-1'') = Some ACTIVE
     \<and> Call_place_order ''acct-1'' ''005930'' ''buy'' 5 ''limit'' (Some 10) \<in>
         set (fst (on_order_approved (sample_genv\<lparr>ge_fetch_gate := fetch_from sample_account_env ''acct-1'' s\<rparr>)
           sample_approved sample_gateway))"
  by code_simp

end
