(* ===== verification/Reconciliation.thy ===== *)
theory Reconciliation
  imports Fill_Polling
begin

text \<open>
  \<open>src/src/ante/trade/reconciler.py\<close>, the corrections of \<open>src/src/ante/trade/service.py\<close> and the runs of
  \<open>src/src/ante/broker/scheduler.py\<close>: comparing the positions of the library's tables with what the
  broker reports, and overwriting the former where nothing of ours explains the difference.

  The state is that of the fill pipeline: order table, positions, trades.  The order in which Python
  goes through a set of symbols, lookups of the order table that fail and writes that fail are
  parameters.  Times and texts of trade rows are left out.
\<close>

subsection \<open>Data\<close>

datatype mismatch_reason =
    External_liquidation | External_partial_sell | External_buy | Quantity_mismatch | Self_submitted | Unattributed_holding

record correction =
  co_symbol :: string
  co_old_quantity :: rat
  co_new_quantity :: rat
  co_old_avg_price :: rat
  co_new_avg_price :: rat
  co_reason :: mismatch_reason

datatype reconcile_event =
    Position_mismatch string string string rat rat mismatch_reason
  | Mismatch_notice string string string rat rat mismatch_reason
  | Sync_delay_notice string string string rat rat
  | Reconcile_done string string nat "correction list"
  | Account_mismatch_notice string string rat rat

datatype correct_point = At_read_current | At_force_update | At_adjustment

datatype reconcile_error = Reconcile_account account_id_error | Reconcile_fault correct_point

record reconcile_env =
  re_has_tracker :: bool
  re_self_check_fails :: "string \<Rightarrow> string \<Rightarrow> bool"
  re_holding_check_fails :: "string \<Rightarrow> bool"
  re_set_order :: "string list \<Rightarrow> string list"
  re_fault :: "string \<Rightarrow> correct_point option"
  re_trade_id :: "string \<Rightarrow> string"

subsection \<open>Corrections (service.py, recorder.py)\<close>

text \<open>\<open>save_adjustment\<close>: a plain \<open>INSERT\<close> under a fresh id.\<close>

definition save_adjustment ::
  "string \<Rightarrow> string \<Rightarrow> string \<Rightarrow> rat \<Rightarrow> rat \<Rightarrow> string \<Rightarrow> fill_state \<Rightarrow> reconcile_error + fill_state" where
  "save_adjustment trade_id bot_id symbol old_quantity new_quantity account_id s =
     (case require_account_id ''trade_recorder.save_adjustment'' (Some account_id) of
        Inl e \<Rightarrow> Inl (Reconcile_account e)
      | Inr acct \<Rightarrow>
          if dict_get (fs_trades s) trade_id \<noteq> None then Inl (Reconcile_fault At_adjustment)
          else Inr (s\<lparr>fs_trades := dict_set trade_id
                 \<lparr>td_trade_id = trade_id, td_bot_id = bot_id, td_strategy_id = '''', td_symbol = symbol,
                  td_side = ''adjustment'', td_quantity = \<bar>new_quantity - old_quantity\<bar>, td_price = 0,
                  td_status = T_ADJUSTED, td_order_type = '''', td_commission = 0, td_order_id = None,
                  td_exchange = ''KRX'', td_account_id = acct\<rparr> (fs_trades s)\<rparr>))"

text \<open>The position is overwritten before the adjustment is written; there is no transaction around both.\<close>

definition correct_position ::
  "reconcile_env \<Rightarrow> string \<Rightarrow> string \<Rightarrow> rat \<Rightarrow> string \<Rightarrow> rat option \<Rightarrow> mismatch_reason \<Rightarrow> fill_state \<Rightarrow>
     (reconcile_error + correction) \<times> fill_state" where
  "correct_position env bot_id symbol quantity account_id avg_price reason s =
     (case require_account_id ''correct_position'' (Some account_id) of
        Inl e \<Rightarrow> (Inl (Reconcile_account e), s)
      | Inr acct \<Rightarrow>
          if re_fault env symbol = Some At_read_current then (Inl (Reconcile_fault At_read_current), s)
          else case get_current bot_id symbol (Some acct) (fs_positions s) of
                 Inl e \<Rightarrow> (Inl (Reconcile_account e), s)
               | Inr old \<Rightarrow>
                   let old_avg = ps_avg_entry_price old;
                       avg = (case avg_price of Some a \<Rightarrow> if a \<noteq> 0 then a else old_avg | None \<Rightarrow> old_avg)
                   in if re_fault env symbol = Some At_force_update then (Inl (Reconcile_fault At_force_update), s)
                      else case force_update bot_id symbol quantity avg acct (fs_positions s) of
                             Inl e \<Rightarrow> (Inl (Reconcile_account e), s)
                           | Inr positions \<Rightarrow>
                               let s1 = s\<lparr>fs_positions := positions\<rparr>
                               in if re_fault env symbol = Some At_adjustment
                                  then (Inl (Reconcile_fault At_adjustment), s1)
                                  else case save_adjustment (re_trade_id env symbol) bot_id symbol
                                              (ps_quantity old) quantity acct s1 of
                                         Inl e \<Rightarrow> (Inl e, s1)
                                       | Inr s2 \<Rightarrow>
                                           (Inr \<lparr>co_symbol = symbol, co_old_quantity = ps_quantity old,
                                                 co_new_quantity = quantity, co_old_avg_price = old_avg,
                                                 co_new_avg_price = avg, co_reason = reason\<rparr>, s2))"

subsection \<open>Classification\<close>

text \<open>A lookup of the order table that raises counts as no explanation.\<close>

definition is_self_submitted_fill ::
  "reconcile_env \<Rightarrow> string \<Rightarrow> string \<Rightarrow> string \<Rightarrow> rat \<Rightarrow> string \<Rightarrow> order_tracker \<Rightarrow> bool" where
  "is_self_submitted_fill env bot_id account_id symbol excess side t \<longleftrightarrow>
     re_has_tracker env \<and> \<not> re_self_check_fails env side symbol \<and>
     (case get_open_orders_for account_id bot_id symbol side t of
        Inl _ \<Rightarrow> False
      | Inr orders \<Rightarrow>
          orders \<noteq> [] \<and> excess \<le> sum_list (map (\<lambda>r. max (ot_ordered_qty r - ot_recorded_filled_qty r) 0) orders))"

definition is_unattributed_holding ::
  "reconcile_env \<Rightarrow> string \<Rightarrow> string \<Rightarrow> string \<Rightarrow> order_tracker \<Rightarrow> bool" where
  "is_unattributed_holding env bot_id account_id symbol t \<longleftrightarrow>
     re_has_tracker env \<and> \<not> re_holding_check_fails env symbol \<and>
     (case get_open_orders_for account_id bot_id symbol ''buy'' t of Inl _ \<Rightarrow> False | Inr orders \<Rightarrow> orders = [])"

definition classify_mismatch ::
  "reconcile_env \<Rightarrow> string \<Rightarrow> string \<Rightarrow> string \<Rightarrow> rat \<Rightarrow> rat \<Rightarrow> order_tracker \<Rightarrow> mismatch_reason" where
  "classify_mismatch env bot_id account_id symbol i_qty b_qty t =
     (if b_qty < i_qty then
        if is_self_submitted_fill env bot_id account_id symbol (i_qty - b_qty) ''sell'' t then Self_submitted
        else if b_qty = 0 then External_liquidation
        else External_partial_sell
      else if b_qty > i_qty then
        if is_self_submitted_fill env bot_id account_id symbol (b_qty - i_qty) ''buy'' t then Self_submitted
        else if i_qty = 0 \<and> is_unattributed_holding env bot_id account_id symbol t then Unattributed_holding
        else External_buy
      else Quantity_mismatch)"

subsection \<open>Reconciling one bot\<close>

definition internal_map :: "(position_key \<times> position) list \<Rightarrow> (string, rat) dict" where
  "internal_map internal =
     fold (\<lambda>((_, _, symbol), p). dict_set symbol (ps_quantity p)) (filter (\<lambda>(_, p). 0 < ps_quantity p) internal) []"

definition broker_map :: "broker_position list \<Rightarrow> (string, rat \<times> rat) dict" where
  "broker_map positions =
     fold (\<lambda>p. dict_set (bp_symbol p) (bp_quantity p, bp_avg_price p)) (filter (\<lambda>p. 0 < bp_quantity p) positions) []"

text \<open>The body of the loop: the events of the symbol and its correction, if any.\<close>

definition reconcile_symbol ::
  "reconcile_env \<Rightarrow> string \<Rightarrow> string \<Rightarrow> bool \<Rightarrow> bool \<Rightarrow> string \<Rightarrow> rat \<Rightarrow> rat \<Rightarrow> rat \<Rightarrow> fill_state \<Rightarrow>
     (reconcile_error + correction option) \<times> reconcile_event list \<times> fill_state" where
  "reconcile_symbol env bot_id account_id skip_external_buy dry_run symbol i_qty b_qty b_avg s =
     (if i_qty = b_qty then (Inr None, [], s)
      else
        let reason = classify_mismatch env bot_id account_id symbol i_qty b_qty (fs_tracker s)
        in if reason = Self_submitted
           then (Inr None, [Position_mismatch account_id bot_id symbol i_qty b_qty Self_submitted,
                            Sync_delay_notice account_id bot_id symbol i_qty b_qty], s)
           else if reason = External_buy \<and> skip_external_buy then (Inr None, [], s)
           else
             let events = [Position_mismatch account_id bot_id symbol i_qty b_qty reason,
                           Mismatch_notice account_id bot_id symbol i_qty b_qty reason]
             in if reason = Unattributed_holding \<or> dry_run then (Inr None, events, s)
                else case correct_position env bot_id symbol b_qty account_id
                            (if b_avg > 0 then Some b_avg else None) reason s of
                       (Inl e, s') \<Rightarrow> (Inl e, events, s')
                     | (Inr c, s') \<Rightarrow> (Inr (Some c), events, s'))"

fun reconcile_symbols ::
  "reconcile_env \<Rightarrow> string \<Rightarrow> string \<Rightarrow> bool \<Rightarrow> bool \<Rightarrow> (string, rat) dict \<Rightarrow> (string, rat \<times> rat) dict \<Rightarrow>
     string list \<Rightarrow> fill_state \<Rightarrow> (reconcile_error + correction list) \<times> reconcile_event list \<times> fill_state" where
  "reconcile_symbols env bot_id account_id skip dry im bm [] s = (Inr [], [], s)"
| "reconcile_symbols env bot_id account_id skip dry im bm (symbol # symbols) s =
     (let (b_qty, b_avg) = dict_default (0, 0) bm symbol
      in case reconcile_symbol env bot_id account_id skip dry symbol (dict_default 0 im symbol) b_qty b_avg s of
           (Inl e, evs, s1) \<Rightarrow> (Inl e, evs, s1)
         | (Inr c, evs, s1) \<Rightarrow>
             (case reconcile_symbols env bot_id account_id skip dry im bm symbols s1 of
                (Inl e, evs', s2) \<Rightarrow> (Inl e, evs @ evs', s2)
              | (Inr cs, evs', s2) \<Rightarrow>
                  (Inr ((case c of None \<Rightarrow> [] | Some x \<Rightarrow> [x]) @ cs), evs @ evs', s2)))"

definition all_symbols :: "(string, rat) dict \<Rightarrow> (string, rat \<times> rat) dict \<Rightarrow> string list" where
  "all_symbols im bm = remdups (map fst im @ map fst bm)"

definition reconcile ::
  "reconcile_env \<Rightarrow> string \<Rightarrow> broker_position list \<Rightarrow> string \<Rightarrow> bool \<Rightarrow> bool \<Rightarrow> fill_state \<Rightarrow>
     (reconcile_error + correction list) \<times> reconcile_event list \<times> fill_state" where
  "reconcile env bot_id broker_positions account_id skip_external_buy dry_run s =
     (case require_account_id ''reconciler.reconcile'' (Some account_id) of
        Inl e \<Rightarrow> (Inl (Reconcile_account e), [], s)
      | Inr acct \<Rightarrow>
          (case get_positions bot_id False (Some acct) (fs_positions s) of
             Inl e \<Rightarrow> (Inl (Reconcile_account e), [], s)
           | Inr internal \<Rightarrow>
               let im = internal_map internal;
                   bm = broker_map broker_positions
               in case reconcile_symbols env bot_id acct skip_external_buy dry_run im bm
                         (re_set_order env (all_symbols im bm)) s of
                    (Inl e, evs, s') \<Rightarrow> (Inl e, evs, s')
                  | (Inr cs, evs, s') \<Rightarrow>
                      (Inr cs, (if cs = [] then evs else evs @ [Reconcile_done acct bot_id (length cs) cs]), s')))"

subsection \<open>Whole accounts\<close>

record account_mismatch =
  mm_symbol :: string
  mm_broker_qty :: rat
  mm_internal_qty :: rat
  mm_diff :: rat

definition add_to :: "string \<Rightarrow> rat \<Rightarrow> (string, rat) dict \<Rightarrow> (string, rat) dict" where
  "add_to symbol q totals = dict_set symbol (dict_default 0 totals symbol + q) totals"

definition internal_totals :: "(position_key \<times> position) list \<Rightarrow> (string, rat) dict" where
  "internal_totals internal =
     fold (\<lambda>((_, _, symbol), p). add_to symbol (ps_quantity p)) (filter (\<lambda>(_, p). 0 < ps_quantity p) internal) []"

definition broker_totals :: "broker_position list \<Rightarrow> (string, rat) dict" where
  "broker_totals positions =
     fold (\<lambda>p. add_to (bp_symbol p) (bp_quantity p)) (filter (\<lambda>p. 0 < bp_quantity p) positions) []"

definition compute_account_diff ::
  "broker_position list \<Rightarrow> string \<Rightarrow> fill_state \<Rightarrow> reconcile_error + account_mismatch list" where
  "compute_account_diff broker_positions account_id s =
     (case require_account_id ''reconciler.compute_account_diff'' (Some account_id) of
        Inl e \<Rightarrow> Inl (Reconcile_account e)
      | Inr acct \<Rightarrow>
          (case get_all_positions (Some acct) (fs_positions s) of
             Inl e \<Rightarrow> Inl (Reconcile_account e)
           | Inr internal \<Rightarrow>
               let im = internal_totals internal;
                   bm = broker_totals broker_positions
               in Inr (map (\<lambda>symbol. let i = dict_default 0 im symbol; b = dict_default 0 bm symbol
                              in \<lparr>mm_symbol = symbol, mm_broker_qty = b, mm_internal_qty = i, mm_diff = b - i\<rparr>)
                         (filter (\<lambda>symbol. dict_default 0 im symbol \<noteq> dict_default 0 bm symbol)
                            (sort (remdups (map fst im @ map fst bm)))))))"

definition detect_account_level ::
  "broker_position list \<Rightarrow> string \<Rightarrow> fill_state \<Rightarrow> (reconcile_error + account_mismatch list) \<times> reconcile_event list" where
  "detect_account_level broker_positions account_id s =
     (case require_account_id ''reconciler.detect_account_level'' (Some account_id) of
        Inl e \<Rightarrow> (Inl (Reconcile_account e), [])
      | Inr acct \<Rightarrow>
          (case compute_account_diff broker_positions acct s of
             Inl e \<Rightarrow> (Inl e, [])
           | Inr ms \<Rightarrow>
               (Inr ms, map (\<lambda>m. Account_mismatch_notice acct (mm_symbol m) (mm_internal_qty m) (mm_broker_qty m)) ms)))"

subsection \<open>Scheduled runs (broker/scheduler.py)\<close>

text \<open>What \<open>list_bots\<close> tells of a bot, and the broker's answer; \<^theory_text>\<open>None\<close> if the call raises.\<close>

record listed_bot =
  lb_bot_id :: string
  lb_account_id :: "string option"
  lb_running :: bool

definition reconcile_once ::
  "reconcile_env \<Rightarrow> string \<Rightarrow> listed_bot list \<Rightarrow> broker_position list option \<Rightarrow> bool \<Rightarrow> fill_state \<Rightarrow>
     correction list \<times> reconcile_event list \<times> fill_state" where
  "reconcile_once env account_id bots broker skip_external_buy s =
     (case filter (\<lambda>b. lb_account_id b = Some account_id \<and> account_id \<noteq> '''') bots of
        [] \<Rightarrow> ([], [], s)
      | account_bots \<Rightarrow>
          (case broker of
             None \<Rightarrow> ([], [], s)
           | Some broker_positions \<Rightarrow>
               (case account_bots of
                  [b] \<Rightarrow>
                    (case reconcile env (lb_bot_id b) broker_positions account_id skip_external_buy
                            (\<not> lb_running b) s of
                       (Inl _, evs, s') \<Rightarrow> ([], evs, s')
                     | (Inr cs, evs, s') \<Rightarrow> (cs, evs, s'))
                | _ \<Rightarrow> ([], snd (detect_account_level broker_positions account_id s), s))))"

end
