(* ===== verification/Reconcile_Properties.thy ===== *)
theory Reconcile_Properties
  imports Reconciliation Polling_Properties "HOL-Library.Multiset"
begin

text \<open>
  What a reconciliation does to the positions: it overwrites exactly the quantities whose difference
  to the broker's report nothing of ours explains, once; scheduled runs correct only the sole, running
  bot of an account; the account-wide comparison finds exactly the symbols that differ.
\<close>

subsection \<open>What explains a difference\<close>

definition remaining :: "order_row \<Rightarrow> rat" where
  "remaining r = max (ot_ordered_qty r - ot_recorded_filled_qty r) 0"

definition open_orders_of :: "string \<Rightarrow> string \<Rightarrow> string \<Rightarrow> string \<Rightarrow> order_tracker \<Rightarrow> order_row list" where
  "open_orders_of a b sy side t =
     filter (\<lambda>r. ot_account_id r = a \<and> ot_bot_id r = b \<and> ot_symbol r = sy \<and> ot_side r = side \<and> is_open_row r)
       (dict_values (tr_table t))"

definition open_capacity :: "string \<Rightarrow> string \<Rightarrow> string \<Rightarrow> string \<Rightarrow> order_tracker \<Rightarrow> rat" where
  "open_capacity a b sy side t = sum_list (map remaining (open_orders_of a b sy side t))"

lemma open_orders_for:
  "\<not> is_invalid_account_id (Some a) \<Longrightarrow>
   get_open_orders_for a b sy side t = Inr (sort_key submitted_order (open_orders_of a b sy side t))"
  by (simp add: get_open_orders_for_def open_orders_of_def)

lemma sort_key_Nil_iff: "sort_key f xs = [] \<longleftrightarrow> xs = []"
  by (metis length_0_conv length_sort)

lemma sum_sort_key: "sum_list (map g (sort_key f xs)) = (sum_list (map g xs) :: rat)"
proof -
  have "mset (map g (sort_key f xs)) = mset (map g xs)" by simp
  then show ?thesis by (metis sum_mset_sum_list)
qed

lemma self_submitted_iff:
  "\<not> is_invalid_account_id (Some a) \<Longrightarrow>
   is_self_submitted_fill env b a sy excess side t \<longleftrightarrow>
     re_has_tracker env \<and> \<not> re_self_check_fails env side sy \<and> open_orders_of a b sy side t \<noteq> [] \<and>
     excess \<le> open_capacity a b sy side t"
  unfolding is_self_submitted_fill_def open_capacity_def
  by (simp add: open_orders_for sort_key_Nil_iff remaining_def [abs_def, symmetric] sum_sort_key)

lemma unattributed_iff:
  "\<not> is_invalid_account_id (Some a) \<Longrightarrow>
   is_unattributed_holding env b a sy t \<longleftrightarrow>
     re_has_tracker env \<and> \<not> re_holding_check_fails env sy \<and> open_orders_of a b sy ''buy'' t = []"
  by (simp add: is_unattributed_holding_def open_orders_for sort_key_Nil_iff)

text \<open>The decision to overwrite, as a function of the two quantities and the open orders.\<close>

definition corrects ::
  "reconcile_env \<Rightarrow> string \<Rightarrow> string \<Rightarrow> bool \<Rightarrow> bool \<Rightarrow> string \<Rightarrow> rat \<Rightarrow> rat \<Rightarrow> order_tracker \<Rightarrow> bool" where
  "corrects env b a skip dry sy i q t \<longleftrightarrow> i \<noteq> q \<and> \<not> dry \<and>
     (let r = classify_mismatch env b a sy i q t
      in r \<noteq> Self_submitted \<and> r \<noteq> Unattributed_holding \<and> \<not> (r = External_buy \<and> skip))"

text \<open>The same decision without the classification: down only past the open sales, up only past the
  open purchases, for a symbol that is held or being bought.\<close>

lemma corrects_iff:
  assumes "\<not> is_invalid_account_id (Some a)"
  shows "corrects env b a skip dry sy i q t \<longleftrightarrow> \<not> dry \<and>
    (q < i \<and> \<not> is_self_submitted_fill env b a sy (i - q) ''sell'' t
     \<or> i < q \<and> \<not> skip \<and> \<not> is_self_submitted_fill env b a sy (q - i) ''buy'' t
         \<and> \<not> (i = 0 \<and> is_unattributed_holding env b a sy t))"
  by (auto simp: corrects_def classify_mismatch_def Let_def)

subsection \<open>One correction\<close>

lemma force_update_Inr:
  "force_update b sy q avg a s = Inr s' \<longleftrightarrow> \<not> is_invalid_account_id (Some a) \<and>
     s' = s\<lparr>pt_rows := dict_set (a, b, sy)
        ((dict_default empty_position (pt_rows s) (a, b, sy))\<lparr>ps_quantity := q, ps_avg_entry_price := avg\<rparr>) (pt_rows s),
      pt_cache := update_cache b sy q avg a 0 (pt_cache s)\<rparr>"
  by (auto simp: force_update_def require_account_id_def dict_default_def empty_position_def Let_def
      split: option.splits)

definition overwritten :: "position_key \<Rightarrow> rat \<Rightarrow> fill_state \<Rightarrow> fill_state \<Rightarrow> bool" where
  "overwritten key q s s' \<longleftrightarrow>
     fs_tracker s' = fs_tracker s \<and> held_of key (fs_positions s') = q \<and>
     (\<forall>k. k \<noteq> key \<longrightarrow> dict_get (pt_rows (fs_positions s')) k = dict_get (pt_rows (fs_positions s)) k) \<and>
     (\<forall>k. realized_of k (fs_positions s') = realized_of k (fs_positions s)) \<and>
     (position_inv (fs_positions s) \<longrightarrow> position_inv (fs_positions s'))"

lemma force_update_overwritten:
  assumes "force_update b sy q avg a (fs_positions s) = Inr p"
  shows "overwritten (a, b, sy) q s (s\<lparr>fs_positions := p\<rparr>)"
    and "overwritten (a, b, sy) q s (s\<lparr>fs_positions := p, fs_trades := tr\<rparr>)"
  using assms force_update_inv [OF _ assms]
  by (auto simp: overwritten_def force_update_Inr held_of_def realized_of_def dict_default_def empty_position_def
      split: option.splits)

lemma correct_position_cases:
  assumes "correct_position env b sy q a avg r s = (res, s')" and "\<not> is_invalid_account_id (Some a)"
  shows "(\<exists>e. res = Inl e) \<and> s' = s \<or> overwritten (a, b, sy) q s s'"
    and "res = Inr c \<Longrightarrow> overwritten (a, b, sy) q s s' \<and> co_symbol c = sy \<and> co_new_quantity c = q \<and> co_reason c = r
      \<and> co_old_quantity c = held_of (a, b, sy) (fs_positions s)
      \<and> dict_get (fs_trades s') (re_trade_id env sy) \<noteq> None"
  using assms force_update_overwritten [of b sy q _ a s]
  by (auto simp: correct_position_def Let_def get_current_def save_adjustment_def held_of_def
      split: if_splits sum.splits option.splits)

subsection \<open>All symbols\<close>

text \<open>A state reached by overwriting some of the positions of a bot that \<open>C\<close> admits, with \<open>q\<close>.\<close>

definition reconciled ::
  "(string \<Rightarrow> bool) \<Rightarrow> (string \<Rightarrow> rat) \<Rightarrow> string \<Rightarrow> string \<Rightarrow> fill_state \<Rightarrow> fill_state \<Rightarrow> bool" where
  "reconciled C q a b s s' \<longleftrightarrow>
     fs_tracker s' = fs_tracker s \<and>
     (\<forall>k. realized_of k (fs_positions s') = realized_of k (fs_positions s)) \<and>
     (position_inv (fs_positions s) \<longrightarrow> position_inv (fs_positions s')) \<and>
     (\<forall>k. (\<forall>sy. C sy \<longrightarrow> k \<noteq> (a, b, sy)) \<longrightarrow>
        dict_get (pt_rows (fs_positions s')) k = dict_get (pt_rows (fs_positions s)) k) \<and>
     (\<forall>sy. held_of (a, b, sy) (fs_positions s') = held_of (a, b, sy) (fs_positions s) \<or>
        held_of (a, b, sy) (fs_positions s') = q sy)"

lemma held_of_row: "dict_get (pt_rows s) k = dict_get (pt_rows s') k \<Longrightarrow> held_of k s = held_of k s'"
  by (simp add: held_of_def dict_default_def)

lemma reconciled_refl [simp]: "reconciled C q a b s s"
  by (simp add: reconciled_def)

lemma reconciled_trans: "reconciled C q a b s s' \<Longrightarrow> reconciled C q a b s' s'' \<Longrightarrow> reconciled C q a b s s''"
  unfolding reconciled_def by (elim conjE, intro conjI) metis+

lemma reconciled_held:
  assumes "reconciled C q a b s s'" and "\<not> C sy"
  shows "held_of (a, b, sy) (fs_positions s') = held_of (a, b, sy) (fs_positions s)"
proof -
  have "\<forall>x. C x \<longrightarrow> (a, b, sy) \<noteq> (a, b, x)" using assms(2) by auto
  then have "dict_get (pt_rows (fs_positions s')) (a, b, sy) = dict_get (pt_rows (fs_positions s)) (a, b, sy)"
    using assms(1) unfolding reconciled_def by blast
  then show ?thesis by (rule held_of_row)
qed

lemma reconciledD:
  assumes "reconciled C q a b s s'"
  shows "fs_tracker s' = fs_tracker s"
    and "realized_of k (fs_positions s') = realized_of k (fs_positions s)"
    and "position_inv (fs_positions s) \<Longrightarrow> position_inv (fs_positions s')"
    and "(a', b') \<noteq> (a, b) \<Longrightarrow> dict_get (pt_rows (fs_positions s')) (a', b', sy) = dict_get (pt_rows (fs_positions s)) (a', b', sy)"
proof -
  show "(a', b') \<noteq> (a, b) \<Longrightarrow> dict_get (pt_rows (fs_positions s')) (a', b', sy) = dict_get (pt_rows (fs_positions s)) (a', b', sy)"
    using assms unfolding reconciled_def by (elim conjE allE [where x = "(a', b', sy)"]) blast
qed (use assms in \<open>unfold reconciled_def, blast+\<close>)

lemma overwritten_held:
  "overwritten (a, b, sy) v s s' \<Longrightarrow> sy' \<noteq> sy \<Longrightarrow>
   held_of (a, b, sy') (fs_positions s') = held_of (a, b, sy') (fs_positions s)"
  unfolding overwritten_def by (intro held_of_row) simp

lemma overwritten_reconciled:
  assumes "overwritten (a, b, sy) (q sy) s s'" and "C sy"
  shows "reconciled C q a b s s'"
proof -
  have "held_of (a, b, sy') (fs_positions s') = held_of (a, b, sy') (fs_positions s) \<or>
      held_of (a, b, sy') (fs_positions s') = q sy'" for sy'
    using assms(1) overwritten_held [OF assms(1)] by (cases "sy' = sy") (simp_all add: overwritten_def)
  then show ?thesis using assms unfolding overwritten_def reconciled_def by blast
qed

lemma reconcile_symbol_cases:
  assumes "reconcile_symbol env b a skip dry sy i q avg s = (res, evs, s')" and "\<not> is_invalid_account_id (Some a)"
  shows "\<not> corrects env b a skip dry sy i q (fs_tracker s) \<Longrightarrow> res = Inr None \<and> s' = s"
    and "corrects env b a skip dry sy i q (fs_tracker s) \<Longrightarrow>
      (\<exists>e. res = Inl e) \<and> (s' = s \<or> overwritten (a, b, sy) q s s') \<or>
      (\<exists>c. res = Inr (Some c) \<and> overwritten (a, b, sy) q s s' \<and> co_symbol c = sy \<and> co_new_quantity c = q)"
proof -
  show "\<not> corrects env b a skip dry sy i q (fs_tracker s) \<Longrightarrow> res = Inr None \<and> s' = s"
    using assms(1) by (auto simp: reconcile_symbol_def corrects_def Let_def split: if_splits)
  assume c: "corrects env b a skip dry sy i q (fs_tracker s)"
  let ?r = "classify_mismatch env b a sy i q (fs_tracker s)"
  obtain res1 s1 where p: "correct_position env b sy q a (if avg > 0 then Some avg else None) ?r s = (res1, s1)"
    by fastforce
  note cases = correct_position_cases [OF p assms(2)]
  have "s' = s1" "res = (case res1 of Inl e \<Rightarrow> Inl e | Inr x \<Rightarrow> Inr (Some x))"
    using assms(1) c p unfolding reconcile_symbol_def corrects_def Let_def
    by (auto split: if_splits sum.splits)
  then show "(\<exists>e. res = Inl e) \<and> (s' = s \<or> overwritten (a, b, sy) q s s') \<or>
      (\<exists>c. res = Inr (Some c) \<and> overwritten (a, b, sy) q s s' \<and> co_symbol c = sy \<and> co_new_quantity c = q)"
    using cases by (cases res1) auto
qed

lemma reconcile_symbols_run:
  assumes "reconcile_symbols env b a skip dry im bm syms s = (res, evs, s')"
    and valid: "\<not> is_invalid_account_id (Some a)" and "distinct syms"
    and C: "C = (\<lambda>sy. corrects env b a skip dry sy (dict_default 0 im sy) (q sy) (fs_tracker s))"
    and q: "q = (\<lambda>sy. fst (dict_default (0, 0) bm sy))"
  shows "reconciled (\<lambda>sy. sy \<in> set syms \<and> C sy) q a b s s'"
    and "(\<forall>sy\<in>set syms. \<not> C sy) \<Longrightarrow> res = Inr [] \<and> s' = s"
    and "res = Inr cs \<Longrightarrow> map co_symbol cs = filter C syms \<and> (\<forall>c\<in>set cs. co_new_quantity c = q (co_symbol c))"
    and "res = Inr cs \<Longrightarrow> \<forall>sy\<in>set syms. C sy \<longrightarrow> held_of (a, b, sy) (fs_positions s') = q sy"
proof -
  have "reconciled (\<lambda>sy. sy \<in> set syms \<and> C sy) q a b s s' \<and>
    ((\<forall>sy\<in>set syms. \<not> C sy) \<longrightarrow> res = Inr [] \<and> s' = s) \<and>
    (\<forall>cs. res = Inr cs \<longrightarrow> map co_symbol cs = filter C syms \<and> (\<forall>c\<in>set cs. co_new_quantity c = q (co_symbol c)) \<and>
       (\<forall>sy\<in>set syms. C sy \<longrightarrow> held_of (a, b, sy) (fs_positions s') = q sy))"
    using assms(1,3) C
  proof (induction syms arbitrary: s res evs s')
    case (Cons sy syms)
    obtain v avg where v: "dict_default (0, 0) bm sy = (v, avg)" by fastforce
    obtain r1 e1 s1 where one:
      "reconcile_symbol env b a skip dry sy (dict_default 0 im sy) v avg s = (r1, e1, s1)" by (cases "reconcile_symbol env b a skip dry sy (dict_default 0 im sy) v avg s") auto
    obtain r2 e2 s2 where rest: "reconcile_symbols env b a skip dry im bm syms s1 = (r2, e2, s2)"
      by (cases "reconcile_symbols env b a skip dry im bm syms s1") auto
    have qv: "q sy = v" by (simp add: q v)
    have Csy: "C sy = corrects env b a skip dry sy (dict_default 0 im sy) v (fs_tracker s)"
      using Cons.prems(3) qv by simp
    note symb = reconcile_symbol_cases [OF one valid]
    have first: "reconciled (\<lambda>x. x = sy \<and> C x) q a b s s1"
      using symb Csy overwritten_reconciled [of a b sy q s s1 "\<lambda>x. x = sy \<and> C x"] qv by auto
    then have "fs_tracker s1 = fs_tracker s" by (simp add: reconciled_def)
    then have C1: "C = (\<lambda>sy. corrects env b a skip dry sy (dict_default 0 im sy) (q sy) (fs_tracker s1))"
      using Cons.prems(3) by simp
    note IH = Cons.IH [OF rest _ C1]
    have res: "(res, s') = (case r1 of Inl e \<Rightarrow> (Inl e, s1) | Inr c \<Rightarrow>
        (case r2 of Inl e \<Rightarrow> (Inl e, s2) | Inr cs \<Rightarrow> (Inr ((case c of None \<Rightarrow> [] | Some x \<Rightarrow> [x]) @ cs), s2)))"
      using Cons.prems(1) one rest v by (auto split: sum.splits)
    have mono: "reconciled (\<lambda>x. x \<in> set (sy # syms) \<and> C x) q a b x y"
      if "reconciled (\<lambda>x. x = sy \<and> C x) q a b x y \<or> reconciled (\<lambda>x. x \<in> set syms \<and> C x) q a b x y" for x y
      using that unfolding reconciled_def by auto
    show ?case
    proof (cases r1)
      case (Inl e)
      then show ?thesis using res mono first symb Csy by auto
    next
      case (Inr c)
      have ih: "reconciled (\<lambda>sy. sy \<in> set syms \<and> C sy) q a b s1 s2"
        "(\<forall>sy\<in>set syms. \<not> C sy) \<longrightarrow> r2 = Inr [] \<and> s2 = s1"
        "\<And>cs. r2 = Inr cs \<Longrightarrow> map co_symbol cs = filter C syms \<and> (\<forall>c\<in>set cs. co_new_quantity c = q (co_symbol c)) \<and>
           (\<forall>sy\<in>set syms. C sy \<longrightarrow> held_of (a, b, sy) (fs_positions s2) = q sy)"
        using IH Cons.prems(2) by simp_all
      have rec: "reconciled (\<lambda>x. x \<in> set (sy # syms) \<and> C x) q a b s s2"
        using reconciled_trans [of _ q a b s s1 s2] mono first ih(1) by blast
      have kept: "held_of (a, b, sy) (fs_positions s2) = held_of (a, b, sy) (fs_positions s1)"
        using reconciled_held [OF ih(1)] Cons.prems(2) by simp
      have "C sy \<Longrightarrow> \<exists>x. c = Some x \<and> co_symbol x = sy \<and> co_new_quantity x = v \<and> held_of (a, b, sy) (fs_positions s1) = v"
        using symb(2) Csy Inr by (auto simp: overwritten_def)
      moreover have "\<not> C sy \<Longrightarrow> c = None \<and> s1 = s" using symb(1) Csy Inr by auto
      ultimately show ?thesis using res Inr rec ih kept qv by (cases r2; cases "C sy") auto
    qed
  qed simp
  then show "reconciled (\<lambda>sy. sy \<in> set syms \<and> C sy) q a b s s'"
    and "(\<forall>sy\<in>set syms. \<not> C sy) \<Longrightarrow> res = Inr [] \<and> s' = s"
    and "res = Inr cs \<Longrightarrow> map co_symbol cs = filter C syms \<and> (\<forall>c\<in>set cs. co_new_quantity c = q (co_symbol c))"
    and "res = Inr cs \<Longrightarrow> \<forall>sy\<in>set syms. C sy \<longrightarrow> held_of (a, b, sy) (fs_positions s') = q sy" by blast+
qed

subsection \<open>The quantities that are compared\<close>

lemma dict_get_fold_last:
  "dict_get (fold (\<lambda>x. dict_set (f x) (g x)) xs d) k =
     (case find (\<lambda>x. f x = k) (rev xs) of None \<Rightarrow> dict_get d k | Some x \<Rightarrow> Some (g x))"
  by (induction xs rule: rev_induct) auto

lemma find_cases:
  "find P xs = Some x \<Longrightarrow> x \<in> set xs \<and> P x" "find P xs = None \<Longrightarrow> y \<in> set xs \<Longrightarrow> \<not> P y"
  by (auto simp: find_Some_iff find_None_iff)

lemma internal_map_held:
  assumes "get_positions b False (Some a) ps = Inr internal" and "dict_wf (pt_rows ps)"
  shows "dict_default 0 (internal_map internal) sy = max 0 (held_of (a, b, sy) ps)"
proof -
  have v: "\<not> is_invalid_account_id (Some a)"
    and i: "internal = rows_to_snapshots (filter (\<lambda>((a', b', _), p). b' = b \<and> a' = a \<and> 0 < ps_quantity p) (pt_rows ps))"
    using assms(1) by (auto simp: get_positions_def split: sum.splits)
  let ?xs = "filter (\<lambda>(_, p). 0 < ps_quantity p) internal" and ?key = "\<lambda>x. snd (snd (fst x))"
  have mem: "((a', b', sy'), p) \<in> set ?xs \<longleftrightarrow>
      a' = a \<and> b' = b \<and> dict_get (pt_rows ps) (a, b, sy') = Some p \<and> 0 < ps_quantity p" for a' b' sy' p
    using v by (auto simp: i rows_to_snapshots_def dict_get_mem [OF assms(2), symmetric])
  have get: "dict_get (internal_map internal) sy =
      (case find (\<lambda>x. ?key x = sy) (rev ?xs) of None \<Rightarrow> None | Some x \<Rightarrow> Some (ps_quantity (snd x)))"
    using dict_get_fold_last [of ?key "\<lambda>x. ps_quantity (snd x)" ?xs "[]" sy]
    by (simp add: internal_map_def case_prod_unfold split: option.split)
  show ?thesis
  proof (cases "find (\<lambda>x. ?key x = sy) (rev ?xs)")
    case None
    then have "ps_quantity p \<le> 0" if "dict_get (pt_rows ps) (a, b, sy) = Some p" for p
      using find_cases(2) [OF None, of "((a, b, sy), p)"] mem [of a b sy p] that
      by (simp only: set_rev snd_conv fst_conv) force
    then have "held_of (a, b, sy) ps \<le> 0"
      by (simp add: held_of_def dict_default_def empty_position_def split: option.splits)
    then show ?thesis using get None by (simp add: dict_default_def)
  next
    case (Some x)
    obtain a' b' sy' p where x: "x = ((a', b', sy'), p)" by (metis prod.exhaust)
    with find_cases(1) [OF Some] mem [of a' b' sy' p]
    have "sy' = sy" "dict_get (pt_rows ps) (a, b, sy) = Some p" "0 < ps_quantity p"
      by (simp_all only: set_rev snd_conv fst_conv) blast+
    then show ?thesis using get Some x by (simp add: dict_default_def held_of_def)
  qed
qed

text \<open>The last positive row of a symbol counts.\<close>

definition reported :: "broker_position list \<Rightarrow> string \<Rightarrow> rat" where
  "reported positions sy =
     (case find (\<lambda>p. bp_symbol p = sy \<and> 0 < bp_quantity p) (rev positions) of None \<Rightarrow> 0 | Some p \<Rightarrow> bp_quantity p)"

lemma reported_nonneg [simp]: "0 \<le> reported positions sy"
  by (auto simp: reported_def split: option.splits dest: find_cases(1))

lemma find_filter: "find P (filter Q xs) = find (\<lambda>x. P x \<and> Q x) xs"
  by (induction xs) auto

lemma broker_map_reported: "fst (dict_default (0, 0) (broker_map positions) sy) = reported positions sy"
  using dict_get_fold_last [of bp_symbol "\<lambda>p. (bp_quantity p, bp_avg_price p)" "filter (\<lambda>p. 0 < bp_quantity p) positions" "[]" sy]
  by (auto simp: broker_map_def dict_default_def reported_def rev_filter find_filter split: option.splits)

text \<open>Whether a bot's position of a symbol is overwritten.\<close>

definition overwrites ::
  "reconcile_env \<Rightarrow> string \<Rightarrow> string \<Rightarrow> bool \<Rightarrow> bool \<Rightarrow> broker_position list \<Rightarrow> fill_state \<Rightarrow> string \<Rightarrow> bool" where
  "overwrites env b a skip dry positions s sy \<longleftrightarrow>
     corrects env b a skip dry sy (max 0 (held_of (a, b, sy) (fs_positions s))) (reported positions sy) (fs_tracker s)"

text \<open>A set is gone through in some order, every element once.\<close>

definition enumerates :: "reconcile_env \<Rightarrow> bool" where
  "enumerates env \<longleftrightarrow> (\<forall>xs. distinct xs \<longrightarrow> distinct (re_set_order env xs) \<and> set (re_set_order env xs) = set xs)"

lemma reconcile_run:
  assumes "reconcile env b positions a skip dry s = (res, evs, s')"
    and "enumerates env" and "position_inv (fs_positions s)" and valid: "\<not> is_invalid_account_id (Some a)"
  shows "reconciled (overwrites env b a skip dry positions s) (reported positions) a b s s'"
    and "(\<And>sy. \<not> overwrites env b a skip dry positions s sy) \<Longrightarrow> res = Inr [] \<and> s' = s"
    and "res = Inr cs \<Longrightarrow> overwrites env b a skip dry positions s sy \<Longrightarrow>
      held_of (a, b, sy) (fs_positions s') = reported positions sy"
    and "res = Inr cs \<Longrightarrow> distinct (map co_symbol cs) \<and>
      set (map co_symbol cs) = {sy. overwrites env b a skip dry positions s sy} \<and>
      (\<forall>c\<in>set cs. co_new_quantity c = reported positions (co_symbol c))"
proof -
  obtain internal where internal: "get_positions b False (Some a) (fs_positions s) = Inr internal"
    using valid by (simp add: get_positions_def)
  let ?im = "internal_map internal" and ?bm = "broker_map positions"
  let ?syms = "re_set_order env (all_symbols ?im ?bm)"
  obtain res1 evs1 where r: "reconcile_symbols env b a skip dry ?im ?bm ?syms s = (res1, evs1, s')"
    and res: "res = res1"
    using assms(1) valid internal by (auto simp: reconcile_def Let_def split: prod.splits sum.splits)
  have im: "dict_default 0 ?im sy = max 0 (held_of (a, b, sy) (fs_positions s))" for sy
    using internal_map_held [OF internal position_invD(1) [OF assms(3)]] .
  have syms: "distinct ?syms" "set ?syms = fst ` set ?im \<union> fst ` set ?bm"
    using assms(2) by (auto simp: enumerates_def all_symbols_def)
  have C: "overwrites env b a skip dry positions s =
      (\<lambda>sy. corrects env b a skip dry sy (dict_default 0 ?im sy) (reported positions sy) (fs_tracker s))"
    by (rule ext) (simp add: overwrites_def im)
  have out: "sy \<in> set ?syms" if "overwrites env b a skip dry positions s sy" for sy
  proof (rule ccontr)
    assume n: "sy \<notin> set ?syms"
    then have "dict_default 0 ?im sy = 0" "dict_default (0, 0) ?bm sy = (0, 0)"
      using syms(2) by (simp_all add: dict_default_def map_of_eq_None_iff [symmetric])
    then show False using that broker_map_reported [of positions sy] im [of sy]
      by (simp add: overwrites_def corrects_def)
  qed
  note run = reconcile_symbols_run [OF r valid syms(1) C, unfolded broker_map_reported, OF refl]
  show "reconciled (overwrites env b a skip dry positions s) (reported positions) a b s s'"
    using run(1) out by (simp add: reconciled_def conj_absorb)
  show "(\<And>sy. \<not> overwrites env b a skip dry positions s sy) \<Longrightarrow> res = Inr [] \<and> s' = s"
    using run(2) res by simp
  show "res = Inr cs \<Longrightarrow> overwrites env b a skip dry positions s sy \<Longrightarrow>
      held_of (a, b, sy) (fs_positions s') = reported positions sy"
    using run(4) res out by simp
  show "res = Inr cs \<Longrightarrow> distinct (map co_symbol cs) \<and>
      set (map co_symbol cs) = {sy. overwrites env b a skip dry positions s sy} \<and>
      (\<forall>c\<in>set cs. co_new_quantity c = reported positions (co_symbol c))"
    using run(3) [of cs] res out syms(1) by auto
qed

subsection \<open>Whole accounts\<close>

lemma dict_default_Nil [simp]: "dict_default z [] k = z"
  by (simp add: dict_default_def)

lemma dict_default_add_to:
  "dict_default 0 (fold (\<lambda>x. add_to (f x) (g x)) xs d) k =
     dict_default 0 d k + sum_list (map g (filter (\<lambda>x. f x = k) xs))"
  by (induction xs arbitrary: d) (auto simp: add_to_def dict_default_def)

lemma internal_totals_held:
  assumes "get_all_positions (Some a) ps = Inr internal"
  shows "dict_default 0 (internal_totals internal) sy = held a sy ps"
proof -
  have "internal_totals internal =
      fold (\<lambda>x. add_to (snd (snd (fst x))) (ps_quantity (snd x))) (filter (\<lambda>x. 0 < ps_quantity (snd x)) internal) []"
    by (simp add: internal_totals_def case_prod_unfold)
  then have "dict_default 0 (internal_totals internal) sy =
      sum_list (map (\<lambda>x. ps_quantity (snd x)) (filter (\<lambda>x. snd (snd (fst x)) = sy) (filter (\<lambda>x. 0 < ps_quantity (snd x)) internal)))"
    by (simp add: dict_default_add_to)
  also have "\<dots> = internal_quantity internal sy"
    by (simp add: internal_quantity_def case_prod_unfold conj_commute)
  finally show ?thesis using internal_quantity_held [OF assms] by simp
qed

definition broker_total :: "broker_position list \<Rightarrow> string \<Rightarrow> rat" where
  "broker_total positions sy = sum_list (map bp_quantity (filter (\<lambda>p. bp_symbol p = sy \<and> 0 < bp_quantity p) positions))"

lemma broker_totals_total: "dict_default 0 (broker_totals positions) sy = broker_total positions sy"
  by (simp add: broker_totals_def dict_default_add_to broker_total_def conj_commute)

subsection \<open>Properties\<close>

text \<open>
  The rule of the document, over the order table and the two quantities alone: a difference is one
  of ours when the bot has open orders on that side whose remaining quantities cover it.
\<close>

definition own_orders_cover ::
  "reconcile_env \<Rightarrow> string \<Rightarrow> string \<Rightarrow> string \<Rightarrow> string \<Rightarrow> rat \<Rightarrow> order_tracker \<Rightarrow> bool" where
  "own_orders_cover env a b sy side difference t \<longleftrightarrow>
     re_has_tracker env \<and> \<not> re_self_check_fails env side sy \<and>
     open_orders_of a b sy side t \<noteq> [] \<and> difference \<le> open_capacity a b sy side t"

definition to_be_overwritten ::
  "reconcile_env \<Rightarrow> string \<Rightarrow> string \<Rightarrow> bool \<Rightarrow> bool \<Rightarrow> broker_position list \<Rightarrow> fill_state \<Rightarrow> string \<Rightarrow> bool" where
  "to_be_overwritten env a b skip dry positions s sy \<longleftrightarrow>
     (let i = max 0 (held_of (a, b, sy) (fs_positions s)); q = reported positions sy; t = fs_tracker s
      in \<not> dry \<and>
         (q < i \<and> \<not> own_orders_cover env a b sy ''sell'' (i - q) t \<or>
          i < q \<and> \<not> skip \<and> \<not> own_orders_cover env a b sy ''buy'' (q - i) t \<and>
            (0 < i \<or> \<not> re_has_tracker env \<or> re_holding_check_fails env sy \<or> open_orders_of a b sy ''buy'' t \<noteq> [])))"

lemma overwrites_spec:
  assumes "\<not> is_invalid_account_id (Some a)"
  shows "overwrites env b a skip dry positions s sy \<longleftrightarrow> to_be_overwritten env a b skip dry positions s sy"
proof -
  have i: "max 0 (held_of (a, b, sy) (fs_positions s)) = 0 \<longleftrightarrow> \<not> 0 < max 0 (held_of (a, b, sy) (fs_positions s))"
    by (auto simp: max_def)
  show ?thesis
    unfolding overwrites_def corrects_iff [OF assms] self_submitted_iff [OF assms] unattributed_iff [OF assms]
      to_be_overwritten_def own_orders_cover_def Let_def i
    by blast
qed


text \<open>C29. Wherever it stops and whatever write fails, a reconciliation whose lookups of the order table
  succeed changes a bot's position only when it may: not in a dry run; down only if the broker lacks
  more than the bot's open sales could explain; up only if external purchases are not put off, the
  broker has more than the open purchases could explain, and the bot holds or is buying the symbol.
  (When a lookup fails the difference counts as external, see \<open>failed_lookup_lowers_position\<close>.)\<close>

theorem only_unexplained_differences_are_corrected:
  assumes "reconcile env b positions a skip dry s = (res, evs, s')"
    and "enumerates env" and "position_inv (fs_positions s)" and "\<not> is_invalid_account_id (Some a)"
    and "re_has_tracker env" and "\<And>side sy. \<not> re_self_check_fails env side sy" and "\<And>sy. \<not> re_holding_check_fails env sy"
    and "0 \<le> held_of (a, b, sy) (fs_positions s)"
    and "held_of (a, b, sy) (fs_positions s') \<noteq> held_of (a, b, sy) (fs_positions s)"
  defines "i \<equiv> held_of (a, b, sy) (fs_positions s)" and "q \<equiv> held_of (a, b, sy) (fs_positions s')"
  shows "\<not> dry \<and> q = reported positions sy \<and>
    (q < i \<and> (open_orders_of a b sy ''sell'' (fs_tracker s) = [] \<or> open_capacity a b sy ''sell'' (fs_tracker s) < i - q) \<or>
     i < q \<and> \<not> skip \<and> open_capacity a b sy ''buy'' (fs_tracker s) < q - i \<and>
       (0 < i \<or> open_orders_of a b sy ''buy'' (fs_tracker s) \<noteq> []))"
proof -
  note run = reconcile_run [OF assms(1-4)]
  have ov: "overwrites env b a skip dry positions s sy"
    using reconciled_held [OF run(1)] assms(9) by blast
  have q: "q = reported positions sy"
    using run(1) assms(9) unfolding reconciled_def q_def by blast
  have i: "max 0 (held_of (a, b, sy) (fs_positions s)) = i" using assms(8) by (simp add: i_def)
  show ?thesis
    using ov assms(5-8) unfolding overwrites_def i corrects_iff [OF assms(4)] self_submitted_iff [OF assms(4)]
      unattributed_iff [OF assms(4)] q [symmetric]
    by (auto simp: not_le i_def open_capacity_def)
qed

text \<open>Reconciling settles: comparing once more with the same report corrects nothing and changes
  nothing.\<close>

theorem reconcile_settles:
  assumes "reconcile env b positions a skip dry s = (Inr cs, evs, s')"
    and "enumerates env" and "position_inv (fs_positions s)" and "\<not> is_invalid_account_id (Some a)"
  shows "fst (reconcile env b positions a skip dry s') = Inr [] \<and> snd (snd (reconcile env b positions a skip dry s')) = s'"
proof -
  note run = reconcile_run [OF assms]
  have tr: "fs_tracker s' = fs_tracker s" and inv: "position_inv (fs_positions s')"
    using reconciledD(1,3) [OF run(1)] assms(3) by simp_all
  have none: "\<not> overwrites env b a skip dry positions s' sy" for sy
  proof (cases "overwrites env b a skip dry positions s sy")
    case True
    then show ?thesis using run(3) [OF refl] by (simp add: overwrites_def corrects_def)
  next
    case False
    then show ?thesis using reconciled_held [OF run(1) False] by (simp add: overwrites_def tr)
  qed
  obtain r evs2 s2 where again: "reconcile env b positions a skip dry s' = (r, evs2, s2)"
    by (cases "reconcile env b positions a skip dry s'") auto
  from reconcile_run(2) [OF again assms(2) inv assms(4) none] again show ?thesis by simp
qed

text \<open>C19. A scheduled run leaves every position as it is unless exactly one bot belongs to the account and
  that bot is running; then it changes only that bot's positions.\<close>

theorem scheduled_run_corrects_sole_running_bot:
  assumes "reconcile_once env a bots broker skip s = (cs, evs, s')" and "enumerates env" and "position_inv (fs_positions s)"
    and "dict_get (pt_rows (fs_positions s')) (a', b, sy) \<noteq> dict_get (pt_rows (fs_positions s)) (a', b, sy)"
  shows "\<exists>x. filter (\<lambda>x. lb_account_id x = Some a) bots = [x] \<and> lb_running x \<and> a' = a \<and> b = lb_bot_id x"
proof -
  let ?bots = "filter (\<lambda>x. lb_account_id x = Some a \<and> a \<noteq> '''') bots"
  have "s' \<noteq> s" using assms(4) by auto
  then have "\<exists>x positions res. ?bots = [x] \<and> reconcile env (lb_bot_id x) positions a skip (\<not> lb_running x) s = (res, evs, s')"
    using assms(1) by (auto simp: reconcile_once_def split: list.splits option.splits prod.splits sum.splits)
  then obtain x positions res where x: "?bots = [x]"
    and run: "reconcile env (lb_bot_id x) positions a skip (\<not> lb_running x) s = (res, evs, s')" by blast
  have valid: "\<not> is_invalid_account_id (Some a)"
  proof
    assume "is_invalid_account_id (Some a)"
    then obtain e where "require_account_id ''reconciler.reconcile'' (Some a) = Inl e"
      using require_account_id_Inl by blast
    with run \<open>s' \<noteq> s\<close> show False by (simp add: reconcile_def)
  qed
  note rr = reconcile_run [OF run assms(2,3) valid]
  have "(a', b) = (a, lb_bot_id x)" using reconciledD(4) [OF rr(1)] assms(4) by blast
  moreover have "lb_running x"
  proof (rule ccontr)
    assume "\<not> lb_running x"
    then have "s' = s" using rr(2) by (simp add: overwrites_def corrects_def)
    with \<open>s' \<noteq> s\<close> show False ..
  qed
  moreover have "a \<noteq> ''''" using x by (auto simp: filter_eq_Cons_iff)
  ultimately show ?thesis using x by auto
qed

text \<open>The account-wide comparison reports, sorted by symbol, exactly the symbols whose total over all bots
  of the account differs from the broker's total, with both totals.\<close>

theorem account_diff_is_exact:
  assumes "compute_account_diff positions a s = Inr ms"
  shows "sorted (map mm_symbol ms) \<and> distinct (map mm_symbol ms) \<and>
    (m \<in> set ms \<longleftrightarrow> held a (mm_symbol m) (fs_positions s) \<noteq> broker_total positions (mm_symbol m) \<and>
       m = \<lparr>mm_symbol = mm_symbol m, mm_broker_qty = broker_total positions (mm_symbol m),
            mm_internal_qty = held a (mm_symbol m) (fs_positions s),
            mm_diff = broker_total positions (mm_symbol m) - held a (mm_symbol m) (fs_positions s)\<rparr>)"
proof -
  obtain internal where internal: "get_all_positions (Some a) (fs_positions s) = Inr internal"
    using assms by (auto simp: compute_account_diff_def split: sum.splits)
  let ?im = "internal_totals internal" and ?bm = "broker_totals positions"
  let ?item = "\<lambda>sy. \<lparr>mm_symbol = sy, mm_broker_qty = broker_total positions sy,
      mm_internal_qty = held a sy (fs_positions s), mm_diff = broker_total positions sy - held a sy (fs_positions s)\<rparr>"
  let ?syms = "filter (\<lambda>sy. held a sy (fs_positions s) \<noteq> broker_total positions sy) (sort (remdups (map fst ?im @ map fst ?bm)))"
  have ms: "ms = map ?item ?syms"
    using assms internal
    by (simp add: compute_account_diff_def Let_def internal_totals_held [OF internal] broker_totals_total
        split: sum.splits)
  have syms: "map mm_symbol ms = ?syms" by (simp add: ms comp_def)
  have known: "sy \<in> set (map fst ?im @ map fst ?bm)" if "held a sy (fs_positions s) \<noteq> broker_total positions sy" for sy
  proof (rule ccontr)
    assume "sy \<notin> set (map fst ?im @ map fst ?bm)"
    then have "dict_default 0 ?im sy = 0" "dict_default 0 ?bm sy = 0"
      by (simp_all add: dict_default_def map_of_eq_None_iff [symmetric])
    with that show False by (simp add: internal_totals_held [OF internal] broker_totals_total)
  qed
  have "sorted ?syms" "distinct ?syms"
    using sorted_filter [of "\<lambda>x. x" "sort (remdups (map fst ?im @ map fst ?bm))"] by simp_all
  moreover have "m \<in> set ms \<longleftrightarrow>
      held a (mm_symbol m) (fs_positions s) \<noteq> broker_total positions (mm_symbol m) \<and> m = ?item (mm_symbol m)"
    using known [of "mm_symbol m"] by (auto simp: ms image_iff)
  ultimately show ?thesis using syms by simp
qed

subsection \<open>Concrete runs\<close>

definition sample_reconcile_env :: reconcile_env where
  "sample_reconcile_env = \<lparr>re_has_tracker = True, re_self_check_fails = (\<lambda>_ _. False), re_holding_check_fails = (\<lambda>_. False),
     re_set_order = (\<lambda>xs. xs), re_fault = (\<lambda>_. None), re_trade_id = (\<lambda>sy. ''adj-'' @ sy)\<rparr>"

lemma sample_enumerates: "enumerates sample_reconcile_env"
  by (simp add: enumerates_def sample_reconcile_env_def)

text \<open>The bot holds ten of A and four of B; the broker has six of A, four of B and some of C.\<close>

definition sample_reconcile_trade :: "string \<Rightarrow> rat \<Rightarrow> trade_record" where
  "sample_reconcile_trade sy q =
     \<lparr>td_trade_id = ''t-'' @ sy, td_bot_id = ''bot-1'', td_strategy_id = ''s'', td_symbol = sy, td_side = ''buy'',
      td_quantity = q, td_price = 100, td_status = T_FILLED, td_order_type = ''limit'', td_commission = 0,
      td_order_id = None, td_exchange = ''KRX'', td_account_id = ''acct-1''\<rparr>"

definition sample_held :: fill_state where
  "sample_held = (fill_init True)
     \<lparr>fs_positions := run position_step no_positions
        [On_trade (sample_reconcile_trade ''A'' 10), On_trade (sample_reconcile_trade ''B'' 4)]\<rparr>"

definition sample_report :: "broker_position list" where
  "sample_report = [\<lparr>bp_symbol = ''A'', bp_quantity = 6, bp_avg_price = 100\<rparr>,
     \<lparr>bp_symbol = ''B'', bp_quantity = 4, bp_avg_price = 100\<rparr>, \<lparr>bp_symbol = ''C'', bp_quantity = 9, bp_avg_price = 50\<rparr>]"

lemma sample_held_inv: "position_inv (fs_positions sample_held)"
proof -
  have "position_inv (run position_step no_positions es)" for es
    by (rule positions.run_inv [OF no_positions_inv]) (induction es rule: rev_induct, simp_all)
  then show ?thesis unfolding sample_held_def fill_init_def by (simp del: run.simps)
qed

definition sample_reconciled :: "(reconcile_error + correction list) \<times> reconcile_event list \<times> fill_state" where
  "sample_reconciled = reconcile sample_reconcile_env ''bot-1'' sample_report ''acct-1'' False False sample_held"

lemma sample_reconciled:
  "reconcile sample_reconcile_env ''bot-1'' sample_report ''acct-1'' False False sample_held =
     (Inr [\<lparr>co_symbol = ''A'', co_old_quantity = 10, co_new_quantity = 6, co_old_avg_price = 100,
            co_new_avg_price = 100, co_reason = External_partial_sell\<rparr>],
      fst (snd sample_reconciled), snd (snd sample_reconciled))"
proof -
  have "fst sample_reconciled = Inr [\<lparr>co_symbol = ''A'', co_old_quantity = 10, co_new_quantity = 6,
      co_old_avg_price = 100, co_new_avg_price = 100, co_reason = External_partial_sell\<rparr>]" by code_simp
  then show ?thesis by (simp add: sample_reconciled_def prod_eq_iff)
qed

lemma acct_1_valid: "\<not> is_invalid_account_id (Some ''acct-1'')"
  by code_simp


theorem only_unexplained_differences_are_corrected_witness:
  "open_orders_of ''acct-1'' ''bot-1'' ''A'' ''sell'' (fs_tracker sample_held) = []
   \<or> open_capacity ''acct-1'' ''bot-1'' ''A'' ''sell'' (fs_tracker sample_held) < 4"
proof -
  have fails: "\<not> re_self_check_fails sample_reconcile_env side sy" "\<not> re_holding_check_fails sample_reconcile_env sy"
    "re_has_tracker sample_reconcile_env" for side sy by (simp_all add: sample_reconcile_env_def)
  have h: "held_of (''acct-1'', ''bot-1'', ''A'') (fs_positions sample_held) = 10"
    "held_of (''acct-1'', ''bot-1'', ''A'') (fs_positions (snd (snd sample_reconciled))) = 6" by code_simp+
  have "0 \<le> held_of (''acct-1'', ''bot-1'', ''A'') (fs_positions sample_held)"
    "held_of (''acct-1'', ''bot-1'', ''A'') (fs_positions (snd (snd sample_reconciled))) \<noteq>
      held_of (''acct-1'', ''bot-1'', ''A'') (fs_positions sample_held)" unfolding h by simp_all
  from only_unexplained_differences_are_corrected [OF sample_reconciled sample_enumerates sample_held_inv
      acct_1_valid fails(3,1,2) this]
  show ?thesis unfolding h by auto
qed

theorem reconcile_settles_witness:
  "fst (reconcile sample_reconcile_env ''bot-1'' sample_report ''acct-1'' False False (snd (snd sample_reconciled))) = Inr []"
  using reconcile_settles [OF sample_reconciled sample_enumerates sample_held_inv acct_1_valid] by blast

definition sample_bots :: "listed_bot list" where
  "sample_bots = [\<lparr>lb_bot_id = ''bot-1'', lb_account_id = Some ''acct-1'', lb_running = True\<rparr>,
     \<lparr>lb_bot_id = ''bot-2'', lb_account_id = Some ''acct-2'', lb_running = True\<rparr>]"

definition sample_scheduled :: "correction list \<times> reconcile_event list \<times> fill_state" where
  "sample_scheduled = reconcile_once sample_reconcile_env ''acct-1'' sample_bots (Some sample_report) False sample_held"

theorem scheduled_run_corrects_sole_running_bot_witness:
  "list_ex (\<lambda>x. lb_running x \<and> lb_bot_id x = ''bot-1'') sample_bots"
proof -
  have run: "reconcile_once sample_reconcile_env ''acct-1'' sample_bots (Some sample_report) False sample_held =
      (fst sample_scheduled, fst (snd sample_scheduled), snd (snd sample_scheduled))"
    by (simp add: sample_scheduled_def)
  have "map_option ps_quantity (dict_get (pt_rows (fs_positions (snd (snd sample_scheduled)))) (''acct-1'', ''bot-1'', ''A'')) = Some 6"
    "map_option ps_quantity (dict_get (pt_rows (fs_positions sample_held)) (''acct-1'', ''bot-1'', ''A'')) = Some 10"
    by code_simp+
  then have "dict_get (pt_rows (fs_positions (snd (snd sample_scheduled)))) (''acct-1'', ''bot-1'', ''A'') \<noteq>
      dict_get (pt_rows (fs_positions sample_held)) (''acct-1'', ''bot-1'', ''A'')" by auto
  from scheduled_run_corrects_sole_running_bot [OF run sample_enumerates sample_held_inv this]
  obtain x where x: "filter (\<lambda>x. lb_account_id x = Some ''acct-1'') sample_bots = [x]" "lb_running x" "''bot-1'' = lb_bot_id x"
    by blast
  then have "x \<in> set sample_bots" by (metis filter_is_subset list.set_intros(1) subsetD)
  with x(2,3) show ?thesis by (auto simp: list_ex_iff)
qed

theorem account_diff_is_exact_witness:
  "map mm_symbol (case compute_account_diff sample_report ''acct-1'' sample_held of Inr ms \<Rightarrow> ms | Inl _ \<Rightarrow> []) = [''A'', ''C'']
   \<and> sorted (map mm_symbol (case compute_account_diff sample_report ''acct-1'' sample_held of Inr ms \<Rightarrow> ms | Inl _ \<Rightarrow> []))"
proof -
  let ?d = "compute_account_diff sample_report ''acct-1'' sample_held"
  have v: "map mm_symbol (case ?d of Inr ms \<Rightarrow> ms | Inl _ \<Rightarrow> []) = [''A'', ''C'']" by code_simp
  then obtain ms where ms: "?d = Inr ms" by (cases ?d) auto
  from account_diff_is_exact [OF ms] v show ?thesis by (simp add: ms)
qed

text \<open>A fill that is not booked yet is left alone.\<close>

definition sample_placed :: fill_state where
  "sample_placed = run fill_step (fill_init True) [Fs_submit (sample_order ''o1'' 10)]"

definition sample_booked :: fill_state where
  "sample_booked = fill_step sample_placed (Fs_poll None ''t1'' ''acct-1'' ''Bo1'' 10 100 ''2026-01-05'')"

lemma unbooked_fill_is_left_alone:
  "fst (reconcile sample_reconcile_env ''bot-1'' [\<lparr>bp_symbol = ''005930'', bp_quantity = 10, bp_avg_price = 100\<rparr>]
     ''acct-1'' False False sample_placed) = Inr []"
  by code_simp

text \<open>When the lookup of the order table fails, a sale that is not booked yet looks external: the position is
  lowered although the bot's open sale explains the difference.\<close>

definition sample_selling :: fill_state where
  "sample_selling = fill_step sample_held
     (Fs_submit ((sample_order ''o1'' 4)\<lparr>ot_side := ''sell'', ot_symbol := ''A''\<rparr>))"

definition sample_sold_report :: "broker_position list" where
  "sample_sold_report = [\<lparr>bp_symbol = ''A'', bp_quantity = 6, bp_avg_price = 100\<rparr>,
     \<lparr>bp_symbol = ''B'', bp_quantity = 4, bp_avg_price = 100\<rparr>]"

theorem failed_lookup_lowers_position:
  "held_of (''acct-1'', ''bot-1'', ''A'') (fs_positions (snd (snd
      (reconcile sample_reconcile_env ''bot-1'' sample_sold_report ''acct-1'' False False sample_selling)))) = 10"
  "held_of (''acct-1'', ''bot-1'', ''A'') (fs_positions (snd (snd
      (reconcile (sample_reconcile_env\<lparr>re_self_check_fails := (\<lambda>_ _. True)\<rparr>) ''bot-1'' sample_sold_report
         ''acct-1'' False False sample_selling)))) = 6"
  by code_simp+

text \<open>A fill that is booked between the broker's report and the comparison is taken back: the order is
  complete and is not observed again.\<close>

theorem stale_report_reverts_fill:
  "held_of (''acct-1'', ''bot-1'', ''005930'') (fs_positions sample_booked) = 10
   \<and> held_of (''acct-1'', ''bot-1'', ''005930'')
       (fs_positions (snd (snd (reconcile sample_reconcile_env ''bot-1'' [] ''acct-1'' False False sample_booked)))) = 0
   \<and> map_option ot_status (get_order ''o1'' (tr_table (fs_tracker sample_booked))) = Some FILLED"
  by code_simp

text \<open>The position and its adjustment row are two writes: when the second fails, the position is changed
  for good, and the next comparison finds nothing to record.\<close>

theorem failed_adjustment_is_never_recorded:
  "let env = sample_reconcile_env\<lparr>re_fault := (\<lambda>_. Some At_adjustment)\<rparr>;
       (r, _, s1) = reconcile env ''bot-1'' sample_report ''acct-1'' False False sample_held;
       (r2, _, s2) = reconcile sample_reconcile_env ''bot-1'' sample_report ''acct-1'' False False s1
   in r = Inl (Reconcile_fault At_adjustment) \<and> held_of (''acct-1'', ''bot-1'', ''A'') (fs_positions s1) = 6
     \<and> r2 = Inr [] \<and> fs_trades s2 = []"
  by code_simp

end
