(* ===== verification/Performance.thy ===== *)
theory Performance
  imports Fill_Exactly_Once Complex_Main
begin

text \<open>
  \<open>src/src/ante/trade/performance.py\<close>: the figures computed from the trades and the position history.

  The time stamp column of a trade is a function of its id (ISO texts, which sort by time).  Floats are
  rationals; the Sharpe ratio is a real number because of its square root.  The week of a date, a date
  function of SQLite, is a parameter.  The tables exist, so the handlers for a missing table are left out.
\<close>

subsection \<open>Data\<close>

record performance_metrics =
  pm_total_trades :: nat
  pm_winning_trades :: nat
  pm_losing_trades :: nat
  pm_win_rate :: rat
  pm_total_pnl :: rat
  pm_total_commission :: rat
  pm_net_pnl :: rat
  pm_avg_profit :: rat
  pm_avg_loss :: rat
  pm_profit_factor :: pyfloat
  pm_max_drawdown :: rat
  pm_max_drawdown_amount :: rat
  pm_sharpe_ratio :: "real option"
  pm_first_trade_at :: "string option"
  pm_last_trade_at :: "string option"
  pm_active_days :: nat

definition empty_metrics :: performance_metrics where
  "empty_metrics =
     \<lparr>pm_total_trades = 0, pm_winning_trades = 0, pm_losing_trades = 0, pm_win_rate = 0, pm_total_pnl = 0,
      pm_total_commission = 0, pm_net_pnl = 0, pm_avg_profit = 0, pm_avg_loss = 0, pm_profit_factor = Fin 0,
      pm_max_drawdown = 0, pm_max_drawdown_amount = 0, pm_sharpe_ratio = None, pm_first_trade_at = None,
      pm_last_trade_at = None, pm_active_days = 0\<rparr>"

record trade_filter =
  tf_account_id :: "string option"
  tf_bot_id :: "string option"
  tf_strategy_id :: "string option"
  tf_from :: "string option"
  tf_to :: "string option"

type_synonym time_stamps = "string \<Rightarrow> string option"

subsection \<open>Selecting trades\<close>

text \<open>A condition is added only if its argument is given and not empty.\<close>

definition matches :: "string option \<Rightarrow> string \<Rightarrow> bool" where
  "matches arg v \<longleftrightarrow> (case arg of None \<Rightarrow> True | Some x \<Rightarrow> x = '''' \<or> v = x)"

text \<open>Comparisons with a time stamp that is NULL are not true.\<close>

definition in_period :: "string option \<Rightarrow> string option \<Rightarrow> string option \<Rightarrow> bool" where
  "in_period from_date to_date ts \<longleftrightarrow>
     (case from_date of None \<Rightarrow> True | Some f \<Rightarrow> (case ts of None \<Rightarrow> False | Some t \<Rightarrow> f \<le> t)) \<and>
     (case to_date of None \<Rightarrow> True | Some f \<Rightarrow> (case ts of None \<Rightarrow> False | Some t \<Rightarrow> t \<le> f))"

definition stamp_order :: "time_stamps \<Rightarrow> trade_record \<Rightarrow> nat \<times> string" where
  "stamp_order stamp t = (case stamp (td_trade_id t) of None \<Rightarrow> (0, '''') | Some s \<Rightarrow> (1, s))"

text \<open>Rows with an invalid account id are skipped.\<close>

definition get_filled_trades ::
  "time_stamps \<Rightarrow> string \<Rightarrow> trade_filter \<Rightarrow> (string, trade_record) dict \<Rightarrow> trade_record list" where
  "get_filled_trades stamp account_id f trades =
     filter (\<lambda>t. \<not> is_invalid_account_id (Some (td_account_id t)))
       (sort_key (stamp_order stamp)
         (filter (\<lambda>t. td_status t = T_FILLED \<and> td_account_id t = account_id \<and>
                      matches (tf_bot_id f) (td_bot_id t) \<and> matches (tf_strategy_id f) (td_strategy_id t) \<and>
                      in_period (tf_from f) (tf_to f) (stamp (td_trade_id t)))
           (dict_values trades)))"

definition sell_rows :: "position_history_row list \<Rightarrow> trade_record \<Rightarrow> position_history_row list" where
  "sell_rows history t = filter (\<lambda>h. ph_trade_id h = td_trade_id t \<and> ph_action h = ''sell'') history"

definition calculate_pnl_per_trade :: "position_history_row list \<Rightarrow> trade_record list \<Rightarrow> rat list" where
  "calculate_pnl_per_trade history sell_trades =
     map (\<lambda>t. case sell_rows history t of
                h # _ \<Rightarrow> ph_pnl h
              | [] \<Rightarrow> if td_commission t \<noteq> 0 then - td_commission t else 0) sell_trades"

subsection \<open>Figures\<close>

fun equity_curve :: "rat \<Rightarrow> rat \<Rightarrow> rat list \<Rightarrow> rat list" where
  "equity_curve budget running [] = []"
| "equity_curve budget running (pnl # pnls) =
     (budget + (running + pnl)) # equity_curve budget (running + pnl) pnls"

text \<open>The loop over the curve: the highest value so far and the greatest fall so far.\<close>

fun drawdown_loop :: "rat \<Rightarrow> rat \<Rightarrow> rat list \<Rightarrow> rat \<times> rat" where
  "drawdown_loop peak max_dd [] = (peak, max_dd)"
| "drawdown_loop peak max_dd (value # equity) =
     (let peak' = (if value > peak then value else peak);
          drawdown = peak' - value
      in drawdown_loop peak' (if drawdown > max_dd then drawdown else max_dd) equity)"

definition calculate_mdd :: "rat list \<Rightarrow> rat \<Rightarrow> rat \<times> rat" where
  "calculate_mdd pnl_list bot_allocated_budget =
     (case equity_curve bot_allocated_budget 0 pnl_list of
        [] \<Rightarrow> (0, 0)
      | e # equity \<Rightarrow>
          let (peak, max_dd) = drawdown_loop e 0 (e # equity)
          in (if peak > 0 then max_dd / peak else 0, max_dd))"

definition calculate_sharpe :: "rat list \<Rightarrow> real option" where
  "calculate_sharpe pnl_list =
     (let n = length pnl_list;
          mean = sum_list pnl_list / of_nat n;
          variance = sum_list (map (\<lambda>x. (x - mean) * (x - mean)) pnl_list) / of_nat (n - 1)
      in if n < 30 then None
         else if variance = 0 then None
         else Some ((of_rat mean - 35 / 1000 / 252) / sqrt (of_rat variance)))"

definition active_days :: "time_stamps \<Rightarrow> trade_record list \<Rightarrow> nat" where
  "active_days stamp trades =
     length (remdups (concat (map (\<lambda>t. case stamp (td_trade_id t) of None \<Rightarrow> [] | Some s \<Rightarrow> [take 10 s]) trades)))"

definition calculate ::
  "time_stamps \<Rightarrow> string \<Rightarrow> trade_filter \<Rightarrow> rat \<Rightarrow> (string, trade_record) dict \<Rightarrow> position_history_row list \<Rightarrow>
     performance_metrics" where
  "calculate stamp account_id f bot_allocated_budget table history =
     (case get_filled_trades stamp account_id f table of
        [] \<Rightarrow> empty_metrics
      | t # ts \<Rightarrow>
          let trades = t # ts;
              pnl_list = calculate_pnl_per_trade history (filter (\<lambda>t. td_side t = ''sell'') trades);
              winning = filter (\<lambda>p. p > 0) pnl_list;
              losing = filter (\<lambda>p. p < 0) pnl_list;
              total_trades = length pnl_list;
              total_profit = sum_list winning;
              total_loss = \<bar>sum_list losing\<bar>;
              total_commission = sum_list (map td_commission trades);
              (max_drawdown, max_drawdown_amount) = calculate_mdd pnl_list bot_allocated_budget
          in \<lparr>pm_total_trades = total_trades, pm_winning_trades = length winning, pm_losing_trades = length losing,
              pm_win_rate = (if total_trades > 0 then of_nat (length winning) / of_nat total_trades else 0),
              pm_total_pnl = total_profit - total_loss, pm_total_commission = total_commission,
              pm_net_pnl = total_profit - total_loss - total_commission,
              pm_avg_profit = (if winning \<noteq> [] then total_profit / of_nat (length winning) else 0),
              pm_avg_loss = (if losing \<noteq> [] then total_loss / of_nat (length losing) else 0),
              pm_profit_factor = (if total_loss > 0 then Fin (total_profit / total_loss) else PInf),
              pm_max_drawdown = max_drawdown, pm_max_drawdown_amount = max_drawdown_amount,
              pm_sharpe_ratio = calculate_sharpe pnl_list,
              pm_first_trade_at = stamp (td_trade_id t),
              pm_last_trade_at = stamp (td_trade_id (List.last trades)),
              pm_active_days = active_days stamp trades\<rparr>)"

subsection \<open>Summaries by day, week and month\<close>

text \<open>A joined row: the trade with the profit of a matching history row, if there is one.\<close>

definition joined_rows :: "position_history_row list \<Rightarrow> trade_record list \<Rightarrow> (trade_record \<times> rat option) list" where
  "joined_rows history trades =
     concat (map (\<lambda>t. case sell_rows history t of
                        [] \<Rightarrow> [(t, None)]
                      | hs \<Rightarrow> map (\<lambda>h. (t, Some (ph_pnl h))) hs) trades)"

record 'k period_summary =
  sm_period :: 'k
  sm_realized_pnl :: rat
  sm_trade_count :: nat
  sm_win_rate :: rat

definition summarize_group :: "'k \<Rightarrow> (trade_record \<times> rat option) list \<Rightarrow> 'k period_summary" where
  "summarize_group k rows =
     (let wins = length (filter (\<lambda>(_, p). case p of None \<Rightarrow> False | Some x \<Rightarrow> x > 0) rows)
      in \<lparr>sm_period = k, sm_realized_pnl = sum_list (map (\<lambda>(_, p). case p of None \<Rightarrow> 0 | Some x \<Rightarrow> x) rows),
          sm_trade_count = length rows,
          sm_win_rate = (if length rows > 0 then of_nat wins / of_nat (length rows) else 0)\<rparr>)"

text \<open>\<open>GROUP BY k ORDER BY k\<close>.\<close>

definition group_rows ::
  "(trade_record \<Rightarrow> 'k::linorder) \<Rightarrow> (trade_record \<times> rat option) list \<Rightarrow> 'k period_summary list" where
  "group_rows key rows =
     map (\<lambda>k. summarize_group k (filter (\<lambda>(t, _). key t = k) rows)) (sort (remdups (map (\<lambda>(t, _). key t) rows)))"

definition filled_sells ::
  "time_stamps \<Rightarrow> trade_filter \<Rightarrow> (string option \<Rightarrow> bool) \<Rightarrow> (string, trade_record) dict \<Rightarrow> trade_record list" where
  "filled_sells stamp f period trades =
     filter (\<lambda>t. td_status t = T_FILLED \<and> td_side t = ''sell'' \<and> matches (tf_bot_id f) (td_bot_id t) \<and>
                 matches (tf_account_id f) (td_account_id t) \<and> matches (tf_strategy_id f) (td_strategy_id t) \<and>
                 period (stamp (td_trade_id t))) (dict_values trades)"

text \<open>The date of a row, NULL first.\<close>

definition trade_date :: "time_stamps \<Rightarrow> trade_record \<Rightarrow> string" where
  "trade_date stamp t = (case stamp (td_trade_id t) of None \<Rightarrow> '''' | Some s \<Rightarrow> take 10 s)"

text \<open>Bounds that are empty texts are no bounds.\<close>

definition get_daily_summary ::
  "time_stamps \<Rightarrow> trade_filter \<Rightarrow> (string, trade_record) dict \<Rightarrow> position_history_row list \<Rightarrow> string period_summary list" where
  "get_daily_summary stamp f table history =
     (let bound = (\<lambda>b. case b of None \<Rightarrow> None | Some x \<Rightarrow> if x = '''' then None else Some x);
          sells = filled_sells stamp f
            (\<lambda>ts. in_period (bound (tf_from f)) (bound (tf_to f)) (map_option (take 10) ts)) table
      in group_rows (trade_date stamp) (joined_rows history sells))"

definition get_weekly_summary ::
  "(string \<Rightarrow> string) \<Rightarrow> time_stamps \<Rightarrow> trade_filter \<Rightarrow> (string, trade_record) dict \<Rightarrow> position_history_row list \<Rightarrow>
     string period_summary list" where
  "get_weekly_summary week_start stamp f table history =
     group_rows (\<lambda>t. week_start (trade_date stamp t))
       (joined_rows history (filled_sells stamp (f\<lparr>tf_account_id := None\<rparr>) (\<lambda>_. True) table))"

definition get_monthly_summary ::
  "time_stamps \<Rightarrow> string option \<Rightarrow> trade_filter \<Rightarrow> (string, trade_record) dict \<Rightarrow> position_history_row list \<Rightarrow>
     string period_summary list" where
  "get_monthly_summary stamp year f table history =
     group_rows (\<lambda>t. take 7 (trade_date stamp t))
       (joined_rows history (filled_sells stamp (f\<lparr>tf_account_id := None\<rparr>)
          (\<lambda>ts. case year of None \<Rightarrow> True | Some y \<Rightarrow> map_option (take 4) ts = Some y) table))"

end
