(* ===== verification/Performance_Properties.thy ===== *)
theory Performance_Properties
  imports Performance "HOL-Library.Multiset"
begin

text \<open>
  The figures against their meaning: the drawdown is the greatest fall of the equity curve, the profit
  reported for a bot is the realised profit of its positions, and the summaries of any period add up
  to the totals.
\<close>

subsection \<open>Drawdown\<close>

lemma drawdown_loop_spec:
  assumes "drawdown_loop peak dd es = (peak', dd')"
  shows "dd \<le> dd'" and "peak \<le> peak'"
    and "j < length es \<Longrightarrow> peak - es ! j \<le> dd' \<and> es ! j \<le> peak'"
    and "i \<le> j \<Longrightarrow> j < length es \<Longrightarrow> es ! i - es ! j \<le> dd'"
    and "dd' = dd \<or> (\<exists>j<length es. dd' = peak - es ! j) \<or> (\<exists>i j. i \<le> j \<and> j < length es \<and> dd' = es ! i - es ! j)"
    and "peak' = peak \<or> peak' \<in> set es"
proof -
  have "dd \<le> dd' \<and> peak \<le> peak' \<and> (\<forall>j<length es. peak - es ! j \<le> dd' \<and> es ! j \<le> peak') \<and>
    (\<forall>i j. i \<le> j \<longrightarrow> j < length es \<longrightarrow> es ! i - es ! j \<le> dd') \<and>
    (dd' = dd \<or> (\<exists>j<length es. dd' = peak - es ! j) \<or> (\<exists>i j. i \<le> j \<and> j < length es \<and> dd' = es ! i - es ! j)) \<and>
    (peak' = peak \<or> peak' \<in> set es)"
    using assms
  proof (induction es arbitrary: peak dd)
    case (Cons v es)
    let ?p = "if v > peak then v else peak"
    let ?d = "if ?p - v > dd then ?p - v else dd"
    have rest: "drawdown_loop ?p ?d es = (peak', dd')" using Cons.prems by (simp add: Let_def)
    note IH = Cons.IH [OF rest]
    have le: "?d \<le> dd'" "?p \<le> peak'" using IH by auto
    then have base: "dd \<le> dd'" "peak \<le> peak'" "v \<le> peak'" "peak - v \<le> dd'" by (auto split: if_splits)
    have tail: "?p - es ! j \<le> dd'" "es ! j \<le> peak'" if "j < length es" for j using IH that by auto
    have all: "peak - (v # es) ! j \<le> dd' \<and> (v # es) ! j \<le> peak'" if "j < length (v # es)" for j
      using that base tail [of "j - 1"] by (cases j) (auto split: if_splits)
    have falls: "(v # es) ! i - (v # es) ! j \<le> dd'" if ij: "i \<le> j" "j < length (v # es)" for i j
    proof (cases i)
      case 0
      then show ?thesis
        using that tail [of "j - 1"] base(1) le(1) by (cases j) (auto split: if_splits)
    next
      case (Suc i')
      then obtain j' where "j = Suc j'" using ij by (cases j) auto
      with Suc ij IH show ?thesis by simp
    qed
    have attained: "dd' = dd \<or> (\<exists>j<length (v # es). dd' = peak - (v # es) ! j) \<or>
        (\<exists>i j. i \<le> j \<and> j < length (v # es) \<and> dd' = (v # es) ! i - (v # es) ! j)"
    proof -
      from IH consider "dd' = ?d" | j where "j < length es" "dd' = ?p - es ! j"
        | i j where "i \<le> j" "j < length es" "dd' = es ! i - es ! j" by blast
      then show ?thesis
      proof cases
        case 1
        show ?thesis
        proof (cases "?p - v > dd")
          case True
          then have "dd' = (if v > peak then (v # es) ! 0 - (v # es) ! 0 else peak - (v # es) ! 0)" using 1 by simp
          then show ?thesis by (cases "v > peak") (auto intro: exI [of _ 0])
        qed (use 1 in simp)
      next
        case (2 j)
        then have "dd' = (if v > peak then (v # es) ! 0 - (v # es) ! Suc j else peak - (v # es) ! Suc j)" by simp
        with 2(1) show ?thesis by (cases "v > peak") (metis Suc_less_eq length_Cons zero_le)+
      next
        case (3 i j)
        then have "Suc i \<le> Suc j \<and> Suc j < length (v # es) \<and> dd' = (v # es) ! Suc i - (v # es) ! Suc j" by simp
        then show ?thesis by blast
      qed
    qed
    have "peak' = peak \<or> peak' \<in> set (v # es)" using IH by (auto split: if_splits)
    with base all falls attained show ?case by blast
  qed simp
  then show "dd \<le> dd'" and "peak \<le> peak'"
    and "j < length es \<Longrightarrow> peak - es ! j \<le> dd' \<and> es ! j \<le> peak'"
    and "i \<le> j \<Longrightarrow> j < length es \<Longrightarrow> es ! i - es ! j \<le> dd'"
    and "dd' = dd \<or> (\<exists>j<length es. dd' = peak - es ! j) \<or> (\<exists>i j. i \<le> j \<and> j < length es \<and> dd' = es ! i - es ! j)"
    and "peak' = peak \<or> peak' \<in> set es" by blast+
qed

lemma equity_curve_nth:
  "length (equity_curve b r pnls) = length pnls"
  "k < length pnls \<Longrightarrow> equity_curve b r pnls ! k = b + r + sum_list (take (Suc k) pnls)"
proof (induction pnls arbitrary: r k)
  case (Cons p pnls)
  { case 2 then show ?case using Cons.IH(2) [of "k - 1" "r + p"] by (cases k) auto }
qed simp_all

text \<open>What a bot is worth after its first \<open>k + 1\<close> sales.\<close>

definition equity_at :: "rat \<Rightarrow> rat list \<Rightarrow> nat \<Rightarrow> rat" where
  "equity_at budget pnls k = budget + sum_list (take (Suc k) pnls)"

lemma mdd_spec:
  assumes "pnls \<noteq> []" and "calculate_mdd pnls budget = (rate, amount)"
  shows "i \<le> j \<Longrightarrow> j < length pnls \<Longrightarrow> equity_at budget pnls i - equity_at budget pnls j \<le> amount"
    and "\<exists>i j. i \<le> j \<and> j < length pnls \<and> amount = equity_at budget pnls i - equity_at budget pnls j"
    and "\<exists>k<length pnls. (\<forall>j<length pnls. equity_at budget pnls j \<le> equity_at budget pnls k) \<and>
      rate = (if equity_at budget pnls k > 0 then amount / equity_at budget pnls k else 0)"
proof -
  obtain e es where es: "equity_curve budget 0 pnls = e # es"
    using assms(1) by (cases pnls) auto
  obtain peak where loop: "drawdown_loop e 0 (e # es) = (peak, amount)"
    and rate: "rate = (if peak > 0 then amount / peak else 0)"
    using assms(2) by (auto simp: calculate_mdd_def es split: prod.splits)
  have len: "length (e # es) = length pnls" using equity_curve_nth(1) [of budget 0 pnls] by (simp only: es)
  have at: "(e # es) ! k = equity_at budget pnls k" if "k < length pnls" for k
    using equity_curve_nth(2) [OF that, of budget 0] by (simp add: es equity_at_def)
  have e0: "e = equity_at budget pnls 0" using at [of 0] assms(1) by simp
  note spec = drawdown_loop_spec [OF loop, unfolded len]
  show "i \<le> j \<Longrightarrow> j < length pnls \<Longrightarrow> equity_at budget pnls i - equity_at budget pnls j \<le> amount"
    using spec(4) [of i j] at [of i] at [of j] by simp
  from spec(5) consider "amount = 0" | j where "j < length pnls" "amount = e - (e # es) ! j"
    | i j where "i \<le> j" "j < length pnls" "amount = (e # es) ! i - (e # es) ! j" by blast
  then show "\<exists>i j. i \<le> j \<and> j < length pnls \<and> amount = equity_at budget pnls i - equity_at budget pnls j"
  proof cases
    case 1
    then show ?thesis using assms(1) by (intro exI [of _ 0]) simp
  next
    case (2 j)
    then show ?thesis using at [of j] e0 by (intro exI [of _ 0] exI [of _ j]) simp
  next
    case (3 i j)
    then show ?thesis using at [of i] at [of j] by (intro exI [of _ i] exI [of _ j]) simp
  qed
  have "peak \<in> set (e # es)" using spec(6) by auto
  then obtain k where "k < length pnls" "peak = equity_at budget pnls k"
    using len at by (metis in_set_conv_nth)
  moreover have "equity_at budget pnls j \<le> peak" if "j < length pnls" for j using spec(3) [OF that] at [OF that] by simp
  ultimately show "\<exists>k<length pnls. (\<forall>j<length pnls. equity_at budget pnls j \<le> equity_at budget pnls k) \<and>
      rate = (if equity_at budget pnls k > 0 then amount / equity_at budget pnls k else 0)"
    using rate by blast
qed

subsection \<open>Profit of a bot\<close>

definition bot_realized :: "string \<Rightarrow> string \<Rightarrow> (position_key, position) dict \<Rightarrow> rat" where
  "bot_realized a b rows =
     sum_list (map (\<lambda>((a', b', _), p). if a' = a \<and> b' = b then ps_realized_pnl p else 0) rows)"

definition bot_history :: "string \<Rightarrow> string \<Rightarrow> position_history_row list \<Rightarrow> rat" where
  "bot_history a b hs = sum_list (map (\<lambda>h. if ph_account_id h = a \<and> ph_bot_id h = b then ph_pnl h else 0) hs)"

definition bot_part :: "string \<Rightarrow> string \<Rightarrow> position_key \<Rightarrow> position \<Rightarrow> rat" where
  "bot_part a b k p = (if fst k = a \<and> fst (snd k) = b then ps_realized_pnl p else 0)"

lemma bot_realized_simps [simp]:
  "bot_realized a b [] = 0" "bot_realized a b ((k, p) # rows) = bot_part a b k p + bot_realized a b rows"
  by (simp_all add: bot_realized_def bot_part_def split: prod.split)

lemma dict_default_Cons: "dict_default z ((k, v) # d) k' = (if k = k' then v else dict_default z d k')"
  by (simp add: dict_default_def)

lemma bot_realized_set:
  "dict_wf rows \<Longrightarrow> bot_realized a b (dict_set k p rows) =
    bot_realized a b rows + bot_part a b k p - bot_part a b k (dict_default empty_position rows k)"
proof (induction rows)
  case Nil
  then show ?case by (simp add: dict_default_def bot_part_def empty_position_def)
next
  case (Cons r rows)
  obtain k' v where r: "r = (k', v)" by (cases r)
  then show ?case using Cons by (simp add: dict_default_Cons)
qed

lemma write_trade_bot:
  assumes "dict_wf (pt_rows s)" and "bot_realized a b (pt_rows s) = bot_history a b (pt_history s)"
  shows "bot_realized a b (pt_rows (write_trade rec act q avg pnl hq s)) =
      bot_history a b (pt_history (write_trade rec act q avg pnl hq s))"
proof -
  let ?k = "(td_account_id rec, td_bot_id rec, td_symbol rec)"
  have "upsert_position ?k q avg pnl (pt_rows s) = dict_set ?k
      \<lparr>ps_quantity = q, ps_avg_entry_price = avg,
       ps_realized_pnl = ps_realized_pnl (dict_default empty_position (pt_rows s) ?k) + pnl\<rparr> (pt_rows s)"
    by (simp add: upsert_position_def dict_default_def empty_position_def split: option.split)
  then show ?thesis
    using assms by (simp add: write_trade_def bot_realized_set bot_part_def bot_history_def history_of_def)
qed

lemma run_trades_bot:
  "dict_wf (pt_rows (run trade_step no_positions recs)) \<and>
   bot_realized a b (pt_rows (run trade_step no_positions recs)) =
     bot_history a b (pt_history (run trade_step no_positions recs))"
proof (induction recs rule: rev_induct)
  case (snoc rec recs)
  let ?s = "run trade_step no_positions recs"
  have last: "run trade_step no_positions (recs @ [rec]) = trade_step ?s rec" by (simp add: run_append)
  have same: ?case if "trade_step ?s rec = ?s" using snoc that unfolding last by simp
  have written: ?case if "trade_step ?s rec = write_trade rec act q avg pnl hq ?s" for act q avg pnl hq
    using snoc write_trade_bot [of ?s a b rec act q avg pnl hq] unfolding last that
    by (simp add: write_trade_def dict_wf_upsert)
  show ?case
  proof (cases "on_trade rec ?s")
    case (Inl e)
    then show ?thesis by (intro same) (simp add: trade_step_def)
  next
    case (Inr s')
    then have step: "trade_step ?s rec = s'" by (simp add: trade_step_def)
    from Inr show ?thesis by (cases rule: on_trade_Inr) (use step same written in blast)+
  qed
qed (simp add: no_positions_def bot_history_def)

text \<open>The profit \<open>calculate\<close> books for a sale, and whether the sale is one of the bot's.\<close>

definition pnl_of :: "position_history_row list \<Rightarrow> trade_record \<Rightarrow> rat" where
  "pnl_of history t =
     (case sell_rows history t of h # _ \<Rightarrow> ph_pnl h | [] \<Rightarrow> if td_commission t \<noteq> 0 then - td_commission t else 0)"

definition bot_sale :: "string \<Rightarrow> string \<Rightarrow> trade_record \<Rightarrow> bool" where
  "bot_sale a b t \<longleftrightarrow> td_status t = T_FILLED \<and> td_side t = ''sell'' \<and> td_account_id t = a \<and> td_bot_id t = b"

lemma sale_writes:
  assumes "bot_sale a b rec" and "\<not> is_invalid_account_id (Some a)" and "on_trade rec s = Inr s'"
  shows "pt_history s' \<noteq> pt_history s"
  using assms
  by (auto simp: bot_sale_def on_trade_def on_trade_sell_def get_current_def Let_def update_position_def
      save_history_def history_of_def)

lemma trade_history_cases:
  fixes s :: position_state and rec :: trade_record
  defines "hs \<equiv> pt_history s" and "hs' \<equiv> pt_history (trade_step s rec)"
  assumes "\<not> is_invalid_account_id (Some a)"
  obtains (kept) "hs' = hs" "\<not> bot_sale a b rec"
  | (sale) h where "hs' = hs @ [h]" "ph_trade_id h = td_trade_id rec" "ph_action h = ''sell''"
      "bot_sale a b rec \<longleftrightarrow> ph_account_id h = a \<and> ph_bot_id h = b"
  | (purchase) h where "hs' = hs @ [h]" "ph_trade_id h = td_trade_id rec" "ph_action h = ''buy''" "ph_pnl h = 0"
      "\<not> bot_sale a b rec"
proof (cases "on_trade rec s")
  case (Inl e)
  then have "is_invalid_account_id (Some (td_account_id rec))" using on_trade_total [of rec s] by fastforce
  then have "\<not> bot_sale a b rec" using assms(3) by (auto simp: bot_sale_def)
  then show thesis using Inl kept by (simp add: hs_def hs'_def trade_step_def)
next
  case (Inr s')
  note step = Inr
  have s': "hs' = pt_history s'" using step by (simp add: hs'_def trade_step_def)
  from step show thesis
  proof (cases rule: on_trade_Inr)
    case same
    have "\<not> bot_sale a b rec" using sale_writes [OF _ assms(3) step] same by blast
    then show thesis using kept same s' by (simp add: hs_def)
  next
    case (buy pos)
    then show thesis using purchase [of "history_of rec ''buy'' (td_quantity rec) 0"] s'
      by (simp add: write_trade_def history_of_def hs_def bot_sale_def)
  next
    case (sell pos)
    then show thesis using s'
      by (intro sale) (auto simp: write_trade_def history_of_def hs_def bot_sale_def)
  qed
qed

lemma run_sales:
  assumes "distinct (map td_trade_id recs)" and valid: "\<not> is_invalid_account_id (Some a)"
  defines "hs \<equiv> pt_history (run trade_step no_positions recs)"
  shows "h \<in> set hs \<Longrightarrow> ph_trade_id h \<in> td_trade_id ` set recs"
    and "t \<in> set recs \<Longrightarrow> bot_sale a b t \<Longrightarrow> length (sell_rows hs t) = 1"
    and "sum_list (map (\<lambda>t. if bot_sale a b t then pnl_of hs t else 0) recs) = bot_history a b hs"
proof -
  have "(\<forall>h\<in>set hs. ph_trade_id h \<in> td_trade_id ` set recs) \<and>
    (\<forall>t\<in>set recs. bot_sale a b t \<longrightarrow> length (sell_rows hs t) = 1) \<and>
    sum_list (map (\<lambda>t. if bot_sale a b t then pnl_of hs t else 0) recs) = bot_history a b hs"
    using assms(1) unfolding hs_def
  proof (induction recs rule: rev_induct)
    case (snoc rec recs)
    let ?s = "run trade_step no_positions recs"
    let ?hs = "pt_history ?s" and ?hs' = "pt_history (trade_step ?s rec)"
    have last: "run trade_step no_positions (recs @ [rec]) = trade_step ?s rec" by (simp add: run_append)
    have IH: "\<And>h. h \<in> set ?hs \<Longrightarrow> ph_trade_id h \<in> td_trade_id ` set recs"
      "\<And>t. t \<in> set recs \<Longrightarrow> bot_sale a b t \<Longrightarrow> length (sell_rows ?hs t) = 1"
      "sum_list (map (\<lambda>t. if bot_sale a b t then pnl_of ?hs t else 0) recs) = bot_history a b ?hs"
      using snoc.IH snoc.prems by auto
    have new: "td_trade_id rec \<notin> td_trade_id ` set recs" using snoc.prems by simp
    have none: "sell_rows ?hs rec = []" using IH(1) new by (simp add: sell_rows_def filter_empty_conv) metis
    have others: "sell_rows (?hs @ [h]) t = sell_rows ?hs t"
      if "t \<in> set recs" "ph_trade_id h = td_trade_id rec" for t h
      using that new by (auto simp: sell_rows_def)
    have sums: "sum_list (map (\<lambda>t. if bot_sale a b t then pnl_of (?hs @ [h]) t else 0) recs) = bot_history a b ?hs"
      if "ph_trade_id h = td_trade_id rec" for h
      unfolding IH(3) [symmetric] using others [OF _ that]
      by (intro arg_cong [where f = sum_list] map_cong) (simp_all add: pnl_of_def)
    show ?case
    proof (cases rule: trade_history_cases [of a ?s rec b, OF valid])
      case 1
      then show ?thesis unfolding last 1(1) using IH by auto
    next
      case (2 h)
      have one: "sell_rows (?hs @ [h]) rec = [h]" using none 2(2,3) by (simp add: sell_rows_def)
      then have "pnl_of (?hs @ [h]) rec = ph_pnl h" by (simp add: pnl_of_def)
      then show ?thesis
        unfolding last 2(1)
        using IH(1,2) sums [OF 2(2)] others [OF _ 2(2)] one 2(2-4) by (auto simp: bot_history_def)
    next
      case (3 h)
      then show ?thesis
        unfolding last 3(1)
        using IH(1,2) sums [OF 3(2)] others [OF _ 3(2)] 3(2-5) by (auto simp: bot_history_def)
    qed
  qed (simp add: no_positions_def bot_history_def)
  then show "h \<in> set hs \<Longrightarrow> ph_trade_id h \<in> td_trade_id ` set recs"
    and "t \<in> set recs \<Longrightarrow> bot_sale a b t \<Longrightarrow> length (sell_rows hs t) = 1"
    and "sum_list (map (\<lambda>t. if bot_sale a b t then pnl_of hs t else 0) recs) = bot_history a b hs" by blast+
qed

subsection \<open>Reachable states\<close>

definition trade_keys_ok :: "(string, trade_record) dict \<Rightarrow> bool" where
  "trade_keys_ok trades \<longleftrightarrow> (\<forall>p\<in>set trades. td_trade_id (snd p) = fst p)"

lemma trade_keys_save: "trade_keys_ok trades \<Longrightarrow> trade_keys_ok (save_trade td trades)"
  by (auto simp: trade_keys_ok_def save_trade_def insert_or_ignore_def split: option.splits if_splits)

lemma trades_step: "fs_trades (fill_step s e) = fs_trades s \<or> (\<exists>td. fs_trades (fill_step s e) = save_trade td (fs_trades s))"
proof -
  have locked: "fs_trades (snd (apply_locked fault tid row oid obs avg acct s)) = fs_trades s \<or>
      (\<exists>td. fs_trades (snd (apply_locked fault tid row oid obs avg acct s)) = save_trade td (fs_trades s))"
    for fault tid row oid obs avg acct
    by (auto simp: apply_locked_def apply_txn_def Let_def rollback_def publish_filled_def
        split: sum.splits option.splits prod.splits if_splits elim!: end_transaction.elims)
  show ?thesis
    using locked
    by (cases e) (simp_all add: apply_cumulative_def apply_stream_increment_def catch_up_once_def
        split: sum.splits option.splits prod.splits)
qed

lemma trade_keys_run: "trade_keys_ok (fs_trades s) \<Longrightarrow> trade_keys_ok (fs_trades (run fill_step s es))"
proof (induction es arbitrary: s)
  case (Cons e es)
  then have "trade_keys_ok (fs_trades (fill_step s e))" using trades_step [of s e] trade_keys_save by metis
  then show ?case using Cons.IH by simp
qed simp

lemma reachable_trades:
  assumes "admissible fill_step fresh_trade_id (fill_init ob) es"
  defines "s \<equiv> run fill_step (fill_init ob) es"
  shows "distinct (map td_trade_id (dict_values (fs_trades s)))"
    and "pt_rows (fs_positions s) = pt_rows (run trade_step no_positions (dict_values (fs_trades s)))"
    and "pt_history (fs_positions s) = pt_history (run trade_step no_positions (dict_values (fs_trades s)))"
proof -
  have inv: "pipeline_inv s" unfolding s_def using fill_init_inv assms(1) by (rule pipeline.run_inv)
  show "pt_rows (fs_positions s) = pt_rows (run trade_step no_positions (dict_values (fs_trades s)))"
    "pt_history (fs_positions s) = pt_history (run trade_step no_positions (dict_values (fs_trades s)))"
    using pipeline_invD(4) [OF inv] by (simp_all add: pos_tables_def)
  have "trade_keys_ok (fs_trades s)"
    unfolding s_def by (rule trade_keys_run) (simp add: trade_keys_ok_def fill_init_def)
  then have "map td_trade_id (dict_values (fs_trades s)) = map fst (fs_trades s)"
    by (auto simp: trade_keys_ok_def)
  then show "distinct (map td_trade_id (dict_values (fs_trades s)))"
    using pipeline_invD(2) [OF inv] by (simp only: dict_wf_def)
qed

subsection \<open>Totals\<close>

lemma sum_signs: "sum_list (filter (\<lambda>p. p > 0) xs) - \<bar>sum_list (filter (\<lambda>p. p < 0) xs)\<bar> = sum_list (xs :: rat list)"
proof -
  have "sum_list (filter (\<lambda>p. p < 0) xs) \<le> 0" by (induction xs) auto
  moreover have "sum_list (filter (\<lambda>p. p > 0) xs) + sum_list (filter (\<lambda>p. p < 0) xs) = sum_list xs"
    by (induction xs) auto
  ultimately show ?thesis by (simp add: abs_if)
qed

definition counted_sales :: "time_stamps \<Rightarrow> string \<Rightarrow> trade_filter \<Rightarrow> (string, trade_record) dict \<Rightarrow> trade_record list" where
  "counted_sales stamp a f trades = filter (\<lambda>t. td_side t = ''sell'') (get_filled_trades stamp a f trades)"

lemma calculate_totals:
  "pm_total_pnl (calculate stamp a f budget trades hs) = sum_list (map (pnl_of hs) (counted_sales stamp a f trades))"
  "pm_total_trades (calculate stamp a f budget trades hs) = length (counted_sales stamp a f trades)"
proof -
  have pnl: "calculate_pnl_per_trade hs ts = map (pnl_of hs) ts" for ts
    by (simp add: calculate_pnl_per_trade_def pnl_of_def)
  have "pm_total_pnl (calculate stamp a f budget trades hs) = sum_list (map (pnl_of hs) (counted_sales stamp a f trades)) \<and>
      pm_total_trades (calculate stamp a f budget trades hs) = length (counted_sales stamp a f trades)"
  proof (cases "get_filled_trades stamp a f trades")
    case Nil
    then show ?thesis by (simp add: calculate_def counted_sales_def empty_metrics_def)
  next
    case (Cons t ts)
    let ?xs = "map (pnl_of hs) (filter (\<lambda>t. td_side t = ''sell'') (t # ts))"
    have "pm_total_pnl (calculate stamp a f budget trades hs) =
        sum_list (filter (\<lambda>p. p > 0) ?xs) - \<bar>sum_list (filter (\<lambda>p. p < 0) ?xs)\<bar>"
      "pm_total_trades (calculate stamp a f budget trades hs) = length ?xs"
      unfolding calculate_def Cons list.case Let_def pnl case_prod_beta
      by (simp_all only: performance_metrics.select_convs)
    then show ?thesis unfolding sum_signs counted_sales_def Cons by simp
  qed
  then show "pm_total_pnl (calculate stamp a f budget trades hs) = sum_list (map (pnl_of hs) (counted_sales stamp a f trades))"
    "pm_total_trades (calculate stamp a f budget trades hs) = length (counted_sales stamp a f trades)" by simp_all
qed

lemma calculate_net:
  "pm_net_pnl (calculate stamp a f budget trades hs) =
     sum_list (map (pnl_of hs) (counted_sales stamp a f trades)) -
     sum_list (map td_commission (get_filled_trades stamp a f trades))"
proof -
  have "pm_net_pnl (calculate stamp a f budget trades hs) =
      pm_total_pnl (calculate stamp a f budget trades hs) - sum_list (map td_commission (get_filled_trades stamp a f trades))"
  proof (cases "get_filled_trades stamp a f trades")
    case Nil
    then show ?thesis by (simp add: calculate_def empty_metrics_def)
  next
    case (Cons t ts)
    show ?thesis
      unfolding calculate_def Cons list.case Let_def case_prod_beta by (simp only: performance_metrics.select_convs)
  qed
  then show ?thesis by (simp only: calculate_totals)
qed

lemma sum_list_sorted:
  "sum_list (map g (filter P (sort_key f xs))) = (sum_list (map g (filter P xs)) :: rat)"
  "length (filter P (sort_key f xs)) = length (filter P xs)"
proof -
  have "mset (map g (filter P (sort_key f xs))) = mset (map g (filter P xs))" by simp
  then show "sum_list (map g (filter P (sort_key f xs))) = (sum_list (map g (filter P xs)) :: rat)"
    by (metis sum_mset_sum_list)
  have "mset (filter P (sort_key f xs)) = mset (filter P xs)" by simp
  then show "length (filter P (sort_key f xs)) = length (filter P xs)" by (metis size_mset)
qed

lemma sum_groups:
  fixes g :: "'t \<Rightarrow> 'n::comm_monoid_add"
  assumes "distinct ks" and "key ` set xs \<subseteq> set ks"
  shows "sum_list (map (\<lambda>k. sum_list (map g (filter (\<lambda>x. key x = k) xs))) ks) = sum_list (map g xs)"
  using assms(2)
proof (induction xs)
  case (Cons x xs)
  have "sum_list (map (\<lambda>k. sum_list (map g (filter (\<lambda>x. key x = k) (x # xs)))) ks) =
      sum_list (map (\<lambda>k. (if k = key x then g x else 0) + sum_list (map g (filter (\<lambda>x. key x = k) xs))) ks)"
    by (intro arg_cong [where f = sum_list] map_cong) auto
  also have "\<dots> = sum_list (map (\<lambda>k. if k = key x then g x else 0) ks) + sum_list (map g xs)"
    using Cons by (simp add: sum_list_addf)
  also have "sum_list (map (\<lambda>k. if k = key x then g x else 0) ks) = g x"
    using assms(1) Cons.prems
    by (subst sum_list_map_eq_sum_count2 [of _ "set ks"] | simp add: sum_list_distinct_conv_sum_set)+
  finally show ?case by simp
qed simp

definition row_pnl :: "trade_record \<times> rat option \<Rightarrow> rat" where
  "row_pnl r = (case snd r of None \<Rightarrow> 0 | Some x \<Rightarrow> x)"

lemma group_totals:
  "sum_list (map sm_realized_pnl (group_rows key rows)) = sum_list (map row_pnl rows)"
  "sum_list (map sm_trade_count (group_rows key rows)) = length rows"
proof -
  let ?ks = "sort (remdups (map (\<lambda>(t, _). key t) rows))" and ?key = "\<lambda>r. key (fst r)"
  have ks: "distinct ?ks" "?key ` set rows \<subseteq> set ?ks" by (auto simp: case_prod_unfold)
  show "sum_list (map sm_realized_pnl (group_rows key rows)) = sum_list (map row_pnl rows)"
    using sum_groups [OF ks, of row_pnl]
    by (simp add: group_rows_def summarize_group_def Let_def comp_def case_prod_unfold row_pnl_def [abs_def])
  have "sum_list (map (\<lambda>k. sum_list (map (\<lambda>_. 1) (filter (\<lambda>x. ?key x = k) rows))) ?ks) = sum_list (map (\<lambda>_. 1 :: nat) rows)"
    by (rule sum_groups [OF ks])
  then show "sum_list (map sm_trade_count (group_rows key rows)) = length rows"
    by (simp add: group_rows_def summarize_group_def Let_def comp_def case_prod_unfold sum_list_triv)
qed

lemma joined_single:
  "(\<And>t. t \<in> set ts \<Longrightarrow> length (sell_rows hs t) = 1) \<Longrightarrow> joined_rows hs ts = map (\<lambda>t. (t, Some (pnl_of hs t))) ts"
proof (induction ts)
  case (Cons t ts)
  have "length (sell_rows hs t) = 1" using Cons.prems by simp
  then obtain h where h: "sell_rows hs t = [h]" by (cases "sell_rows hs t") auto
  have "joined_rows hs ts = map (\<lambda>t. (t, Some (pnl_of hs t))) ts" using Cons by simp
  then show ?case by (simp add: joined_rows_def h pnl_of_def)
qed (simp add: joined_rows_def)

subsection \<open>Properties\<close>

text \<open>C36. The drawdown loop computes the greatest fall of the equity curve (the values after each sale): no
  later value lies further below an earlier one, and some value lies exactly that far below.  When that
  fall starts from the highest value of the curve, the rate is the fall divided by it, peak less trough
  over peak, or zero for a peak that is not positive.\<close>

theorem drawdown_is_greatest_fall:
  assumes "pnls \<noteq> []" and "calculate_mdd pnls budget = (rate, amount)"
  shows "(i \<le> j \<and> j < length pnls \<longrightarrow> equity_at budget pnls i - equity_at budget pnls j \<le> amount) \<and>
    (\<exists>i j. i \<le> j \<and> j < length pnls \<and> amount = equity_at budget pnls i - equity_at budget pnls j) \<and>
    (i \<le> j \<and> j < length pnls \<and> amount = equity_at budget pnls i - equity_at budget pnls j \<and>
       (\<forall>k<length pnls. equity_at budget pnls k \<le> equity_at budget pnls i) \<longrightarrow>
     rate = (if equity_at budget pnls i > 0
             then (equity_at budget pnls i - equity_at budget pnls j) / equity_at budget pnls i else 0))"
proof -
  obtain k where k: "k < length pnls" "\<forall>j<length pnls. equity_at budget pnls j \<le> equity_at budget pnls k"
    "rate = (if equity_at budget pnls k > 0 then amount / equity_at budget pnls k else 0)"
    using mdd_spec(3) [OF assms] by blast
  have "equity_at budget pnls i = equity_at budget pnls k"
    if "i \<le> j" "j < length pnls" "\<forall>k<length pnls. equity_at budget pnls k \<le> equity_at budget pnls i"
    using that k(1,2) by (intro antisym) (meson order.strict_trans1)+
  then have "i \<le> j \<and> j < length pnls \<and> amount = equity_at budget pnls i - equity_at budget pnls j \<and>
       (\<forall>k<length pnls. equity_at budget pnls k \<le> equity_at budget pnls i) \<longrightarrow>
     rate = (if equity_at budget pnls i > 0
             then (equity_at budget pnls i - equity_at budget pnls j) / equity_at budget pnls i else 0)"
    using k(3) by simp
  with mdd_spec(1,2) [OF assms] show ?thesis by blast
qed

text \<open>C9. However fills, faults, restarts and redeliveries are interleaved, the total profit reported for a bot
  over all its trades is the sum of the realised profits its positions show.\<close>

theorem reported_profit_is_realised:
  assumes "admissible fill_step fresh_trade_id (fill_init ob) es"
    and "\<not> is_invalid_account_id (Some a)" and "b \<noteq> ''''"
  defines "s \<equiv> run fill_step (fill_init ob) es"
    and "f \<equiv> \<lparr>tf_account_id = None, tf_bot_id = Some b, tf_strategy_id = None, tf_from = None, tf_to = None\<rparr>"
  shows "pm_total_pnl (calculate stamp a f budget (fs_trades s) (pt_history (fs_positions s))) =
    bot_realized a b (pt_rows (fs_positions s))"
proof -
  let ?recs = "dict_values (fs_trades s)" and ?hs = "pt_history (fs_positions s)"
  note reach = reachable_trades [OF assms(1), folded s_def]
  have sale: "td_status t = T_FILLED \<and> td_account_id t = a \<and> matches (tf_bot_id f) (td_bot_id t) \<and>
        matches (tf_strategy_id f) (td_strategy_id t) \<and> in_period (tf_from f) (tf_to f) (stamp (td_trade_id t)) \<and>
      \<not> is_invalid_account_id (Some (td_account_id t)) \<and> td_side t = ''sell'' \<longleftrightarrow> bot_sale a b t" for t
    using assms(2,3) by (auto simp: f_def matches_def in_period_def bot_sale_def)
  have "sum_list (map (pnl_of ?hs) (counted_sales stamp a f (fs_trades s))) =
      sum_list (map (pnl_of ?hs) (filter (bot_sale a b) ?recs))"
    by (simp add: counted_sales_def get_filled_trades_def sum_list_sorted sale)
  also have "\<dots> = bot_history a b ?hs"
    using run_sales(3) [OF reach(1) assms(2), of b] by (simp add: reach(3) sum_list_map_filter')
  also have "\<dots> = bot_realized a b (pt_rows (fs_positions s))"
    using run_trades_bot [of ?recs a b] by (simp add: reach(2,3))
  finally show ?thesis by (simp add: calculate_totals)
qed

text \<open>The daily summaries of an account, which SQL computes, add up to the totals of the figures, which the
  code computes from the trades one by one, whatever bot and strategy are selected.\<close>

theorem daily_summaries_add_up:
  fixes bot_id strategy_id :: "string option"
  assumes "admissible fill_step fresh_trade_id (fill_init ob) es" and "\<not> is_invalid_account_id (Some a)"
  defines "s \<equiv> run fill_step (fill_init ob) es"
    and "f \<equiv> \<lparr>tf_account_id = Some a, tf_bot_id = bot_id, tf_strategy_id = strategy_id, tf_from = None, tf_to = None\<rparr>"
  shows "sum_list (map sm_realized_pnl (get_daily_summary stamp f (fs_trades s) (pt_history (fs_positions s)))) =
      pm_total_pnl (calculate stamp a f budget (fs_trades s) (pt_history (fs_positions s))) \<and>
    sum_list (map sm_trade_count (get_daily_summary stamp f (fs_trades s) (pt_history (fs_positions s)))) =
      pm_total_trades (calculate stamp a f budget (fs_trades s) (pt_history (fs_positions s)))"
proof -
  let ?recs = "dict_values (fs_trades s)" and ?hs = "pt_history (fs_positions s)"
  note reach = reachable_trades [OF assms(1), folded s_def]
  have a: "a \<noteq> ''''" using assms(2) by (auto simp: is_invalid_account_id_def)
  let ?P = "\<lambda>t. td_status t = T_FILLED \<and> td_side t = ''sell'' \<and> matches bot_id (td_bot_id t) \<and>
      td_account_id t = a \<and> matches strategy_id (td_strategy_id t)"
  have sells: "filled_sells stamp f (\<lambda>ts. in_period (case tf_from f of None \<Rightarrow> None | Some x \<Rightarrow> if x = '''' then None else Some x)
        (case tf_to f of None \<Rightarrow> None | Some x \<Rightarrow> if x = '''' then None else Some x) (map_option (take 10) ts)) (fs_trades s) =
      filter ?P ?recs"
    unfolding filled_sells_def using a
    by (intro filter_cong refl) (auto simp: f_def in_period_def matches_def [of "Some a"])
  have counted: "sum_list (map (pnl_of ?hs) (counted_sales stamp a f (fs_trades s))) = sum_list (map (pnl_of ?hs) (filter ?P ?recs))"
    "length (counted_sales stamp a f (fs_trades s)) = length (filter ?P ?recs)"
  proof -
    have eq: "td_status t = T_FILLED \<and> td_account_id t = a \<and> matches (tf_bot_id f) (td_bot_id t) \<and>
        matches (tf_strategy_id f) (td_strategy_id t) \<and> in_period (tf_from f) (tf_to f) (stamp (td_trade_id t)) \<and>
      \<not> is_invalid_account_id (Some (td_account_id t)) \<and> td_side t = ''sell'' \<longleftrightarrow> ?P t" for t
      using assms(2) by (auto simp: f_def in_period_def)
    show "sum_list (map (pnl_of ?hs) (counted_sales stamp a f (fs_trades s))) = sum_list (map (pnl_of ?hs) (filter ?P ?recs))"
      "length (counted_sales stamp a f (fs_trades s)) = length (filter ?P ?recs)"
      by (simp_all add: counted_sales_def get_filled_trades_def sum_list_sorted eq cong: filter_cong) 
  qed
  have "length (sell_rows ?hs t) = 1" if "t \<in> set (filter ?P ?recs)" for t
    using run_sales(2) [OF reach(1) assms(2), of t "td_bot_id t"] that by (simp add: reach(3) bot_sale_def)
  then have rows: "joined_rows ?hs (filter ?P ?recs) = map (\<lambda>t. (t, Some (pnl_of ?hs t))) (filter ?P ?recs)"
    by (rule joined_single)
  show ?thesis
    unfolding get_daily_summary_def Let_def sells group_totals rows calculate_totals counted
    by (simp add: comp_def row_pnl_def)
qed

subsection \<open>Concrete runs\<close>

theorem drawdown_is_greatest_fall_witness:
  "calculate_mdd [30, -50, 10, -5] 100 = (50/130, 50)
   \<and> fst (calculate_mdd [30, -50, 10, -5] 100) =
      (equity_at 100 [30, -50, 10, -5] 0 - equity_at 100 [30, -50, 10, -5] 1) / equity_at 100 [30, -50, 10, -5] 0"
proof -
  have m: "calculate_mdd [30, -50, 10, -5] 100 = (50/130, 50)" by code_simp
  have e: "equity_at 100 [30, -50, 10, -5] 0 = 130" "equity_at 100 [30, -50, 10, -5] 1 = 80"
    "equity_at 100 [30, -50, 10, -5] 2 = 90" "equity_at 100 [30, -50, 10, -5] 3 = 85" by code_simp+
  have "k < length [30, -50, 10, -5 :: rat] \<Longrightarrow> k = 0 \<or> k = 1 \<or> k = 2 \<or> k = 3" for k by auto
  then have top: "\<forall>k<length [30, -50, 10, -5]. equity_at 100 [30, -50, 10, -5] k \<le> equity_at 100 [30, -50, 10, -5] 0"
    using e by fastforce
  have ne: "[30, -50, 10, -5 :: rat] \<noteq> []" by simp
  show ?thesis
    using drawdown_is_greatest_fall [OF ne m, of 0 1] top m by (simp add: e e(2) [unfolded One_nat_def])
qed

definition sample_sale_events :: "fill_event list" where
  "sample_sale_events =
     [Fs_submit (sample_order ''o1'' 10), Fs_poll None ''t1'' ''acct-1'' ''Bo1'' 10 100 ''2026-01-05'',
      Fs_submit ((sample_order ''o2'' 4)\<lparr>ot_side := ''sell''\<rparr>), Fs_poll None ''t2'' ''acct-1'' ''Bo2'' 4 120 ''2026-01-05'']"

lemma sample_sale_admissible: "admissible fill_step fresh_trade_id (fill_init True) sample_sale_events"
  by code_simp

definition sample_sold :: fill_state where
  "sample_sold = run fill_step (fill_init True) sample_sale_events"

definition sample_stamp :: time_stamps where
  "sample_stamp tid = (if tid = ''t1'' then Some ''2026-01-05T09:00'' else Some ''2026-01-06T09:00'')"

lemma acct_1_ok: "\<not> is_invalid_account_id (Some ''acct-1'')"
  by code_simp

theorem reported_profit_is_realised_witness:
  "pm_total_pnl (calculate sample_stamp ''acct-1''
     \<lparr>tf_account_id = None, tf_bot_id = Some ''bot-1'', tf_strategy_id = None, tf_from = None, tf_to = None\<rparr>
     0 (fs_trades sample_sold) (pt_history (fs_positions sample_sold))) = 80"
proof -
  have "bot_realized ''acct-1'' ''bot-1'' (pt_rows (fs_positions sample_sold)) = 80" by code_simp
  with reported_profit_is_realised [OF sample_sale_admissible acct_1_ok, folded sample_sold_def, of "''bot-1''"]
  show ?thesis by simp
qed

theorem daily_summaries_add_up_witness:
  "sum_list (map sm_realized_pnl (get_daily_summary sample_stamp
     \<lparr>tf_account_id = Some ''acct-1'', tf_bot_id = None, tf_strategy_id = Some ''s'', tf_from = None, tf_to = None\<rparr>
     (fs_trades sample_sold) (pt_history (fs_positions sample_sold)))) =
   pm_total_pnl (calculate sample_stamp ''acct-1''
     \<lparr>tf_account_id = Some ''acct-1'', tf_bot_id = None, tf_strategy_id = Some ''s'', tf_from = None, tf_to = None\<rparr>
     0 (fs_trades sample_sold) (pt_history (fs_positions sample_sold)))"
  using daily_summaries_add_up [OF sample_sale_admissible acct_1_ok, folded sample_sold_def] by blast

text \<open>The rate divides the greatest fall by the highest value of the whole curve, also when that comes later:
  half of the money is lost, and the reported rate is below a twentieth.\<close>

theorem drawdown_rate_uses_later_peak:
  "calculate_mdd [100, -50, 1000] 0 = (1/21, 50)"
  by code_simp

text \<open>The curve starts after the first sale: a fall from the allocated budget is not seen.\<close>

theorem initial_loss_is_no_drawdown: "calculate_mdd [-50] 100 = (0, 0)"
  by code_simp

text \<open>The profit of a sale is already net of its commission; the net profit subtracts it once more.\<close>

definition sample_commission_trade :: "string \<Rightarrow> string \<Rightarrow> rat \<Rightarrow> rat \<Rightarrow> trade_record" where
  "sample_commission_trade tid side price commission =
     \<lparr>td_trade_id = tid, td_bot_id = ''bot-1'', td_strategy_id = ''s'', td_symbol = ''A'', td_side = side,
      td_quantity = 10, td_price = price, td_status = T_FILLED, td_order_type = ''limit'', td_commission = commission,
      td_order_id = None, td_exchange = ''KRX'', td_account_id = ''acct-1''\<rparr>"

definition sample_commission_trades :: "trade_record list" where
  "sample_commission_trades =
     [sample_commission_trade ''t1'' ''buy'' 100 0, sample_commission_trade ''t2'' ''sell'' 110 5]"

definition every_trade :: trade_filter where
  "every_trade = \<lparr>tf_account_id = None, tf_bot_id = None, tf_strategy_id = None, tf_from = None, tf_to = None\<rparr>"

theorem sale_commission_counts_twice:
  "let history = pt_history (run trade_step no_positions sample_commission_trades);
       m = calculate sample_stamp ''acct-1'' every_trade 0 (map (\<lambda>t. (td_trade_id t, t)) sample_commission_trades) history
   in sum_list (map trade_cash sample_commission_trades) = 95 \<and> pm_total_pnl m = 95 \<and> pm_net_pnl m = 90"
proof -
  let ?h = "pt_history (run trade_step no_positions sample_commission_trades)"
  let ?t = "map (\<lambda>t. (td_trade_id t, t)) sample_commission_trades"
  have "sum_list (map trade_cash sample_commission_trades) = 95"
    "sum_list (map (pnl_of ?h) (counted_sales sample_stamp ''acct-1'' every_trade ?t)) = 95"
    "sum_list (map td_commission (get_filled_trades sample_stamp ''acct-1'' every_trade ?t)) = 5" by code_simp+
  then show ?thesis unfolding Let_def calculate_totals calculate_net by simp
qed

end
