(* ===== verification/Spec2Isabelle.thy ===== *)
theory Spec2Isabelle
  imports Settlement_Chain Execution_Properties Event_Bus Kis_Properties Polling_Properties Approval_Properties
    Account_Properties Reconcile_Properties Performance_Properties
begin

text \<open>
  A verification library of ante, an automated trading system for Korean equities (Python, under
  \<open>src/src/ante\<close>).  It models the path of an order and of its money: a strategy's request is checked by
  the rule engine, funded by the treasury, executed by the gateway, the stop order manager or the
  virtual executor, tracked while it is open, and settled exactly once when it is filled.

  \<^bold>\<open>How the parts interact.\<close>  Components exchange events over the bus (\<open>eventbus/bus.py\<close>).

  \<^item> \<open>OrderRequestEvent\<close> goes to the rule engine of its account (\<open>rule/engine.py\<close>), which publishes
    \<open>OrderValidatedEvent\<close> or a rejection.
  \<^item> \<open>OrderValidatedEvent\<close> goes to the treasury (\<open>treasury/treasury.py\<close>), which reserves the money of a
    buy and publishes \<open>OrderApprovedEvent\<close> or a rejection.
  \<^item> \<open>OrderApprovedEvent\<close> goes to the virtual executor (\<open>bot/providers/virtual.py\<close>, priority 60) and then
    to the gateway (\<open>gateway/gateway.py\<close>, priority 50), which hands stop orders to the stop order
    manager (\<open>gateway/stop_order.py\<close>) and submits the others.  A triggered stop order becomes a new
    \<open>OrderRequestEvent\<close>.
  \<^item> Submitted orders are tracked (\<open>trade/order_tracker.py\<close>).  Observed executions go through the fill
    applier (\<open>trade/fill_applier.py\<close>), which writes trade, position and outbox row in one transaction;
    the publisher (\<open>trade/fill_outbox.py\<close>) delivers \<open>OrderFilledEvent\<close> at least once.
  \<^item> Observations come from the poller (\<open>broker/fill_scheduler.py\<close>), which reads the broker's order
    history and, for paper accounts, its positions.  The broker adapter (\<open>broker/kis.py\<close>) sends every
    request through a circuit breaker, a shared token, a rate limit and a retry loop.
  \<^item> The treasury settles fills and gives the money of failed and cancelled orders back.
  \<^item> All money-moving parts ask the account gate (\<open>account/gate.py\<close>) first.

  \<^bold>\<open>Theories.\<close>

  \<^item> \<open>Prelude\<close>: dictionaries and tables, runs of event lists, the interfaces \<open>keyed_store\<close>,
    \<open>guarded_machine\<close> and \<open>monotone_machine\<close>, floats.  \<open>Python_Values\<close>: values whose type the code
    tests at run time.
  \<^item> \<open>Account_Gate\<close>: account ids, readiness registry, gate; the interface \<open>readiness_marks\<close>.
    \<open>Order_Events\<close>: the events of the order path.
  \<^item> \<open>Rules\<close>, \<open>Rule_Engine\<close>: the rules, their configuration, the engine's handlers.
    \<open>Rule_Properties\<close>: evaluation equals finding the first objection, every request is answered once,
    the contract of a validated order, and what the treasury makes of it.
  \<^item> \<open>Treasury\<close>, \<open>Treasury_Orders\<close>, \<open>Treasury_Sync\<close>: budgets and reservations, the event handlers,
    synchronisation, reload and snapshots.  \<open>Treasury_Invariant\<close>: the invariant of memory and tables
    and its preservation.  \<open>Treasury_Properties\<close>, \<open>Treasury_Behaviour\<close>: balances, exactly-once
    settlement, equivalence of partial and full fills, reload, single operations and their errors.
  \<^item> \<open>Order_Tracker\<close>, \<open>Positions\<close>: tables with their caches; the cached views are refined by the
    tables, profit is conserved.
  \<^item> \<open>Fill_Pipeline\<close>, \<open>Fill_Exactly_Once\<close>: the transaction of an execution with a fault at any of its
    statements, the outbox and its publisher; atomicity, exactly-once application, lossless delivery,
    escalation.  \<open>Settlement_Chain\<close>: from observations to the money of the treasury.
  \<^item> \<open>Fill_Polling\<close>: the poller.  \<open>Polling_Properties\<close>: a poll is a run of the pipeline, executions are
    recovered before orders expire, the position fallback closes the gap it saw.
  \<^item> \<open>Reconciliation\<close>: comparing positions with the broker's report (\<open>trade/reconciler.py\<close>, run by
    \<open>broker/scheduler.py\<close>).  \<open>Reconcile_Properties\<close>: it overwrites exactly what no open order explains,
    settles in one run, and spares accounts with several bots.
  \<^item> \<open>Performance\<close>: figures and summaries (\<open>trade/performance.py\<close>).  \<open>Performance_Properties\<close>: the drawdown
    is the greatest fall, the reported profit is the realised one, the days add up to the totals.
  \<^item> \<open>Circuit_Breaker\<close>, \<open>Kis_Requests\<close>, \<open>Kis_Adapter\<close>: the broker adapter; the server's answers are
    parameters.  \<open>Kis_Properties\<close>: what a request sends, the spacing of token calls, continued queries,
    the order history, routing numbers.
  \<^item> \<open>Approvals\<close>: requests that need a decision.  \<open>Approval_Properties\<close>: their state machine, executors run
    once, with parameters that were checked.
  \<^item> \<open>Account_Service\<close>: accounts in memory and table, their status, the broker adapter kept for each.
    \<open>Account_Properties\<close>: a kill switch that succeeds stops the gateway, a restart gives back what was
    in memory, a running server keeps what adapters depend on, the cached adapter is the current one.
  \<^item> \<open>Event_Bus\<close>: dispatch refines a stable sort of subscriptions; the dedup guard's window.
  \<^item> \<open>Api_Support\<close>, \<open>Api_Gateway\<close>, \<open>Stop_Orders\<close>, \<open>Virtual_Executor\<close>: the execution end.
    \<open>Stop_Properties\<close>, \<open>Execution_Properties\<close>: stop orders end once, every approved order ends once,
    nothing reaches the broker past a closed gate, a failed order gives its money back exactly, price
    changes and cancellations are answered once, a stop order keeps its contract until it triggers.

  \<^bold>\<open>How state and code correspond.\<close>  A class is a record of its fields, a handler a function from the
  event, the answers it gets from outside and the state to the published events and the new state.
  Answers of code outside a component (the broker, account lookups, quotes, clocks) are records of
  parameters; a call that raises answers \<^theory_text>\<open>None\<close> or \<open>Raises\<close>.  Exceptions are values, texts of
  messages are constructors with the values they show.  SQLite tables are dictionaries under their
  primary key; a transaction that fails restores them and leaves memory as it is.

  \<^bold>\<open>Assumptions.\<close>  A handler call is one step: the code's locks and single event loop are not broken up
  at every \<open>await\<close>, but the answers a handler gets before and after an \<open>await\<close> are separate parameters
  where it reads twice.  Finite floats are rational numbers; rounding is not modelled.  Fresh ids
  (\<open>uuid4\<close>) are new, which is a guard of the machines concerned.

  \<^bold>\<open>Bounds and termination.\<close>  All functions are total.  The publisher's drain recurses on the number of
  unpublished rows, which each round decreases; the backoff of its loop is bounded by eight times
  its interval and its escalation threshold is ten failures, as in the code.  A broker request makes
  \<open>max_retries + 1\<close> attempts, a continued query a hundred pages, a start-up catch-up three polls.  The gateway's limiter
  is bounded by its window, for a monotone clock and sleeps that end after the window.

  \<^bold>\<open>Not modelled.\<close>  Start-up, shutdown and background loops of \<open>main.py\<close> apart from the tracker's
  handlers; web sockets and the simulated brokers, the adapter's
  balance, position, price and instrument queries; market data files and feeds; the
  command line, the socket protocol and its tables; notifications and their texts; loading and
  checking of strategy code; database files, schema changes and backups.  Bots,
  members, the trade recorder's rows of orders that end without a fill and backtests are not modelled yet.
\<close>

end
